(* ===== verification/Tunnel_Prelude.thy ===== *)
theory Tunnel_Prelude
  imports Main "HOL-Library.Word"
begin

text \<open>
  What every component of the development shares: the named collections of rewrite rules, the
  C++ exception values and the outcome of a call, the parts of the C++ standard library the
  sources use on integers and strings (\<^verbatim>\<open>std::to_string\<close>, \<^verbatim>\<open>std::stoi\<close>, 32-bit
  multiplication), and generic lemmas on lists.

  The environment of the program (sockets, libssh2, DuckDB, the mesh shims, the clock, the other
  threads) is an argument of every definition that consults it: a record of the answers the calls
  gave, or a list of such records with one element per turn of a loop.
\<close>

named_theorems outcome_simps \<open>rewriting of outcomes of calls\<close>
named_theorems string_simps \<open>rewriting of the string library\<close>

section \<open>Exceptions and outcomes\<close>

text \<open>The DuckDB exception classes the sources throw, each with its message.\<close>

datatype exn =
    InvalidInputException string
  | IOException string
  | InternalException string
  | NotImplementedException string

fun exn_message :: "exn \<Rightarrow> string" where
  "exn_message (InvalidInputException m) = m"
| "exn_message (IOException m) = m"
| "exn_message (InternalException m) = m"
| "exn_message (NotImplementedException m) = m"

text \<open>
  A call returns a value, throws, or has undefined behaviour (a signed overflow, a read past the
  end of a buffer): after \<open>Undefined\<close> nothing is promised.
\<close>

datatype 'a outcome = Returns 'a | Throws exn | Undefined

primrec bind_outcome :: "'a outcome \<Rightarrow> ('a \<Rightarrow> 'b outcome) \<Rightarrow> 'b outcome" where
  "bind_outcome (Returns a) f = f a"
| "bind_outcome (Throws e) f = Throws e"
| "bind_outcome Undefined f = Undefined"

definition returned :: "'a outcome \<Rightarrow> bool" where
  "returned r \<longleftrightarrow> (case r of Returns _ \<Rightarrow> True | _ \<Rightarrow> False)"

definition threw :: "'a outcome \<Rightarrow> bool" where
  "threw r \<longleftrightarrow> (case r of Throws _ \<Rightarrow> True | _ \<Rightarrow> False)"

section \<open>32-bit signed integers\<close>

text \<open>
  A C++ \<open>int\<close> is an \<open>int\<close> within these bounds. Products are checked: a result outside the bounds
  is undefined behaviour in C++, so the model has no value for it.
\<close>

definition INT_MIN :: int where "INT_MIN = - 2147483648"
definition INT_MAX :: int where "INT_MAX = 2147483647"

definition int32_range :: "int \<Rightarrow> bool" where
  "int32_range i \<longleftrightarrow> INT_MIN \<le> i \<and> i \<le> INT_MAX"

definition int32_times :: "int \<Rightarrow> int \<Rightarrow> int outcome" where
  "int32_times a b = (if int32_range (a * b) then Returns (a * b) else Undefined)"

section \<open>Characters without an ASCII letter of their own\<close>

text \<open>A quotation mark, the ellipsis, the em dash and the arrow of the messages, in UTF-8.\<close>

definition sq :: string where "sq = [CHR 0x27]"
definition ellipsis :: string where "ellipsis = [CHR 0xE2, CHR 0x80, CHR 0xA6]"
definition em_dash :: string where "em_dash = [CHR 0xE2, CHR 0x80, CHR 0x94]"

section \<open>Decimal text\<close>

definition digit_char :: "nat \<Rightarrow> char" where
  "digit_char d = char_of (48 + d)"

definition is_digit :: "char \<Rightarrow> bool" where
  "is_digit c \<longleftrightarrow> 48 \<le> (of_char c :: nat) \<and> (of_char c :: nat) \<le> 57"

definition digit_value :: "char \<Rightarrow> nat" where
  "digit_value c = of_char c - 48"

text \<open>The characters \<^verbatim>\<open>isspace\<close> accepts: space and the codes 9 to 13.\<close>

definition is_space :: "char \<Rightarrow> bool" where
  "is_space c \<longleftrightarrow> of_char c = (32::nat) \<or> (9 \<le> (of_char c :: nat) \<and> (of_char c :: nat) \<le> 13)"

fun nat_text :: "nat \<Rightarrow> string" where
  "nat_text n = (if n < 10 then [digit_char n] else nat_text (n div 10) @ [digit_char (n mod 10)])"

declare nat_text.simps [simp del]

text \<open>\<^verbatim>\<open>std::to_string\<close> on an integer.\<close>

definition to_string :: "int \<Rightarrow> string" where
  "to_string i = (if i < 0 then CHR ''-'' # nat_text (nat (- i)) else nat_text (nat i))"

fun digits_value :: "nat \<Rightarrow> string \<Rightarrow> nat" where
  "digits_value acc [] = acc"
| "digits_value acc (c # cs) = digits_value (10 * acc + digit_value c) cs"

text \<open>
  \<^verbatim>\<open>strtol\<close> in base ten: leading white space, one optional sign, then the longest run of
  digits. \<open>None\<close> when there is no digit. What follows the digits is ignored.
\<close>

definition strtol :: "string \<Rightarrow> int option" where
  "strtol s =
     (let t = dropWhile is_space s;
          neg = (t \<noteq> [] \<and> hd t = CHR ''-'');
          u = (if t \<noteq> [] \<and> (hd t = CHR ''-'' \<or> hd t = CHR ''+'') then tl t else t);
          ds = takeWhile is_digit u;
          v = int (digits_value 0 ds)
      in if ds = [] then None else Some (if neg then - v else v))"

text \<open>\<^verbatim>\<open>std::stoi\<close>: \<open>None\<close> is \<^verbatim>\<open>invalid_argument\<close> or \<^verbatim>\<open>out_of_range\<close>.\<close>

definition stoi :: "string \<Rightarrow> int option" where
  "stoi s = (case strtol s of None \<Rightarrow> None | Some v \<Rightarrow> if int32_range v then Some v else None)"

text \<open>\<^verbatim>\<open>atoi\<close>: zero when there is no number, and undefined behaviour when the number does not fit an
  \<open>int\<close>.\<close>

definition atoi :: "string \<Rightarrow> int outcome" where
  "atoi s = (case strtol s of None \<Rightarrow> Returns 0
     | Some v \<Rightarrow> if int32_range v then Returns v else Undefined)"

section \<open>Lemmas\<close>

lemma returned_simps [simp, outcome_simps]:
  "returned (Returns a)" "\<not> returned (Throws e)" "\<not> returned Undefined"
  by (simp_all add: returned_def)

lemma threw_simps [simp, outcome_simps]:
  "\<not> threw (Returns a)" "threw (Throws e)" "\<not> threw Undefined"
  by (simp_all add: threw_def)

lemma returned_iff: "returned r \<longleftrightarrow> (\<exists>a. r = Returns a)"
  by (cases r) simp_all

lemma threw_iff: "threw r \<longleftrightarrow> (\<exists>e. r = Throws e)"
  by (cases r) simp_all

lemma int32_times_Returns:
  "int32_times a b = Returns c \<longleftrightarrow> c = a * b \<and> int32_range (a * b)"
  by (auto simp: int32_times_def)

lemma int32_times_not_throws [simp, outcome_simps]: "int32_times a b \<noteq> Throws e"
  by (simp add: int32_times_def)

lemma of_char_digit_char [string_simps]: "d < 10 \<Longrightarrow> of_char (digit_char d) = 48 + d"
  by (simp add: digit_char_def)

lemma digit_char_facts [string_simps]:
  assumes "d < 10"
  shows "is_digit (digit_char d)" "digit_value (digit_char d) = d"
    "\<not> is_space (digit_char d)" "digit_char d \<noteq> CHR ''-''" "digit_char d \<noteq> CHR ''+''"
proof -
  have c: "of_char (digit_char d) = 48 + d"
    using assms by (rule of_char_digit_char)
  show "is_digit (digit_char d)" "digit_value (digit_char d) = d" "\<not> is_space (digit_char d)"
    using c assms by (simp_all add: is_digit_def digit_value_def is_space_def)
  have minus: "of_char (CHR ''-'') = (45::nat)" and plus: "of_char (CHR ''+'') = (43::nat)"
    by simp_all
  show "digit_char d \<noteq> CHR ''-''" "digit_char d \<noteq> CHR ''+''"
    using c minus plus by auto
qed

lemma nat_text_not_Nil [simp]: "nat_text n \<noteq> []"
  by (subst nat_text.simps) simp

lemma nat_text_digits: "c \<in> set (nat_text n) \<Longrightarrow> is_digit c"
proof (induction n arbitrary: c rule: nat_text.induct)
  case (1 n)
  show ?case
  proof (cases "n < 10")
    case True
    with "1.prems" show ?thesis by (simp add: nat_text.simps [of n] string_simps)
  next
    case False
    with "1.prems" have "c \<in> set (nat_text (n div 10)) \<or> c = digit_char (n mod 10)"
      by (auto simp: nat_text.simps [of n])
    with False "1.IH" show ?thesis by (auto simp: string_simps)
  qed
qed

lemma digits_value_append:
  "digits_value acc (xs @ ys) = digits_value (digits_value acc xs) ys"
  by (induction xs arbitrary: acc) simp_all

lemma digits_value_nat_text: "digits_value 0 (nat_text n) = n"
proof (induction n rule: nat_text.induct)
  case (1 n)
  show ?case
  proof (cases "n < 10")
    case True
    then show ?thesis by (simp add: nat_text.simps [of n] string_simps)
  next
    case False
    with "1.IH" have "digits_value 0 (nat_text (n div 10)) = n div 10" by simp
    with False show ?thesis
      by (simp add: nat_text.simps [of n] digits_value_append string_simps)
  qed
qed

lemma nat_text_inject [simp]: "nat_text m = nat_text n \<longleftrightarrow> m = n"
  by (metis digits_value_nat_text)

lemma takeWhile_nat_text [simp]: "takeWhile is_digit (nat_text n) = nat_text n"
  by (simp add: takeWhile_eq_all_conv nat_text_digits)

lemma hd_nat_text:
  "\<not> is_space (hd (nat_text n))" "hd (nat_text n) \<noteq> CHR ''-''" "hd (nat_text n) \<noteq> CHR ''+''"
proof -
  have d: "is_digit (hd (nat_text n))"
    by (rule nat_text_digits [of _ n]) simp
  then show "\<not> is_space (hd (nat_text n))"
    by (auto simp: is_digit_def is_space_def)
  show "hd (nat_text n) \<noteq> CHR ''-''" "hd (nat_text n) \<noteq> CHR ''+''"
    using d by (auto simp: is_digit_def)
qed

lemma dropWhile_hd: "xs \<noteq> [] \<Longrightarrow> \<not> P (hd xs) \<Longrightarrow> dropWhile P xs = xs"
  by (cases xs) simp_all

lemma dropWhile_nat_text [simp]: "dropWhile is_space (nat_text n) = nat_text n"
  by (simp add: dropWhile_hd hd_nat_text)

lemma strtol_to_string: "strtol (to_string i) = Some i"
proof (cases "i < 0")
  case True
  have "\<not> is_space (CHR ''-'')" by (simp add: is_space_def)
  with True show ?thesis
    by (simp add: strtol_def to_string_def Let_def digits_value_nat_text)
next
  case False
  then show ?thesis
    by (simp add: strtol_def to_string_def Let_def digits_value_nat_text hd_nat_text)
qed

lemma stoi_to_string: "int32_range i \<Longrightarrow> stoi (to_string i) = Some i"
  by (simp add: stoi_def strtol_to_string)

lemma atoi_to_string: "int32_range i \<Longrightarrow> atoi (to_string i) = Returns i"
  by (simp add: atoi_def strtol_to_string)

lemma to_string_inject [simp]: "to_string i = to_string j \<longleftrightarrow> i = j"
  by (metis option.inject strtol_to_string)

lemma stoi_range: "stoi s = Some v \<Longrightarrow> int32_range v"
  by (auto simp: stoi_def split: option.splits if_splits)

lemma to_string_not_Nil [simp]: "to_string i \<noteq> []"
  by (simp add: to_string_def)

lemma to_string_chars: "c \<in> set (to_string i) \<Longrightarrow> is_digit c \<or> c = CHR ''-''"
  by (auto simp: to_string_def dest: nat_text_digits split: if_splits)

end
