(* ===== verification/Resource_Protocol.thy ===== *)
theory Resource_Protocol
  imports Tunnel_Prelude
begin

text \<open>
  The effects of the program on the outside world, as a log of the calls it makes in their order,
  and the protocol those calls must follow. Every operation of a component returns the log of its
  calls; \<open>resource_run\<close> replays a log against the resources that are live and is \<open>None\<close> as soon as
  a call breaks the protocol: a descriptor is used or closed while it is not open, a session or a
  listener is used after it was freed, a session is freed while a thread that uses it is not
  joined, a thread is joined twice. The protocol is the specification that the teardown paths of
  the connection, the exporter and the forwarder are checked against; the bytes that cross a
  descriptor or a channel are projections of the same log.
\<close>

type_synonym byte = "8 word"

datatype thread = AcceptThread | PumpThread nat

datatype os_event =
    OpenFd int
  | CloseFd int
  | ShutdownWr int
  | NonBlockingFd int
  | BlockingFd int
  | SelectWrite int int int
  | SelectRead "int list"
  | ConnectFd int
  | BindFd int string int
  | ListenFd int
  | RecvOn int "byte list"
  | SendOn int "byte list"
  | SpawnThread thread
  | JoinThread thread
  | SessionInit
  | SessionCall
  | SessionFree
  | ListenerOpen
  | ForwardAccept
  | ForwardCancel bool
  | ChannelOpen nat
  | ChannelWrite nat "byte list"
  | ChannelRead nat "byte list"
  | ChannelSendEof nat
  | ChannelClose nat
  | ChannelFree nat

type_synonym log = "os_event list"

text \<open>The live resources of one tunnel object.\<close>

record resources =
  live_fds :: "int set"
  live_session :: bool
  live_listener :: bool
  live_channels :: "nat set"
  live_threads :: "thread set"

definition no_resources :: resources where
  "no_resources = \<lparr>live_fds = {}, live_session = False, live_listener = False,
     live_channels = {}, live_threads = {}\<rparr>"

definition require :: "bool \<Rightarrow> resources \<Rightarrow> resources option" where
  "require b r = (if b then Some r else None)"

text \<open>
  One call. \<open>ForwardCancel True\<close> is a cancel that answered EAGAIN, after which the listener still
  exists. Freeing a session also frees what libssh2 still holds of its listeners and channels, but
  no thread that may touch the session can be left.
\<close>

fun resource_step :: "os_event \<Rightarrow> resources \<Rightarrow> resources option" where
  "resource_step (OpenFd f) r = require (f \<notin> live_fds r) (r\<lparr>live_fds := insert f (live_fds r)\<rparr>)"
| "resource_step (CloseFd f) r = require (f \<in> live_fds r) (r\<lparr>live_fds := live_fds r - {f}\<rparr>)"
| "resource_step (ShutdownWr f) r = require (f \<in> live_fds r) r"
| "resource_step (NonBlockingFd f) r = require (f \<in> live_fds r) r"
| "resource_step (BlockingFd f) r = require (f \<in> live_fds r) r"
| "resource_step (SelectWrite f sec usec) r = require (f \<in> live_fds r) r"
| "resource_step (SelectRead fs) r = require (set fs \<subseteq> live_fds r) r"
| "resource_step (ConnectFd f) r = require (f \<in> live_fds r) r"
| "resource_step (BindFd f a p) r = require (f \<in> live_fds r) r"
| "resource_step (ListenFd f) r = require (f \<in> live_fds r) r"
| "resource_step (RecvOn f bs) r = require (f \<in> live_fds r) r"
| "resource_step (SendOn f bs) r = require (f \<in> live_fds r) r"
| "resource_step (SpawnThread t) r =
     require (t \<notin> live_threads r) (r\<lparr>live_threads := insert t (live_threads r)\<rparr>)"
| "resource_step (JoinThread t) r =
     require (t \<in> live_threads r) (r\<lparr>live_threads := live_threads r - {t}\<rparr>)"
| "resource_step SessionInit r = require (\<not> live_session r) (r\<lparr>live_session := True\<rparr>)"
| "resource_step SessionCall r = require (live_session r) r"
| "resource_step SessionFree r = require (live_session r \<and> live_threads r = {})
     (r\<lparr>live_session := False, live_listener := False, live_channels := {}\<rparr>)"
| "resource_step ListenerOpen r =
     require (live_session r \<and> \<not> live_listener r) (r\<lparr>live_listener := True\<rparr>)"
| "resource_step ForwardAccept r = require (live_session r \<and> live_listener r) r"
| "resource_step (ForwardCancel again) r =
     require (live_session r \<and> live_listener r) (r\<lparr>live_listener := again\<rparr>)"
| "resource_step (ChannelOpen c) r = require (live_session r \<and> c \<notin> live_channels r)
     (r\<lparr>live_channels := insert c (live_channels r)\<rparr>)"
| "resource_step (ChannelWrite c bs) r = require (live_session r \<and> c \<in> live_channels r) r"
| "resource_step (ChannelRead c bs) r = require (live_session r \<and> c \<in> live_channels r) r"
| "resource_step (ChannelSendEof c) r = require (live_session r \<and> c \<in> live_channels r) r"
| "resource_step (ChannelClose c) r = require (live_session r \<and> c \<in> live_channels r) r"
| "resource_step (ChannelFree c) r = require (live_session r \<and> c \<in> live_channels r)
     (r\<lparr>live_channels := live_channels r - {c}\<rparr>)"

fun resource_run :: "log \<Rightarrow> resources \<Rightarrow> resources option" where
  "resource_run [] r = Some r"
| "resource_run (e # es) r =
     (case resource_step e r of None \<Rightarrow> None | Some r' \<Rightarrow> resource_run es r')"

section \<open>The bytes of a log\<close>

fun sent_by :: "int \<Rightarrow> os_event \<Rightarrow> byte list" where
  "sent_by f (SendOn g bs) = (if f = g then bs else [])"
| "sent_by f _ = []"

fun received_by :: "int \<Rightarrow> os_event \<Rightarrow> byte list" where
  "received_by f (RecvOn g bs) = (if f = g then bs else [])"
| "received_by f _ = []"

fun written_by :: "nat \<Rightarrow> os_event \<Rightarrow> byte list" where
  "written_by c (ChannelWrite d bs) = (if c = d then bs else [])"
| "written_by c _ = []"

fun read_by :: "nat \<Rightarrow> os_event \<Rightarrow> byte list" where
  "read_by c (ChannelRead d bs) = (if c = d then bs else [])"
| "read_by c _ = []"

definition sent_on :: "int \<Rightarrow> log \<Rightarrow> byte list" where
  "sent_on f l = concat (map (sent_by f) l)"

definition received_on :: "int \<Rightarrow> log \<Rightarrow> byte list" where
  "received_on f l = concat (map (received_by f) l)"

definition channel_written :: "nat \<Rightarrow> log \<Rightarrow> byte list" where
  "channel_written c l = concat (map (written_by c) l)"

definition channel_read :: "nat \<Rightarrow> log \<Rightarrow> byte list" where
  "channel_read c l = concat (map (read_by c) l)"

text \<open>The addresses and ports that a log binds.\<close>

fun binds :: "log \<Rightarrow> (string \<times> int) list" where
  "binds [] = []"
| "binds (BindFd f a p # l) = (a, p) # binds l"
| "binds (e # l) = binds l"

lemmas stream_defs = sent_on_def received_on_def channel_written_def channel_read_def

section \<open>Lemmas\<close>

lemma require_eq_Some [simp]: "require b r = Some r' \<longleftrightarrow> b \<and> r' = r"
  by (auto simp: require_def)

lemma require_eq_None [simp]: "require b r = None \<longleftrightarrow> \<not> b"
  by (simp add: require_def)

lemma require_bool [simp]: "require True r = Some r" "require False r = None"
  by (simp_all add: require_def)

lemma resource_run_append:
  "resource_run (xs @ ys) r =
     (case resource_run xs r of None \<Rightarrow> None | Some r' \<Rightarrow> resource_run ys r')"
  by (induction xs arbitrary: r) (simp_all split: option.split)

lemma resource_run_appendI:
  "resource_run xs r = Some r' \<Longrightarrow> resource_run ys r' = Some r'' \<Longrightarrow>
   resource_run (xs @ ys) r = Some r''"
  by (simp add: resource_run_append)

lemma resource_run_ConsI:
  "resource_step e r = Some r' \<Longrightarrow> resource_run es r' = Some r'' \<Longrightarrow>
   resource_run (e # es) r = Some r''"
  by simp

text \<open>A call that changes nothing, repeated.\<close>

lemma resource_run_stutter:
  assumes "\<And>e. e \<in> set l \<Longrightarrow> resource_step e r = Some r"
  shows "resource_run l r = Some r"
  using assms by (induction l) simp_all

lemma sent_on_simps [simp]:
  "sent_on f [] = []" "sent_on f (e # l) = sent_by f e @ sent_on f l"
  "sent_on f (l @ l') = sent_on f l @ sent_on f l'"
  by (simp_all add: sent_on_def)

lemma received_on_simps [simp]:
  "received_on f [] = []" "received_on f (e # l) = received_by f e @ received_on f l"
  "received_on f (l @ l') = received_on f l @ received_on f l'"
  by (simp_all add: received_on_def)

lemma channel_written_simps [simp]:
  "channel_written c [] = []" "channel_written c (e # l) = written_by c e @ channel_written c l"
  "channel_written c (l @ l') = channel_written c l @ channel_written c l'"
  by (simp_all add: channel_written_def)

lemma channel_read_simps [simp]:
  "channel_read c [] = []" "channel_read c (e # l) = read_by c e @ channel_read c l"
  "channel_read c (l @ l') = channel_read c l @ channel_read c l'"
  by (simp_all add: channel_read_def)

text \<open>Joining a list of pump threads, and reading nothing from a log of joins.\<close>

definition join_pumps :: "nat list \<Rightarrow> log" where
  "join_pumps ws = map (\<lambda>w. JoinThread (PumpThread w)) ws"

lemma binds_append [simp]: "binds (xs @ ys) = binds xs @ binds ys"
  by (induction xs rule: binds.induct) simp_all

lemma binds_join_pumps [simp]: "binds (join_pumps ws) = []"
  by (induction ws) (simp_all add: join_pumps_def)

lemma resource_run_join_pumps:
  assumes "distinct ws" and "PumpThread ` set ws \<subseteq> live_threads r"
  shows "resource_run (join_pumps ws) r =
    Some (r\<lparr>live_threads := live_threads r - PumpThread ` set ws\<rparr>)"
  using assms
proof (induction ws arbitrary: r)
  case Nil
  then show ?case by (simp add: join_pumps_def)
next
  case (Cons w ws)
  let ?r = "r\<lparr>live_threads := live_threads r - {PumpThread w}\<rparr>"
  have "resource_run (join_pumps ws) ?r =
      Some (?r\<lparr>live_threads := live_threads ?r - PumpThread ` set ws\<rparr>)"
    using Cons.prems by (intro Cons.IH) auto
  moreover have "live_threads r - {PumpThread w} - PumpThread ` set ws =
      live_threads r - PumpThread ` set (w # ws)"
    by auto
  ultimately show ?case using Cons.prems(2) by (simp add: join_pumps_def)
qed

lemma Pump_minus_Accept [simp]: "PumpThread ` W - {AcceptThread} = PumpThread ` W"
  by auto

text \<open>A tunnel object that holds nothing, in a process where the descriptors \<open>F\<close> are open.\<close>

definition only_fds :: "int set \<Rightarrow> resources" where
  "only_fds F = no_resources\<lparr>live_fds := F\<rparr>"

lemma only_fds_simps [simp]:
  "live_fds (only_fds F) = F" "live_session (only_fds F) = False"
  "live_listener (only_fds F) = False" "live_channels (only_fds F) = {}"
  "live_threads (only_fds F) = {}"
  by (simp_all add: only_fds_def no_resources_def)

lemma resources_eqI:
  "live_fds r = live_fds r' \<Longrightarrow> live_session r = live_session r' \<Longrightarrow>
   live_listener r = live_listener r' \<Longrightarrow> live_channels r = live_channels r' \<Longrightarrow>
   live_threads r = live_threads r' \<Longrightarrow> r = (r' :: resources)"
  by (cases r; cases r') simp

end
