(* ===== verification/Socket_Compat.thy ===== *)
theory Socket_Compat
  imports Resource_Protocol
begin

text \<open>
  The socket primitives of \<^verbatim>\<open>src/include/socket_compat.hpp\<close>: the per-platform tests on
  descriptors and error codes, and \<open>SendAll\<close>, which writes a whole buffer over short sends. The
  answers of \<^verbatim>\<open>running.load()\<close>, \<^verbatim>\<open>send\<close> and \<^verbatim>\<open>errno\<close> in each turn of the loop
  are its input; an input that ends while the loop is still running gives \<open>None\<close>.
\<close>

section \<open>Definitions\<close>

datatype platform = Linux | MacOS | Windows

definition kInvalidSocket :: "platform \<Rightarrow> int" where
  "kInvalidSocket pl = (if pl = Windows then 2 ^ 64 - 1 else - 1)"

definition SocketValid :: "platform \<Rightarrow> int \<Rightarrow> bool" where
  "SocketValid pl s \<longleftrightarrow> s \<noteq> kInvalidSocket pl"

text \<open>The values of the error macros the sources compare with.\<close>

definition EAGAIN :: "platform \<Rightarrow> int" where
  "EAGAIN pl = (if pl = MacOS then 35 else 11)"

definition EWOULDBLOCK :: "platform \<Rightarrow> int" where
  "EWOULDBLOCK pl = (if pl = MacOS then 35 else 11)"

definition EINPROGRESS :: "platform \<Rightarrow> int" where
  "EINPROGRESS pl = (if pl = MacOS then 36 else 115)"

definition WSAEWOULDBLOCK :: int where "WSAEWOULDBLOCK = 10035"
definition WSAEINPROGRESS :: int where "WSAEINPROGRESS = 10036"

text \<open>The codes of libssh2 the sources compare with.\<close>

definition LIBSSH2_ERROR_SOCKET_SEND :: int where "LIBSSH2_ERROR_SOCKET_SEND = - 7"
definition LIBSSH2_ERROR_SOCKET_DISCONNECT :: int where "LIBSSH2_ERROR_SOCKET_DISCONNECT = - 13"
definition LIBSSH2_ERROR_EAGAIN :: int where "LIBSSH2_ERROR_EAGAIN = - 37"
definition LIBSSH2_ERROR_SOCKET_RECV :: int where "LIBSSH2_ERROR_SOCKET_RECV = - 43"

definition SocketConnectInProgress :: "platform \<Rightarrow> int \<Rightarrow> bool" where
  "SocketConnectInProgress pl err \<longleftrightarrow>
     (if pl = Windows then err = WSAEWOULDBLOCK \<or> err = WSAEINPROGRESS
      else err = EINPROGRESS pl \<or> err = EWOULDBLOCK pl)"

definition SocketWouldBlock :: "platform \<Rightarrow> int \<Rightarrow> bool" where
  "SocketWouldBlock pl err \<longleftrightarrow>
     (if pl = Windows then err = WSAEWOULDBLOCK
      else err = EAGAIN pl \<or> err = EWOULDBLOCK pl)"

definition CloseSocketHandle :: "platform \<Rightarrow> int \<Rightarrow> log" where
  "CloseSocketHandle pl s = (if \<not> SocketValid pl s then [] else [CloseFd s])"

definition FD_SETSIZE :: int where "FD_SETSIZE = 1024"

definition SocketFitsInFdSet :: "platform \<Rightarrow> int \<Rightarrow> bool" where
  "SocketFitsInFdSet pl s \<longleftrightarrow> (if pl = Windows then True else 0 \<le> s \<and> s < FD_SETSIZE)"

definition SelectNfds :: "platform \<Rightarrow> int \<Rightarrow> int \<Rightarrow> int" where
  "SelectNfds pl a b = (if pl = Windows then 0 else (if a > b then a else b) + 1)"

text \<open>A read: the bytes it delivered (none is end of stream), or a failure with its error code.\<close>

datatype recv_result = Received "byte list" | RecvFailed int

text \<open>One turn of \<open>SendAll\<close>: the running flag, the result of \<^verbatim>\<open>send\<close>, the error code.\<close>

record send_turn =
  st_running :: bool
  st_send :: int
  st_errno :: int

fun SendAll_loop :: "platform \<Rightarrow> int \<Rightarrow> byte list \<Rightarrow> nat \<Rightarrow> send_turn list \<Rightarrow> bool option \<times> log" where
  "SendAll_loop pl s buf sent turns =
     (if \<not> sent < length buf then (Some True, [])
      else (case turns of
          [] \<Rightarrow> (None, [])
        | t # ts \<Rightarrow>
            if \<not> st_running t then (Some False, [])
            else if st_send t > 0 then
              (let (r, l) = SendAll_loop pl s buf (sent + nat (st_send t)) ts
               in (r, SendOn s (take (nat (st_send t)) (drop sent buf)) # l))
            else if st_send t < 0 \<and> SocketWouldBlock pl (st_errno t) then
              (let (r, l) = SendAll_loop pl s buf sent ts
               in (r, SelectWrite s 0 50000 # l))
            else (Some False, [])))"

declare SendAll_loop.simps [simp del]

definition SendAll :: "platform \<Rightarrow> int \<Rightarrow> byte list \<Rightarrow> send_turn list \<Rightarrow> bool option \<times> log" where
  "SendAll pl s buf turns = SendAll_loop pl s buf 0 turns"

text \<open>
  The contract of \<^verbatim>\<open>send\<close> on a socket that makes progress: every turn finds the flag set,
  and moves at least one byte or reports that it would block.
\<close>

definition send_progress :: "platform \<Rightarrow> send_turn \<Rightarrow> bool" where
  "send_progress pl t \<longleftrightarrow>
     st_running t \<and> (st_send t > 0 \<or> (st_send t < 0 \<and> SocketWouldBlock pl (st_errno t)))"

definition moved_bytes :: "send_turn list \<Rightarrow> nat" where
  "moved_bytes turns = sum_list (map (\<lambda>t. nat (st_send t)) turns)"

section \<open>Lemmas\<close>

lemma SocketValid_kInvalid [simp]: "\<not> SocketValid pl (kInvalidSocket pl)"
  by (simp add: SocketValid_def)

lemma SocketValid_FitsInFdSet:
  "SocketFitsInFdSet pl s \<Longrightarrow> pl \<noteq> Windows \<Longrightarrow> SocketValid pl s \<and> SelectNfds pl s s \<le> FD_SETSIZE"
  by (auto simp: SocketFitsInFdSet_def SocketValid_def kInvalidSocket_def SelectNfds_def)

lemma CloseSocketHandle_run:
  assumes "SocketValid pl s" and "s \<in> live_fds r"
  shows "resource_run (CloseSocketHandle pl s) r = Some (r\<lparr>live_fds := live_fds r - {s}\<rparr>)"
  using assms by (simp add: CloseSocketHandle_def)

lemma SendAll_loop_sent:
  "\<exists>rest. drop sent buf = sent_on s (snd (SendAll_loop pl s buf sent turns)) @ rest \<and>
     (fst (SendAll_loop pl s buf sent turns) = Some True \<longleftrightarrow> rest = [])"
proof (induction turns arbitrary: sent)
  case Nil
  show ?case by (subst (1 2) SendAll_loop.simps) auto
next
  case (Cons t ts)
  show ?case
  proof (cases "sent < length buf \<and> st_running t \<and> st_send t > 0")
    case True
    define n where "n = nat (st_send t)"
    obtain r l where rl: "SendAll_loop pl s buf (sent + n) ts = (r, l)" by fastforce
    from Cons.IH [of "sent + n"] obtain rest where
      rest: "drop (sent + n) buf = sent_on s l @ rest" "r = Some True \<longleftrightarrow> rest = []"
      by (auto simp: rl)
    have "drop sent buf = take n (drop sent buf) @ drop (sent + n) buf"
      by (metis add.commute append_take_drop_id drop_drop)
    with True rl rest show ?thesis
      by (auto simp: SendAll_loop.simps [of _ _ _ sent "t # ts"] n_def Let_def)
  next
    case False
    then show ?thesis
      using Cons.IH [of sent]
      by (auto simp: SendAll_loop.simps [of _ _ _ sent "t # ts"] Let_def
          split: prod.splits if_splits)
  qed
qed

lemma SendAll_loop_progress:
  assumes "\<forall>t \<in> set turns. send_progress pl t" and "length buf \<le> sent + moved_bytes turns"
  shows "fst (SendAll_loop pl s buf sent turns) = Some True"
  using assms
proof (induction turns arbitrary: sent)
  case Nil
  then show ?case by (subst SendAll_loop.simps) (simp add: moved_bytes_def)
next
  case (Cons t ts)
  show ?case
  proof (cases "st_send t > 0")
    case True
    have "length buf \<le> (sent + nat (st_send t)) + moved_bytes ts"
      using Cons.prems(2) by (simp add: moved_bytes_def)
    from Cons.IH [OF _ this] Cons.prems(1) True show ?thesis
      by (subst SendAll_loop.simps) (auto simp: send_progress_def Let_def split: prod.splits)
  next
    case False
    then have "nat (st_send t) = 0" by simp
    then have "length buf \<le> sent + moved_bytes ts"
      using Cons.prems(2) by (simp add: moved_bytes_def)
    from Cons.IH [OF _ this] Cons.prems(1) False show ?thesis
      by (subst SendAll_loop.simps) (auto simp: send_progress_def Let_def split: prod.splits)
  qed
qed

text \<open>A send loop only touches its own descriptor, which stays open.\<close>

lemma SendAll_loop_log:
  "e \<in> set (snd (SendAll_loop pl s buf sent turns)) \<Longrightarrow>
     (\<exists>bs. e = SendOn s bs) \<or> e = SelectWrite s 0 50000"
proof (induction turns arbitrary: sent)
  case Nil
  then show ?case by (simp add: SendAll_loop.simps [of _ _ _ _ "[]"] split: if_splits)
next
  case (Cons t ts)
  from Cons.prems Cons.IH [of sent] Cons.IH [of "sent + nat (st_send t)"] show ?case
    by (auto simp: SendAll_loop.simps [of _ _ _ sent "t # ts"] Let_def case_prod_beta
        split: if_splits)
qed

lemma SendAll_resources:
  assumes "s \<in> live_fds r"
  shows "resource_run (snd (SendAll pl s buf turns)) r = Some r"
proof (rule resource_run_stutter)
  fix e assume "e \<in> set (snd (SendAll pl s buf turns))"
  then have "(\<exists>bs. e = SendOn s bs) \<or> e = SelectWrite s 0 50000"
    unfolding SendAll_def by (rule SendAll_loop_log)
  with assms show "resource_step e r = Some r" by auto
qed

text \<open>A send loop reads nothing and touches no channel.\<close>

lemma SendAll_streams [simp]:
  "received_on f (snd (SendAll pl s buf turns)) = []"
  "channel_written c (snd (SendAll pl s buf turns)) = []"
  "channel_read c (snd (SendAll pl s buf turns)) = []"
  "f \<noteq> s \<Longrightarrow> sent_on f (snd (SendAll pl s buf turns)) = []"
  unfolding stream_defs SendAll_def concat_eq_Nil_conv
  by (auto dest!: SendAll_loop_log)

section \<open>Properties\<close>

text \<open>C30: \<open>SendAll\<close> never reorders, repeats or drops bytes: what it put on the socket is a prefix
  of the buffer, and it reports success exactly when that prefix is the whole buffer.\<close>

theorem SendAll_exact:
  "\<exists>rest. buf = sent_on s (snd (SendAll pl s buf turns)) @ rest \<and>
     (fst (SendAll pl s buf turns) = Some True \<longleftrightarrow> rest = [])"
  using SendAll_loop_sent [of 0 buf s pl turns] by (simp add: SendAll_def)

end
