(* ===== verification/Tunnel_Types.thy ===== *)
theory Tunnel_Types
  imports Tunnel_Prelude
begin

text \<open>
  The data that all tunnels share, from \<^verbatim>\<open>src/include/tunnel_connection.hpp\<close>: the
  constants, the attributes of a tunnel (the row of \<^verbatim>\<open>tunnels()\<close>), the SSH authentication
  parameters, and the parameter check every SSH import passes first.
\<close>

section \<open>Definitions\<close>

definition kDefaultSshPort :: int where "kDefaultSshPort = 22"
definition kDefaultTimeoutSeconds :: int where "kDefaultTimeoutSeconds = 60"
definition kMaxPortNumber :: int where "kMaxPortNumber = 65535"
definition kMinPortNumber :: int where "kMinPortNumber = 1"

definition kAuthMethodPassword :: string where "kAuthMethodPassword = ''password''"
definition kAuthMethodKey :: string where "kAuthMethodKey = ''key''"
definition kAuthMethodAgent :: string where "kAuthMethodAgent = ''agent''"

definition kStatusConnected :: string where "kStatusConnected = ''Connected to SSH server''"
definition kStatusAuthenticated :: string where "kStatusAuthenticated = ''Authenticated''"
definition kStatusListening :: string where "kStatusListening = ''Listening''"
definition kStatusClosed :: string where "kStatusClosed = ''Closed''"
definition kStatusError :: string where "kStatusError = ''Error''"

record TunnelConnectionAttributes =
  at_backend :: string
  at_direction :: string
  at_ssh_host :: string
  at_ssh_port :: int
  at_ssh_user :: string
  at_remote_host :: string
  at_remote_port :: int
  at_local_port :: int
  at_bind_addr :: string
  at_local_host :: string
  at_status :: string
  at_error_message :: string

text \<open>The member initialisers.\<close>

definition default_attributes :: TunnelConnectionAttributes where
  "default_attributes =
     \<lparr>at_backend = ''ssh'', at_direction = ''import'', at_ssh_host = [],
      at_ssh_port = kDefaultSshPort, at_ssh_user = [], at_remote_host = [], at_remote_port = 0,
      at_local_port = 0, at_bind_addr = ''127.0.0.1'', at_local_host = ''127.0.0.1'',
      at_status = [], at_error_message = []\<rparr>"

definition attributes_eq :: "TunnelConnectionAttributes \<Rightarrow> TunnelConnectionAttributes \<Rightarrow> bool" where
  "attributes_eq a b \<longleftrightarrow>
     at_backend a = at_backend b \<and> at_direction a = at_direction b \<and>
     at_local_host a = at_local_host b \<and> at_ssh_host a = at_ssh_host b \<and>
     at_ssh_port a = at_ssh_port b \<and> at_ssh_user a = at_ssh_user b \<and>
     at_remote_host a = at_remote_host b \<and> at_remote_port a = at_remote_port b \<and>
     at_local_port a = at_local_port b \<and> at_bind_addr a = at_bind_addr b \<and>
     at_status a = at_status b \<and> at_error_message a = at_error_message b"

record TunnelAuthParams =
  au_ssh_host :: string
  au_ssh_port :: int
  au_ssh_user :: string
  au_password :: string
  au_private_key_path :: string
  au_passphrase :: string
  au_auth_method :: string

definition default_auth_params :: TunnelAuthParams where
  "default_auth_params =
     \<lparr>au_ssh_host = [], au_ssh_port = kDefaultSshPort, au_ssh_user = [], au_password = [],
      au_private_key_path = [], au_passphrase = [], au_auth_method = kAuthMethodPassword\<rparr>"

text \<open>\<^verbatim>\<open>TunnelAuthParams::ToString\<close>.\<close>

definition auth_ToString :: "TunnelAuthParams \<Rightarrow> string" where
  "auth_ToString a =
     ''TunnelAuthParams{ssh_host='' @ sq @ au_ssh_host a @ sq @ '', ssh_port='' @
     to_string (au_ssh_port a) @ '', ssh_user='' @ sq @ au_ssh_user a @ sq @ '', auth_method='' @
     sq @ au_auth_method a @ sq @ ''}''"

definition msg_ssh_host_empty :: string where
  "msg_ssh_host_empty =
     ''SSH host is empty. Set it on the secret, e.g. CREATE SECRET s (TYPE ssh_tunnel, host '' @
     sq @ ''bastion.example.com'' @ sq @ '', user '' @ sq @ ''jump'' @ sq @ '', password '' @
     sq @ ellipsis @ sq @ '');''"

definition msg_port_range :: "string \<Rightarrow> string" where
  "msg_port_range what =
     what @ '' port must be between '' @ to_string kMinPortNumber @ '' and '' @
     to_string kMaxPortNumber"

definition ValidateConnectionParameters ::
  "string \<Rightarrow> int \<Rightarrow> string \<Rightarrow> string \<Rightarrow> int \<Rightarrow> int \<Rightarrow> unit outcome" where
  "ValidateConnectionParameters ssh_host ssh_port ssh_user remote_host remote_port local_port =
     (if ssh_host = [] then Throws (InvalidInputException msg_ssh_host_empty)
      else if ssh_port < kMinPortNumber \<or> ssh_port > kMaxPortNumber then
        Throws (InvalidInputException (msg_port_range ''SSH''))
      else if ssh_user = [] then Throws (InvalidInputException ''SSH user cannot be empty'')
      else if remote_host = [] then Throws (InvalidInputException ''Remote host cannot be empty'')
      else if remote_port < kMinPortNumber \<or> remote_port > kMaxPortNumber then
        Throws (InvalidInputException (msg_port_range ''Remote''))
      else if local_port < kMinPortNumber \<or> local_port > kMaxPortNumber then
        Throws (InvalidInputException (msg_port_range ''Local''))
      else Returns ())"

definition valid_port :: "int \<Rightarrow> bool" where
  "valid_port p \<longleftrightarrow> kMinPortNumber \<le> p \<and> p \<le> kMaxPortNumber"

section \<open>Lemmas\<close>

lemmas port_defs = kMinPortNumber_def kMaxPortNumber_def kDefaultSshPort_def

lemma valid_port_bounds: "valid_port p \<longleftrightarrow> 1 \<le> p \<and> p \<le> 65535"
  by (simp add: valid_port_def port_defs)

lemma attributes_eq_iff: "attributes_eq a b \<longleftrightarrow> a = b"
  by (auto simp: attributes_eq_def intro: TunnelConnectionAttributes.equality)

lemma ValidateConnectionParameters_Returns:
  "ValidateConnectionParameters sh sp su rh rp lp = Returns () \<longleftrightarrow>
     sh \<noteq> [] \<and> valid_port sp \<and> su \<noteq> [] \<and> rh \<noteq> [] \<and> valid_port rp \<and> valid_port lp"
  by (auto simp: ValidateConnectionParameters_def valid_port_def)

lemma ValidateConnectionParameters_defined [simp]:
  "ValidateConnectionParameters sh sp su rh rp lp \<noteq> Undefined"
  by (simp add: ValidateConnectionParameters_def)

end
