(* ===== verification/Tunnel_Secret.thy ===== *)
theory Tunnel_Secret
  imports Tunnel_Types
begin

text \<open>
  Tunnel secrets, from \<^verbatim>\<open>src/src/tunnel_secret.cpp\<close> and the lookup half of
  \<^verbatim>\<open>TunnelAuthParams::FromContext\<close>: creating a secret from the options of
  \<^verbatim>\<open>CREATE SECRET\<close>, looking one up by name, and turning it into authentication parameters.

  DuckDB is a parameter: \<open>lower\<close> is \<^verbatim>\<open>StringUtil::Lower\<close>, \<open>text_of\<close> is
  \<^verbatim>\<open>Value::ToString\<close> on a type \<open>'v\<close> of values, and the secret manager is a partial function
  from names to secrets. A secret map is a partial function from lower-case keys to text.
\<close>

section \<open>Definitions\<close>

definition TUNNEL_SECRET_PROVIDER :: string where "TUNNEL_SECRET_PROVIDER = ''config''"
definition TUNNEL_SECRET_TYPE_NAME :: string where "TUNNEL_SECRET_TYPE_NAME = ''ssh_tunnel''"
definition TUNNEL_SECRET_TYPE_ALIAS :: string where "TUNNEL_SECRET_TYPE_ALIAS = ''tunnel''"
definition TUNNEL_SECRET_DEFAULT_PATH :: string where "TUNNEL_SECRET_DEFAULT_PATH = ''*''"

record KeyValueSecret =
  sec_type :: string
  sec_provider :: string
  sec_name :: string
  sec_map :: "string \<rightharpoonup> string"
  sec_redact_keys :: "string list"

record 'v CreateSecretInput =
  ci_type :: string
  ci_name :: string
  ci_options :: "(string \<times> 'v) list"

definition kKnownKeys :: "string list" where
  "kKnownKeys =
     [''backend'',
      ''ssh_host'', ''ssh_port'', ''ssh_user'', ''host'', ''user'', ''port'',
      ''password'', ''private_key_path'', ''passphrase'', ''auth_method'',
      ''auth_key'', ''setup_key'', ''hostname'', ''tags'', ''groups'', ''control_url'',
      ''management_url'', ''state_dir'', ''ephemeral'']"

definition kRedactKeys :: "string list" where
  "kRedactKeys = [''password'', ''passphrase'', ''private_key_path'', ''auth_key'', ''setup_key'']"

text \<open>The friendly aliases are written under their canonical key.\<close>

definition canonical_key :: "string \<Rightarrow> string" where
  "canonical_key k =
     (if k = ''host'' then ''ssh_host''
      else if k = ''user'' then ''ssh_user''
      else if k = ''port'' then ''ssh_port''
      else k)"

definition msg_unknown_key :: "string \<Rightarrow> string" where
  "msg_unknown_key k =
     ''Unknown tunnel secret parameter '' @ sq @ k @ sq @ ''. Valid parameters:'' @ [CHR 0x0A] @
     ''  SSH:      host/user/port (or ssh_host/ssh_user/ssh_port), password, '' @
     ''private_key_path, passphrase'' @ [CHR 0x0A] @
     ''  Mesh:     backend ('' @ sq @ ''tailscale'' @ sq @ ''|'' @ sq @ ''netbird'' @ sq @
     ''), auth_key, setup_key, hostname, '' @
     ''tags, groups, control_url, management_url, ephemeral, state_dir''"

text \<open>The loop over the options: an unknown name ends it, a known one is stored.\<close>

fun secret_options ::
  "(string \<Rightarrow> string) \<Rightarrow> ('v \<Rightarrow> string) \<Rightarrow> (string \<times> 'v) list \<Rightarrow> (string \<rightharpoonup> string) \<Rightarrow>
     (string \<rightharpoonup> string) outcome" where
  "secret_options lower text_of [] m = Returns m"
| "secret_options lower text_of ((name, v) # opts) m =
     (let lower_name = lower name
      in if lower_name \<notin> set kKnownKeys
         then Throws (InvalidInputException (msg_unknown_key lower_name))
         else secret_options lower text_of opts (m(canonical_key lower_name \<mapsto> text_of v)))"

definition CreateTunnelSecretFunction ::
  "(string \<Rightarrow> string) \<Rightarrow> ('v \<Rightarrow> string) \<Rightarrow> 'v CreateSecretInput \<Rightarrow> KeyValueSecret outcome" where
  "CreateTunnelSecretFunction lower text_of input =
     bind_outcome (secret_options lower text_of (ci_options input) Map.empty)
       (\<lambda>m. Returns \<lparr>sec_type = ci_type input, sec_provider = TUNNEL_SECRET_PROVIDER,
          sec_name = ci_name input, sec_map = m, sec_redact_keys = kRedactKeys\<rparr>)"

text \<open>
  Lookup by name. The secret manager answers for one name; a secret of a foreign type is no match.
\<close>

type_synonym secret_manager = "string \<Rightarrow> KeyValueSecret option"

definition LookupTunnelSecret :: "secret_manager \<Rightarrow> string \<Rightarrow> KeyValueSecret option" where
  "LookupTunnelSecret secrets secret_name =
     (case secrets secret_name of
        Some s \<Rightarrow>
          if sec_type s = TUNNEL_SECRET_TYPE_NAME \<or> sec_type s = TUNNEL_SECRET_TYPE_ALIAS
          then Some s else None
      | None \<Rightarrow> None)"

definition text_or_empty :: "KeyValueSecret \<Rightarrow> string \<Rightarrow> string" where
  "text_or_empty s k = (case sec_map s k of Some v \<Rightarrow> v | None \<Rightarrow> [])"

definition secret_ssh_port :: "KeyValueSecret \<Rightarrow> int" where
  "secret_ssh_port s =
     (case sec_map s ''ssh_port'' of
        Some t \<Rightarrow> (case stoi t of Some p \<Rightarrow> p | None \<Rightarrow> 22)
      | None \<Rightarrow> 22)"

definition secret_auth_method :: "KeyValueSecret \<Rightarrow> string" where
  "secret_auth_method s =
     (case sec_map s ''auth_method'' of
        Some m \<Rightarrow> m
      | None \<Rightarrow>
          if text_or_empty s ''password'' \<noteq> [] then ''password''
          else if text_or_empty s ''private_key_path'' \<noteq> [] then ''key''
          else ''agent'')"

definition ConvertTunnelSecretToAuthParams :: "KeyValueSecret \<Rightarrow> TunnelAuthParams" where
  "ConvertTunnelSecretToAuthParams s =
     default_auth_params
       \<lparr>au_ssh_host := text_or_empty s ''ssh_host'',
        au_ssh_port := secret_ssh_port s,
        au_ssh_user := text_or_empty s ''ssh_user'',
        au_password := text_or_empty s ''password'',
        au_private_key_path := text_or_empty s ''private_key_path'',
        au_passphrase := text_or_empty s ''passphrase'',
        au_auth_method := secret_auth_method s\<rparr>"

definition msg_no_secret :: string where
  "msg_no_secret =
     ''Tunnel: no tunnel secret specified. Pass secret = '' @ sq @ ''<name>'' @ sq @
     '' and create it first, e.g. CREATE SECRET s (TYPE ssh_tunnel, host '' @ sq @ ellipsis @ sq @
     '', user '' @ sq @ ellipsis @ sq @ '', password '' @ sq @ ellipsis @ sq @
     ''). Not defaulting to an anonymous localhost node.''"

definition msg_secret_not_found :: "string \<Rightarrow> string" where
  "msg_secret_not_found name =
     ''Tunnel: secret '' @ sq @ name @ sq @ '' not found. Create it with CREATE SECRET '' @ name @
     '' (TYPE ssh_tunnel, ssh_host '' @ sq @ ellipsis @ sq @ '', ssh_user '' @ sq @ ellipsis @ sq @
     '', password '' @ sq @ ellipsis @ sq @
     '' /* or private_key_path */). Not defaulting to an anonymous node.''"

definition FromContext :: "secret_manager \<Rightarrow> string \<Rightarrow> TunnelAuthParams outcome" where
  "FromContext secrets secret_name =
     (case LookupTunnelSecret secrets secret_name of
        None \<Rightarrow>
          if secret_name = [] \<or> secret_name = ''*''
          then Throws (InvalidInputException msg_no_secret)
          else Throws (InvalidInputException (msg_secret_not_found secret_name))
      | Some s \<Rightarrow> Returns (ConvertTunnelSecretToAuthParams s))"

text \<open>\<open>GetTunnelSecretNameFromParams\<close>: the named parameter \<open>secret\<close> as text, else empty.\<close>

definition GetTunnelSecretNameFromParams ::
  "('v \<Rightarrow> string) \<Rightarrow> (string \<times> 'v) list \<Rightarrow> string" where
  "GetTunnelSecretNameFromParams text_of params =
     (case map_of params ''secret'' of Some v \<Rightarrow> text_of v | None \<Rightarrow> [])"

definition GetTunnelAuthParamsFromContext ::
  "secret_manager \<Rightarrow> string \<Rightarrow> TunnelAuthParams outcome" where
  "GetTunnelAuthParamsFromContext secrets secret_name =
     (if secret_name \<noteq> [] then FromContext secrets secret_name
      else FromContext secrets TUNNEL_SECRET_DEFAULT_PATH)"

section \<open>Lemmas\<close>

lemma canonical_key_known:
  "k \<in> set kKnownKeys \<Longrightarrow>
     canonical_key k \<in> set kKnownKeys \<and> canonical_key k \<notin> {''host'', ''user'', ''port''}"
  by (auto simp: kKnownKeys_def canonical_key_def)

lemma canonical_key_idem [simp]: "canonical_key (canonical_key k) = canonical_key k"
  by (simp add: canonical_key_def)

text \<open>The value stored under a key is that of the last option that names it.\<close>

definition last_option ::
  "(string \<Rightarrow> string) \<Rightarrow> ('v \<Rightarrow> string) \<Rightarrow> (string \<times> 'v) list \<Rightarrow> string \<Rightarrow> string option" where
  "last_option lower text_of opts k =
     map_of (rev (map (\<lambda>(n, v). (canonical_key (lower n), text_of v)) opts)) k"

lemma secret_options_Returns:
  "secret_options lower text_of opts m = Returns m' \<longleftrightarrow>
     (\<forall>(n, v) \<in> set opts. lower n \<in> set kKnownKeys) \<and>
     m' = m ++ last_option lower text_of opts"
proof (induction opts arbitrary: m)
  case Nil
  have "last_option lower text_of [] = Map.empty" by (simp add: last_option_def fun_eq_iff)
  then show ?case by auto
next
  case (Cons nv opts)
  obtain n v where [simp]: "nv = (n, v)" by fastforce
  have "m ++ last_option lower text_of ((n, v) # opts) =
      m(canonical_key (lower n) \<mapsto> text_of v) ++ last_option lower text_of opts"
    by (simp add: last_option_def fun_eq_iff map_add_def map_of_append split: option.split)
  with Cons.IH show ?case by (auto simp: Let_def simp del: fun_upd_apply split: if_splits)
qed

lemma secret_options_Throws:
  "secret_options lower text_of opts m = Throws e \<Longrightarrow>
     \<exists>(n, v) \<in> set opts. lower n \<notin> set kKnownKeys \<and>
       e = InvalidInputException (msg_unknown_key (lower n))"
proof (induction opts arbitrary: m)
  case (Cons nv opts)
  obtain n v where [simp]: "nv = (n, v)" by fastforce
  show ?case
  proof (cases "lower n \<in> set kKnownKeys")
    case True
    with Cons.prems have "secret_options lower text_of opts
        (m(canonical_key (lower n) \<mapsto> text_of v)) = Throws e"
      by (simp add: Let_def del: fun_upd_apply)
    from Cons.IH [OF this] show ?thesis by auto
  next
    case False
    with Cons.prems show ?thesis by (auto simp: Let_def)
  qed
qed simp

lemma secret_options_defined [simp]: "secret_options lower text_of opts m \<noteq> Undefined"
  by (induction opts arbitrary: m) (auto simp: Let_def simp del: fun_upd_apply split: if_splits)

lemma last_option_canonical:
  assumes "\<forall>(n, v) \<in> set opts. lower n \<in> set kKnownKeys"
    and "last_option lower text_of opts k = Some t"
  shows "k \<in> set kKnownKeys \<and> k \<notin> {''host'', ''user'', ''port''}"
proof -
  from assms(2) obtain n v where "(n, v) \<in> set opts" and "k = canonical_key (lower n)"
    by (auto simp: last_option_def dest!: map_of_SomeD)
  with assms(1) show ?thesis using canonical_key_known [of "lower n"] by auto
qed

lemma LookupTunnelSecret_Some:
  "LookupTunnelSecret secrets n = Some s \<longleftrightarrow>
     secrets n = Some s \<and> (sec_type s = ''ssh_tunnel'' \<or> sec_type s = ''tunnel'')"
  by (auto simp: LookupTunnelSecret_def TUNNEL_SECRET_TYPE_NAME_def TUNNEL_SECRET_TYPE_ALIAS_def
      split: option.splits if_splits)

lemma FromContext_Returns:
  "FromContext secrets n = Returns a \<longleftrightarrow>
     (\<exists>s. LookupTunnelSecret secrets n = Some s \<and> a = ConvertTunnelSecretToAuthParams s)"
  by (auto simp: FromContext_def split: option.splits)

lemma FromContext_defined [simp]: "FromContext secrets n \<noteq> Undefined"
  by (simp add: FromContext_def split: option.split)

lemma CreateTunnelSecretFunction_Returns:
  "CreateTunnelSecretFunction lower text_of input = Returns s \<longleftrightarrow>
     (\<forall>(n, v) \<in> set (ci_options input). lower n \<in> set kKnownKeys) \<and>
     s = \<lparr>sec_type = ci_type input, sec_provider = TUNNEL_SECRET_PROVIDER,
          sec_name = ci_name input, sec_map = last_option lower text_of (ci_options input),
          sec_redact_keys = kRedactKeys\<rparr>"
proof (cases "secret_options lower text_of (ci_options input) Map.empty")
  case (Returns m)
  then show ?thesis
    using secret_options_Returns [of lower text_of "ci_options input" Map.empty m]
    by (auto simp: CreateTunnelSecretFunction_def)
next
  case (Throws e)
  then show ?thesis
    using secret_options_Throws [OF Throws] by (auto simp: CreateTunnelSecretFunction_def)
next
  case Undefined
  then show ?thesis by simp
qed

section \<open>Properties\<close>

text \<open>C38: Creating a secret either refuses, naming an option it does not know, or stores for every
  key the text of the last option that names it. Only canonical keys are stored, never the aliases
  host, user and port, and every credential among them is redacted.\<close>

theorem CreateTunnelSecret_spec:
  "case CreateTunnelSecretFunction lower text_of input of
     Returns s \<Rightarrow>
       sec_map s = last_option lower text_of (ci_options input) \<and>
       dom (sec_map s) \<subseteq> set kKnownKeys - {''host'', ''user'', ''port''} \<and>
       dom (sec_map s) \<inter>
         {''password'', ''passphrase'', ''private_key_path'', ''auth_key'', ''setup_key''} \<subseteq>
         set (sec_redact_keys s)
   | Throws e \<Rightarrow>
       (\<exists>n v. (n, v) \<in> set (ci_options input) \<and> lower n \<notin> set kKnownKeys \<and>
          e = InvalidInputException (msg_unknown_key (lower n)))
   | Undefined \<Rightarrow> False"
proof (cases "CreateTunnelSecretFunction lower text_of input")
  case (Returns s)
  then have known: "\<forall>(n, v) \<in> set (ci_options input). lower n \<in> set kKnownKeys"
    and m: "sec_map s = last_option lower text_of (ci_options input)"
    and rk: "sec_redact_keys s = kRedactKeys"
    by (simp_all add: CreateTunnelSecretFunction_Returns)
  have "dom (sec_map s) \<subseteq> set kKnownKeys - {''host'', ''user'', ''port''}"
    using last_option_canonical [OF known] by (auto simp: m dom_def)
  then show ?thesis using Returns m rk by (simp add: kRedactKeys_def)
next
  case (Throws e)
  then have "secret_options lower text_of (ci_options input) Map.empty = Throws e"
    by (cases "secret_options lower text_of (ci_options input) Map.empty")
      (simp_all add: CreateTunnelSecretFunction_def)
  from secret_options_Throws [OF this] show ?thesis using Throws by auto
next
  case Undefined
  then show ?thesis
    by (cases "secret_options lower text_of (ci_options input) Map.empty")
      (simp_all add: CreateTunnelSecretFunction_def)
qed

text \<open>An SSH port written into a secret as a 32-bit number comes back as that number in the
  authentication parameters: \<open>stoi\<close> undoes the text the secret stores.\<close>

theorem secret_port_roundtrip:
  assumes "CreateTunnelSecretFunction lower text_of input = Returns s"
    and "last_option lower text_of (ci_options input) ''ssh_port'' = Some (to_string p)"
    and "int32_range p"
  shows "au_ssh_port (ConvertTunnelSecretToAuthParams s) = p"
  using assms
  by (simp add: CreateTunnelSecretFunction_Returns ConvertTunnelSecretToAuthParams_def
      secret_ssh_port_def stoi_to_string)

theorem secret_port_roundtrip_witness:
  "\<exists>s. CreateTunnelSecretFunction id to_string
          \<lparr>ci_type = ''tunnel'', ci_name = ''s'', ci_options = [(''port'', 2222)]\<rparr> = Returns s \<and>
       au_ssh_port (ConvertTunnelSecretToAuthParams s) = 2222"
proof -
  define input where
    "input = \<lparr>ci_type = ''tunnel'', ci_name = ''s'', ci_options = [(''port'', 2222::int)]\<rparr>"
  have lo: "last_option id to_string (ci_options input) ''ssh_port'' = Some (to_string 2222)"
    by (simp add: last_option_def canonical_key_def input_def)
  obtain s where s: "CreateTunnelSecretFunction id to_string input = Returns s"
    by (simp add: CreateTunnelSecretFunction_Returns input_def kKnownKeys_def)
  have "int32_range 2222" by (simp add: int32_range_def INT_MIN_def INT_MAX_def)
  with secret_port_roundtrip [OF s lo] s show ?thesis by (auto simp: input_def)
qed

text \<open>Authentication parameters come only from the secret the caller named, of a tunnel type;
  a missing or foreign secret is an error and never a default node, and no other secret of the
  session can influence the result.\<close>

theorem auth_params_by_name:
  "GetTunnelAuthParamsFromContext secrets n =
     (let key = (if n = [] then ''*'' else n)
      in case secrets key of
           Some s \<Rightarrow>
             if sec_type s = ''ssh_tunnel'' \<or> sec_type s = ''tunnel''
             then Returns (ConvertTunnelSecretToAuthParams s)
             else Throws (InvalidInputException
               (if key = ''*'' then msg_no_secret else msg_secret_not_found key))
         | None \<Rightarrow> Throws (InvalidInputException
               (if key = ''*'' then msg_no_secret else msg_secret_not_found key)))"
  by (auto simp: GetTunnelAuthParamsFromContext_def FromContext_def LookupTunnelSecret_def
      TUNNEL_SECRET_TYPE_NAME_def TUNNEL_SECRET_TYPE_ALIAS_def TUNNEL_SECRET_DEFAULT_PATH_def
      Let_def split: option.split)

end
