(* ===== verification/Ssh_Exporter.thy ===== *)
theory Ssh_Exporter
  imports Socket_Compat Tunnel_Types
begin

text \<open>
  The SSH remote forward behind \<^verbatim>\<open>tunnel_export\<close>, from \<^verbatim>\<open>src/src/ssh_exporter.cpp\<close>:
  the bounded connect \<open>DialTcp\<close>, the exporter object with its construction, \<open>Start\<close> and \<open>Close\<close>,
  the accept loop with the reaping of finished workers, and the byte pump of one connection.

  A pointer field (session, listener) is modelled by whether it is non-null. The answers of the
  operating system, of libssh2 and of the atomic flag are inputs: a record for straight-line code,
  a list with one record per turn for a loop. A loop whose input ends is still running.
\<close>

section \<open>Connecting with a deadline\<close>

text \<open>
  One address of the resolver's list: the results of \<^verbatim>\<open>socket\<close>, \<^verbatim>\<open>connect\<close> with its
  error code, \<^verbatim>\<open>select\<close>, \<^verbatim>\<open>getsockopt\<close> and the value it read.
\<close>

record dial_try =
  dt_socket :: int
  dt_connect :: int
  dt_errno :: int
  dt_select :: int
  dt_getsockopt :: int
  dt_soerr :: int

record dial_answers =
  da_gai :: int
  da_tries :: "dial_try list"

definition dial_open :: "int \<Rightarrow> log" where
  "dial_open s = [OpenFd s, NonBlockingFd s, ConnectFd s]"

definition dial_wait :: "int \<Rightarrow> int \<Rightarrow> log" where
  "dial_wait s timeout_ms =
     [SelectWrite s (timeout_ms div 1000) ((timeout_ms mod 1000) * 1000)]"

fun dial_loop :: "platform \<Rightarrow> int \<Rightarrow> bool \<Rightarrow> dial_try list \<Rightarrow> int \<times> bool \<times> log" where
  "dial_loop pl timeout_ms timed_out [] = (kInvalidSocket pl, timed_out, [])"
| "dial_loop pl timeout_ms timed_out (ai # res) =
     (let s = dt_socket ai in
      if \<not> SocketValid pl s then dial_loop pl timeout_ms timed_out res
      else if dt_connect ai = 0 then (s, timed_out, dial_open s @ [BlockingFd s])
      else if \<not> SocketConnectInProgress pl (dt_errno ai) then
        (let (r, t, l) = dial_loop pl timeout_ms timed_out res
         in (r, t, dial_open s @ CloseSocketHandle pl s @ l))
      else if dt_select ai \<le> 0 then
        (let (r, t, l) = dial_loop pl timeout_ms (timed_out \<or> dt_select ai = 0) res
         in (r, t, dial_open s @ dial_wait s timeout_ms @ CloseSocketHandle pl s @ l))
      else if dt_getsockopt ai \<noteq> 0 \<or> dt_soerr ai \<noteq> 0 then
        (let (r, t, l) = dial_loop pl timeout_ms timed_out res
         in (r, t, dial_open s @ dial_wait s timeout_ms @ CloseSocketHandle pl s @ l))
      else (s, timed_out, dial_open s @ dial_wait s timeout_ms @ [BlockingFd s]))"

definition host_port :: "string \<Rightarrow> int \<Rightarrow> string" where
  "host_port host port = host @ '':'' @ to_string port"

text \<open>The socket (invalid on failure), the error text, and the calls made.\<close>

definition DialTcp ::
  "platform \<Rightarrow> string \<Rightarrow> int \<Rightarrow> int \<Rightarrow> dial_answers \<Rightarrow> int \<times> string \<times> log" where
  "DialTcp pl host port timeout_ms ans =
     (if da_gai ans \<noteq> 0 \<or> da_tries ans = [] then
        (kInvalidSocket pl, ''could not resolve '' @ sq @ host @ sq, [])
      else
        (let (sock, timed_out, l) = dial_loop pl timeout_ms False (da_tries ans)
         in (sock,
             if \<not> SocketValid pl sock then
               (if timed_out then ''timed out connecting to '' @ host_port host port
                else ''could not connect to '' @ host_port host port)
             else [],
             l)))"

section \<open>The exporter object\<close>

text \<open>
  The workers are named by the order in which they were spawned, counted by \<open>ex_spawned\<close>; the
  vector holds those whose thread has not been joined.
\<close>

record SshExporter =
  ex_auth :: TunnelAuthParams
  ex_remote_bind_host :: string
  ex_requested_remote_port :: int
  ex_session :: bool
  ex_listener :: bool
  ex_ssh_socket :: int
  ex_attrs :: TunnelConnectionAttributes
  ex_running :: bool
  ex_accept_thread :: bool
  ex_workers :: "nat list"
  ex_spawned :: nat

definition make_SshExporter ::
  "platform \<Rightarrow> TunnelAuthParams \<Rightarrow> string \<Rightarrow> int \<Rightarrow> string \<Rightarrow> int \<Rightarrow> SshExporter" where
  "make_SshExporter pl auth local_host local_port remote_bind_host remote_port =
     \<lparr>ex_auth = auth, ex_remote_bind_host = remote_bind_host,
      ex_requested_remote_port = remote_port,
      ex_session = False, ex_listener = False, ex_ssh_socket = kInvalidSocket pl,
      ex_attrs = default_attributes
        \<lparr>at_backend := ''ssh'', at_direction := ''export'', at_ssh_host := au_ssh_host auth,
         at_ssh_port := au_ssh_port auth, at_ssh_user := au_ssh_user auth,
         at_local_host := local_host, at_local_port := local_port,
         at_remote_host := remote_bind_host, at_remote_port := remote_port,
         at_bind_addr := [], at_status := ''Configuring''\<rparr>,
      ex_running = False, ex_accept_thread = False, ex_workers = [], ex_spawned = 0\<rparr>"

definition RecordError :: "string \<Rightarrow> SshExporter \<Rightarrow> SshExporter" where
  "RecordError message ex = ex\<lparr>ex_attrs := (ex_attrs ex)\<lparr>at_error_message := message\<rparr>\<rparr>"

definition ex_IsActive :: "SshExporter \<Rightarrow> bool" where
  "ex_IsActive ex \<longleftrightarrow> ex_running ex"

definition ex_GetAttributes :: "SshExporter \<Rightarrow> TunnelConnectionAttributes" where
  "ex_GetAttributes ex = ex_attrs ex"

definition BoundRemotePort :: "SshExporter \<Rightarrow> int" where
  "BoundRemotePort ex = at_remote_port (ex_attrs ex)"

subsection \<open>Close\<close>

text \<open>
  The answers to the cancel loop: the code of each \<^verbatim>\<open>libssh2_channel_forward_cancel\<close> and
  the clock read after it. The loop repeats while the code is EAGAIN and the clock is before the
  deadline, two seconds after the clock read at its start.
\<close>

record close_answers =
  ca_start :: int
  ca_cancel :: "(int \<times> int) list"

definition cancel_deadline :: "close_answers \<Rightarrow> int" where
  "cancel_deadline ca = ca_start ca + 2000"

definition cancel_again :: "close_answers \<Rightarrow> int \<times> int \<Rightarrow> bool" where
  "cancel_again ca answer \<longleftrightarrow>
     fst answer = LIBSSH2_ERROR_EAGAIN \<and> snd answer < cancel_deadline ca"

definition cancel_retries :: "close_answers \<Rightarrow> nat" where
  "cancel_retries ca = length (takeWhile (cancel_again ca) (ca_cancel ca))"

definition cancel_left_again :: "close_answers \<Rightarrow> bool" where
  "cancel_left_again ca \<longleftrightarrow>
     (case dropWhile (cancel_again ca) (ca_cancel ca) of
        [] \<Rightarrow> False | a # _ \<Rightarrow> fst a = LIBSSH2_ERROR_EAGAIN)"

definition cancel_log :: "close_answers \<Rightarrow> log" where
  "cancel_log ca =
     replicate (cancel_retries ca) (ForwardCancel True) @ [ForwardCancel (cancel_left_again ca)]"

definition SshExporter_Close ::
  "platform \<Rightarrow> close_answers \<Rightarrow> SshExporter \<Rightarrow> SshExporter \<times> log" where
  "SshExporter_Close pl ca ex =
     (ex\<lparr>ex_running := False, ex_accept_thread := False, ex_workers := [],
         ex_listener := False, ex_session := False, ex_ssh_socket := kInvalidSocket pl,
         ex_attrs := (ex_attrs ex)\<lparr>at_status := ''Closed''\<rparr>\<rparr>,
      (if ex_accept_thread ex then [JoinThread AcceptThread] else []) @
      join_pumps (ex_workers ex) @
      (if ex_listener ex then cancel_log ca else []) @
      (if ex_session ex then [SessionCall, SessionCall, SessionCall, SessionFree] else []) @
      CloseSocketHandle pl (ex_ssh_socket ex))"

subsection \<open>Start\<close>

record start_answers =
  sa_probe :: dial_answers
  sa_dial :: dial_answers
  sa_session_init :: bool
  sa_handshake :: int
  sa_userauth_key :: int
  sa_userauth_password :: int
  sa_listener :: bool
  sa_bound :: int
  sa_last_error :: "string option"
  sa_close :: close_answers

definition connect_timeout :: "int \<Rightarrow> int outcome" where
  "connect_timeout timeout_seconds =
     (if timeout_seconds > 0 then int32_times timeout_seconds 1000 else Returns 30000)"

definition msg_nothing_to_export :: "TunnelConnectionAttributes \<Rightarrow> string" where
  "msg_nothing_to_export at =
     ''tunnel_export: nothing is listening on '' @ host_port (at_local_host at) (at_local_port at) @
     '', so there is nothing to export. Start the local service first, or point '' @
     ''local_host/local_port at it.''"

definition msg_too_many_files :: string where
  "msg_too_many_files =
     ''tunnel_export: this process has too many open files for the SSH export to poll '' @
     ''its connection safely. Close some tunnels or raise the file-descriptor limit.''"

definition msg_agent_unsupported :: string where
  "msg_agent_unsupported =
     ''Tunnel: SSH agent authentication is not supported. Use auth_method '' @ sq @ ''key'' @ sq @
     '' or '' @ sq @ ''password'' @ sq @
     '' instead (set private_key_path/passphrase, or password, on the secret).''"

definition msg_bind_refused :: "int \<Rightarrow> string \<Rightarrow> string \<Rightarrow> string" where
  "msg_bind_refused port detail ssh_host =
     ''tunnel_export: the SSH server refused to bind remote port '' @ to_string port @ '' ('' @
     detail @ ''). Common causes: (1) sshd has '' @ sq @ ''AllowTcpForwarding no'' @ sq @ '' or '' @
     sq @ ''local'' @ sq @ '' '' @ em_dash @ '' it needs '' @ sq @ ''yes'' @ sq @ '' or '' @ sq @
     ''remote'' @ sq @ ''; (2) that port is already in use on '' @ ssh_host @
     ''; (3) ports below 1024 require root on the server. Choose a free port above 1024, '' @
     ''or pass remote_port=0 to let the server pick one.''"

definition msg_port_not_reported :: string where
  "msg_port_not_reported =
     ''tunnel_export: the SSH server accepted the forward but did not report the '' @
     ''allocated port, so no connection could ever be routed to it. Pass an explicit '' @
     ''remote_port instead of 0.''"

type_synonym start_result = "unit outcome \<times> SshExporter \<times> log"

definition close_and_throw ::
  "platform \<Rightarrow> start_answers \<Rightarrow> exn \<Rightarrow> SshExporter \<Rightarrow> log \<Rightarrow> start_result" where
  "close_and_throw pl a e ex l =
     (let (ex', l') = SshExporter_Close pl (sa_close a) ex in (Throws e, ex', l @ l'))"

definition exporting_status :: "SshExporter \<Rightarrow> int \<Rightarrow> string" where
  "exporting_status ex bound =
     ''Exporting '' @ host_port (at_local_host (ex_attrs ex)) (at_local_port (ex_attrs ex)) @
     '' on '' @ host_port (au_ssh_host (ex_auth ex)) bound"

text \<open>Asking the server for the listener, and the last steps of a successful start.\<close>

definition start_listen :: "platform \<Rightarrow> start_answers \<Rightarrow> SshExporter \<Rightarrow> start_result" where
  "start_listen pl a ex =
     (if \<not> sa_listener a then
        close_and_throw pl a
          (IOException (msg_bind_refused (ex_requested_remote_port ex)
             (case sa_last_error a of Some m \<Rightarrow> m | None \<Rightarrow> ''unknown'')
             (au_ssh_host (ex_auth ex))))
          ex [SessionCall, SessionCall]
      else
        (let ex1 = ex\<lparr>ex_listener := True\<rparr> in
         if sa_bound a = 0 then
           close_and_throw pl a (IOException msg_port_not_reported) ex1 [ListenerOpen]
         else
           (Returns (),
            ex1\<lparr>ex_attrs := (ex_attrs ex1)
                  \<lparr>at_remote_port := sa_bound a, at_status := exporting_status ex1 (sa_bound a)\<rparr>,
                ex_running := True, ex_accept_thread := True\<rparr>,
            [ListenerOpen, SessionCall, SessionCall, SessionCall, SpawnThread AcceptThread])))"

text \<open>Which credential is tried, and whether the server took it.\<close>

definition export_authed :: "start_answers \<Rightarrow> TunnelAuthParams \<Rightarrow> bool \<times> log" where
  "export_authed a auth =
     (if au_auth_method auth = ''key'' \<and> au_private_key_path auth \<noteq> [] then
        (sa_userauth_key a = 0, [SessionCall])
      else if au_password auth \<noteq> [] then (sa_userauth_password a = 0, [SessionCall])
      else (False, []))"

definition start_auth :: "platform \<Rightarrow> start_answers \<Rightarrow> SshExporter \<Rightarrow> start_result" where
  "start_auth pl a ex =
     (if au_auth_method (ex_auth ex) = kAuthMethodAgent then
        close_and_throw pl a (InvalidInputException msg_agent_unsupported) ex []
      else
        (let (authed, l) = export_authed a (ex_auth ex) in
         if \<not> authed then
           close_and_throw pl a
             (IOException (''tunnel_export: SSH authentication failed for user '' @ sq @
                au_ssh_user (ex_auth ex) @ sq @ '' on '' @ au_ssh_host (ex_auth ex) @ ''.''))
             ex l
         else (let (r, ex', l') = start_listen pl a ex in (r, ex', l @ l'))))"

definition start_session :: "platform \<Rightarrow> start_answers \<Rightarrow> SshExporter \<Rightarrow> start_result" where
  "start_session pl a ex =
     (if \<not> sa_session_init a then
        (Throws (IOException ''tunnel_export: could not initialise an SSH session.''),
         ex\<lparr>ex_ssh_socket := kInvalidSocket pl\<rparr>, CloseSocketHandle pl (ex_ssh_socket ex))
      else
        (let ex1 = ex\<lparr>ex_session := True\<rparr>; l = [SessionInit, SessionCall, SessionCall] in
         if sa_handshake a \<noteq> 0 then
           close_and_throw pl a
             (IOException (''tunnel_export: SSH handshake with '' @ au_ssh_host (ex_auth ex) @
                '' failed.''))
             ex1 l
         else (let (r, ex', l') = start_auth pl a ex1 in (r, ex', l @ l'))))"

definition start_dial :: "platform \<Rightarrow> int \<Rightarrow> start_answers \<Rightarrow> SshExporter \<Rightarrow> start_result" where
  "start_dial pl timeout_ms a ex =
     (let (s, derr, l) = DialTcp pl (au_ssh_host (ex_auth ex)) (au_ssh_port (ex_auth ex))
                           timeout_ms (sa_dial a);
          ex1 = ex\<lparr>ex_ssh_socket := s\<rparr> in
      if \<not> SocketValid pl s then
        (Throws (IOException (''tunnel_export: '' @ derr @
           ''. Check the SSH server is running and reachable.'')), ex1, l)
      else if \<not> SocketFitsInFdSet pl s then
        (Throws (IOException msg_too_many_files),
         ex1\<lparr>ex_ssh_socket := kInvalidSocket pl\<rparr>, l @ CloseSocketHandle pl s)
      else (let (r, ex', l') = start_session pl a ex1 in (r, ex', l @ l')))"

definition SshExporter_Start ::
  "platform \<Rightarrow> int \<Rightarrow> start_answers \<Rightarrow> SshExporter \<Rightarrow> start_result" where
  "SshExporter_Start pl timeout_seconds a ex =
     (case connect_timeout timeout_seconds of
        Returns timeout_ms \<Rightarrow>
          (let (probe, derr, l) = DialTcp pl (at_local_host (ex_attrs ex))
                 (at_local_port (ex_attrs ex)) timeout_ms (sa_probe a) in
           if \<not> SocketValid pl probe then
             (Throws (IOException (msg_nothing_to_export (ex_attrs ex))), ex, l)
           else
             (let (r, ex', l') = start_dial pl timeout_ms a ex
              in (r, ex', l @ CloseSocketHandle pl probe @ l')))
      | Throws e \<Rightarrow> (Throws e, ex, [])
      | Undefined \<Rightarrow> (Undefined, ex, []))"

section \<open>The accept loop\<close>

text \<open>
  One turn: the two reads of the running flag, the accepted channel (or none, with libssh2's last
  error), and the workers whose done flag reads true while reaping.
\<close>

record accept_turn =
  ac_running_before :: bool
  ac_running_after :: bool
  ac_channel :: "nat option"
  ac_errno :: int
  ac_done :: "nat list"

definition ReapFinishedWorkers :: "nat list \<Rightarrow> SshExporter \<Rightarrow> SshExporter \<times> log" where
  "ReapFinishedWorkers done ex =
     (ex\<lparr>ex_workers := filter (\<lambda>w. w \<notin> set done) (ex_workers ex)\<rparr>,
      join_pumps (filter (\<lambda>w. w \<in> set done) (ex_workers ex)))"

definition msg_session_dropped :: "string \<Rightarrow> string" where
  "msg_session_dropped ssh_host =
     ''tunnel_export: the SSH session to '' @ ssh_host @
     '' dropped; the export is no longer active. Re-run PRAGMA tunnel_export. If this '' @
     ''recurs while idle, raise sshd'' @ sq @ ''s ClientAliveInterval.''"

definition transport_dead :: "int \<Rightarrow> bool" where
  "transport_dead err \<longleftrightarrow>
     err = LIBSSH2_ERROR_SOCKET_SEND \<or> err = LIBSSH2_ERROR_SOCKET_RECV \<or>
     err = LIBSSH2_ERROR_SOCKET_DISCONNECT"

definition spawn_worker :: "SshExporter \<Rightarrow> SshExporter" where
  "spawn_worker ex =
     ex\<lparr>ex_workers := ex_workers ex @ [ex_spawned ex], ex_spawned := Suc (ex_spawned ex)\<rparr>"

text \<open>The flag tells whether the loop has ended.\<close>

fun AcceptLoop :: "accept_turn list \<Rightarrow> SshExporter \<Rightarrow> bool \<times> SshExporter \<times> log" where
  "AcceptLoop [] ex = (False, ex, [])"
| "AcceptLoop (t # ts) ex =
     (if \<not> ac_running_before t then (True, ex, [])
      else if \<not> ac_running_after t \<or> \<not> ex_listener ex then
        (True, ex, [SelectRead [ex_ssh_socket ex]])
      else (case ac_channel t of
          Some c \<Rightarrow>
            (let (ex1, joins) = ReapFinishedWorkers (ac_done t) ex;
                 (fin, ex2, l) = AcceptLoop ts (spawn_worker ex1)
             in (fin, ex2,
                 [SelectRead [ex_ssh_socket ex], ForwardAccept, ChannelOpen c, SessionCall] @
                 joins @ [SpawnThread (PumpThread (ex_spawned ex))] @ l))
        | None \<Rightarrow>
            if transport_dead (ac_errno t) then
              (True,
               (RecordError (msg_session_dropped (au_ssh_host (ex_auth ex))) ex)
                 \<lparr>ex_running := False\<rparr>,
               [SelectRead [ex_ssh_socket ex], ForwardAccept, SessionCall, SessionCall])
            else
              (let (fin, ex1, l) = AcceptLoop ts ex
               in (fin, ex1,
                   [SelectRead [ex_ssh_socket ex], ForwardAccept, SessionCall, SessionCall] @ l))))"

section \<open>What the exporter holds\<close>

text \<open>
  The abstraction of an exporter to the resources it owns, in a process where the descriptors \<open>F\<close>
  are otherwise open and \<open>C\<close> are the channels of its connections, and its invariant.
\<close>

definition ex_resources :: "platform \<Rightarrow> int set \<Rightarrow> nat set \<Rightarrow> SshExporter \<Rightarrow> resources" where
  "ex_resources pl F C ex =
     \<lparr>live_fds = F \<union> (if SocketValid pl (ex_ssh_socket ex) then {ex_ssh_socket ex} else {}),
      live_session = ex_session ex, live_listener = ex_listener ex, live_channels = C,
      live_threads = (if ex_accept_thread ex then {AcceptThread} else {}) \<union>
        PumpThread ` set (ex_workers ex)\<rparr>"

definition ex_invariant :: "platform \<Rightarrow> int set \<Rightarrow> SshExporter \<Rightarrow> bool" where
  "ex_invariant pl F ex \<longleftrightarrow>
     ex_ssh_socket ex \<notin> F \<and>
     (ex_session ex \<longrightarrow> SocketValid pl (ex_ssh_socket ex)) \<and>
     (ex_listener ex \<longrightarrow> ex_session ex) \<and>
     (ex_accept_thread ex \<longrightarrow> ex_listener ex) \<and>
     (ex_running ex \<longrightarrow> ex_accept_thread ex) \<and>
     distinct (ex_workers ex) \<and> (\<forall>w \<in> set (ex_workers ex). w < ex_spawned ex) \<and>
     (ex_workers ex \<noteq> [] \<longrightarrow> ex_session ex)"

section \<open>Lemmas\<close>

lemma dial_loop_resources:
  assumes "\<forall>t \<in> set tries. dt_socket t \<notin> F" and "live_fds r = F"
  shows "case dial_loop pl ms timed_out tries of (s, t, l) \<Rightarrow>
     resource_run l r = Some (if SocketValid pl s then r\<lparr>live_fds := insert s F\<rparr> else r) \<and>
     (SocketValid pl s \<longrightarrow> s \<notin> F)"
  using assms
proof (induction tries arbitrary: timed_out)
  case Nil
  then show ?case by simp
next
  case (Cons a tries)
  have closed: "resource_run (CloseSocketHandle pl (dt_socket a))
      (r\<lparr>live_fds := insert (dt_socket a) F\<rparr>) = Some r"
    if "SocketValid pl (dt_socket a)"
    using that Cons.prems by (simp add: CloseSocketHandle_run)
  show ?case
    using Cons.prems Cons.IH [of timed_out] Cons.IH [of "timed_out \<or> dt_select a = 0"] closed
    by (auto simp: Let_def dial_open_def dial_wait_def resource_run_append split: prod.splits)
qed

lemma DialTcp_resources:
  assumes "\<forall>t \<in> set (da_tries ans). dt_socket t \<notin> live_fds r"
    and "DialTcp pl host port ms ans = (s, err, l)"
  shows "resource_run l r =
      Some (if SocketValid pl s then r\<lparr>live_fds := insert s (live_fds r)\<rparr> else r)"
    and "SocketValid pl s \<longrightarrow> s \<notin> live_fds r"
    and "err = [] \<longleftrightarrow> SocketValid pl s"
  using assms dial_loop_resources [OF assms(1) refl, of pl ms False]
  by (auto simp: DialTcp_def Let_def host_port_def split: if_splits prod.splits)

lemma cancel_log_resources:
  assumes "live_session r" and "live_listener r"
  shows "resource_run (cancel_log ca) r = Some (r\<lparr>live_listener := cancel_left_again ca\<rparr>)"
proof -
  have "resource_run (replicate n (ForwardCancel True)) r = Some r" for n
    by (rule resource_run_stutter) (use assms in \<open>auto simp: require_def\<close>)
  with assms show ?thesis by (simp add: cancel_log_def resource_run_append)
qed

lemma SshExporter_Close_resources:
  assumes "ex_invariant pl F ex" and "ex_session ex \<or> C = {}"
  shows "resource_run (snd (SshExporter_Close pl ca ex)) (ex_resources pl F C ex) =
    Some (only_fds F)"
proof -
  let ?s = "ex_ssh_socket ex"
  define r1 where "r1 = (ex_resources pl F C ex)\<lparr>live_threads := {}\<rparr>"
  define l1 where "l1 = (if ex_accept_thread ex then [JoinThread AcceptThread] else []) @
    join_pumps (ex_workers ex)"
  have joins: "resource_run l1 (ex_resources pl F C ex) = Some r1"
    using assms(1)
    by (auto simp: l1_def r1_def resource_run_join_pumps ex_resources_def ex_invariant_def
        intro!: resources_eqI)
  define l2 where "l2 = (if ex_listener ex then cancel_log ca else []) @
      (if ex_session ex then [SessionCall, SessionCall, SessionCall, SessionFree] else [])"
  define r2 where "r2 = (only_fds F)\<lparr>live_fds := live_fds r1\<rparr>"
  have frees: "resource_run l2 r1 = Some r2"
    using assms
    by (auto simp: l2_def r1_def r2_def resource_run_append cancel_log_resources ex_resources_def
        ex_invariant_def intro!: resources_eqI)
  have closes: "resource_run (CloseSocketHandle pl ?s) r2 = Some (only_fds F)"
    using assms(1)
    by (auto simp: r2_def r1_def CloseSocketHandle_def ex_resources_def ex_invariant_def
        intro!: resources_eqI)
  have "snd (SshExporter_Close pl ca ex) = l1 @ l2 @ CloseSocketHandle pl ?s"
    by (simp add: SshExporter_Close_def l1_def l2_def)
  with joins frees closes show ?thesis by (simp add: resource_run_append)
qed

lemma SshExporter_Close_state:
  "ex_invariant pl F ex \<Longrightarrow> kInvalidSocket pl \<notin> F \<Longrightarrow>
     ex_invariant pl F (fst (SshExporter_Close pl ca ex))"
  by (simp add: ex_invariant_def SshExporter_Close_def)

lemma SshExporter_Close_empty:
  "ex_resources pl F {} (fst (SshExporter_Close pl ca ex)) = only_fds F"
  by (rule resources_eqI) (simp_all add: ex_resources_def SshExporter_Close_def)

subsection \<open>Starting\<close>

text \<open>
  The post-condition of every stage of \<open>Start\<close>: the calls made are legal and lead exactly to what
  the object holds; a stage that throws holds nothing; a stage that returns runs with a listener on
  the non-zero port the server reported.
\<close>

definition start_ok :: "platform \<Rightarrow> int set \<Rightarrow> start_answers \<Rightarrow> resources \<Rightarrow> start_result \<Rightarrow> bool" where
  "start_ok pl F a r0 res \<longleftrightarrow>
     (case res of (out, ex', l) \<Rightarrow>
        resource_run l r0 = Some (ex_resources pl F {} ex') \<and> ex_invariant pl F ex' \<and>
        out \<noteq> Undefined \<and>
        (threw out \<longrightarrow> ex_resources pl F {} ex' = only_fds F) \<and>
        (returned out \<longrightarrow>
           ex_running ex' \<and> ex_workers ex' = [] \<and> sa_bound a \<noteq> 0 \<and>
           BoundRemotePort ex' = sa_bound a))"

text \<open>An exporter on its way up: no listener, no thread.\<close>

definition starting :: "platform \<Rightarrow> int set \<Rightarrow> SshExporter \<Rightarrow> bool" where
  "starting pl F ex \<longleftrightarrow>
     ex_invariant pl F ex \<and> \<not> ex_listener ex \<and> \<not> ex_accept_thread ex \<and> \<not> ex_running ex \<and>
     ex_workers ex = [] \<and> kInvalidSocket pl \<notin> F"

lemma start_ok_prepend:
  assumes "resource_run l r0 = Some r1" and "start_ok pl F a r1 res"
  shows "start_ok pl F a r0 (let (out, ex', l') = res in (out, ex', l @ l'))"
  using assms by (auto simp: start_ok_def resource_run_append split: prod.splits)

lemma close_and_throw_ok:
  assumes "ex_invariant pl F ex" and "kInvalidSocket pl \<notin> F"
    and "resource_run l r0 = Some (ex_resources pl F {} ex)"
  shows "start_ok pl F a r0 (close_and_throw pl a e ex l)"
proof -
  obtain ex' l' where cl: "SshExporter_Close pl (sa_close a) ex = (ex', l')" by fastforce
  with SshExporter_Close_resources [OF assms(1), of "{}" "sa_close a"]
    SshExporter_Close_empty [of pl F "sa_close a" ex]
    SshExporter_Close_state [OF assms(1,2), of "sa_close a"] assms(3)
  show ?thesis
    by (simp add: start_ok_def close_and_throw_def resource_run_append)
qed

lemma start_listen_ok:
  assumes "starting pl F ex" and "ex_session ex"
  shows "start_ok pl F a (ex_resources pl F {} ex) (start_listen pl a ex)"
proof (cases "sa_listener a \<and> sa_bound a \<noteq> 0")
  case True
  have run: "resource_run [ListenerOpen, SessionCall, SessionCall, SessionCall,
        SpawnThread AcceptThread] (ex_resources pl F {} ex) =
      Some (ex_resources pl F {} (ex\<lparr>ex_listener := True, ex_accept_thread := True\<rparr>))"
    using assms by (auto simp: ex_resources_def starting_def)
  with True assms show ?thesis
    by (auto simp: start_listen_def start_ok_def Let_def starting_def ex_invariant_def
        ex_resources_def BoundRemotePort_def)
next
  case False
  have inv: "ex_invariant pl F ex" "ex_invariant pl F (ex\<lparr>ex_listener := True\<rparr>)"
    and no: "kInvalidSocket pl \<notin> F"
    using assms by (simp_all add: starting_def ex_invariant_def)
  have "resource_run [SessionCall, SessionCall] (ex_resources pl F {} ex) =
      Some (ex_resources pl F {} ex)"
    and "resource_run [ListenerOpen] (ex_resources pl F {} ex) =
      Some (ex_resources pl F {} (ex\<lparr>ex_listener := True\<rparr>))"
    using assms by (simp_all add: ex_resources_def starting_def)
  with False show ?thesis
    unfolding start_listen_def Let_def
    by (auto simp del: resource_run.simps intro!: close_and_throw_ok inv no)
qed

lemma start_auth_ok:
  assumes "starting pl F ex" and "ex_session ex"
  shows "start_ok pl F a (ex_resources pl F {} ex) (start_auth pl a ex)"
proof -
  obtain authed l where al: "export_authed a (ex_auth ex) = (authed, l)" by fastforce
  have l: "resource_run l (ex_resources pl F {} ex) = Some (ex_resources pl F {} ex)"
    using al assms(2) by (auto simp: export_authed_def ex_resources_def split: if_splits)
  have inv: "ex_invariant pl F ex" and no: "kInvalidSocket pl \<notin> F"
    using assms(1) by (simp_all add: starting_def)
  show ?thesis
  proof (cases "au_auth_method (ex_auth ex) = kAuthMethodAgent \<or> \<not> authed")
    case True
    then show ?thesis
      by (auto simp: start_auth_def al intro!: close_and_throw_ok [OF inv no] l)
  next
    case False
    then have "start_auth pl a ex =
        (let (out, ex', l') = start_listen pl a ex in (out, ex', l @ l'))"
      by (simp add: start_auth_def al)
    then show ?thesis using start_ok_prepend [OF l start_listen_ok [OF assms]] by simp
  qed
qed

lemma start_session_ok:
  assumes "starting pl F ex" and "\<not> ex_session ex" and "SocketValid pl (ex_ssh_socket ex)"
  shows "start_ok pl F a (ex_resources pl F {} ex) (start_session pl a ex)"
proof -
  let ?ex = "ex\<lparr>ex_session := True\<rparr>" and ?l = "[SessionInit, SessionCall, SessionCall]"
  have st: "starting pl F ?ex" "ex_session ?ex"
    using assms by (simp_all add: starting_def ex_invariant_def)
  have l: "resource_run ?l (ex_resources pl F {} ex) = Some (ex_resources pl F {} ?ex)"
    using assms(2) by (simp add: ex_resources_def)
  consider "\<not> sa_session_init a" | "sa_session_init a" "sa_handshake a \<noteq> 0"
    | "sa_session_init a" "sa_handshake a = 0" by blast
  then show ?thesis
  proof cases
    case 1
    with assms show ?thesis
      by (auto simp: start_session_def start_ok_def starting_def ex_invariant_def ex_resources_def
          CloseSocketHandle_def intro!: resources_eqI)
  next
    case 2
    have "start_ok pl F a (ex_resources pl F {} ex) (close_and_throw pl a e ?ex ?l)" for e
      using st l by (intro close_and_throw_ok) (simp_all add: starting_def)
    with 2 show ?thesis by (simp add: start_session_def Let_def)
  next
    case 3
    with start_ok_prepend [OF l start_auth_ok [OF st]] show ?thesis
      by (simp add: start_session_def Let_def)
  qed
qed

lemma start_dial_ok:
  assumes st: "starting pl F ex" and ns: "\<not> ex_session ex"
    and inval: "ex_ssh_socket ex = kInvalidSocket pl"
    and fresh: "\<forall>t \<in> set (da_tries (sa_dial a)). dt_socket t \<notin> F"
  shows "start_ok pl F a (only_fds F) (start_dial pl ms a ex)"
proof -
  obtain s err l where dial: "DialTcp pl (au_ssh_host (ex_auth ex)) (au_ssh_port (ex_auth ex)) ms
      (sa_dial a) = (s, err, l)"
    by (metis prod_cases3)
  let ?ex = "ex\<lparr>ex_ssh_socket := s\<rparr>"
  have fresh': "\<forall>t \<in> set (da_tries (sa_dial a)). dt_socket t \<notin> live_fds (only_fds F)"
    using fresh by simp
  note d = DialTcp_resources [OF fresh' dial]
  have res: "ex_resources pl F {} ?ex =
      (if SocketValid pl s then (only_fds F)\<lparr>live_fds := insert s F\<rparr> else only_fds F)"
    using st ns by (auto simp: ex_resources_def starting_def intro!: resources_eqI)
  have run: "resource_run l (only_fds F) = Some (ex_resources pl F {} ?ex)"
    using d(1) by (simp add: res)
  have notF: "s \<notin> F" using d(2) st by (cases "SocketValid pl s") (auto simp: SocketValid_def starting_def)
  have st': "starting pl F ?ex" "\<not> ex_session ?ex"
    using st ns notF by (simp_all add: starting_def ex_invariant_def)
  show ?thesis
  proof (cases "SocketValid pl s \<and> SocketFitsInFdSet pl s")
    case True
    with start_ok_prepend [OF run start_session_ok [OF st']] show ?thesis
      by (simp add: start_dial_def dial)
  next
    case False
    have inv': "ex_invariant pl F ?ex" "ex_invariant pl F (?ex\<lparr>ex_ssh_socket := kInvalidSocket pl\<rparr>)"
      using st' by (simp_all add: starting_def ex_invariant_def)
    have none: "ex_resources pl F {} (?ex\<lparr>ex_ssh_socket := kInvalidSocket pl\<rparr>) = only_fds F"
      using st' by (auto simp: ex_resources_def starting_def intro!: resources_eqI)
    have close: "resource_run (l @ CloseSocketHandle pl s) (only_fds F) = Some (only_fds F)"
      if "SocketValid pl s"
      using that run res notF by (simp add: resource_run_append CloseSocketHandle_def only_fds_def)
    from False show ?thesis
      using inv' none close run res
      by (auto simp: start_dial_def dial start_ok_def Let_def)
  qed
qed

lemma make_SshExporter_starting:
  "kInvalidSocket pl \<notin> F \<Longrightarrow> starting pl F (make_SshExporter pl auth lh lp rbh rp)"
  by (simp add: starting_def ex_invariant_def make_SshExporter_def)

lemma make_SshExporter_simps [simp]:
  "ex_session (make_SshExporter pl auth lh lp rbh rp) = False"
  "ex_ssh_socket (make_SshExporter pl auth lh lp rbh rp) = kInvalidSocket pl"
  "ex_auth (make_SshExporter pl auth lh lp rbh rp) = auth"
  by (simp_all add: make_SshExporter_def)

lemma make_SshExporter_resources:
  "ex_resources pl F {} (make_SshExporter pl auth lh lp rbh rp) = only_fds F"
  by (rule resources_eqI) (simp_all add: ex_resources_def make_SshExporter_def)

lemma SshExporter_Start_ok:
  assumes no: "kInvalidSocket pl \<notin> F"
    and fresh: "\<forall>t \<in> set (da_tries (sa_probe a)) \<union> set (da_tries (sa_dial a)). dt_socket t \<notin> F"
    and tmo: "connect_timeout timeout = Returns ms"
  shows "start_ok pl F a (only_fds F)
    (SshExporter_Start pl timeout a (make_SshExporter pl auth lh lp rbh rp))"
proof -
  define ex where "ex = make_SshExporter pl auth lh lp rbh rp"
  have st: "starting pl F ex" "\<not> ex_session ex" "ex_ssh_socket ex = kInvalidSocket pl"
    and empty: "ex_resources pl F {} ex = only_fds F"
    using make_SshExporter_starting [OF no] by (simp_all add: ex_def make_SshExporter_resources)
  obtain s err l where dial: "DialTcp pl (at_local_host (ex_attrs ex)) (at_local_port (ex_attrs ex))
      ms (sa_probe a) = (s, err, l)"
    by (metis prod_cases3)
  have "\<forall>t \<in> set (da_tries (sa_probe a)). dt_socket t \<notin> live_fds (only_fds F)"
    using fresh by auto
  note d = DialTcp_resources [OF this dial]
  show ?thesis
  proof (cases "SocketValid pl s")
    case True
    have run: "resource_run (l @ CloseSocketHandle pl s) (only_fds F) = Some (only_fds F)"
      using True d by (simp add: resource_run_append CloseSocketHandle_def only_fds_def)
    have "start_ok pl F a (only_fds F) (start_dial pl ms a ex)"
      using fresh by (intro start_dial_ok st) auto
    from start_ok_prepend [OF run this] True show ?thesis
      unfolding ex_def [symmetric] by (simp add: SshExporter_Start_def tmo dial)
  next
    case False
    with st(1) empty d show ?thesis
      unfolding ex_def [symmetric]
      by (simp add: SshExporter_Start_def tmo dial start_ok_def starting_def)
  qed
qed

subsection \<open>Accepting and closing\<close>

definition turn_channels :: "accept_turn list \<Rightarrow> nat list" where
  "turn_channels ts = List.map_filter ac_channel ts"

lemma turn_channels_simps [simp]:
  "turn_channels [] = []"
  "turn_channels (t # ts) =
     (case ac_channel t of Some c \<Rightarrow> c # turn_channels ts | None \<Rightarrow> turn_channels ts)"
  by (simp_all add: turn_channels_def List.map_filter_def split: option.split)

definition accepting :: "platform \<Rightarrow> int set \<Rightarrow> SshExporter \<Rightarrow> bool" where
  "accepting pl F ex \<longleftrightarrow>
     ex_invariant pl F ex \<and> ex_session ex \<and> ex_listener ex \<and> ex_accept_thread ex"

lemma reap_spawn_ok:
  assumes "accepting pl F ex"
    and "ReapFinishedWorkers done ex = (ex1, joins)"
  shows "resource_run (joins @ [SpawnThread (PumpThread (ex_spawned ex))])
      (ex_resources pl F C ex) = Some (ex_resources pl F C (spawn_worker ex1))"
    and "accepting pl F (spawn_worker ex1)"
proof -
  let ?gone = "filter (\<lambda>w. w \<in> set done) (ex_workers ex)"
  let ?left = "filter (\<lambda>w. w \<notin> set done) (ex_workers ex)"
  have ex1: "ex1 = ex\<lparr>ex_workers := ?left\<rparr>" and j: "joins = join_pumps ?gone"
    using assms(2) by (simp_all add: ReapFinishedWorkers_def)
  have dist: "distinct (ex_workers ex)" and lt: "\<forall>w \<in> set (ex_workers ex). w < ex_spawned ex"
    using assms(1) by (simp_all add: accepting_def ex_invariant_def)
  have "resource_run joins (ex_resources pl F C ex) = Some (ex_resources pl F C ex1)"
    unfolding j using assms(1) dist
    by (subst resource_run_join_pumps)
      (auto simp: ex_resources_def ex1 accepting_def)
  moreover have "resource_step (SpawnThread (PumpThread (ex_spawned ex))) (ex_resources pl F C ex1) =
      Some (ex_resources pl F C (spawn_worker ex1))"
    using lt by (auto simp: spawn_worker_def ex1 ex_resources_def)
  ultimately show "resource_run (joins @ [SpawnThread (PumpThread (ex_spawned ex))])
      (ex_resources pl F C ex) = Some (ex_resources pl F C (spawn_worker ex1))"
    by (simp add: resource_run_append)
  show "accepting pl F (spawn_worker ex1)"
    using assms(1) lt dist
    by (auto simp: accepting_def ex_invariant_def spawn_worker_def ex1 less_Suc_eq)
qed

lemma AcceptLoop_ok:
  assumes "accepting pl F ex"
    and "distinct (turn_channels ts)" and "set (turn_channels ts) \<inter> C = {}"
  shows "\<exists>C'. case AcceptLoop ts ex of (fin, ex', l) \<Rightarrow>
     resource_run l (ex_resources pl F C ex) = Some (ex_resources pl F C' ex') \<and>
     accepting pl F ex'"
  using assms
proof (induction ts arbitrary: ex C)
  case Nil
  then show ?case by auto
next
  case (Cons t ts)
  let ?r = "ex_resources pl F C ex" and ?s = "ex_ssh_socket ex"
  have acc: "ex_session ex" "ex_listener ex" "ex_accept_thread ex" "SocketValid pl ?s"
    using Cons.prems(1) by (simp_all add: accepting_def ex_invariant_def)
  have r: "live_session ?r" "live_listener ?r" "?s \<in> live_fds ?r" "live_channels ?r = C"
    using acc by (simp_all add: ex_resources_def)
  consider (stop) "\<not> ac_running_before t \<or> \<not> ac_running_after t"
    | (conn) c where "ac_running_before t" "ac_running_after t" "ac_channel t = Some c"
    | (dead) "ac_running_before t" "ac_running_after t" "ac_channel t = None"
        "transport_dead (ac_errno t)"
    | (idle) "ac_running_before t" "ac_running_after t" "ac_channel t = None"
        "\<not> transport_dead (ac_errno t)"
    by (cases "ac_channel t") auto
  then show ?case
  proof cases
    case stop
    with Cons.prems(1) r acc show ?thesis by (intro exI [of _ C]) auto
  next
    case conn
    obtain ex1 joins where reap: "ReapFinishedWorkers (ac_done t) ex = (ex1, joins)" by fastforce
    have "ex_resources pl F (insert c C) ex = ?r\<lparr>live_channels := insert c C\<rparr>"
      by (simp add: ex_resources_def)
    moreover have "c \<notin> C" using Cons.prems(3) conn by auto
    ultimately have pre: "resource_run [SelectRead [?s], ForwardAccept, ChannelOpen c, SessionCall] ?r
        = Some (ex_resources pl F (insert c C) ex)"
      using r by simp
    note step = reap_spawn_ok [OF Cons.prems(1) reap]
    obtain fin ex2 l where rest: "AcceptLoop ts (spawn_worker ex1) = (fin, ex2, l)"
      by (metis prod_cases3)
    have "distinct (turn_channels ts)" "set (turn_channels ts) \<inter> insert c C = {}"
      using Cons.prems conn by auto
    from Cons.IH [OF step(2) this] rest obtain C' where
      "resource_run l (ex_resources pl F (insert c C) (spawn_worker ex1)) =
         Some (ex_resources pl F C' ex2)" "accepting pl F ex2"
      by auto
    moreover have "AcceptLoop (t # ts) ex = (fin, ex2,
        [SelectRead [?s], ForwardAccept, ChannelOpen c, SessionCall] @
        (joins @ [SpawnThread (PumpThread (ex_spawned ex))]) @ l)"
      using conn acc reap rest by simp
    ultimately show ?thesis
      using resource_run_appendI [OF pre resource_run_appendI [OF step(1)]]
      by (metis (mono_tags, lifting) case_prod_conv)
  next
    case dead
    with Cons.prems(1) r acc show ?thesis
      by (intro exI [of _ C])
        (auto simp: RecordError_def accepting_def ex_invariant_def ex_resources_def)
  next
    case idle
    have "distinct (turn_channels ts)" "set (turn_channels ts) \<inter> C = {}"
      using Cons.prems idle by auto
    from Cons.IH [OF Cons.prems(1) this] idle r acc show ?thesis
      by (auto split: prod.splits)
  qed
qed

lemma cancel_retries_bound:
  assumes "\<forall>i < length (ca_cancel ca). ca_start ca + 10 * int i \<le> snd (ca_cancel ca ! i)"
  shows "cancel_retries ca \<le> 200"
proof (rule ccontr)
  assume "\<not> cancel_retries ca \<le> 200"
  then have len: "200 < length (takeWhile (cancel_again ca) (ca_cancel ca))"
    by (simp add: cancel_retries_def)
  then have "cancel_again ca (takeWhile (cancel_again ca) (ca_cancel ca) ! 200)"
    by (metis nth_mem set_takeWhileD)
  then have "cancel_again ca (ca_cancel ca ! 200)"
    using len by (simp add: takeWhile_nth)
  moreover have "200 < length (ca_cancel ca)"
    using len length_takeWhile_le [of "cancel_again ca" "ca_cancel ca"] by linarith
  then have "ca_start ca + 10 * int 200 \<le> snd (ca_cancel ca ! 200)"
    using assms by blast
  ultimately show False by (simp add: cancel_again_def cancel_deadline_def)
qed

lemma SshExporter_Close_again:
  "SshExporter_Close pl ca' (fst (SshExporter_Close pl ca ex)) =
     (fst (SshExporter_Close pl ca ex), [])"
  by (simp add: SshExporter_Close_def CloseSocketHandle_def join_pumps_def)

text \<open>
  The accept loop ends for two reasons only. The flags of its turns are those it read.
\<close>

lemma AcceptLoop_ends:
  assumes "AcceptLoop ts ex = (True, ex', l)" and "ex_listener ex"
    and "\<forall>t \<in> set ts. ac_running_before t \<and> ac_running_after t"
  shows "\<not> ex_running ex' \<and>
     at_error_message (ex_attrs ex') = msg_session_dropped (au_ssh_host (ex_auth ex)) \<and>
     (\<exists>t \<in> set ts. ac_channel t = None \<and> transport_dead (ac_errno t))"
  using assms
proof (induction ts arbitrary: ex l)
  case (Cons t ts)
  have run: "ac_running_before t" "ac_running_after t"
    and later: "\<forall>t \<in> set ts. ac_running_before t \<and> ac_running_after t"
    using Cons.prems(3) by simp_all
  consider (dead) "ac_channel t = None" "transport_dead (ac_errno t)"
    | (idle) "ac_channel t = None" "\<not> transport_dead (ac_errno t)"
    | (conn) c where "ac_channel t = Some c" by (cases "ac_channel t") blast+
  then show ?case
  proof cases
    case dead
    with Cons.prems(1,2) run show ?thesis by (auto simp: RecordError_def)
  next
    case idle
    obtain fin ex2 l2 where rest: "AcceptLoop ts ex = (fin, ex2, l2)" by (metis prod_cases3)
    with idle Cons.prems(1,2) run have "AcceptLoop ts ex = (True, ex', l2)" by simp
    from Cons.IH [OF this Cons.prems(2) later] show ?thesis by simp
  next
    case conn
    obtain ex1 joins where reap: "ReapFinishedWorkers (ac_done t) ex = (ex1, joins)" by fastforce
    obtain fin ex2 l2 where rest: "AcceptLoop ts (spawn_worker ex1) = (fin, ex2, l2)"
      by (metis prod_cases3)
    have keep: "ex_listener (spawn_worker ex1) = ex_listener ex"
      "ex_auth (spawn_worker ex1) = ex_auth ex"
      using reap by (auto simp: ReapFinishedWorkers_def spawn_worker_def)
    have "AcceptLoop ts (spawn_worker ex1) = (True, ex', l2)"
      using Cons.prems(1,2) run conn reap rest by simp
    from Cons.IH [OF this _ later] Cons.prems(2) keep show ?thesis by simp
  qed
qed simp

lemma connect_timeout_bounds:
  assumes "0 < t"
  shows "connect_timeout t = (if t \<le> 2147483 then Returns (t * 1000) else Undefined)"
  using assms by (auto simp: connect_timeout_def int32_times_def int32_range_def INT_MIN_def INT_MAX_def)

lemma lifecycle_resources:
  assumes "kInvalidSocket pl \<notin> F"
    and "\<forall>t \<in> set (da_tries (sa_probe a)) \<union> set (da_tries (sa_dial a)). dt_socket t \<notin> F"
    and "connect_timeout timeout = Returns ms" and "distinct (turn_channels ts)"
    and "SshExporter_Start pl timeout a (make_SshExporter pl auth lh lp rbh rp) = (Returns (), ex1, l1)"
    and "AcceptLoop ts ex1 = (fin, ex2, l2)" and "SshExporter_Close pl ca ex2 = (ex3, l3)"
  shows "resource_run (l1 @ l2 @ l3) (only_fds F) = Some (only_fds F)"
proof -
  from SshExporter_Start_ok [OF assms(1-3), of auth lh lp rbh rp] assms(5)
  have start: "resource_run l1 (only_fds F) = Some (ex_resources pl F {} ex1)"
    and inv: "ex_invariant pl F ex1" and run: "ex_running ex1"
    by (simp_all add: start_ok_def)
  have "accepting pl F ex1" using inv run by (simp add: accepting_def ex_invariant_def)
  from AcceptLoop_ok [OF this assms(4), of "{}"] assms(6) obtain C where
    acc: "resource_run l2 (ex_resources pl F {} ex1) = Some (ex_resources pl F C ex2)"
    and ex2: "accepting pl F ex2"
    by auto
  have "resource_run l3 (ex_resources pl F C ex2) = Some (only_fds F)"
    using SshExporter_Close_resources [of pl F ex2 C ca] ex2 assms(7) by (simp add: accepting_def)
  with start acc show ?thesis by (simp add: resource_run_append)
qed

subsection \<open>What a started export reports\<close>

lemma close_and_throw_throws [simp]: "close_and_throw pl a e ex l \<noteq> (Returns u, ex', l')"
  by (simp add: close_and_throw_def case_prod_beta)

definition export_started :: "start_answers \<Rightarrow> SshExporter \<Rightarrow> SshExporter \<Rightarrow> bool" where
  "export_started a ex ex' \<longleftrightarrow> sa_bound a \<noteq> 0 \<and> ex_running ex' \<and>
     (\<exists>st. ex_attrs ex' = (ex_attrs ex)\<lparr>at_remote_port := sa_bound a, at_status := st\<rparr>)"

lemma start_listen_returns: "start_listen pl a ex = (Returns u, ex', l) \<Longrightarrow> export_started a ex ex'"
  by (auto simp: start_listen_def Let_def export_started_def split: if_splits)

lemma start_auth_returns: "start_auth pl a ex = (Returns u, ex', l) \<Longrightarrow> export_started a ex ex'"
  by (auto simp: start_auth_def Let_def dest: start_listen_returns split: if_splits prod.splits)

lemma export_started_update [simp]:
  "export_started a (ex\<lparr>ex_session := b\<rparr>) ex' = export_started a ex ex'"
  "export_started a (ex\<lparr>ex_ssh_socket := k\<rparr>) ex' = export_started a ex ex'"
  by (simp_all add: export_started_def)

lemma start_session_returns: "start_session pl a ex = (Returns u, ex', l) \<Longrightarrow> export_started a ex ex'"
  by (auto simp: start_session_def Let_def dest!: start_auth_returns
      split: if_splits prod.splits)

lemma start_dial_returns: "start_dial pl ms a ex = (Returns u, ex', l) \<Longrightarrow> export_started a ex ex'"
  by (auto simp: start_dial_def Let_def dest!: start_session_returns
      split: if_splits prod.splits)

lemma SshExporter_Start_returns:
  "SshExporter_Start pl timeout a ex = (Returns u, ex', l) \<Longrightarrow> export_started a ex ex'"
  by (auto simp: SshExporter_Start_def Let_def dest!: start_dial_returns
      split: outcome.splits if_splits prod.splits)

section \<open>Properties\<close>

text \<open>\<open>DialTcp\<close> never leaks a socket: of all the sockets it opened while trying the resolved
  addresses, exactly the one it returns is open afterwards, or none when it reports an error.\<close>

theorem DialTcp_no_leak:
  assumes "\<forall>t \<in> set (da_tries ans). dt_socket t \<notin> live_fds r"
    and "DialTcp pl host port ms ans = (s, err, l)"
  shows "resource_run l r =
      Some (if err = [] then r\<lparr>live_fds := insert s (live_fds r)\<rparr> else r) \<and>
    (err = [] \<longleftrightarrow> SocketValid pl s)"
  using DialTcp_resources [OF assms] by simp

definition demo_try :: "int \<Rightarrow> int \<Rightarrow> dial_try" where
  "demo_try s connect_rc =
     \<lparr>dt_socket = s, dt_connect = connect_rc, dt_errno = 115, dt_select = 0, dt_getsockopt = 0,
      dt_soerr = 0\<rparr>"

definition demo_two_tries :: dial_answers where
  "demo_two_tries = \<lparr>da_gai = 0, da_tries = [demo_try 4 (- 1), demo_try 5 0]\<rparr>"

theorem DialTcp_no_leak_witness:
  "resource_run (snd (snd (DialTcp Linux ''db'' 5432 5000 demo_two_tries))) (only_fds {3}) =
     Some ((only_fds {3})\<lparr>live_fds := {3, 5}\<rparr>)"
proof -
  let ?d = "DialTcp Linux ''db'' 5432 5000 demo_two_tries"
  have d: "?d = (5, [], snd (snd ?d))"
    by (simp add: DialTcp_def demo_two_tries_def demo_try_def Let_def SocketValid_def
        kInvalidSocket_def SocketConnectInProgress_def EINPROGRESS_def)
  have "\<forall>t \<in> set (da_tries demo_two_tries). dt_socket t \<notin> live_fds (only_fds {3})"
    by (simp add: demo_two_tries_def demo_try_def)
  from DialTcp_no_leak [OF this d] show ?thesis by (simp add: insert_commute)
qed

text \<open>\<open>Start\<close> is exception-safe. It makes only legal calls; when it throws, at whatever stage,
  every descriptor, session and listener it acquired is released; when it returns, the exporter
  runs, has its accept thread, and reports the non-zero port the server bound.\<close>

theorem SshExporter_Start_safe:
  assumes "kInvalidSocket pl \<notin> F"
    and "\<forall>t \<in> set (da_tries (sa_probe a)) \<union> set (da_tries (sa_dial a)). dt_socket t \<notin> F"
    and "connect_timeout timeout = Returns ms"
  shows "case SshExporter_Start pl timeout a (make_SshExporter pl auth lh lp rbh rp) of
    (out, ex', l) \<Rightarrow>
      resource_run l (only_fds F) = Some (ex_resources pl F {} ex') \<and> out \<noteq> Undefined \<and>
      (threw out \<longrightarrow> ex_resources pl F {} ex' = only_fds F \<and> \<not> ex_running ex') \<and>
      (returned out \<longrightarrow>
         ex_IsActive ex' \<and> ex_accept_thread ex' \<and> ex_listener ex' \<and>
         BoundRemotePort ex' = sa_bound a \<and> sa_bound a \<noteq> 0)"
  using SshExporter_Start_ok [OF assms, of auth lh lp rbh rp]
  by (auto simp: start_ok_def ex_IsActive_def ex_invariant_def ex_resources_def only_fds_def
      no_resources_def split: prod.splits if_splits)

definition demo_start :: start_answers where
  "demo_start =
     \<lparr>sa_probe = \<lparr>da_gai = 0, da_tries = [demo_try 4 0]\<rparr>,
      sa_dial = \<lparr>da_gai = 0, da_tries = [demo_try 4 0]\<rparr>,
      sa_session_init = True, sa_handshake = 0, sa_userauth_key = 0, sa_userauth_password = - 18,
      sa_listener = True, sa_bound = 0, sa_last_error = None,
      sa_close = \<lparr>ca_start = 0, ca_cancel = [(LIBSSH2_ERROR_EAGAIN, 5), (0, 20)]\<rparr>\<rparr>"

definition demo_auth :: TunnelAuthParams where
  "demo_auth = default_auth_params
     \<lparr>au_ssh_host := ''bastion'', au_ssh_user := ''deploy'', au_auth_method := ''key'',
      au_private_key_path := ''id''\<rparr>"

theorem SshExporter_Start_safe_witness:
  "case SshExporter_Start Linux 5 demo_start (make_SshExporter Linux demo_auth ''localhost'' 5432
      ''localhost'' 0) of (out, ex', l) \<Rightarrow>
   threw out \<and> resource_run l (only_fds {3}) = Some (only_fds {3})"
proof -
  let ?s = "SshExporter_Start Linux 5 demo_start (make_SshExporter Linux demo_auth ''localhost'' 5432
      ''localhost'' 0)"
  have out: "threw (fst ?s)" by code_simp
  have pre: "kInvalidSocket Linux \<notin> {3}" "connect_timeout 5 = Returns 5000"
    "\<forall>t \<in> set (da_tries (sa_probe demo_start)) \<union> set (da_tries (sa_dial demo_start)).
       dt_socket t \<notin> {3}"
    by (simp_all add: kInvalidSocket_def connect_timeout_bounds demo_start_def demo_try_def)
  from SshExporter_Start_safe [OF pre(1,3,2), of demo_auth "''localhost''" 5432 "''localhost''" 0] out
  show ?thesis by (auto split: prod.splits)
qed

text \<open>Over a whole life of an export (start, any number of accepted connections with their
  reaping, close at any moment) no call uses something that is gone, every thread is joined
  exactly once, before the session it uses is freed, and at the end nothing is left.\<close>

theorem SshExporter_lifecycle:
  assumes "kInvalidSocket pl \<notin> F"
    and "\<forall>t \<in> set (da_tries (sa_probe a)) \<union> set (da_tries (sa_dial a)). dt_socket t \<notin> F"
    and "connect_timeout timeout = Returns ms" and "distinct (turn_channels ts)"
    and "SshExporter_Start pl timeout a (make_SshExporter pl auth lh lp rbh rp) = (Returns (), ex1, l1)"
    and "AcceptLoop ts ex1 = (fin, ex2, l2)" and "SshExporter_Close pl ca ex2 = (ex3, l3)"
  shows "resource_run (l1 @ l2 @ l3) (only_fds F) = Some (only_fds F)"
  using assms by (rule lifecycle_resources)

definition demo_start_ok :: start_answers where
  "demo_start_ok = demo_start\<lparr>sa_bound := 40000\<rparr>"

definition demo_accepts :: "accept_turn list" where
  "demo_accepts =
     [\<lparr>ac_running_before = True, ac_running_after = True, ac_channel = Some 0, ac_errno = 0,
       ac_done = []\<rparr>,
      \<lparr>ac_running_before = True, ac_running_after = True, ac_channel = Some 1, ac_errno = 0,
       ac_done = [0]\<rparr>]"

definition demo_started :: start_result where
  "demo_started = SshExporter_Start Linux 5 demo_start_ok
     (make_SshExporter Linux demo_auth ''localhost'' 5432 ''localhost'' 0)"

theorem SshExporter_lifecycle_witness:
  "let ex1 = fst (snd demo_started); (fin, ex2, l2) = AcceptLoop demo_accepts ex1;
       (ex3, l3) = SshExporter_Close Linux (sa_close demo_start) ex2 in
   resource_run (snd (snd demo_started) @ l2 @ l3) (only_fds {3}) = Some (only_fds {3})"
proof -
  have "fst demo_started = Returns ()"
    by (simp add: demo_started_def SshExporter_Start_def start_dial_def start_session_def
        start_auth_def export_authed_def start_listen_def DialTcp_def Let_def connect_timeout_bounds
        demo_start_ok_def demo_start_def demo_try_def demo_auth_def default_auth_params_def
        SocketValid_def kInvalidSocket_def SocketFitsInFdSet_def FD_SETSIZE_def kAuthMethodAgent_def)
  then have st: "SshExporter_Start Linux 5 demo_start_ok (make_SshExporter Linux demo_auth
      ''localhost'' 5432 ''localhost'' 0) = (Returns (), fst (snd demo_started), snd (snd demo_started))"
    unfolding demo_started_def by (metis prod.collapse)
  have pre: "kInvalidSocket Linux \<notin> {3}" "connect_timeout 5 = Returns 5000"
    "\<forall>t \<in> set (da_tries (sa_probe demo_start_ok)) \<union> set (da_tries (sa_dial demo_start_ok)).
       dt_socket t \<notin> {3}" "distinct (turn_channels demo_accepts)"
    by (simp_all add: kInvalidSocket_def connect_timeout_bounds demo_start_ok_def demo_start_def
        demo_try_def demo_accepts_def)
  from SshExporter_lifecycle [OF pre(1,3,2,4) st] show ?thesis
    by (simp add: Let_def split: prod.split)
qed

text \<open>Closing is idempotent: whatever state the exporter is in, a second \<open>Close\<close> makes no call
  at all and changes nothing, and the exporter is not active.\<close>

theorem SshExporter_Close_idempotent:
  "SshExporter_Close pl ca' (fst (SshExporter_Close pl ca ex)) =
     (fst (SshExporter_Close pl ca ex), []) \<and>
   \<not> ex_IsActive (fst (SshExporter_Close pl ca ex)) \<and>
   at_status (ex_GetAttributes (fst (SshExporter_Close pl ca ex))) = ''Closed''"
  using SshExporter_Close_again [of pl ca' ca ex]
  by (simp add: ex_IsActive_def ex_GetAttributes_def) (simp add: SshExporter_Close_def)

text \<open>The cancel loop of \<open>Close\<close> is bounded whatever the server answers: with a sleep of ten
  milliseconds between tries and a deadline of two seconds, it retries at most 200 times.\<close>

theorem cancel_loop_bounded:
  assumes "\<forall>i < length (ca_cancel ca). ca_start ca + 10 * int i \<le> snd (ca_cancel ca ! i)"
  shows "length (cancel_log ca) \<le> 201"
  using cancel_retries_bound [OF assms] by (simp add: cancel_log_def)

theorem cancel_loop_bounded_witness:
  "length (cancel_log \<lparr>ca_start = 0, ca_cancel = [(LIBSSH2_ERROR_EAGAIN, 5), (0, 20)]\<rparr>) \<le> 201"
  by (rule cancel_loop_bounded) (simp add: less_Suc_eq)

text \<open>While nobody clears the running flag, the accept loop ends only because the SSH transport
  died; then the export is inactive and its error message says that the session dropped.\<close>

theorem AcceptLoop_ends_only_on_dead_transport:
  assumes "AcceptLoop ts ex = (True, ex', l)" and "ex_listener ex"
    and "\<forall>t \<in> set ts. ac_running_before t \<and> ac_running_after t"
  shows "\<not> ex_IsActive ex' \<and>
     at_error_message (ex_GetAttributes ex') = msg_session_dropped (au_ssh_host (ex_auth ex)) \<and>
     (\<exists>t \<in> set ts. ac_channel t = None \<and> transport_dead (ac_errno t))"
  using AcceptLoop_ends [OF assms] by (simp add: ex_IsActive_def ex_GetAttributes_def)

definition demo_dead :: "accept_turn list" where
  "demo_dead =
     [\<lparr>ac_running_before = True, ac_running_after = True, ac_channel = None,
       ac_errno = LIBSSH2_ERROR_EAGAIN, ac_done = []\<rparr>,
      \<lparr>ac_running_before = True, ac_running_after = True, ac_channel = None,
       ac_errno = LIBSSH2_ERROR_SOCKET_DISCONNECT, ac_done = []\<rparr>]"

definition demo_listening :: SshExporter where
  "demo_listening = (make_SshExporter Linux demo_auth ''localhost'' 5432 ''localhost'' 0)
     \<lparr>ex_session := True, ex_listener := True, ex_ssh_socket := 4, ex_running := True,
      ex_accept_thread := True\<rparr>"

theorem AcceptLoop_ends_witness:
  "ex_IsActive demo_listening \<and> \<not> ex_IsActive (fst (snd (AcceptLoop demo_dead demo_listening)))"
proof -
  let ?a = "AcceptLoop demo_dead demo_listening"
  have "fst ?a"
    by (simp add: demo_dead_def demo_listening_def transport_dead_def LIBSSH2_ERROR_EAGAIN_def
        LIBSSH2_ERROR_SOCKET_SEND_def LIBSSH2_ERROR_SOCKET_RECV_def
        LIBSSH2_ERROR_SOCKET_DISCONNECT_def)
  then have a: "?a = (True, fst (snd ?a), snd (snd ?a))" by (metis prod.collapse)
  have "ex_listener demo_listening" "ex_IsActive demo_listening"
    by (simp_all add: demo_listening_def ex_IsActive_def)
  moreover have "\<forall>t \<in> set demo_dead. ac_running_before t \<and> ac_running_after t"
    by (simp add: demo_dead_def)
  ultimately show ?thesis using AcceptLoop_ends_only_on_dead_transport [OF a] by blast
qed



end
