(* ===== verification/Ssh_Pump.thy ===== *)
theory Ssh_Pump
  imports Ssh_Exporter
begin

text \<open>
  One connection of an SSH export: \<open>SshExporter::Pump\<close> and \<open>DialLocalService\<close> of
  \<^verbatim>\<open>src/src/ssh_exporter.cpp\<close>. The loop copies bytes both ways between the local service
  and the SSH channel; the properties are about the bytes in its log.
\<close>

section \<open>Definitions\<close>

text \<open>
  One turn: the running flag, the result of \<^verbatim>\<open>select\<close>, the read from the local service, the
  flag and result of every channel write, the read from the channel with its end-of-file test, and
  the turns of \<open>SendAll\<close>.
\<close>

record pump_turn =
  pt_running :: bool
  pt_select :: int
  pt_recv :: recv_result
  pt_writes :: "(bool \<times> int) list"
  pt_read :: recv_result
  pt_eof :: bool
  pt_sends :: "send_turn list"

datatype write_end = WriteDone | WriteFailed | WriteStopped | WritePending

fun channel_write_loop ::
  "nat \<Rightarrow> byte list \<Rightarrow> nat \<Rightarrow> (bool \<times> int) list \<Rightarrow> write_end \<times> log" where
  "channel_write_loop c buf off ws =
     (if \<not> off < length buf then (WriteDone, [])
      else (case ws of
          [] \<Rightarrow> (WritePending, [])
        | (running, w) # ws' \<Rightarrow>
            if \<not> running then (WriteStopped, [])
            else if w = LIBSSH2_ERROR_EAGAIN then
              (let (r, l) = channel_write_loop c buf off ws' in (r, ChannelWrite c [] # l))
            else if w < 0 then (WriteFailed, [ChannelWrite c []])
            else
              (let (r, l) = channel_write_loop c buf (off + nat w) ws'
               in (r, ChannelWrite c (take (nat w) (drop off buf)) # l))))"

declare channel_write_loop.simps [simp del]

datatype pump_end =
    PumpPending
  | PumpStopped
  | PumpLocalEof
  | PumpLocalError
  | PumpWriteFailed
  | PumpChannelEof
  | PumpChannelError
  | PumpSendFailed

text \<open>The first half of a turn; \<open>None\<close> falls through to the second half.\<close>

definition local_to_channel ::
  "platform \<Rightarrow> int \<Rightarrow> nat \<Rightarrow> pump_turn \<Rightarrow> pump_end option \<times> log" where
  "local_to_channel pl local c t =
     (if pt_select t > 0 then
        (case pt_recv t of
           Received [] \<Rightarrow>
             (Some PumpLocalEof, [SelectRead [local], RecvOn local [], ChannelSendEof c])
         | RecvFailed err \<Rightarrow>
             (if \<not> SocketWouldBlock pl err then Some PumpLocalError else None,
              [SelectRead [local], RecvOn local []])
         | Received bs \<Rightarrow>
             (case channel_write_loop c bs 0 (pt_writes t) of
                (WriteFailed, l) \<Rightarrow>
                  (Some PumpWriteFailed, [SelectRead [local], RecvOn local bs] @ l)
              | (WritePending, l) \<Rightarrow>
                  (Some PumpPending, [SelectRead [local], RecvOn local bs] @ l)
              | (_, l) \<Rightarrow> (None, [SelectRead [local], RecvOn local bs] @ l)))
      else (None, [SelectRead [local]]))"

text \<open>The second half; \<open>None\<close> goes on to the next turn.\<close>

definition channel_to_local ::
  "platform \<Rightarrow> int \<Rightarrow> nat \<Rightarrow> pump_turn \<Rightarrow> pump_end option \<times> log" where
  "channel_to_local pl local c t =
     (case pt_read t of
        Received [] \<Rightarrow>
          if pt_eof t then (Some PumpChannelEof, [ChannelRead c [], ShutdownWr local])
          else (None, [ChannelRead c []])
      | RecvFailed cerr \<Rightarrow>
          (if cerr \<noteq> LIBSSH2_ERROR_EAGAIN then Some PumpChannelError else None, [ChannelRead c []])
      | Received bs \<Rightarrow>
          (case SendAll pl local bs (pt_sends t) of
             (None, l) \<Rightarrow> (Some PumpPending, ChannelRead c bs # l)
           | (Some ok, l) \<Rightarrow>
               (if ok then None else Some PumpSendFailed, ChannelRead c bs # l)))"

fun Pump_loop :: "platform \<Rightarrow> int \<Rightarrow> nat \<Rightarrow> pump_turn list \<Rightarrow> pump_end \<times> log" where
  "Pump_loop pl local c [] = (PumpPending, [])"
| "Pump_loop pl local c (t # ts) =
     (if \<not> pt_running t then (PumpStopped, [])
      else (case local_to_channel pl local c t of
          (Some e, l) \<Rightarrow> (e, l)
        | (None, l) \<Rightarrow>
            (case channel_to_local pl local c t of
               (Some e, l') \<Rightarrow> (e, l @ l')
             | (None, l') \<Rightarrow>
                 (let (e, l'') = Pump_loop pl local c ts in (e, l @ l' @ l'')))))"

definition msg_service_refused :: "string \<Rightarrow> int \<Rightarrow> string" where
  "msg_service_refused host port =
     ''tunnel_export: an inbound connection arrived but '' @ host_port host port @
     '' refused it. The exported service stopped or moved; restart it '' @ em_dash @
     '' the export is still listening.''"

definition DialLocalService ::
  "platform \<Rightarrow> dial_answers \<Rightarrow> SshExporter \<Rightarrow> int \<times> SshExporter \<times> log" where
  "DialLocalService pl ans ex =
     (let host = at_local_host (ex_attrs ex); port = at_local_port (ex_attrs ex);
          (s, err, l) = DialTcp pl host port 5000 ans in
      (s,
       if \<not> SocketValid pl s then RecordError (msg_service_refused host port) ex else ex,
       l))"

definition msg_connection_refused_files :: string where
  "msg_connection_refused_files =
     ''tunnel_export: too many open files to serve another exported '' @
     ''connection safely; it was refused. Raise the file-descriptor limit.''"

definition free_channel :: "nat \<Rightarrow> log" where
  "free_channel c = [ChannelClose c, ChannelFree c]"

text \<open>The flag tells whether the connection has ended.\<close>

definition Pump ::
  "platform \<Rightarrow> nat \<Rightarrow> dial_answers \<Rightarrow> pump_turn list \<Rightarrow> SshExporter \<Rightarrow> bool \<times> SshExporter \<times> log" where
  "Pump pl c dial turns ex =
     (let (local, ex1, l) = DialLocalService pl dial ex in
      if \<not> SocketValid pl local then (True, ex1, l @ free_channel c)
      else if \<not> SocketFitsInFdSet pl local then
        (True, RecordError msg_connection_refused_files ex1,
         l @ CloseSocketHandle pl local @ free_channel c)
      else
        (let (e, l') = Pump_loop pl local c turns in
         if e = PumpPending then (False, ex1, l @ [NonBlockingFd local] @ l')
         else
           (True, ex1,
            l @ [NonBlockingFd local] @ l' @ CloseSocketHandle pl local @ free_channel c)))"

text \<open>
  The running flag is only ever cleared while a pump runs. In the order in which a turn reads it,
  a false reading is never followed by a true one.
\<close>

definition stop_seen :: "bool list \<Rightarrow> bool" where
  "stop_seen flags \<longleftrightarrow> False \<in> set flags"

definition turn_flags :: "pump_turn \<Rightarrow> bool list" where
  "turn_flags t = pt_running t # map fst (pt_writes t) @ map st_running (pt_sends t)"

definition flags_monotone :: "pump_turn list \<Rightarrow> bool" where
  "flags_monotone ts = sorted_wrt (\<lambda>a b. b \<longrightarrow> a) (concat (map turn_flags ts))"

section \<open>Lemmas\<close>

lemma stop_seen_simps [simp]:
  "\<not> stop_seen []" "stop_seen (b # bs) \<longleftrightarrow> \<not> b \<or> stop_seen bs"
  "stop_seen (bs @ bs') \<longleftrightarrow> stop_seen bs \<or> stop_seen bs'"
  by (auto simp: stop_seen_def)

lemma channel_write_loop_written:
  "\<exists>rest. drop off buf = channel_written c (snd (channel_write_loop c buf off ws)) @ rest \<and>
     (rest \<noteq> [] \<longrightarrow>
        fst (channel_write_loop c buf off ws) \<in> {WriteFailed, WritePending} \<or>
        fst (channel_write_loop c buf off ws) = WriteStopped \<and> stop_seen (map fst ws))"
proof (induction ws arbitrary: off)
  case Nil
  show ?case by (subst (1 2 3) channel_write_loop.simps) auto
next
  case (Cons rw ws)
  obtain running w where [simp]: "rw = (running, w)" by fastforce
  show ?case
  proof (cases "off < length buf \<and> running \<and> w \<noteq> LIBSSH2_ERROR_EAGAIN \<and> w \<ge> 0")
    case True
    obtain r l where rl: "channel_write_loop c buf (off + nat w) ws = (r, l)" by fastforce
    from Cons.IH [of "off + nat w"] rl obtain rest where rest:
      "drop (off + nat w) buf = channel_written c l @ rest"
      "rest \<noteq> [] \<longrightarrow> r \<in> {WriteFailed, WritePending} \<or> r = WriteStopped \<and> stop_seen (map fst ws)"
      by auto
    have "drop off buf = take (nat w) (drop off buf) @ drop (off + nat w) buf"
      by (metis add.commute append_take_drop_id drop_drop)
    with rest(1) have "drop off buf = take (nat w) (drop off buf) @ channel_written c l @ rest"
      by simp
    with True rl rest(2) show ?thesis
      by (intro exI [of _ rest]) (simp add: channel_write_loop.simps [of _ _ off "_ # _"])
  next
    case False
    then show ?thesis
      using Cons.IH [of off]
      by (auto simp: channel_write_loop.simps [of _ _ off "_ # _"] Let_def
          split: prod.splits if_splits)
  qed
qed

lemma channel_write_loop_log:
  "e \<in> set (snd (channel_write_loop c buf off ws)) \<Longrightarrow> \<exists>bs. e = ChannelWrite c bs"
proof (induction ws arbitrary: off)
  case Nil
  then show ?case by (simp add: channel_write_loop.simps [of _ _ _ "[]"] split: if_splits)
next
  case (Cons rw ws)
  obtain running w where [simp]: "rw = (running, w)" by fastforce
  from Cons.prems Cons.IH [of off] Cons.IH [of "off + nat w"] show ?case
    by (auto simp: channel_write_loop.simps [of _ _ off "_ # _"] Let_def case_prod_beta
        split: if_splits)
qed

lemma channel_write_loop_streams [simp]:
  "received_on f (snd (channel_write_loop c buf off ws)) = []"
  "sent_on f (snd (channel_write_loop c buf off ws)) = []"
  "channel_read d (snd (channel_write_loop c buf off ws)) = []"
  unfolding stream_defs concat_eq_Nil_conv by (auto dest!: channel_write_loop_log)

text \<open>What one half of a turn does to the two streams.\<close>

lemma local_to_channel_streams:
  assumes "local_to_channel pl local c t = (e, l)"
  shows "\<exists>rest. received_on local l = channel_written c l @ rest \<and>
      (rest \<noteq> [] \<longrightarrow> e = Some PumpWriteFailed \<or> e = Some PumpPending \<or>
         stop_seen (map fst (pt_writes t)))"
    and "sent_on local l = []" and "channel_read c l = []"
proof -
  consider (data) b bs where "pt_select t > 0" "pt_recv t = Received (b # bs)"
    | (none) "\<not> (pt_select t > 0 \<and> (\<exists>b bs. pt_recv t = Received (b # bs)))" by blast
  then have "(\<exists>rest. received_on local l = channel_written c l @ rest \<and>
      (rest \<noteq> [] \<longrightarrow> e = Some PumpWriteFailed \<or> e = Some PumpPending \<or>
         stop_seen (map fst (pt_writes t)))) \<and> sent_on local l = [] \<and> channel_read c l = []"
  proof cases
    case data
    obtain r l' where rl: "channel_write_loop c (b # bs) 0 (pt_writes t) = (r, l')" by fastforce
    from channel_write_loop_written [of 0 "b # bs" c "pt_writes t"] rl
    obtain rest where rest: "b # bs = channel_written c l' @ rest"
      "rest \<noteq> [] \<longrightarrow> r \<in> {WriteFailed, WritePending} \<or> r = WriteStopped \<and>
        stop_seen (map fst (pt_writes t))"
      by auto
    have l: "l = [SelectRead [local], RecvOn local (b # bs)] @ l'"
      and e: "e = (case r of WriteFailed \<Rightarrow> Some PumpWriteFailed | WritePending \<Rightarrow> Some PumpPending
        | _ \<Rightarrow> None)"
      using assms data rl by (auto simp: local_to_channel_def split: write_end.splits)
    have "received_on local l' = []" "sent_on local l' = []" "channel_read c l' = []"
      using channel_write_loop_streams [of _ c "b # bs" 0 "pt_writes t"] rl by simp_all
    with l e rest show ?thesis
      by (intro conjI exI [of _ rest]) (auto split: write_end.splits)
  next
    case none
    with assms show ?thesis
      by (auto simp: local_to_channel_def split: recv_result.splits list.splits if_splits)
  qed
  then show "\<exists>rest. received_on local l = channel_written c l @ rest \<and>
      (rest \<noteq> [] \<longrightarrow> e = Some PumpWriteFailed \<or> e = Some PumpPending \<or>
         stop_seen (map fst (pt_writes t)))"
    and "sent_on local l = []" and "channel_read c l = []" by blast+
qed

lemma channel_to_local_streams:
  assumes "channel_to_local pl local c t = (e, l)"
  shows "\<exists>rest. channel_read c l = sent_on local l @ rest \<and>
      (rest \<noteq> [] \<longrightarrow> e = Some PumpSendFailed \<or> e = Some PumpPending)"
    and "received_on local l = []" and "channel_written c l = []"
proof -
  consider (data) b bs where "pt_read t = Received (b # bs)"
    | (none) "\<not> (\<exists>b bs. pt_read t = Received (b # bs))" by blast
  then have "(\<exists>rest. channel_read c l = sent_on local l @ rest \<and>
      (rest \<noteq> [] \<longrightarrow> e = Some PumpSendFailed \<or> e = Some PumpPending)) \<and>
      received_on local l = [] \<and> channel_written c l = []"
  proof cases
    case data
    obtain r l' where rl: "SendAll pl local (b # bs) (pt_sends t) = (r, l')" by fastforce
    from SendAll_loop_sent [of 0 "b # bs" local pl "pt_sends t"] rl
    obtain rest where rest: "b # bs = sent_on local l' @ rest" "r = Some True \<longleftrightarrow> rest = []"
      by (auto simp: SendAll_def)
    have l: "l = ChannelRead c (b # bs) # l'"
      and e: "e = (case r of None \<Rightarrow> Some PumpPending | Some ok \<Rightarrow>
        if ok then None else Some PumpSendFailed)"
      using assms data rl by (auto simp: channel_to_local_def split: option.splits)
    have "received_on local l' = []" "channel_written c l' = []" "channel_read c l' = []"
      using SendAll_streams [where pl = pl and s = local and buf = "b # bs" and turns = "pt_sends t"] rl
      by simp_all
    with l e rest show ?thesis
      by (intro conjI exI [of _ rest]) (simp_all split: option.splits)
  next
    case none
    then consider "pt_read t = Received []" | err where "pt_read t = RecvFailed err"
      by (metis list.exhaust recv_result.exhaust)
    then show ?thesis using assms by cases (auto simp: channel_to_local_def split: if_splits)
  qed
  then show "\<exists>rest. channel_read c l = sent_on local l @ rest \<and>
      (rest \<noteq> [] \<longrightarrow> e = Some PumpSendFailed \<or> e = Some PumpPending)"
    and "received_on local l = []" and "channel_written c l = []" by blast+
qed

lemma Pump_loop_after_stop:
  assumes "flags_monotone (t # ts)" and "stop_seen (map fst (pt_writes t))"
  shows "Pump_loop pl local c ts = (PumpPending, []) \<or> Pump_loop pl local c ts = (PumpStopped, [])"
proof (cases ts)
  case (Cons u us)
  have "sorted_wrt (\<lambda>a b. b \<longrightarrow> a) (turn_flags t @ concat (map turn_flags ts))"
    using assms(1) by (simp only: flags_monotone_def list.map concat.simps)
  then have "\<forall>a \<in> set (turn_flags t). \<forall>b \<in> set (concat (map turn_flags ts)). b \<longrightarrow> a"
    unfolding sorted_wrt_append by blast
  moreover have "False \<in> set (turn_flags t)"
    using assms(2) unfolding stop_seen_def turn_flags_def set_append set_simps by blast
  moreover have "pt_running u \<in> set (concat (map turn_flags ts))"
    unfolding Cons turn_flags_def by (simp only: list.map concat.simps set_append set_simps) blast
  ultimately have "\<not> pt_running u" by blast
  then show ?thesis by (simp add: Cons)
qed simp

lemma flags_monotone_tl: "flags_monotone (t # ts) \<Longrightarrow> flags_monotone ts"
  by (simp add: flags_monotone_def sorted_wrt_append)

text \<open>
  The stream property of a log with the way its loop ended: both directions deliver a prefix of
  what was read, and all of it when no flag was seen cleared and no write failed.
\<close>

definition streams_kept :: "int \<Rightarrow> nat \<Rightarrow> bool list \<Rightarrow> pump_end \<times> log \<Rightarrow> bool" where
  "streams_kept local c flags res \<longleftrightarrow>
     (\<exists>up down.
        received_on local (snd res) = channel_written c (snd res) @ up \<and>
        channel_read c (snd res) = sent_on local (snd res) @ down \<and>
        (\<not> stop_seen flags \<and> fst res \<notin> {PumpWriteFailed, PumpSendFailed, PumpPending} \<longrightarrow>
           up = [] \<and> down = []))"

lemma streams_keptI:
  assumes "received_on local l = channel_written c l @ up"
    and "channel_read c l = sent_on local l @ down"
    and "\<not> stop_seen flags \<Longrightarrow> e \<notin> {PumpWriteFailed, PumpSendFailed, PumpPending} \<Longrightarrow>
      up = [] \<and> down = []"
  shows "streams_kept local c flags (e, l)"
  using assms unfolding streams_kept_def by (intro exI [of _ up] exI [of _ down]) auto

lemma Pump_loop_streams:
  assumes "flags_monotone ts"
  shows "streams_kept local c (concat (map turn_flags ts)) (Pump_loop pl local c ts)"
  using assms
proof (induction ts)
  case Nil
  then show ?case by (auto intro: streams_keptI)
next
  case (Cons t ts)
  obtain e1 l1 where h1: "local_to_channel pl local c t = (e1, l1)" by fastforce
  obtain e2 l2 where h2: "channel_to_local pl local c t = (e2, l2)" by fastforce
  obtain e3 l3 where h3: "Pump_loop pl local c ts = (e3, l3)" by fastforce
  from local_to_channel_streams [OF h1] obtain up1 where
    up1: "received_on local l1 = channel_written c l1 @ up1"
      "up1 \<noteq> [] \<longrightarrow> e1 = Some PumpWriteFailed \<or> e1 = Some PumpPending \<or>
        stop_seen (map fst (pt_writes t))"
    and s1: "sent_on local l1 = []" "channel_read c l1 = []" by blast
  from channel_to_local_streams [OF h2] obtain down2 where
    down2: "channel_read c l2 = sent_on local l2 @ down2"
      "down2 \<noteq> [] \<longrightarrow> e2 = Some PumpSendFailed \<or> e2 = Some PumpPending"
    and s2: "received_on local l2 = []" "channel_written c l2 = []" by blast
  let ?flags = "concat (map turn_flags (t # ts))"
  have flag: "stop_seen ?flags" if "stop_seen (map fst (pt_writes t))"
    using that by (simp add: turn_flags_def)
  consider (stop) "\<not> pt_running t" | (one) e where "pt_running t" "e1 = Some e"
    | (two) e where "pt_running t" "e1 = None" "e2 = Some e"
    | (next_turn) "pt_running t" "e1 = None" "e2 = None" by (cases e1; cases e2) auto
  then show ?case
  proof cases
    case stop
    then show ?thesis by (auto intro: streams_keptI)
  next
    case one
    have "streams_kept local c ?flags (e, l1)"
      by (rule streams_keptI [of _ _ _ up1 "[]"]) (use one up1 s1 flag in auto)
    with one h1 show ?thesis by simp
  next
    case two
    have "streams_kept local c ?flags (e, l1 @ l2)"
      by (rule streams_keptI [of _ _ _ up1 down2]) (use two up1 s1 down2 s2 flag in auto)
    with two h1 h2 show ?thesis by simp
  next
    case next_turn
    then have eq: "Pump_loop pl local c (t # ts) = (e3, l1 @ l2 @ l3)" and d: "down2 = []"
      using h1 h2 h3 down2 by auto
    show ?thesis
    proof (cases "stop_seen (map fst (pt_writes t))")
      case True
      then have "l3 = []" using Pump_loop_after_stop [OF Cons.prems True, of pl local c] h3 by auto
      then show ?thesis unfolding eq
        by (intro streams_keptI [of _ _ _ up1 "[]"]) (use up1 s1 down2 s2 d flag [OF True] in auto)
    next
      case False
      with up1 next_turn have "up1 = []" by auto
      moreover from Cons.IH [OF flags_monotone_tl [OF Cons.prems]] h3
      obtain up down where
        "received_on local l3 = channel_written c l3 @ up" "channel_read c l3 = sent_on local l3 @ down"
        "\<not> stop_seen (concat (map turn_flags ts)) \<longrightarrow>
           e3 \<notin> {PumpWriteFailed, PumpSendFailed, PumpPending} \<longrightarrow> up = [] \<and> down = []"
        by (auto simp: streams_kept_def)
      ultimately show ?thesis unfolding eq
        by (intro streams_keptI [of _ _ _ up down]) (use up1 s1 down2 s2 d in auto)
    qed
  qed
qed

subsection \<open>What a connection holds\<close>

text \<open>The state in which a pump runs: its descriptor and its channel are live.\<close>

definition pumping :: "int \<Rightarrow> nat \<Rightarrow> resources \<Rightarrow> bool" where
  "pumping local c r \<longleftrightarrow> local \<in> live_fds r \<and> live_session r \<and> c \<in> live_channels r"

lemma channel_write_loop_resources:
  assumes "pumping local c r"
  shows "resource_run (snd (channel_write_loop c buf off ws)) r = Some r"
  using assms by (intro resource_run_stutter) (auto simp: pumping_def dest!: channel_write_loop_log)

lemma local_to_channel_resources:
  assumes "pumping local c r"
  shows "resource_run (snd (local_to_channel pl local c t)) r = Some r"
proof (cases "\<exists>b bs. pt_select t > 0 \<and> pt_recv t = Received (b # bs)")
  case True
  then obtain b bs where data: "pt_select t > 0" "pt_recv t = Received (b # bs)" by blast
  have "snd (local_to_channel pl local c t) = [SelectRead [local], RecvOn local (b # bs)] @
      snd (channel_write_loop c (b # bs) 0 (pt_writes t))"
    using data by (auto simp: local_to_channel_def split: write_end.splits prod.splits)
  with assms channel_write_loop_resources [OF assms] show ?thesis by (simp add: pumping_def)
next
  case False
  then have "set (snd (local_to_channel pl local c t)) \<subseteq>
      {SelectRead [local], RecvOn local [], ChannelSendEof c}"
    by (auto simp: local_to_channel_def split: recv_result.splits list.splits if_splits)
  with assms show ?thesis by (intro resource_run_stutter) (auto simp: pumping_def)
qed

lemma channel_to_local_resources:
  assumes "pumping local c r"
  shows "resource_run (snd (channel_to_local pl local c t)) r = Some r"
proof (cases "\<exists>b bs. pt_read t = Received (b # bs)")
  case True
  then obtain b bs where data: "pt_read t = Received (b # bs)" by blast
  have "snd (channel_to_local pl local c t) =
      ChannelRead c (b # bs) # snd (SendAll pl local (b # bs) (pt_sends t))"
    using data by (auto simp: channel_to_local_def split: option.splits prod.splits)
  with assms SendAll_resources [of local r pl] show ?thesis by (simp add: pumping_def)
next
  case False
  then consider "pt_read t = Received []" | err where "pt_read t = RecvFailed err"
    by (metis list.exhaust recv_result.exhaust)
  then show ?thesis using assms by cases (simp_all add: channel_to_local_def pumping_def)
qed

lemma Pump_loop_resources:
  assumes "pumping local c r"
  shows "resource_run (snd (Pump_loop pl local c ts)) r = Some r"
proof (induction ts)
  case (Cons t ts)
  obtain e1 l1 where h1: "local_to_channel pl local c t = (e1, l1)" by fastforce
  obtain e2 l2 where h2: "channel_to_local pl local c t = (e2, l2)" by fastforce
  obtain e3 l3 where h3: "Pump_loop pl local c ts = (e3, l3)" by fastforce
  have "resource_run l1 r = Some r" "resource_run l2 r = Some r" "resource_run l3 r = Some r"
    using local_to_channel_resources [OF assms, of pl t]
      channel_to_local_resources [OF assms, of pl t] Cons.IH
    by (simp_all add: h1 h2 h3)
  then have "resource_run (l1 @ l2) r = Some r" "resource_run (l1 @ l2 @ l3) r = Some r"
    and l1: "resource_run l1 r = Some r"
    by (simp_all add: resource_run_append)
  then show ?case by (cases e1; cases e2) (simp_all add: h1 h2 h3)
qed simp

lemma free_channel_run:
  "live_session r \<Longrightarrow> c \<in> live_channels r \<Longrightarrow>
   resource_run (free_channel c) r = Some (r\<lparr>live_channels := live_channels r - {c}\<rparr>)"
  by (simp add: free_channel_def)

lemma DialLocalService_dial:
  "DialLocalService pl ans ex = (s, ex', l) \<Longrightarrow>
     \<exists>err. DialTcp pl (at_local_host (ex_attrs ex)) (at_local_port (ex_attrs ex)) 5000 ans = (s, err, l)"
  by (auto simp: DialLocalService_def Let_def split: prod.splits)

lemma Pump_resources:
  assumes fresh: "\<forall>t \<in> set (da_tries dial). dt_socket t \<notin> live_fds r"
    and live: "live_session r" "c \<in> live_channels r"
    and run: "Pump pl c dial turns ex = (True, ex', l)"
  shows "resource_run l r = Some (r\<lparr>live_channels := live_channels r - {c}\<rparr>)"
proof -
  obtain s ex1 l1 where dl: "DialLocalService pl dial ex = (s, ex1, l1)" by (metis prod_cases3)
  then obtain err where "DialTcp pl (at_local_host (ex_attrs ex)) (at_local_port (ex_attrs ex)) 5000
      dial = (s, err, l1)" using DialLocalService_dial by blast
  note d = DialTcp_resources [OF fresh this]
  let ?r1 = "r\<lparr>live_fds := insert s (live_fds r)\<rparr>"
  note free = free_channel_run [OF live]
  show ?thesis
  proof (cases "SocketValid pl s")
    case False
    then have "l = l1 @ free_channel c" using run by (simp add: Pump_def dl)
    with d(1) False free show ?thesis by (simp add: resource_run_append)
  next
    case True
    obtain e l2 where lp: "Pump_loop pl s c turns = (e, l2)" by fastforce
    have "pumping s c ?r1" using live by (simp add: pumping_def)
    from Pump_loop_resources [OF this, of pl turns] lp
    have l2: "resource_run l2 ?r1 = Some ?r1" by simp
    have close: "resource_run (CloseSocketHandle pl s) ?r1 = Some r"
      using True d(2) by (simp add: CloseSocketHandle_run)
    have l1: "resource_run l1 r = Some ?r1" using d(1) True by simp
    have "l = l1 @ CloseSocketHandle pl s @ free_channel c \<or>
        l = l1 @ [NonBlockingFd s] @ l2 @ CloseSocketHandle pl s @ free_channel c"
      using run True by (auto simp: Pump_def dl lp split: if_splits)
    then show ?thesis using l1 l2 close free by (auto simp: resource_run_append)
  qed
qed

section \<open>Properties\<close>

text \<open>C25: A connection of an export copies bytes faithfully. In each direction the bytes delivered
  are, in order and without repetition, a prefix of the bytes read; and when the exporter was not
  stopped and no write failed, they are all of them.\<close>

theorem pump_streams:
  assumes "flags_monotone turns"
  shows "\<exists>up down.
     received_on local (snd (Pump_loop pl local c turns)) =
       channel_written c (snd (Pump_loop pl local c turns)) @ up \<and>
     channel_read c (snd (Pump_loop pl local c turns)) =
       sent_on local (snd (Pump_loop pl local c turns)) @ down \<and>
     (\<not> stop_seen (concat (map turn_flags turns)) \<and>
      fst (Pump_loop pl local c turns) \<notin> {PumpWriteFailed, PumpSendFailed, PumpPending} \<longrightarrow>
        up = [] \<and> down = [])"
  using Pump_loop_streams [OF assms] by (simp add: streams_kept_def)

definition pump_demo :: "pump_turn list" where
  "pump_demo =
     [\<lparr>pt_running = True, pt_select = 1, pt_recv = Received [1, 2, 3],
       pt_writes = [(True, 2), (True, LIBSSH2_ERROR_EAGAIN), (True, 1)],
       pt_read = Received [7, 8], pt_eof = False,
       pt_sends = [\<lparr>st_running = True, st_send = 2, st_errno = 0\<rparr>]\<rparr>,
      \<lparr>pt_running = True, pt_select = 0, pt_recv = Received [], pt_writes = [],
       pt_read = Received [], pt_eof = True, pt_sends = []\<rparr>]"

theorem pump_streams_witness:
  "flags_monotone pump_demo \<and>
   (\<exists>up down.
     received_on 5 (snd (Pump_loop Linux 5 0 pump_demo)) =
       channel_written 0 (snd (Pump_loop Linux 5 0 pump_demo)) @ up \<and>
     channel_read 0 (snd (Pump_loop Linux 5 0 pump_demo)) =
       sent_on 5 (snd (Pump_loop Linux 5 0 pump_demo)) @ down \<and>
     (\<not> stop_seen (concat (map turn_flags pump_demo)) \<and>
      fst (Pump_loop Linux 5 0 pump_demo) \<notin> {PumpWriteFailed, PumpSendFailed, PumpPending} \<longrightarrow>
        up = [] \<and> down = []))"
proof -
  have "flags_monotone pump_demo"
    by (simp add: flags_monotone_def pump_demo_def turn_flags_def)
  with pump_streams [OF this, of 5 Linux 0] show ?thesis by blast
qed

text \<open>Whatever way a connection of an export ends (the service refused it, too many files, end
  of stream, an error, a stop), it has made only legal calls, its descriptor is closed and its
  channel freed, and nothing else has changed.\<close>

theorem pump_releases:
  assumes "\<forall>t \<in> set (da_tries dial). dt_socket t \<notin> live_fds r"
    and "live_session r" and "c \<in> live_channels r"
    and "Pump pl c dial turns ex = (True, ex', l)"
  shows "resource_run l r = Some (r\<lparr>live_channels := live_channels r - {c}\<rparr>)"
  using assms by (rule Pump_resources)

definition demo_dial :: "int \<Rightarrow> dial_answers" where
  "demo_dial s = \<lparr>da_gai = 0, da_tries =
     [\<lparr>dt_socket = s, dt_connect = 0, dt_errno = 0, dt_select = 1, dt_getsockopt = 0, dt_soerr = 0\<rparr>]\<rparr>"

definition demo_exporter :: SshExporter where
  "demo_exporter = make_SshExporter Linux default_auth_params ''localhost'' 5432 ''localhost'' 0"

theorem pump_releases_witness:
  "resource_run (snd (snd (Pump Linux 0 (demo_dial 5) pump_demo demo_exporter)))
     \<lparr>live_fds = {3}, live_session = True, live_listener = True, live_channels = {0},
      live_threads = {}\<rparr> =
   Some \<lparr>live_fds = {3}, live_session = True, live_listener = True, live_channels = {},
      live_threads = {}\<rparr>"
proof -
  let ?p = "Pump Linux 0 (demo_dial 5) pump_demo demo_exporter"
  let ?r = "\<lparr>live_fds = {3}, live_session = True, live_listener = True, live_channels = {0},
      live_threads = {}\<rparr>"
  have "fst ?p" by code_simp
  then have p: "?p = (True, fst (snd ?p), snd (snd ?p))" by (metis prod.collapse)
  have "\<forall>t \<in> set (da_tries (demo_dial 5)). dt_socket t \<notin> live_fds ?r"
    by (simp add: demo_dial_def)
  from pump_releases [OF this _ _ p] show ?thesis by simp
qed

end
