(* ===== verification/Ssh_Connection.thy ===== *)
theory Ssh_Connection
  imports Socket_Compat Tunnel_Types "HOL-Library.Sublist"
begin

text \<open>
  The SSH import, from \<^verbatim>\<open>src/src/tunnel_connection.cpp\<close>: the connection object with
  \<open>Connect\<close>, the three ways to authenticate, \<open>TunnelAuthParams::Connect\<close> which combines them, the
  worker that accepts local clients, the forwarding of one client, the self-test and \<open>Close\<close>.

  A descriptor is an \<open>int\<close> and valid when it is not negative, on every platform; the session pointer
  is modelled by whether it is non-null. The forwarding threads are named by the order in which
  they were started and carry what their closure captured: the client descriptor and the channel.
\<close>

section \<open>Definitions\<close>

record TunnelConnection =
  tc_session :: bool
  tc_ssh_socket :: int
  tc_is_connected :: bool
  tc_is_running :: bool
  tc_attributes :: TunnelConnectionAttributes
  tc_worker_thread :: bool
  tc_forward_threads :: "(nat \<times> int \<times> nat) list"
  tc_spawned :: nat

definition new_connection :: TunnelConnection where
  "new_connection =
     \<lparr>tc_session = False, tc_ssh_socket = - 1, tc_is_connected = False, tc_is_running = False,
      tc_attributes = default_attributes, tc_worker_thread = False, tc_forward_threads = [],
      tc_spawned = 0\<rparr>"

text \<open>
  The move constructor: the new object and what is left in the old one. The forwarding threads
  are not moved, and a moved-from string is empty.
\<close>

definition moved_attributes :: "TunnelConnectionAttributes \<Rightarrow> TunnelConnectionAttributes" where
  "moved_attributes a = a
     \<lparr>at_backend := [], at_direction := [], at_ssh_host := [], at_ssh_user := [],
      at_remote_host := [], at_bind_addr := [], at_local_host := [], at_status := [],
      at_error_message := []\<rparr>"

definition move_connection :: "TunnelConnection \<Rightarrow> TunnelConnection \<times> TunnelConnection" where
  "move_connection other =
     (other\<lparr>tc_forward_threads := [], tc_spawned := 0\<rparr>,
      other\<lparr>tc_session := False, tc_ssh_socket := - 1, tc_is_connected := False,
            tc_is_running := False, tc_attributes := moved_attributes (tc_attributes other),
            tc_worker_thread := False\<rparr>)"

definition CloseSocket :: "int \<Rightarrow> log" where
  "CloseSocket s = (if s \<ge> 0 then [CloseFd s] else [])"

definition set_attributes ::
  "(TunnelConnectionAttributes \<Rightarrow> TunnelConnectionAttributes) \<Rightarrow> TunnelConnection \<Rightarrow> TunnelConnection" where
  "set_attributes f conn = conn\<lparr>tc_attributes := f (tc_attributes conn)\<rparr>"

definition set_error :: "string \<Rightarrow> TunnelConnection \<Rightarrow> TunnelConnection" where
  "set_error m = set_attributes (\<lambda>a. a\<lparr>at_error_message := m\<rparr>)"

definition set_status :: "string \<Rightarrow> TunnelConnection \<Rightarrow> TunnelConnection" where
  "set_status m = set_attributes (\<lambda>a. a\<lparr>at_status := m\<rparr>)"

definition SetBindAll :: "bool \<Rightarrow> TunnelConnection \<Rightarrow> TunnelConnection" where
  "SetBindAll bind_all =
     set_attributes (\<lambda>a. a\<lparr>at_bind_addr := (if bind_all then ''0.0.0.0'' else ''127.0.0.1'')\<rparr>)"

definition IsConnected :: "TunnelConnection \<Rightarrow> bool" where
  "IsConnected conn \<longleftrightarrow> tc_is_connected conn \<and> tc_is_running conn"

definition tc_GetAttributes :: "TunnelConnection \<Rightarrow> TunnelConnectionAttributes" where
  "tc_GetAttributes conn = tc_attributes conn"

definition GetErrorMessage :: "TunnelConnection \<Rightarrow> string" where
  "GetErrorMessage conn = at_error_message (tc_attributes conn)"

subsection \<open>Connect\<close>

text \<open>One resolved address: the results of \<^verbatim>\<open>socket\<close> and \<^verbatim>\<open>connect\<close>.\<close>

record connect_try =
  ct_socket :: int
  ct_connect :: int

record connect_answers =
  cn_gai :: int
  cn_gai_strerror :: string
  cn_tries :: "connect_try list"
  cn_session_init :: bool
  cn_handshake :: int

fun connect_loop :: "connect_try list \<Rightarrow> int \<times> log" where
  "connect_loop [] = (- 1, [])"
| "connect_loop (ai # res) =
     (let sock = ct_socket ai in
      if sock < 0 then connect_loop res
      else if ct_connect ai = 0 then (sock, [OpenFd sock, ConnectFd sock])
      else
        (let (s, l) = connect_loop res
         in (s, [OpenFd sock, ConnectFd sock] @ CloseSocket sock @ l)))"

definition msg_resolve :: "string \<Rightarrow> string \<Rightarrow> string" where
  "msg_resolve ssh_host why =
     ''Tunnel: could not resolve SSH host '' @ sq @ ssh_host @ sq @ '': '' @ why @
     ''. Check the host name and DNS.''"

definition msg_connect :: "string \<Rightarrow> int \<Rightarrow> string" where
  "msg_connect ssh_host ssh_port =
     ''Tunnel: failed to connect to SSH host '' @ sq @ ssh_host @ '':'' @ to_string ssh_port @ sq @
     ''. Check the SSH server is running and reachable.''"

definition msg_session_init :: string where
  "msg_session_init =
     ''Failed to initialize SSH session. libssh2 may not be properly installed.''"

definition msg_handshake :: string where
  "msg_handshake =
     ''SSH handshake failed. The server may not support SSH or the connection was interrupted.''"

text \<open>What follows once a socket is connected.\<close>

definition connect_session ::
  "connect_answers \<Rightarrow> TunnelConnection \<Rightarrow> unit outcome \<times> TunnelConnection \<times> log" where
  "connect_session a conn =
     (if \<not> cn_session_init a then
        (Throws (IOException msg_session_init),
         set_error ''Failed to initialize SSH session'' (conn\<lparr>tc_session := False\<rparr>),
         CloseSocket (tc_ssh_socket conn))
      else
        (let conn1 = conn\<lparr>tc_session := True\<rparr> in
         if cn_handshake a \<noteq> 0 then
           (Throws (IOException msg_handshake), set_error ''SSH handshake failed'' conn1,
            [SessionInit, SessionCall] @ CloseSocket (tc_ssh_socket conn))
         else
           (Returns (), set_status kStatusConnected (conn1\<lparr>tc_is_connected := True\<rparr>),
            [SessionInit, SessionCall])))"

definition TunnelConnection_Connect ::
  "connect_answers \<Rightarrow> string \<Rightarrow> int \<Rightarrow> string \<Rightarrow> string \<Rightarrow> int \<Rightarrow> int \<Rightarrow> TunnelConnection \<Rightarrow>
   unit outcome \<times> TunnelConnection \<times> log" where
  "TunnelConnection_Connect a ssh_host ssh_port ssh_user remote_host remote_port local_port conn =
     (case ValidateConnectionParameters ssh_host ssh_port ssh_user remote_host remote_port local_port of
        Returns _ \<Rightarrow>
          (let conn1 = set_attributes (\<lambda>at. at
                 \<lparr>at_ssh_host := ssh_host, at_ssh_port := ssh_port, at_ssh_user := ssh_user,
                  at_remote_host := remote_host, at_remote_port := remote_port,
                  at_local_port := local_port\<rparr>) conn in
           if cn_gai a \<noteq> 0 \<or> cn_tries a = [] then
             (Throws (IOException (msg_resolve ssh_host (cn_gai_strerror a))),
              set_error (''Failed to resolve host: '' @ ssh_host) conn1, [])
           else
             (let (s, l) = connect_loop (cn_tries a); conn2 = conn1\<lparr>tc_ssh_socket := s\<rparr> in
              if s < 0 then
                (Throws (IOException (msg_connect ssh_host ssh_port)),
                 set_error (''Failed to connect to SSH host: '' @ ssh_host @ '':'' @
                   to_string ssh_port) conn2, l)
              else (let (r, conn3, l') = connect_session a conn2 in (r, conn3, l @ l'))))
      | Throws e \<Rightarrow> (Throws e, conn, [])
      | Undefined \<Rightarrow> (Undefined, conn, []))"

subsection \<open>Authentication\<close>

record auth_answers =
  aa_password_rc :: int
  aa_key_file :: bool
  aa_key_rc :: int

definition AuthenticateWithPassword ::
  "auth_answers \<Rightarrow> TunnelConnection \<Rightarrow> bool \<times> TunnelConnection \<times> log" where
  "AuthenticateWithPassword a conn =
     (if \<not> tc_session conn then
        (False, set_error ''No SSH session available for authentication'' conn, [])
      else if aa_password_rc a \<noteq> 0 then
        (False,
         set_error ''SSH password authentication failed. Check username and password.'' conn,
         [SessionCall])
      else (True, set_status kStatusAuthenticated conn, [SessionCall]))"

definition AuthenticateWithKey ::
  "auth_answers \<Rightarrow> string \<Rightarrow> TunnelConnection \<Rightarrow> bool \<times> TunnelConnection \<times> log" where
  "AuthenticateWithKey a private_key_path conn =
     (if \<not> tc_session conn then
        (False, set_error ''No SSH session available for key authentication'' conn, [])
      else if \<not> aa_key_file a then
        (False, set_error (''Failed to open private key file: '' @ private_key_path) conn, [])
      else if aa_key_rc a \<noteq> 0 then
        (False,
         set_error (''SSH key authentication failed. Check if the private key is valid and the '' @
           ''passphrase is correct.'') conn,
         [SessionCall])
      else (True, set_status kStatusAuthenticated conn, [SessionCall]))"

definition msg_agent :: string where
  "msg_agent =
     ''SSH agent authentication is not supported. Use auth_method '' @ sq @ ''key'' @ sq @
     '' or '' @ sq @ ''password'' @ sq @
     '' instead (set private_key_path/passphrase, or password, on the secret).''"

definition AuthenticateWithAgent :: "TunnelConnection \<Rightarrow> bool \<times> TunnelConnection \<times> log" where
  "AuthenticateWithAgent conn =
     (if \<not> tc_session conn then
        (False, set_error ''No SSH session available for agent authentication'' conn, [])
      else (False, set_error msg_agent conn, []))"

definition authenticate ::
  "auth_answers \<Rightarrow> TunnelAuthParams \<Rightarrow> TunnelConnection \<Rightarrow> bool \<times> TunnelConnection \<times> log" where
  "authenticate a auth conn =
     (if au_auth_method auth = kAuthMethodPassword \<and> au_password auth \<noteq> [] then
        AuthenticateWithPassword a conn
      else if au_auth_method auth = kAuthMethodKey \<and> au_private_key_path auth \<noteq> [] then
        AuthenticateWithKey a (au_private_key_path auth) conn
      else if au_auth_method auth = kAuthMethodAgent then AuthenticateWithAgent conn
      else (False, conn, []))"

subsection \<open>Workers and Close\<close>

definition StartWorker :: "TunnelConnection \<Rightarrow> TunnelConnection \<times> log" where
  "StartWorker conn =
     (conn\<lparr>tc_is_running := True, tc_worker_thread := True\<rparr>, [SpawnThread AcceptThread])"

definition StopWorker :: "TunnelConnection \<Rightarrow> TunnelConnection \<times> log" where
  "StopWorker conn =
     (conn\<lparr>tc_is_running := False, tc_worker_thread := False\<rparr>,
      if tc_worker_thread conn then [JoinThread AcceptThread] else [])"

definition TunnelConnection_Close :: "TunnelConnection \<Rightarrow> TunnelConnection \<times> log" where
  "TunnelConnection_Close conn =
     (set_status kStatusClosed
        (conn\<lparr>tc_is_running := False, tc_worker_thread := False, tc_forward_threads := [],
              tc_session := False,
              tc_ssh_socket := (if tc_ssh_socket conn \<ge> 0 then - 1 else tc_ssh_socket conn),
              tc_is_connected := False\<rparr>),
      (if tc_ssh_socket conn \<ge> 0 then [ShutdownWr (tc_ssh_socket conn)] else []) @
      (if tc_worker_thread conn then [JoinThread AcceptThread] else []) @
      join_pumps (map fst (tc_forward_threads conn)) @
      (if tc_session conn then [SessionCall, SessionCall, SessionFree] else []) @
      CloseSocket (tc_ssh_socket conn))"

text \<open>
  \<^verbatim>\<open>TunnelAuthParams::Connect\<close>. A connection that is not returned is destroyed, and its
  destructor closes it.
\<close>

definition AuthParams_Connect ::
  "connect_answers \<Rightarrow> auth_answers \<Rightarrow> TunnelAuthParams \<Rightarrow> string \<Rightarrow> int \<Rightarrow> int \<Rightarrow>
   TunnelConnection outcome \<times> log" where
  "AuthParams_Connect a b auth remote_host remote_port local_port =
     (let (r, conn, l) = TunnelConnection_Connect a (au_ssh_host auth) (au_ssh_port auth)
                (au_ssh_user auth) remote_host remote_port local_port new_connection in
      case r of
        Returns _ \<Rightarrow>
          (let (auth_success, conn1, l1) = authenticate b auth conn in
           if \<not> auth_success then
             (Throws (IOException (''Failed to authenticate tunnel connection: '' @
                GetErrorMessage conn1)),
              l @ l1 @ snd (TunnelConnection_Close conn1))
           else (Returns conn1, l @ l1))
      | Throws e \<Rightarrow> (Throws e, l @ snd (TunnelConnection_Close conn))
      | Undefined \<Rightarrow> (Undefined, l))"

subsection \<open>The self-test\<close>

text \<open>
  One turn: milliseconds since the start, the running flag, and the results of \<^verbatim>\<open>socket\<close>,
  \<^verbatim>\<open>connect\<close> with its error code, \<^verbatim>\<open>select\<close>, \<^verbatim>\<open>getsockopt\<close> and the value it read.
\<close>

record test_turn =
  tt_elapsed :: int
  tt_running :: bool
  tt_socket :: int
  tt_connect :: int
  tt_errno :: int
  tt_select :: int
  tt_getsockopt :: int
  tt_error :: int

definition test_reached :: "platform \<Rightarrow> test_turn \<Rightarrow> bool" where
  "test_reached pl t \<longleftrightarrow>
     tt_connect t = 0 \<or>
     SocketConnectInProgress pl (tt_errno t) \<and> tt_select t > 0 \<and>
     tt_getsockopt t = 0 \<and> tt_error t = 0"

definition test_calls :: "platform \<Rightarrow> test_turn \<Rightarrow> log" where
  "test_calls pl t =
     [OpenFd (tt_socket t), NonBlockingFd (tt_socket t), ConnectFd (tt_socket t)] @
     (if tt_connect t \<noteq> 0 \<and> SocketConnectInProgress pl (tt_errno t)
      then [SelectWrite (tt_socket t) 1 0] else []) @
     CloseSocket (tt_socket t)"

fun TestTunnelConnection :: "platform \<Rightarrow> int \<Rightarrow> test_turn list \<Rightarrow> bool option \<times> log" where
  "TestTunnelConnection pl timeout_seconds [] = (None, [])"
| "TestTunnelConnection pl timeout_seconds (t # ts) =
     (if \<not> tt_elapsed t < timeout_seconds * 1000 then (Some False, [])
      else if \<not> tt_running t \<or> tt_socket t < 0 then TestTunnelConnection pl timeout_seconds ts
      else if test_reached pl t then (Some True, test_calls pl t)
      else
        (let (r, l) = TestTunnelConnection pl timeout_seconds ts in (r, test_calls pl t @ l)))"

subsection \<open>Accepting clients\<close>

record worker_turn =
  wt_running :: bool
  wt_select :: int
  wt_accept :: int
  wt_errno :: int
  wt_running_after :: bool
  wt_channel :: "nat option"

record worker_answers =
  wk_socket :: int
  wk_bind :: int
  wk_listen :: int
  wk_turns :: "worker_turn list"

definition spawn_forward :: "int \<Rightarrow> nat \<Rightarrow> TunnelConnection \<Rightarrow> TunnelConnection" where
  "spawn_forward client c conn =
     conn\<lparr>tc_forward_threads := tc_forward_threads conn @ [(tc_spawned conn, client, c)],
          tc_spawned := Suc (tc_spawned conn)\<rparr>"

text \<open>The flag tells whether the loop has ended.\<close>

fun worker_loop ::
  "platform \<Rightarrow> int \<Rightarrow> worker_turn list \<Rightarrow> TunnelConnection \<Rightarrow> bool \<times> TunnelConnection \<times> log" where
  "worker_loop pl ls [] conn = (False, conn, [])"
| "worker_loop pl ls (t # ts) conn =
     (if \<not> wt_running t then (True, conn, [])
      else if wt_select t < 0 then (True, conn, [SelectRead [ls]])
      else if wt_select t = 0 then
        (let (fin, conn', l) = worker_loop pl ls ts conn in (fin, conn', SelectRead [ls] # l))
      else if wt_accept t < 0 then
        (if SocketWouldBlock pl (wt_errno t) then
           (let (fin, conn', l) = worker_loop pl ls ts conn in (fin, conn', SelectRead [ls] # l))
         else (True, conn, [SelectRead [ls]]))
      else if \<not> wt_running_after t then
        (True, conn, [SelectRead [ls], OpenFd (wt_accept t)] @ CloseSocket (wt_accept t))
      else (case wt_channel t of
          None \<Rightarrow>
            (let (fin, conn', l) = worker_loop pl ls ts
                   (set_error ''Failed to create SSH channel for port forwarding'' conn)
             in (fin, conn',
                 [SelectRead [ls], OpenFd (wt_accept t), SessionCall] @
                 CloseSocket (wt_accept t) @ l))
        | Some c \<Rightarrow>
            (let (fin, conn', l) = worker_loop pl ls ts (spawn_forward (wt_accept t) c conn)
             in (fin, conn',
                 [SelectRead [ls], OpenFd (wt_accept t), ChannelOpen c,
                  SpawnThread (PumpThread (tc_spawned conn))] @ l))))"

definition msg_bind_port :: "int \<Rightarrow> string" where
  "msg_bind_port port =
     ''Failed to bind to port '' @ to_string port @
     ''. Port may be in use or insufficient permissions.''"

definition worker_open :: "TunnelConnection \<Rightarrow> int \<Rightarrow> log" where
  "worker_open conn ls =
     [OpenFd ls, NonBlockingFd ls,
      BindFd ls (at_bind_addr (tc_attributes conn)) (at_local_port (tc_attributes conn) mod 65536)]"

definition WorkerFunction ::
  "platform \<Rightarrow> worker_answers \<Rightarrow> TunnelConnection \<Rightarrow> bool \<times> TunnelConnection \<times> log" where
  "WorkerFunction pl a conn =
     (let port = at_local_port (tc_attributes conn); ls = wk_socket a;
          conn1 = set_status (''Starting tunnel on port '' @ to_string port) conn in
      if ls < 0 then
        (True, set_status kStatusError
           (set_error ''Failed to create listening socket for tunnel'' conn1), [])
      else if wk_bind a \<noteq> 0 then
        (True, set_status kStatusError (set_error (msg_bind_port port) conn1),
         worker_open conn1 ls @ CloseSocket ls)
      else if wk_listen a \<noteq> 0 then
        (True, set_status kStatusError
           (set_error (''Failed to listen on port '' @ to_string port) conn1),
         worker_open conn1 ls @ [ListenFd ls] @ CloseSocket ls)
      else
        (let (fin, conn2, l) = worker_loop pl ls (wk_turns a)
               (set_status (kStatusListening @ '' on port '' @ to_string port) conn1) in
         if fin then
           (True, set_status ''Tunnel stopped'' conn2,
            worker_open conn1 ls @ [ListenFd ls] @ l @ CloseSocket ls)
         else (False, conn2, worker_open conn1 ls @ [ListenFd ls] @ l)))"

subsection \<open>Forwarding one client\<close>

text \<open>
  One turn: the running flag, \<^verbatim>\<open>select\<close>, the read from the client, every channel write with
  the flag before it, its result and libssh2's last error, the read from the channel with its
  end-of-file test, and every send with the flag before it.
\<close>

record forward_turn =
  fw_running :: bool
  fw_select :: int
  fw_recv :: recv_result
  fw_writes :: "(bool \<times> int \<times> int) list"
  fw_read :: recv_result
  fw_eof :: bool
  fw_sends :: "(bool \<times> int) list"

datatype forward_end =
    FwPending
  | FwStopped
  | FwClientEnd
  | FwWriteFailed
  | FwSendFailed
  | FwChannelEof
  | FwChannelError

datatype forward_step = FwContinue | FwGoto forward_end | FwWait

fun forward_writes ::
  "nat \<Rightarrow> byte list \<Rightarrow> nat \<Rightarrow> (bool \<times> int \<times> int) list \<Rightarrow> forward_step \<times> log" where
  "forward_writes c buf written ws =
     (if \<not> written < length buf then (FwContinue, [])
      else (case ws of
          [] \<Rightarrow> (FwWait, [])
        | (running, rc, err) # ws' \<Rightarrow>
            if \<not> running then (FwContinue, [])
            else if rc < 0 then
              (if err \<noteq> LIBSSH2_ERROR_EAGAIN then (FwGoto FwWriteFailed, [ChannelWrite c []])
               else (FwContinue, [ChannelWrite c []]))
            else
              (let (r, l) = forward_writes c buf (written + nat rc) ws'
               in (r, ChannelWrite c (take (nat rc) (drop written buf)) # l))))"

fun forward_sends ::
  "int \<Rightarrow> byte list \<Rightarrow> nat \<Rightarrow> (bool \<times> int) list \<Rightarrow> forward_step \<times> log" where
  "forward_sends s buf written ws =
     (if \<not> written < length buf then (FwContinue, [])
      else (case ws of
          [] \<Rightarrow> (FwWait, [])
        | (running, rc) # ws' \<Rightarrow>
            if \<not> running then (FwContinue, [])
            else if rc < 0 then (FwGoto FwSendFailed, [SendOn s []])
            else
              (let (r, l) = forward_sends s buf (written + nat rc) ws'
               in (r, SendOn s (take (nat rc) (drop written buf)) # l))))"

declare forward_writes.simps [simp del] forward_sends.simps [simp del]

definition forward_up :: "int \<Rightarrow> nat \<Rightarrow> forward_turn \<Rightarrow> forward_step \<times> log" where
  "forward_up s c t =
     (if fw_select t > 0 then
        (case fw_recv t of
           Received (b # bs) \<Rightarrow>
             (let (r, l) = forward_writes c (b # bs) 0 (fw_writes t)
              in (r, [SelectRead [s], RecvOn s (b # bs)] @ l))
         | _ \<Rightarrow> (FwGoto FwClientEnd, [SelectRead [s], RecvOn s []]))
      else (FwContinue, [SelectRead [s]]))"

definition forward_down :: "int \<Rightarrow> nat \<Rightarrow> forward_turn \<Rightarrow> forward_step \<times> log" where
  "forward_down s c t =
     (case fw_read t of
        Received (b # bs) \<Rightarrow>
          (let (r, l) = forward_sends s (b # bs) 0 (fw_sends t)
           in (r, ChannelRead c (b # bs) # l))
      | Received [] \<Rightarrow> (if fw_eof t then FwGoto FwChannelEof else FwContinue, [ChannelRead c []])
      | RecvFailed err \<Rightarrow>
          (if err \<noteq> LIBSSH2_ERROR_EAGAIN then FwGoto FwChannelError else FwContinue, [ChannelRead c []]))"

fun forward_loop :: "int \<Rightarrow> nat \<Rightarrow> forward_turn list \<Rightarrow> forward_end \<times> log" where
  "forward_loop s c [] = (FwPending, [])"
| "forward_loop s c (t # ts) =
     (if \<not> fw_running t then (FwStopped, [])
      else (case forward_up s c t of
          (FwGoto e, l) \<Rightarrow> (e, l)
        | (FwWait, l) \<Rightarrow> (FwPending, l)
        | (FwContinue, l) \<Rightarrow>
            (case forward_down s c t of
               (FwGoto e, l') \<Rightarrow> (e, l @ l')
             | (FwWait, l') \<Rightarrow> (FwPending, l @ l')
             | (FwContinue, l') \<Rightarrow>
                 (let (e, l'') = forward_loop s c ts in (e, l @ l' @ l'')))))"

text \<open>The flag tells whether the client has been served to its end.\<close>

definition ForwardData :: "int \<Rightarrow> nat \<Rightarrow> forward_turn list \<Rightarrow> bool \<times> log" where
  "ForwardData s c turns =
     (let (e, l) = forward_loop s c turns in
      if e = FwPending then (False, NonBlockingFd s # l)
      else (True, NonBlockingFd s # l @ CloseSocket s @ [ChannelFree c]))"

section \<open>What the connection holds\<close>

definition tc_resources :: "int set \<Rightarrow> nat set \<Rightarrow> TunnelConnection \<Rightarrow> resources" where
  "tc_resources F C conn =
     \<lparr>live_fds = F \<union> (if tc_ssh_socket conn \<ge> 0 then {tc_ssh_socket conn} else {}),
      live_session = tc_session conn, live_listener = False, live_channels = C,
      live_threads = (if tc_worker_thread conn then {AcceptThread} else {}) \<union>
        PumpThread ` fst ` set (tc_forward_threads conn)\<rparr>"

definition tc_invariant :: "int set \<Rightarrow> TunnelConnection \<Rightarrow> bool" where
  "tc_invariant F conn \<longleftrightarrow>
     tc_ssh_socket conn \<notin> F \<and>
     (tc_session conn \<longrightarrow> tc_ssh_socket conn \<ge> 0) \<and>
     (tc_is_connected conn \<longrightarrow> tc_session conn) \<and>
     distinct (map fst (tc_forward_threads conn)) \<and>
     (\<forall>w \<in> set (tc_forward_threads conn). fst w < tc_spawned conn)"

section \<open>Lemmas\<close>

lemma set_attributes_simps [simp]:
  "tc_session (set_attributes f conn) = tc_session conn"
  "tc_ssh_socket (set_attributes f conn) = tc_ssh_socket conn"
  "tc_is_connected (set_attributes f conn) = tc_is_connected conn"
  "tc_is_running (set_attributes f conn) = tc_is_running conn"
  "tc_worker_thread (set_attributes f conn) = tc_worker_thread conn"
  "tc_forward_threads (set_attributes f conn) = tc_forward_threads conn"
  "tc_spawned (set_attributes f conn) = tc_spawned conn"
  "tc_attributes (set_attributes f conn) = f (tc_attributes conn)"
  by (simp_all add: set_attributes_def)

lemma set_attributes_id [simp]: "set_attributes id conn = conn"
  by (simp add: set_attributes_def)

lemma set_attributes_holds [simp]:
  "tc_resources F C (set_attributes f conn) = tc_resources F C conn"
  "tc_invariant F (set_attributes f conn) = tc_invariant F conn"
  by (simp_all add: tc_resources_def tc_invariant_def)

lemmas set_defs = set_error_def set_status_def

lemma CloseSocket_run:
  assumes "s \<ge> 0" and "s \<in> live_fds r"
  shows "resource_run (CloseSocket s) r = Some (r\<lparr>live_fds := live_fds r - {s}\<rparr>)"
  using assms by (simp add: CloseSocket_def)

lemma connect_loop_resources:
  assumes "\<forall>t \<in> set tries. ct_socket t \<notin> live_fds r"
  shows "case connect_loop tries of (s, l) \<Rightarrow>
     resource_run l r = Some (if s \<ge> 0 then r\<lparr>live_fds := insert s (live_fds r)\<rparr> else r) \<and>
     (s \<ge> 0 \<longrightarrow> s \<notin> live_fds r)"
  using assms
proof (induction tries)
  case (Cons a tries)
  obtain s l where rest: "connect_loop tries = (s, l)" by fastforce
  have closed: "resource_run (CloseSocket (ct_socket a))
      (r\<lparr>live_fds := insert (ct_socket a) (live_fds r)\<rparr>) = Some r" if "ct_socket a \<ge> 0"
    using that Cons.prems by (simp add: CloseSocket_run)
  from Cons closed rest show ?case
    by (cases "ct_socket a < 0"; cases "ct_connect a = 0") (simp_all add: Let_def resource_run_append)
qed simp

lemma TunnelConnection_Close_resources:
  assumes inv: "tc_invariant F conn" and C: "tc_session conn \<or> C = {}"
  shows "resource_run (snd (TunnelConnection_Close conn)) (tc_resources F C conn) =
    Some (only_fds F)"
proof -
  let ?s = "tc_ssh_socket conn" and ?ws = "map fst (tc_forward_threads conn)"
  define r1 where "r1 = (tc_resources F C conn)\<lparr>live_threads := {}\<rparr>"
  define l1 where "l1 = (if ?s \<ge> 0 then [ShutdownWr ?s] else []) @
    (if tc_worker_thread conn then [JoinThread AcceptThread] else []) @ join_pumps ?ws"
  have joins: "resource_run l1 (tc_resources F C conn) = Some r1"
    using inv
    by (auto simp: l1_def r1_def resource_run_join_pumps tc_resources_def tc_invariant_def
        intro!: resources_eqI)
  define l2 where "l2 = (if tc_session conn then [SessionCall, SessionCall, SessionFree] else [])"
  define r2 where "r2 = (only_fds F)\<lparr>live_fds := live_fds r1\<rparr>"
  have frees: "resource_run l2 r1 = Some r2"
    using C by (auto simp: l2_def r1_def r2_def tc_resources_def intro!: resources_eqI)
  have closes: "resource_run (CloseSocket ?s) r2 = Some (only_fds F)"
    using inv
    by (auto simp: r2_def r1_def CloseSocket_def tc_resources_def tc_invariant_def
        intro!: resources_eqI)
  have "snd (TunnelConnection_Close conn) = l1 @ l2 @ CloseSocket ?s"
    by (simp add: TunnelConnection_Close_def l1_def l2_def)
  with joins frees closes show ?thesis by (simp add: resource_run_append)
qed

lemma TunnelConnection_Close_again:
  "TunnelConnection_Close (fst (TunnelConnection_Close conn)) =
     (fst (TunnelConnection_Close conn), [])"
  by (simp add: TunnelConnection_Close_def CloseSocket_def join_pumps_def set_defs set_attributes_def)

lemma new_connection_holds [simp]:
  "tc_resources F {} new_connection = only_fds F"
  "- 1 \<notin> F \<Longrightarrow> tc_invariant F new_connection"
  by (auto simp: new_connection_def tc_resources_def tc_invariant_def intro!: resources_eqI)

subsection \<open>Binding\<close>

text \<open>Only the worker binds, and to the address and port of the attributes.\<close>

lemma CloseSocket_binds [simp]: "binds (CloseSocket s) = []"
  by (simp add: CloseSocket_def)

lemma connect_loop_binds [simp]: "binds (snd (connect_loop tries)) = []"
  by (induction tries) (simp_all add: Let_def case_prod_beta)

lemma Connect_binds [simp]:
  "binds (snd (snd (TunnelConnection_Connect a sh sp su rh rp lp conn))) = []"
  by (cases "ValidateConnectionParameters sh sp su rh rp lp")
    (simp_all add: TunnelConnection_Connect_def connect_session_def Let_def case_prod_beta)

lemma authenticate_binds [simp]: "binds (snd (snd (authenticate b auth conn))) = []"
  by (simp add: authenticate_def AuthenticateWithPassword_def AuthenticateWithKey_def
      AuthenticateWithAgent_def)

lemma TunnelConnection_Close_binds [simp]: "binds (snd (TunnelConnection_Close conn)) = []"
  by (simp add: TunnelConnection_Close_def)

lemma TestTunnelConnection_binds [simp]: "binds (snd (TestTunnelConnection pl timeout ts)) = []"
  by (induction ts) (simp_all add: Let_def case_prod_beta test_calls_def)

lemma worker_loop_binds: "binds (snd (snd (worker_loop pl ls ts conn))) = []"
  by (induction ts arbitrary: conn) (simp_all add: Let_def case_prod_beta split: option.split)

lemma WorkerFunction_binds:
  "set (binds (snd (snd (WorkerFunction pl a conn)))) \<subseteq>
     {(at_bind_addr (tc_attributes conn), at_local_port (tc_attributes conn) mod 65536)}"
  by (simp add: WorkerFunction_def worker_open_def Let_def case_prod_beta worker_loop_binds set_defs)

subsection \<open>Connecting\<close>

text \<open>
  The attempts that reach the SSH server and then fail before authentication. There \<open>Connect\<close>
  closes its socket but leaves the descriptor in the object.
\<close>

definition ssh_stage_failed ::
  "connect_answers \<Rightarrow> TunnelAuthParams \<Rightarrow> string \<Rightarrow> int \<Rightarrow> int \<Rightarrow> bool" where
  "ssh_stage_failed a auth remote_host remote_port local_port \<longleftrightarrow>
     ValidateConnectionParameters (au_ssh_host auth) (au_ssh_port auth) (au_ssh_user auth)
       remote_host remote_port local_port = Returns () \<and>
     cn_gai a = 0 \<and> fst (connect_loop (cn_tries a)) \<ge> 0 \<and>
     (\<not> cn_session_init a \<or> cn_handshake a \<noteq> 0)"

definition connect_post :: "int set \<Rightarrow> bool \<Rightarrow> unit outcome \<times> TunnelConnection \<times> log \<Rightarrow> bool" where
  "connect_post F failed res \<longleftrightarrow>
     (case res of (r, conn, l) \<Rightarrow>
        r \<noteq> Undefined \<and>
        (if failed then
           threw r \<and> tc_ssh_socket conn \<ge> 0 \<and>
           (\<exists>r1. resource_run l (only_fds F) = Some r1 \<and> tc_ssh_socket conn \<notin> live_fds r1)
         else
           resource_run l (only_fds F) = Some (tc_resources F {} conn) \<and> tc_invariant F conn \<and>
           (returned r \<longrightarrow> tc_session conn \<and> tc_is_connected conn)))"

lemma connect_session_post:
  assumes "s \<ge> 0" and "s \<notin> F" and "resource_run l (only_fds F) = Some ((only_fds F)\<lparr>live_fds := insert s F\<rparr>)"
    and conn: "tc_ssh_socket conn = s" "\<not> tc_session conn" "\<not> tc_is_connected conn"
      "\<not> tc_worker_thread conn" "tc_forward_threads conn = []"
  shows "connect_post F (\<not> cn_session_init a \<or> cn_handshake a \<noteq> 0)
    (let (r, conn', l') = connect_session a conn in (r, conn', l @ l'))"
proof (cases "cn_session_init a \<and> cn_handshake a = 0")
  case True
  have "resource_run [SessionInit, SessionCall] ((only_fds F)\<lparr>live_fds := insert s F\<rparr>) =
      Some (tc_resources F {} (conn\<lparr>tc_session := True, tc_is_connected := True\<rparr>))"
    using assms by (auto simp: tc_resources_def intro!: resources_eqI)
  with True assms show ?thesis
    by (simp add: connect_post_def connect_session_def Let_def resource_run_append set_defs
        tc_invariant_def del: resource_run.simps)
next
  case False
  with assms show ?thesis
    by (auto simp: connect_post_def connect_session_def Let_def resource_run_append set_defs
        CloseSocket_def)
qed

lemma connect_loop_negative: "connect_loop tries = (s, l) \<Longrightarrow> s < 0 \<Longrightarrow> s = - 1"
  by (induction tries arbitrary: l) (auto simp: Let_def split: if_splits prod.splits)

lemma TunnelConnection_Connect_post:
  assumes no: "- 1 \<notin> F" and fresh: "\<forall>t \<in> set (cn_tries a). ct_socket t \<notin> F"
  shows "connect_post F (ssh_stage_failed a auth rh rp lp)
    (TunnelConnection_Connect a (au_ssh_host auth) (au_ssh_port auth) (au_ssh_user auth) rh rp lp
       (set_attributes f new_connection))"
proof -
  let ?v = "ValidateConnectionParameters (au_ssh_host auth) (au_ssh_port auth) (au_ssh_user auth) rh rp lp"
  obtain s l where cl: "connect_loop (cn_tries a) = (s, l)" by fastforce
  have "\<forall>t \<in> set (cn_tries a). ct_socket t \<notin> live_fds (only_fds F)" using fresh by simp
  from connect_loop_resources [OF this] cl
  have run: "resource_run l (only_fds F) =
      Some (if s \<ge> 0 then (only_fds F)\<lparr>live_fds := insert s F\<rparr> else only_fds F)"
    and notF: "s \<ge> 0 \<Longrightarrow> s \<notin> F"
    by simp_all
  have neg: "s < 0 \<Longrightarrow> s = - 1" using connect_loop_negative [OF cl] .
  consider (invalid) e where "?v = Throws e" | (unresolved) "?v = Returns ()"
      "cn_gai a \<noteq> 0 \<or> cn_tries a = []"
    | (unreachable) "?v = Returns ()" "cn_gai a = 0" "cn_tries a \<noteq> []" "s < 0"
    | (reached) "?v = Returns ()" "cn_gai a = 0" "cn_tries a \<noteq> []" "s \<ge> 0"
    by (cases ?v; cases "s < 0"; cases "cn_gai a = 0"; cases "cn_tries a = []") auto
  then show ?thesis
  proof cases
    case invalid
    then show ?thesis using no
      by (simp add: TunnelConnection_Connect_def connect_post_def ssh_stage_failed_def)
  next
    case unresolved
    then show ?thesis using no
      by (auto simp: TunnelConnection_Connect_def connect_post_def ssh_stage_failed_def Let_def
          set_defs)
  next
    case unreachable
    have "tc_resources F {} (new_connection\<lparr>tc_ssh_socket := - 1\<rparr>) = only_fds F"
      "tc_invariant F (new_connection\<lparr>tc_ssh_socket := - 1\<rparr>)"
      using no by (auto simp: new_connection_def tc_resources_def tc_invariant_def
          intro!: resources_eqI)
    then show ?thesis using unreachable cl run neg
      by (simp add: TunnelConnection_Connect_def connect_post_def ssh_stage_failed_def Let_def
          set_defs tc_resources_def tc_invariant_def new_connection_def)
  next
    case reached
    let ?conn = "(set_attributes (\<lambda>at. at
        \<lparr>at_ssh_host := au_ssh_host auth, at_ssh_port := au_ssh_port auth,
         at_ssh_user := au_ssh_user auth, at_remote_host := rh, at_remote_port := rp,
         at_local_port := lp\<rparr>) (set_attributes f new_connection))\<lparr>tc_ssh_socket := s\<rparr>"
    have "connect_post F (\<not> cn_session_init a \<or> cn_handshake a \<noteq> 0)
        (let (r, conn', l') = connect_session a ?conn in (r, conn', l @ l'))"
      using reached run notF by (intro connect_session_post) (simp_all add: new_connection_def)
    then show ?thesis using reached cl
      by (simp add: TunnelConnection_Connect_def ssh_stage_failed_def Let_def)
  qed
qed

lemma authenticate_changes:
  assumes "authenticate b auth conn = (ok, conn', l)"
  shows "conn'\<lparr>tc_attributes := tc_attributes conn\<rparr> = conn" and "set l \<subseteq> {SessionCall}"
    and "ok \<Longrightarrow> at_status (tc_attributes conn') = kStatusAuthenticated"
  using assms
  unfolding authenticate_def AuthenticateWithPassword_def AuthenticateWithKey_def
    AuthenticateWithAgent_def set_defs
  by (auto simp: set_attributes_def split: if_split_asm)

lemma authenticate_holds:
  assumes "authenticate b auth conn = (ok, conn', l)"
  shows "tc_resources F C conn' = tc_resources F C conn" "tc_invariant F conn' = tc_invariant F conn"
    "tc_session conn \<Longrightarrow> resource_run l (tc_resources F C conn) = Some (tc_resources F C conn)"
    "tc_session conn' = tc_session conn" "tc_is_connected conn' = tc_is_connected conn"
proof -
  have eq: "conn = conn'\<lparr>tc_attributes := tc_attributes conn\<rparr>"
    using authenticate_changes(1) [OF assms] by simp
  show "tc_resources F C conn' = tc_resources F C conn" "tc_invariant F conn' = tc_invariant F conn"
    "tc_session conn' = tc_session conn" "tc_is_connected conn' = tc_is_connected conn"
    by (subst eq, simp add: tc_resources_def tc_invariant_def)+
  show "resource_run l (tc_resources F C conn) = Some (tc_resources F C conn)" if "tc_session conn"
    using authenticate_changes(2) [OF assms] that
    by (intro resource_run_stutter) (auto simp: tc_resources_def)
qed

lemma AuthParams_Connect_resources:
  assumes "- 1 \<notin> F" and "\<forall>t \<in> set (cn_tries a). ct_socket t \<notin> F"
    and call: "AuthParams_Connect a b auth rh rp lp = (r, l)"
  shows "case r of
      Returns conn \<Rightarrow> resource_run l (only_fds F) = Some (tc_resources F {} conn) \<and>
        tc_invariant F conn \<and> tc_session conn \<and> tc_is_connected conn \<and>
        at_status (tc_attributes conn) = kStatusAuthenticated
    | Throws e \<Rightarrow> resource_run l (only_fds F) =
        (if ssh_stage_failed a auth rh rp lp then None else Some (only_fds F))
    | Undefined \<Rightarrow> False"
proof -
  obtain r1 conn l1 where c: "TunnelConnection_Connect a (au_ssh_host auth) (au_ssh_port auth)
      (au_ssh_user auth) rh rp lp new_connection = (r1, conn, l1)" by (metis prod_cases3)
  note post = TunnelConnection_Connect_post [OF assms(1,2), of auth rh rp lp id,
      unfolded set_attributes_id c connect_post_def prod.case]
  obtain ok conn' l2 where au: "authenticate b auth conn = (ok, conn', l2)" by (metis prod_cases3)
  note h = authenticate_holds [OF au] authenticate_changes(3) [OF au]
  show ?thesis
  proof (cases r1)
    case (Returns u)
    with post have l1: "resource_run l1 (only_fds F) = Some (tc_resources F {} conn)"
      and inv: "tc_invariant F conn" and s: "tc_session conn" "tc_is_connected conn"
      and nf: "\<not> ssh_stage_failed a auth rh rp lp"
      by (auto split: if_splits)
    have l2: "resource_run l2 (tc_resources F {} conn) = Some (tc_resources F {} conn)"
      using h(3) s by simp
    show ?thesis
    proof (cases ok)
      case True
      with Returns call c au have "r = Returns conn'" "l = l1 @ l2"
        by (simp_all add: AuthParams_Connect_def)
      with True l1 l2 inv s h show ?thesis by (simp add: resource_run_append)
    next
      case False
      with Returns call c au have "\<exists>e. r = Throws e"
        and l: "l = l1 @ l2 @ snd (TunnelConnection_Close conn')"
        by (auto simp: AuthParams_Connect_def)
      moreover have "resource_run (snd (TunnelConnection_Close conn')) (tc_resources F {} conn) =
          Some (only_fds F)"
        using TunnelConnection_Close_resources [of F conn' "{}"] h inv by simp
      ultimately show ?thesis using l1 l2 nf by (auto simp: resource_run_append)
    qed
  next
    case (Throws e)
    with call c have r: "r = Throws e" and l: "l = l1 @ snd (TunnelConnection_Close conn)"
      by (simp_all add: AuthParams_Connect_def)
    show ?thesis
    proof (cases "ssh_stage_failed a auth rh rp lp")
      case True
      with post obtain r2 where "resource_run l1 (only_fds F) = Some r2"
        "tc_ssh_socket conn \<notin> live_fds r2" "tc_ssh_socket conn \<ge> 0" by auto
      with True r l show ?thesis by (simp add: resource_run_append TunnelConnection_Close_def)
    next
      case False
      with post r l TunnelConnection_Close_resources [of F conn "{}"] show ?thesis
        by (simp add: resource_run_append)
    qed
  next
    case Undefined
    with post show ?thesis by simp
  qed
qed


subsection \<open>Accepting clients\<close>

text \<open>
  What is live while no forwarding thread has ended: the connection's own resources, the
  descriptors \<open>F\<close> of others, and the client and channel each forwarding thread was given.
\<close>

definition tc_clients :: "TunnelConnection \<Rightarrow> int set" where
  "tc_clients conn = (\<lambda>(w, client, c). client) ` set (tc_forward_threads conn)"

definition tc_channels :: "TunnelConnection \<Rightarrow> nat set" where
  "tc_channels conn = (\<lambda>(w, client, c). c) ` set (tc_forward_threads conn)"

definition tc_serving :: "int set \<Rightarrow> TunnelConnection \<Rightarrow> resources" where
  "tc_serving F conn = tc_resources (F \<union> tc_clients conn) (tc_channels conn) conn"

text \<open>
  The operating system gives out descriptors that are not open, and libssh2 channels that are new:
  \<open>F\<close> and \<open>C\<close> are those in use before the turns.
\<close>

fun worker_fresh :: "int set \<Rightarrow> nat set \<Rightarrow> worker_turn list \<Rightarrow> bool" where
  "worker_fresh F C [] \<longleftrightarrow> True"
| "worker_fresh F C (t # ts) \<longleftrightarrow>
     wt_accept t \<notin> F \<and>
     (case wt_channel t of
        None \<Rightarrow> worker_fresh F C ts
      | Some c \<Rightarrow> c \<notin> C \<and> worker_fresh (insert (wt_accept t) F) (insert c C) ts)"

lemma worker_fresh_mono:
  "worker_fresh F' C' ts \<Longrightarrow> F \<subseteq> F' \<Longrightarrow> C \<subseteq> C' \<Longrightarrow> worker_fresh F C ts"
proof (induction ts arbitrary: F C F' C')
  case (Cons t ts)
  show ?case
  proof (cases "wt_channel t")
    case None
    with Cons.prems Cons.IH [of F' C' F C] show ?thesis by auto
  next
    case (Some c)
    with Cons.prems have "worker_fresh (insert (wt_accept t) F') (insert c C') ts" by simp
    from Cons.IH [OF this insert_mono insert_mono] Cons.prems Some show ?thesis by auto
  qed
qed simp

definition serving :: "int set \<Rightarrow> int \<Rightarrow> TunnelConnection \<Rightarrow> bool" where
  "serving F ls conn \<longleftrightarrow>
     tc_invariant (F \<union> tc_clients conn) conn \<and> tc_session conn \<and> tc_worker_thread conn \<and>
     ls \<in> F \<and> ls \<notin> tc_clients conn"

definition in_use :: "int set \<Rightarrow> TunnelConnection \<Rightarrow> int set" where
  "in_use F conn = insert (tc_ssh_socket conn) (F \<union> tc_clients conn)"

lemma serving_attributes [simp]:
  "serving F ls (set_attributes f conn) = serving F ls conn"
  "tc_serving F (set_attributes f conn) = tc_serving F conn"
  "in_use F (set_attributes f conn) = in_use F conn"
  "tc_channels (set_attributes f conn) = tc_channels conn"
  by (simp_all add: serving_def tc_serving_def tc_clients_def tc_channels_def in_use_def)

lemma spawn_forward_serving:
  assumes "serving F ls conn" and "client \<notin> in_use F conn" and "c \<notin> tc_channels conn"
  shows "serving F ls (spawn_forward client c conn)"
    and "in_use F (spawn_forward client c conn) = insert client (in_use F conn)"
    and "tc_channels (spawn_forward client c conn) = insert c (tc_channels conn)"
    and "resource_run [OpenFd client, ChannelOpen c, SpawnThread (PumpThread (tc_spawned conn))]
      (tc_serving F conn) = Some (tc_serving F (spawn_forward client c conn))"
proof -
  have new: "PumpThread (tc_spawned conn) \<notin> PumpThread ` fst ` set (tc_forward_threads conn)"
    using assms(1) by (auto simp: serving_def tc_invariant_def)
  have fwd: "tc_forward_threads (spawn_forward client c conn) =
      tc_forward_threads conn @ [(tc_spawned conn, client, c)]"
    by (simp add: spawn_forward_def)
  show "serving F ls (spawn_forward client c conn)"
    using assms new
    by (auto simp: serving_def tc_invariant_def tc_clients_def in_use_def spawn_forward_def less_Suc_eq)
  show "in_use F (spawn_forward client c conn) = insert client (in_use F conn)"
    by (auto simp: in_use_def tc_clients_def spawn_forward_def)
  show "tc_channels (spawn_forward client c conn) = insert c (tc_channels conn)"
    by (auto simp: tc_channels_def fwd)
  show "resource_run [OpenFd client, ChannelOpen c, SpawnThread (PumpThread (tc_spawned conn))]
      (tc_serving F conn) = Some (tc_serving F (spawn_forward client c conn))"
    using assms new
    by (auto simp: serving_def tc_serving_def in_use_def tc_resources_def tc_clients_def
        tc_channels_def spawn_forward_def intro!: resources_eqI)
qed

lemma worker_loop_resources:
  assumes "serving F ls conn" and "worker_fresh (in_use F conn) (tc_channels conn) ts"
    and "worker_loop pl ls ts conn = (fin, conn', l)"
  shows "resource_run l (tc_serving F conn) = Some (tc_serving F conn') \<and> serving F ls conn'"
  using assms
proof (induction ts arbitrary: conn fin conn' l)
  case (Cons t ts)
  let ?c = "wt_accept t" and ?r = "tc_serving F conn"
  have live: "ls \<in> live_fds ?r" "live_session ?r"
    using Cons.prems(1) by (auto simp: tc_serving_def tc_resources_def serving_def)
  have c: "?c \<notin> in_use F conn" using Cons.prems(2) by (simp split: option.splits)
  have notlive: "?c \<notin> live_fds ?r"
    using c by (auto simp: in_use_def tc_serving_def tc_resources_def)
  have later: "worker_fresh (in_use F conn) (tc_channels conn) ts"
    using Cons.prems(2) by (auto split: option.splits elim: worker_fresh_mono)
  obtain fin1 conn1 l1 where rest: "worker_loop pl ls ts conn = (fin1, conn1, l1)"
    by (metis prod_cases3)
  have IH: "resource_run l1 ?r = Some (tc_serving F conn1)" "serving F ls conn1"
    using Cons.IH [OF Cons.prems(1) later rest] by simp_all
  have closed: "resource_run (CloseSocket ?c) (?r\<lparr>live_fds := insert ?c (live_fds ?r)\<rparr>) = Some ?r"
    if "?c \<ge> 0"
    using that notlive by (simp add: CloseSocket_run)
  consider (ends) "\<not> wt_running t \<or> wt_select t < 0 \<or>
        wt_select t > 0 \<and> wt_accept t < 0 \<and> \<not> SocketWouldBlock pl (wt_errno t)"
    | (idle) "wt_running t" "wt_select t = 0 \<or>
        wt_select t > 0 \<and> wt_accept t < 0 \<and> SocketWouldBlock pl (wt_errno t)"
    | (late) "wt_running t" "wt_select t > 0" "wt_accept t \<ge> 0" "\<not> wt_running_after t"
    | (nochan) "wt_running t" "wt_select t > 0" "wt_accept t \<ge> 0" "wt_running_after t"
        "wt_channel t = None"
    | (chan) d where "wt_running t" "wt_select t > 0" "wt_accept t \<ge> 0" "wt_running_after t"
        "wt_channel t = Some d"
    by (cases "wt_channel t") (linarith | force)+
  then show ?case
  proof cases
    case ends
    then have "conn' = conn \<and> (l = [] \<or> l = [SelectRead [ls]])"
      using Cons.prems(3) by (cases "wt_running t") (elim disjE conjE; simp)+
    then show ?thesis using Cons.prems(1) live by auto
  next
    case idle
    then have "conn' = conn1 \<and> l = SelectRead [ls] # l1"
      using Cons.prems(3) rest by (elim disjE conjE) simp_all
    then show ?thesis using IH live by simp
  next
    case late
    then have "l = [SelectRead [ls], OpenFd ?c] @ CloseSocket ?c" "conn' = conn"
      using Cons.prems(3) by simp_all
    with Cons.prems(1) late closed live notlive show ?thesis by simp
  next
    case nochan
    let ?conn = "set_error ''Failed to create SSH channel for port forwarding'' conn"
    obtain fin2 conn2 l2 where rest2: "worker_loop pl ls ts ?conn = (fin2, conn2, l2)"
      by (metis prod_cases3)
    have "resource_run l2 (tc_serving F ?conn) = Some (tc_serving F conn2) \<and> serving F ls conn2"
      by (rule Cons.IH [OF _ _ rest2]; use Cons.prems(1) later in \<open>simp add: set_defs\<close>)
    then have IH2: "resource_run l2 ?r = Some (tc_serving F conn2)" "serving F ls conn2"
      by (simp_all add: set_defs)
    have "conn' = conn2" "l = [SelectRead [ls], OpenFd ?c, SessionCall] @ CloseSocket ?c @ l2"
      using nochan rest2 Cons.prems(3) by simp_all
    then show ?thesis using nochan closed live notlive IH2 by (simp add: resource_run_append)
  next
    case chan
    let ?conn = "spawn_forward ?c d conn"
    have d: "d \<notin> tc_channels conn" using Cons.prems(2) chan by simp
    note sp = spawn_forward_serving [OF Cons.prems(1) c d]
    obtain fin2 conn2 l2 where rest2: "worker_loop pl ls ts ?conn = (fin2, conn2, l2)"
      by (metis prod_cases3)
    have IH2: "resource_run l2 (tc_serving F ?conn) = Some (tc_serving F conn2) \<and> serving F ls conn2"
      by (rule Cons.IH [OF sp(1) _ rest2]) (use Cons.prems(2) chan sp in simp)
    have "conn' = conn2" "l = [SelectRead [ls]] @ [OpenFd ?c, ChannelOpen d,
        SpawnThread (PumpThread (tc_spawned conn))] @ l2"
      using chan rest2 Cons.prems(3) by simp_all
    moreover have "resource_run [SelectRead [ls]] ?r = Some ?r" using live by simp
    ultimately show ?thesis using sp(4) IH2
      by (simp add: resource_run_append del: resource_run.simps append.simps)
  qed
qed simp

subsection \<open>Forwarding\<close>

lemma forward_writes_written:
  "\<exists>rest. drop written buf = channel_written c (snd (forward_writes c buf written ws)) @ rest \<and>
     (rest \<noteq> [] \<longrightarrow>
        fst (forward_writes c buf written ws) \<noteq> FwContinue \<or>
        (\<exists>w \<in> set ws. \<not> fst w \<or> fst (snd w) < 0 \<and> snd (snd w) = LIBSSH2_ERROR_EAGAIN))"
proof (induction ws arbitrary: written)
  case Nil
  show ?case by (subst (1 2) forward_writes.simps) auto
next
  case (Cons w ws)
  obtain running rc err where w [simp]: "w = (running, rc, err)" by (metis prod_cases3)
  show ?case
  proof (cases "written < length buf \<and> running \<and> rc \<ge> 0")
    case True
    obtain r l where rl: "forward_writes c buf (written + nat rc) ws = (r, l)" by fastforce
    from Cons.IH [of "written + nat rc"] rl obtain rest where rest:
      "drop (written + nat rc) buf = channel_written c l @ rest"
      "rest \<noteq> [] \<longrightarrow> r \<noteq> FwContinue \<or>
        (\<exists>w \<in> set ws. \<not> fst w \<or> fst (snd w) < 0 \<and> snd (snd w) = LIBSSH2_ERROR_EAGAIN)"
      by auto
    have "drop written buf = take (nat rc) (drop written buf) @ drop (written + nat rc) buf"
      by (metis add.commute append_take_drop_id drop_drop)
    with rest(1) have "drop written buf = take (nat rc) (drop written buf) @ channel_written c l @ rest"
      by simp
    with True rl rest(2) show ?thesis
      by (intro exI [of _ rest]) (auto simp: forward_writes.simps [of _ _ written "_ # _"])
  next
    case False
    then show ?thesis
      by (auto simp: forward_writes.simps [of _ _ written "_ # _"] Let_def
          split: prod.splits if_splits)
  qed
qed

lemma forward_sends_sent:
  "\<exists>rest. drop written buf = sent_on s (snd (forward_sends s buf written ws)) @ rest \<and>
     (rest \<noteq> [] \<longrightarrow>
        fst (forward_sends s buf written ws) \<noteq> FwContinue \<or> (\<exists>w \<in> set ws. \<not> fst w))"
proof (induction ws arbitrary: written)
  case Nil
  show ?case by (subst (1 2) forward_sends.simps) auto
next
  case (Cons w ws)
  obtain running rc where w [simp]: "w = (running, rc)" by fastforce
  show ?case
  proof (cases "written < length buf \<and> running \<and> rc \<ge> 0")
    case True
    obtain r l where rl: "forward_sends s buf (written + nat rc) ws = (r, l)" by fastforce
    from Cons.IH [of "written + nat rc"] rl obtain rest where rest:
      "drop (written + nat rc) buf = sent_on s l @ rest"
      "rest \<noteq> [] \<longrightarrow> r \<noteq> FwContinue \<or> (\<exists>w \<in> set ws. \<not> fst w)"
      by auto
    have "drop written buf = take (nat rc) (drop written buf) @ drop (written + nat rc) buf"
      by (metis add.commute append_take_drop_id drop_drop)
    with rest(1) have "drop written buf = take (nat rc) (drop written buf) @ sent_on s l @ rest"
      by simp
    with True rl rest(2) show ?thesis
      by (intro exI [of _ rest]) (auto simp: forward_sends.simps [of _ _ written "_ # _"])
  next
    case False
    then show ?thesis
      by (auto simp: forward_sends.simps [of _ _ written "_ # _"] Let_def
          split: prod.splits if_splits)
  qed
qed

lemma forward_writes_log:
  "e \<in> set (snd (forward_writes c buf written ws)) \<Longrightarrow> \<exists>bs. e = ChannelWrite c bs"
proof (induction ws arbitrary: written)
  case Nil
  then show ?case by (simp add: forward_writes.simps [of _ _ _ "[]"] split: if_splits)
next
  case (Cons w ws)
  obtain running rc err where w [simp]: "w = (running, rc, err)" by (metis prod_cases3)
  from Cons.prems Cons.IH [of "written + nat rc"] show ?case
    by (auto simp: forward_writes.simps [of _ _ written "_ # _"] Let_def case_prod_beta
        split: if_splits)
qed

lemma forward_sends_log:
  "e \<in> set (snd (forward_sends s buf written ws)) \<Longrightarrow> \<exists>bs. e = SendOn s bs"
proof (induction ws arbitrary: written)
  case Nil
  then show ?case by (simp add: forward_sends.simps [of _ _ _ "[]"] split: if_splits)
next
  case (Cons w ws)
  obtain running rc where w [simp]: "w = (running, rc)" by fastforce
  from Cons.prems Cons.IH [of "written + nat rc"] show ?case
    by (auto simp: forward_sends.simps [of _ _ written "_ # _"] Let_def case_prod_beta
        split: if_splits)
qed

lemma forward_logs_streams [simp]:
  "received_on f (snd (forward_writes c buf written ws)) = []"
  "sent_on f (snd (forward_writes c buf written ws)) = []"
  "channel_read d (snd (forward_writes c buf written ws)) = []"
  "received_on f (snd (forward_sends s buf written ws')) = []"
  "channel_written d (snd (forward_sends s buf written ws')) = []"
  "channel_read d (snd (forward_sends s buf written ws')) = []"
  unfolding stream_defs concat_eq_Nil_conv
  by (auto dest!: forward_writes_log forward_sends_log)

text \<open>A turn in which the flag stays set and libssh2 blocks rather than answering EAGAIN.\<close>

definition fw_clean :: "forward_turn \<Rightarrow> bool" where
  "fw_clean t \<longleftrightarrow>
     (\<forall>w \<in> set (fw_writes t). fst w \<and> \<not> (fst (snd w) < 0 \<and> snd (snd w) = LIBSSH2_ERROR_EAGAIN)) \<and>
     (\<forall>w \<in> set (fw_sends t). fst w)"

lemma forward_writes_result:
  "fst (forward_writes c buf written ws) \<in> {FwContinue, FwWait, FwGoto FwWriteFailed}"
proof (induction ws arbitrary: written)
  case Nil
  show ?case by (subst forward_writes.simps) simp
next
  case (Cons w ws)
  obtain running rc err where w [simp]: "w = (running, rc, err)" by (metis prod_cases3)
  from Cons.IH [of "written + nat rc"] show ?case
    by (auto simp: forward_writes.simps [of _ _ written "_ # _"] Let_def case_prod_beta)
qed

lemma forward_sends_result:
  "fst (forward_sends s buf written ws) \<in> {FwContinue, FwWait, FwGoto FwSendFailed}"
proof (induction ws arbitrary: written)
  case Nil
  show ?case by (subst forward_sends.simps) simp
next
  case (Cons w ws)
  obtain running rc where w [simp]: "w = (running, rc)" by fastforce
  from Cons.IH [of "written + nat rc"] show ?case
    by (auto simp: forward_sends.simps [of _ _ written "_ # _"] Let_def case_prod_beta)
qed

lemma forward_up_streams:
  assumes "forward_up s c t = (r, l)"
  shows "\<exists>rest. received_on s l = channel_written c l @ rest \<and>
      (rest \<noteq> [] \<longrightarrow> r = FwWait \<or> r = FwGoto FwWriteFailed \<or> \<not> fw_clean t)"
    and "sent_on s l = []" and "channel_read c l = []"
proof -
  have "(\<exists>rest. received_on s l = channel_written c l @ rest \<and>
      (rest \<noteq> [] \<longrightarrow> r = FwWait \<or> r = FwGoto FwWriteFailed \<or> \<not> fw_clean t)) \<and>
      sent_on s l = [] \<and> channel_read c l = []"
  proof (cases "\<exists>b bs. fw_select t > 0 \<and> fw_recv t = Received (b # bs)")
    case True
    then obtain b bs where data: "fw_select t > 0" "fw_recv t = Received (b # bs)" by blast
    obtain r' l' where rl: "forward_writes c (b # bs) 0 (fw_writes t) = (r', l')" by fastforce
    have l: "r = r'" "l = [SelectRead [s], RecvOn s (b # bs)] @ l'"
      using assms data rl by (simp_all add: forward_up_def)
    from forward_writes_written [of 0 "b # bs" c "fw_writes t"] rl obtain rest where
      rest: "b # bs = channel_written c l' @ rest"
        "rest \<noteq> [] \<longrightarrow> r' \<noteq> FwContinue \<or>
          (\<exists>w \<in> set (fw_writes t). \<not> fst w \<or> fst (snd w) < 0 \<and> snd (snd w) = LIBSSH2_ERROR_EAGAIN)"
      by auto
    have "r' \<in> {FwContinue, FwWait, FwGoto FwWriteFailed}"
      using forward_writes_result [of c "b # bs" 0 "fw_writes t"] rl by simp
    with rest(2) have "rest \<noteq> [] \<longrightarrow> r = FwWait \<or> r = FwGoto FwWriteFailed \<or> \<not> fw_clean t"
      using l(1) unfolding fw_clean_def by blast
    moreover have "received_on s l' = []" "sent_on s l' = []" "channel_read c l' = []"
      using forward_logs_streams(1,2,3) [of _ c "b # bs" 0 "fw_writes t"] rl by simp_all
    ultimately show ?thesis using rest(1) l(2) by (intro conjI exI [of _ rest]) simp_all
  next
    case False
    then have "l = [SelectRead [s]] \<or> l = [SelectRead [s], RecvOn s []]"
      using assms by (auto simp: forward_up_def split: recv_result.splits list.splits if_splits)
    then show ?thesis by auto
  qed
  then show "\<exists>rest. received_on s l = channel_written c l @ rest \<and>
      (rest \<noteq> [] \<longrightarrow> r = FwWait \<or> r = FwGoto FwWriteFailed \<or> \<not> fw_clean t)"
    and "sent_on s l = []" and "channel_read c l = []" by blast+
qed

lemma forward_down_streams:
  assumes "forward_down s c t = (r, l)"
  shows "\<exists>rest. channel_read c l = sent_on s l @ rest \<and>
      (rest \<noteq> [] \<longrightarrow> r = FwWait \<or> r = FwGoto FwSendFailed \<or> \<not> fw_clean t)"
    and "received_on s l = []" and "channel_written c l = []"
proof -
  have "(\<exists>rest. channel_read c l = sent_on s l @ rest \<and>
      (rest \<noteq> [] \<longrightarrow> r = FwWait \<or> r = FwGoto FwSendFailed \<or> \<not> fw_clean t)) \<and>
      received_on s l = [] \<and> channel_written c l = []"
  proof (cases "\<exists>b bs. fw_read t = Received (b # bs)")
    case True
    then obtain b bs where data: "fw_read t = Received (b # bs)" by blast
    obtain r' l' where rl: "forward_sends s (b # bs) 0 (fw_sends t) = (r', l')" by fastforce
    have l: "r = r'" "l = ChannelRead c (b # bs) # l'"
      using assms data rl by (simp_all add: forward_down_def)
    from forward_sends_sent [of 0 "b # bs" s "fw_sends t"] rl obtain rest where
      rest: "b # bs = sent_on s l' @ rest"
        "rest \<noteq> [] \<longrightarrow> r' \<noteq> FwContinue \<or> (\<exists>w \<in> set (fw_sends t). \<not> fst w)"
      by auto
    have "r' \<in> {FwContinue, FwWait, FwGoto FwSendFailed}"
      using forward_sends_result [of s "b # bs" 0 "fw_sends t"] rl by simp
    with rest(2) have "rest \<noteq> [] \<longrightarrow> r = FwWait \<or> r = FwGoto FwSendFailed \<or> \<not> fw_clean t"
      using l(1) unfolding fw_clean_def by blast
    moreover have "received_on s l' = []" "channel_written c l' = []" "channel_read c l' = []"
      using forward_logs_streams(4) [of s s "b # bs" 0 "fw_sends t"]
        forward_logs_streams(5,6) [of c s "b # bs" 0 "fw_sends t"] rl by simp_all
    ultimately show ?thesis using rest(1) l(2) by (intro conjI exI [of _ rest]) simp_all
  next
    case False
    then have "l = [ChannelRead c []]"
      using assms by (auto simp: forward_down_def split: recv_result.splits list.splits)
    then show ?thesis by auto
  qed
  then show "\<exists>rest. channel_read c l = sent_on s l @ rest \<and>
      (rest \<noteq> [] \<longrightarrow> r = FwWait \<or> r = FwGoto FwSendFailed \<or> \<not> fw_clean t)"
    and "received_on s l = []" and "channel_written c l = []" by blast+
qed

text \<open>
  The streams of a log: always subsequences of what was read, and exactly what was read when the
  turns were clean and no call failed.
\<close>

definition forward_streams :: "int \<Rightarrow> nat \<Rightarrow> bool \<Rightarrow> forward_end \<times> log \<Rightarrow> bool" where
  "forward_streams s c clean res \<longleftrightarrow>
     subseq (channel_written c (snd res)) (received_on s (snd res)) \<and>
     subseq (sent_on s (snd res)) (channel_read c (snd res)) \<and>
     (clean \<and> fst res \<notin> {FwPending, FwWriteFailed, FwSendFailed} \<longrightarrow>
        channel_written c (snd res) = received_on s (snd res) \<and>
        sent_on s (snd res) = channel_read c (snd res))"

lemma subseq_prefixI: "subseq xs (xs @ rest)"
  by (rule subseq_rev_drop_many) simp

lemma forward_loop_streams:
  "forward_streams s c (\<forall>t \<in> set ts. fw_clean t) (forward_loop s c ts)"
proof (induction ts)
  case Nil
  then show ?case by (simp add: forward_streams_def)
next
  case (Cons t ts)
  obtain r1 l1 where h1: "forward_up s c t = (r1, l1)" by fastforce
  obtain r2 l2 where h2: "forward_down s c t = (r2, l2)" by fastforce
  obtain e3 l3 where h3: "forward_loop s c ts = (e3, l3)" by fastforce
  from forward_up_streams [OF h1] obtain up where
    up: "received_on s l1 = channel_written c l1 @ up"
      "up \<noteq> [] \<longrightarrow> r1 = FwWait \<or> r1 = FwGoto FwWriteFailed \<or> \<not> fw_clean t"
    and s1: "sent_on s l1 = []" "channel_read c l1 = []" by blast
  from forward_down_streams [OF h2] obtain down where
    down: "channel_read c l2 = sent_on s l2 @ down"
      "down \<noteq> [] \<longrightarrow> r2 = FwWait \<or> r2 = FwGoto FwSendFailed \<or> \<not> fw_clean t"
    and s2: "received_on s l2 = []" "channel_written c l2 = []" by blast
  note sub = subseq_prefixI [of "channel_written c l1" up] subseq_prefixI [of "sent_on s l2" down]
  show ?case
  proof (cases "fw_running t \<and> r1 = FwContinue \<and> r2 = FwContinue")
    case True
    from Cons.IH h3 have IH: "forward_streams s c (\<forall>t \<in> set ts. fw_clean t) (e3, l3)" by simp
    have "subseq (channel_written c l1 @ channel_written c l3) (received_on s l1 @ received_on s l3)"
      "subseq (sent_on s l2 @ sent_on s l3) (channel_read c l2 @ channel_read c l3)"
      using IH sub up(1) down(1) by (auto simp: forward_streams_def intro!: list_emb_append_mono)
    moreover have "channel_written c l1 = received_on s l1 \<and> sent_on s l2 = channel_read c l2"
      if "fw_clean t"
      using that True up down by auto
    moreover have "forward_loop s c (t # ts) = (e3, l1 @ l2 @ l3)" using True h1 h2 h3 by simp
    ultimately show ?thesis using IH s1 s2 unfolding forward_streams_def by simp
  next
    case False
    then show ?thesis
      using up down s1 s2 sub
      by (cases r1; cases r2) (auto simp: forward_streams_def h1 h2 h3)
  qed
qed

text \<open>A forwarding thread uses only its own client and channel, and releases both.\<close>

lemma forward_half_resources:
  assumes "s \<in> live_fds r" and "live_session r" and "c \<in> live_channels r"
  shows "resource_run (snd (forward_up s c t)) r = Some r"
    and "resource_run (snd (forward_down s c t)) r = Some r"
proof -
  have w: "resource_run (snd (forward_writes c buf n ws)) r = Some r" for buf n ws
    using assms by (intro resource_run_stutter) (auto dest!: forward_writes_log)
  have d: "resource_run (snd (forward_sends s buf n ws)) r = Some r" for buf n ws
    using assms by (intro resource_run_stutter) (auto dest!: forward_sends_log)
  show "resource_run (snd (forward_up s c t)) r = Some r"
    using assms w by (auto simp: forward_up_def Let_def case_prod_beta
        split: recv_result.split list.split)
  show "resource_run (snd (forward_down s c t)) r = Some r"
    using assms d by (auto simp: forward_down_def Let_def case_prod_beta
        split: recv_result.split list.split)
qed

lemma forward_loop_resources:
  assumes "s \<in> live_fds r" and "live_session r" and "c \<in> live_channels r"
  shows "resource_run (snd (forward_loop s c ts)) r = Some r"
proof (induction ts)
  case (Cons t ts)
  obtain r1 l1 where h1: "forward_up s c t = (r1, l1)" by fastforce
  obtain r2 l2 where h2: "forward_down s c t = (r2, l2)" by fastforce
  obtain e3 l3 where h3: "forward_loop s c ts = (e3, l3)" by fastforce
  have "resource_run l1 r = Some r" "resource_run l2 r = Some r" "resource_run l3 r = Some r"
    using forward_half_resources [OF assms, of t] Cons.IH by (simp_all add: h1 h2 h3)
  then have "resource_run l1 r = Some r" "resource_run (l1 @ l2) r = Some r"
    "resource_run (l1 @ l2 @ l3) r = Some r"
    by (simp_all add: resource_run_append)
  then show ?case by (cases r1; cases r2) (simp_all add: h1 h2 h3)
qed simp

lemma ForwardData_resources:
  assumes "s \<in> live_fds r" and "s \<ge> 0" and "live_session r" and "c \<in> live_channels r"
    and "ForwardData s c turns = (True, l)"
  shows "resource_run l r =
    Some (r\<lparr>live_fds := live_fds r - {s}, live_channels := live_channels r - {c}\<rparr>)"
proof -
  obtain e l1 where h: "forward_loop s c turns = (e, l1)" by fastforce
  have l: "l = NonBlockingFd s # l1 @ CloseSocket s @ [ChannelFree c]"
    using assms(5) by (auto simp: ForwardData_def h split: if_splits)
  have "resource_run l1 r = Some r"
    using forward_loop_resources [of s r c turns] assms h by simp
  with assms show ?thesis by (simp add: l resource_run_append CloseSocket_def)
qed

subsection \<open>The whole worker\<close>

lemma tc_serving_listener:
  assumes "ls \<ge> 0" and "ls \<notin> in_use F conn"
  shows "resource_run (worker_open conn' ls) (tc_serving F conn) = Some (tc_serving (insert ls F) conn)"
    and "resource_run (CloseSocket ls) (tc_serving (insert ls F) conn) = Some (tc_serving F conn)"
  using assms
  by (auto simp: worker_open_def tc_serving_def tc_resources_def in_use_def CloseSocket_def
      intro!: resources_eqI)

lemma worker_loop_keeps:
  "worker_loop pl ls ts conn = (fin, conn', l) \<Longrightarrow>
     tc_is_running conn' = tc_is_running conn \<and> tc_is_connected conn' = tc_is_connected conn \<and>
     tc_ssh_socket conn' = tc_ssh_socket conn"
proof (induction ts arbitrary: conn l)
  case (Cons t ts)
  have sp: "tc_is_running (spawn_forward s c conn) = tc_is_running conn"
    "tc_is_connected (spawn_forward s c conn) = tc_is_connected conn"
    "tc_ssh_socket (spawn_forward s c conn) = tc_ssh_socket conn" for s c
    by (simp_all add: spawn_forward_def)
  from Cons.prems Cons.IH show ?case
    by (auto simp: Let_def set_defs sp split: if_splits option.splits prod.splits)
qed simp

lemma WorkerFunction_resources:
  assumes inv: "tc_invariant (F \<union> tc_clients conn) conn" "tc_session conn" "tc_worker_thread conn"
    and ls: "wk_socket a \<notin> in_use F conn"
    and fresh: "worker_fresh (insert (wk_socket a) (in_use F conn)) (tc_channels conn) (wk_turns a)"
    and call: "WorkerFunction pl a conn = (True, conn', l)"
  shows "resource_run l (tc_serving F conn) = Some (tc_serving F conn')"
    and "tc_invariant (F \<union> tc_clients conn') conn'"
    and "tc_is_running conn' = tc_is_running conn" and "tc_is_connected conn' = tc_is_connected conn"
proof -
  let ?ls = "wk_socket a" and ?F = "insert (wk_socket a) F"
  let ?conn1 = "set_status (''Starting tunnel on port '' @ to_string (at_local_port (tc_attributes conn))) conn"
  let ?conn2 = "set_status (kStatusListening @ '' on port '' @
    to_string (at_local_port (tc_attributes conn))) ?conn1"
  have clients: "tc_clients (set_attributes f c) = tc_clients c" for f c
    by (simp add: tc_clients_def)
  have "resource_run l (tc_serving F conn) = Some (tc_serving F conn') \<and>
      tc_invariant (F \<union> tc_clients conn') conn' \<and> tc_is_running conn' = tc_is_running conn \<and>
      tc_is_connected conn' = tc_is_connected conn"
  proof (cases "?ls < 0 \<or> wk_bind a \<noteq> 0 \<or> wk_listen a \<noteq> 0")
    case True
    then have "\<exists>f. conn' = set_attributes f conn"
      using call unfolding WorkerFunction_def set_defs
      by (auto simp: Let_def set_attributes_def split: if_splits)
    moreover have "resource_run l (tc_serving F conn) = Some (tc_serving F conn)"
    proof (cases "?ls < 0")
      case True
      then show ?thesis using call by (simp add: WorkerFunction_def Let_def)
    next
      case False
      then have "?ls \<ge> 0" by simp
      note io = tc_serving_listener [OF this ls]
      have "?ls \<in> live_fds (tc_serving ?F conn)"
        by (simp add: tc_serving_def tc_resources_def)
      with True False call io show ?thesis
        by (auto simp: WorkerFunction_def Let_def resource_run_append split: if_splits)
    qed
    ultimately show ?thesis using inv(1) by (auto simp: clients)
  next
    case False
    then have ge: "?ls \<ge> 0" by simp
    obtain fin conn3 l3 where lp: "worker_loop pl ?ls (wk_turns a) ?conn2 = (fin, conn3, l3)"
      by (metis prod_cases3)
    from False call lp have res: "fin" "conn' = set_status ''Tunnel stopped'' conn3"
      "l = worker_open ?conn1 ?ls @ [ListenFd ?ls] @ l3 @ CloseSocket ?ls"
      by (auto simp: WorkerFunction_def Let_def split: if_splits)
    have sv: "serving ?F ?ls ?conn2"
      using inv ls by (auto simp: serving_def clients set_defs tc_invariant_def in_use_def)
    have "worker_fresh (in_use ?F ?conn2) (tc_channels ?conn2) (wk_turns a)"
      using fresh by (simp add: set_defs in_use_def clients insert_commute)
    from worker_loop_resources [OF sv this lp]
    have l3: "resource_run l3 (tc_serving ?F conn) = Some (tc_serving ?F conn3)"
      and sv3: "serving ?F ?ls conn3"
      by (simp_all add: set_defs)
    have keep: "tc_is_running conn3 = tc_is_running conn" "tc_is_connected conn3 = tc_is_connected conn"
      "tc_ssh_socket conn3 = tc_ssh_socket conn"
      using worker_loop_keeps [OF lp] by (simp_all add: set_defs)
    have out: "?ls \<notin> in_use F conn3"
      using sv3 ls by (auto simp: in_use_def serving_def keep)
    have "?ls \<in> live_fds (tc_serving ?F conn)"
      by (simp add: tc_serving_def tc_resources_def)
    with tc_serving_listener(1) [OF ge ls, of ?conn1] tc_serving_listener(2) [OF ge out] l3
    have "resource_run l (tc_serving F conn) = Some (tc_serving F conn3)"
      by (simp add: res resource_run_append)
    moreover have "tc_invariant (F \<union> tc_clients conn3) conn3"
      using sv3 by (auto simp: serving_def tc_invariant_def)
    ultimately show ?thesis by (simp add: res set_defs keep clients)
  qed
  then show "resource_run l (tc_serving F conn) = Some (tc_serving F conn')"
    and "tc_invariant (F \<union> tc_clients conn') conn'"
    and "tc_is_running conn' = tc_is_running conn" and "tc_is_connected conn' = tc_is_connected conn"
    by simp_all
qed

lemma test_calls_run:
  assumes "tt_socket t \<ge> 0" and "tt_socket t \<notin> live_fds r"
  shows "resource_run (test_calls pl t) r = Some r"
  using assms by (auto simp: test_calls_def CloseSocket_def intro!: resources_eqI)

lemma TestTunnelConnection_resources:
  assumes "\<forall>t \<in> set ts. tt_socket t \<notin> live_fds r"
  shows "resource_run (snd (TestTunnelConnection pl timeout ts)) r = Some r"
  using assms
  by (induction ts) (auto simp: Let_def case_prod_beta resource_run_append test_calls_run)

lemma TestTunnelConnection_True:
  "fst (TestTunnelConnection pl timeout ts) = Some True \<Longrightarrow>
     \<exists>t \<in> set ts. tt_elapsed t < timeout * 1000 \<and> tt_running t \<and> tt_socket t \<ge> 0 \<and> test_reached pl t"
  by (induction ts) (auto simp: Let_def case_prod_beta not_less split: if_splits)

lemma TunnelConnection_Connect_returns:
  assumes "TunnelConnection_Connect a sh sp su rh rp lp conn0 = (Returns u, conn, l)"
  shows "valid_port sp \<and> valid_port rp \<and> valid_port lp"
    and "tc_attributes conn = (tc_attributes conn0)
      \<lparr>at_ssh_host := sh, at_ssh_port := sp, at_ssh_user := su, at_remote_host := rh,
       at_remote_port := rp, at_local_port := lp, at_status := kStatusConnected\<rparr>"
    and "tc_is_connected conn"
proof -
  have v: "ValidateConnectionParameters sh sp su rh rp lp = Returns ()"
    using assms by (auto simp: TunnelConnection_Connect_def split: outcome.splits)
  then show "valid_port sp \<and> valid_port rp \<and> valid_port lp"
    by (simp add: ValidateConnectionParameters_Returns)
  obtain s l1 where cl: "connect_loop (cn_tries a) = (s, l1)" by fastforce
  have "\<not> (cn_gai a \<noteq> 0 \<or> cn_tries a = [])" "\<not> s < 0" "cn_session_init a" "cn_handshake a = 0"
    using assms v cl
    by (auto simp: TunnelConnection_Connect_def connect_session_def Let_def split: if_splits)
  with assms v cl show "tc_attributes conn = (tc_attributes conn0)
      \<lparr>at_ssh_host := sh, at_ssh_port := sp, at_ssh_user := su, at_remote_host := rh,
       at_remote_port := rp, at_local_port := lp, at_status := kStatusConnected\<rparr>"
    and "tc_is_connected conn"
    by (auto simp: TunnelConnection_Connect_def connect_session_def Let_def set_defs
        set_attributes_def)
qed

lemma authenticate_returns:
  assumes "authenticate b auth conn = (True, conn', l)"
  shows "au_auth_method auth = kAuthMethodPassword \<and> au_password auth \<noteq> [] \<and> aa_password_rc b = 0 \<or>
      au_auth_method auth = kAuthMethodKey \<and> au_private_key_path auth \<noteq> [] \<and> aa_key_file b \<and>
        aa_key_rc b = 0"
    and "tc_attributes conn' = (tc_attributes conn)\<lparr>at_status := kStatusAuthenticated\<rparr>"
  using assms
  unfolding authenticate_def AuthenticateWithPassword_def AuthenticateWithKey_def
    AuthenticateWithAgent_def
  by (auto simp: set_status_def split: if_split_asm)

section \<open>Properties\<close>

text \<open>C31: \<open>TunnelAuthParams::Connect\<close> cleans up after itself on every path but two. A connection it
  returns is authenticated and holds exactly its socket and its session; when it throws, everything
  it acquired is released again, except that after a failed session or handshake the destructor
  shuts down and closes the descriptor that \<open>Connect\<close> had already closed.\<close>

theorem AuthParams_Connect_cleanup:
  assumes "- 1 \<notin> F" and "\<forall>t \<in> set (cn_tries a). ct_socket t \<notin> F"
    and "AuthParams_Connect a b auth remote_host remote_port local_port = (r, l)"
  shows "case r of
      Returns conn \<Rightarrow> resource_run l (only_fds F) = Some (tc_resources F {} conn) \<and>
        tc_session conn \<and> tc_is_connected conn \<and>
        at_status (tc_attributes conn) = kStatusAuthenticated
    | Throws e \<Rightarrow> resource_run l (only_fds F) =
        (if ssh_stage_failed a auth remote_host remote_port local_port then None
         else Some (only_fds F))
    | Undefined \<Rightarrow> False"
  using AuthParams_Connect_resources [OF assms] by (simp split: outcome.splits)

definition demo_connect :: "int \<Rightarrow> connect_answers" where
  "demo_connect handshake =
     \<lparr>cn_gai = 0, cn_gai_strerror = [],
      cn_tries = [\<lparr>ct_socket = 4, ct_connect = - 1\<rparr>, \<lparr>ct_socket = 4, ct_connect = 0\<rparr>],
      cn_session_init = True, cn_handshake = handshake\<rparr>"

definition demo_params :: TunnelAuthParams where
  "demo_params = default_auth_params
     \<lparr>au_ssh_host := ''bastion'', au_ssh_user := ''deploy'', au_password := ''pw''\<rparr>"

definition demo_auth_answers :: "int \<Rightarrow> auth_answers" where
  "demo_auth_answers rc = \<lparr>aa_password_rc = rc, aa_key_file = True, aa_key_rc = 0\<rparr>"

definition demo_import :: "int \<Rightarrow> int \<Rightarrow> TunnelConnection outcome \<times> log" where
  "demo_import handshake rc =
     AuthParams_Connect (demo_connect handshake) (demo_auth_answers rc) demo_params ''db'' 5432 6432"

lemmas demo_import_eval = demo_import_def AuthParams_Connect_def TunnelConnection_Connect_def
  ValidateConnectionParameters_def port_defs demo_connect_def demo_params_def default_auth_params_def
  demo_auth_answers_def connect_session_def authenticate_def AuthenticateWithPassword_def
  kAuthMethodPassword_def Let_def

theorem AuthParams_Connect_cleanup_witness:
  "resource_run (snd (demo_import 0 (- 18))) (only_fds {3}) = Some (only_fds {3}) \<and>
   resource_run (snd (demo_import (- 8) 0)) (only_fds {3}) = None"
proof -
  have pre: "- 1 \<notin> {3 :: int}" "\<forall>t \<in> set (cn_tries (demo_connect h)). ct_socket t \<notin> {3}" for h
    by (simp_all add: demo_connect_def)
  have thr: "\<exists>e. fst (demo_import 0 (- 18)) = Throws e" "\<exists>e. fst (demo_import (- 8) 0) = Throws e"
    by (simp_all add: demo_import_eval new_connection_def set_defs)
  have st: "ssh_stage_failed (demo_connect h) demo_params ''db'' 5432 6432 \<longleftrightarrow> h \<noteq> 0" for h
    by (simp add: ssh_stage_failed_def demo_import_eval)
  have eq: "AuthParams_Connect (demo_connect h) (demo_auth_answers rc) demo_params ''db'' 5432 6432 =
      (fst (demo_import h rc), snd (demo_import h rc))" for h rc
    by (simp add: demo_import_def)
  obtain e1 e2 where e: "fst (demo_import 0 (- 18)) = Throws e1" "fst (demo_import (- 8) 0) = Throws e2"
    using thr by blast
  from AuthParams_Connect_cleanup [OF pre eq, of 0 "- 18"]
    AuthParams_Connect_cleanup [OF pre eq, of "- 8" 0]
  show ?thesis by (simp add: e st)
qed

text \<open>No import is ever established without a credential the server accepted: a connection that
  \<open>TunnelAuthParams::Connect\<close> returns used a non-empty password the server took, or a readable key
  file the server took, and its attributes are exactly the parameters that were asked for.\<close>

theorem AuthParams_Connect_authenticated:
  assumes "AuthParams_Connect a b auth remote_host remote_port local_port = (Returns conn, l)"
  shows "(au_auth_method auth = kAuthMethodPassword \<and> au_password auth \<noteq> [] \<and> aa_password_rc b = 0 \<or>
      au_auth_method auth = kAuthMethodKey \<and> au_private_key_path auth \<noteq> [] \<and> aa_key_file b \<and>
        aa_key_rc b = 0) \<and>
    tc_attributes conn = default_attributes
      \<lparr>at_ssh_host := au_ssh_host auth, at_ssh_port := au_ssh_port auth,
       at_ssh_user := au_ssh_user auth, at_remote_host := remote_host,
       at_remote_port := remote_port, at_local_port := local_port,
       at_status := kStatusAuthenticated\<rparr> \<and>
    valid_port (au_ssh_port auth) \<and> valid_port remote_port \<and> valid_port local_port"
proof -
  let ?c = "TunnelConnection_Connect a (au_ssh_host auth) (au_ssh_port auth) (au_ssh_user auth)
    remote_host remote_port local_port new_connection"
  obtain r conn1 l1 where c: "?c = (r, conn1, l1)" by (metis prod_cases3)
  obtain ok conn2 l2 where au: "authenticate b auth conn1 = (ok, conn2, l2)" by (metis prod_cases3)
  have r: "r = Returns ()" "ok" "conn2 = conn"
    using assms by (auto simp: AuthParams_Connect_def c au split: outcome.splits if_splits)
  note conn1 = TunnelConnection_Connect_returns [OF c [unfolded r]]
  note conn2 = authenticate_returns [OF au [unfolded r(3) eqTrueI [OF r(2)]]]
  have "tc_attributes new_connection = default_attributes" by (simp add: new_connection_def)
  with conn1 conn2 show ?thesis by simp
qed

theorem AuthParams_Connect_authenticated_witness:
  "\<exists>conn. fst (demo_import 0 0) = Returns conn \<and>
     tc_attributes conn = default_attributes
      \<lparr>at_ssh_host := ''bastion'', at_ssh_port := 22, at_ssh_user := ''deploy'',
       at_remote_host := ''db'', at_remote_port := 5432, at_local_port := 6432,
       at_status := kStatusAuthenticated\<rparr>"
proof -
  have "\<exists>conn. fst (demo_import 0 0) = Returns conn"
    by (simp add: demo_import_eval new_connection_def set_defs)
  then obtain conn where conn: "fst (demo_import 0 0) = Returns conn" by blast
  then have "AuthParams_Connect (demo_connect 0) (demo_auth_answers 0) demo_params ''db'' 5432 6432 =
      (Returns conn, snd (demo_import 0 0))"
    by (simp add: demo_import_def [symmetric] prod_eq_iff)
  from AuthParams_Connect_authenticated [OF this] conn show ?thesis
    by (simp add: demo_params_def default_auth_params_def kDefaultSshPort_def)
qed

text \<open>\<open>Close\<close> releases everything: from any state of the invariant, with any number of live
  forwarding threads and channels, it joins every thread once, frees the session only after that,
  closes the socket, and leaves only the descriptors of others. Closing again does nothing.\<close>

theorem TunnelConnection_Close_releases:
  assumes "tc_invariant F conn" and "tc_session conn \<or> C = {}"
  shows "resource_run (snd (TunnelConnection_Close conn)) (tc_resources F C conn) =
      Some (only_fds F) \<and>
    TunnelConnection_Close (fst (TunnelConnection_Close conn)) =
      (fst (TunnelConnection_Close conn), []) \<and>
    \<not> IsConnected (fst (TunnelConnection_Close conn))"
  using TunnelConnection_Close_resources [OF assms] TunnelConnection_Close_again [of conn]
  by (simp add: IsConnected_def) (simp add: TunnelConnection_Close_def set_defs)

definition demo_serving :: TunnelConnection where
  "demo_serving = new_connection
     \<lparr>tc_session := True, tc_ssh_socket := 4, tc_is_connected := True, tc_is_running := True,
      tc_worker_thread := True, tc_forward_threads := [(0, 7, 0), (1, 8, 1)], tc_spawned := 2\<rparr>"

theorem TunnelConnection_Close_releases_witness:
  "IsConnected demo_serving \<and>
   resource_run (snd (TunnelConnection_Close demo_serving)) (tc_resources {3} {1} demo_serving) =
     Some (only_fds {3})"
proof -
  have "tc_invariant {3} demo_serving" "tc_session demo_serving \<or> {1} = {}" "IsConnected demo_serving"
    by (simp_all add: tc_invariant_def demo_serving_def new_connection_def IsConnected_def)
  with TunnelConnection_Close_releases [OF this(1,2)] show ?thesis by blast
qed

text \<open>The worker of an import is safe until it ends, for any sequence of clients: it opens its
  own listener, hands every accepted client with its channel to exactly one new thread or closes
  it, closes its listener, and never touches the SSH socket.\<close>

theorem WorkerFunction_safe:
  assumes "tc_invariant (F \<union> tc_clients conn) conn" and "tc_session conn" and "tc_worker_thread conn"
    and "wk_socket a \<notin> in_use F conn"
    and "worker_fresh (insert (wk_socket a) (in_use F conn)) (tc_channels conn) (wk_turns a)"
    and "WorkerFunction pl a conn = (True, conn', l)"
  shows "resource_run l (tc_serving F conn) = Some (tc_serving F conn') \<and>
    tc_invariant (F \<union> tc_clients conn') conn'"
  using WorkerFunction_resources [OF assms] by blast

definition demo_worker :: worker_answers where
  "demo_worker =
     \<lparr>wk_socket = 5, wk_bind = 0, wk_listen = 0, wk_turns =
        [\<lparr>wt_running = True, wt_select = 1, wt_accept = 9, wt_errno = 0, wt_running_after = True,
          wt_channel = Some 2\<rparr>,
         \<lparr>wt_running = True, wt_select = 1, wt_accept = 10, wt_errno = 0, wt_running_after = True,
          wt_channel = None\<rparr>,
         \<lparr>wt_running = False, wt_select = 0, wt_accept = - 1, wt_errno = 0, wt_running_after = False,
          wt_channel = None\<rparr>]\<rparr>"

theorem WorkerFunction_safe_witness:
  "case WorkerFunction Linux demo_worker demo_serving of (fin, conn', l) \<Rightarrow>
     fin \<and> resource_run l (tc_serving {3} demo_serving) = Some (tc_serving {3} conn')"
proof -
  let ?w = "WorkerFunction Linux demo_worker demo_serving"
  have "fst ?w"
    by (simp add: WorkerFunction_def demo_worker_def demo_serving_def Let_def split: prod.split)
  then have w: "?w = (True, fst (snd ?w), snd (snd ?w))" by (metis prod.collapse)
  have pre: "tc_invariant ({3} \<union> tc_clients demo_serving) demo_serving" "tc_session demo_serving"
    "tc_worker_thread demo_serving" "wk_socket demo_worker \<notin> in_use {3} demo_serving"
    "worker_fresh (insert (wk_socket demo_worker) (in_use {3} demo_serving))
       (tc_channels demo_serving) (wk_turns demo_worker)"
    by (simp_all add: tc_invariant_def demo_serving_def new_connection_def tc_clients_def
        tc_channels_def in_use_def demo_worker_def)
  from WorkerFunction_safe [OF pre w] show ?thesis by (subst w) (simp only: prod.case simp_thms)
qed


definition demo_forward :: "int \<Rightarrow> forward_turn list" where
  "demo_forward rc =
     [\<lparr>fw_running = True, fw_select = 1, fw_recv = Received [1, 2, 3],
       fw_writes = [(True, 1, 0), (True, rc, LIBSSH2_ERROR_EAGAIN)],
       fw_read = Received [7, 8], fw_eof = False, fw_sends = [(True, 2)]\<rparr>,
      \<lparr>fw_running = True, fw_select = 1, fw_recv = Received [4], fw_writes = [(True, 1, 0)],
       fw_read = Received [], fw_eof = True, fw_sends = []\<rparr>]"

lemmas demo_forward_eval = demo_forward_def forward_up_def forward_down_def forward_writes.simps
  forward_sends.simps Let_def


text \<open>
  A write that answers EAGAIN ends the write loop of a turn, and the bytes not yet written are
  dropped: the peer receives the first and the last byte of four.
\<close>

theorem ForwardData_drops_on_EAGAIN:
  "received_on 5 (snd (forward_loop 5 0 (demo_forward (- 37)))) = [1, 2, 3, 4] \<and>
   channel_written 0 (snd (forward_loop 5 0 (demo_forward (- 37)))) = [1, 4] \<and>
   fst (forward_loop 5 0 (demo_forward (- 37))) = FwChannelEof"
  by (simp add: demo_forward_eval)

text \<open>A forwarding thread that ends, however it ends, has closed its client and freed its
  channel, each exactly once, and touched nothing else.\<close>

theorem ForwardData_releases:
  assumes "s \<in> live_fds r" and "s \<ge> 0" and "live_session r" and "c \<in> live_channels r"
    and "ForwardData s c turns = (True, l)"
  shows "resource_run l r =
    Some (r\<lparr>live_fds := live_fds r - {s}, live_channels := live_channels r - {c}\<rparr>)"
  using assms by (rule ForwardData_resources)

theorem ForwardData_releases_witness:
  "resource_run (snd (ForwardData 5 0 (demo_forward 2)))
     \<lparr>live_fds = {4, 5}, live_session = True, live_listener = False, live_channels = {0},
      live_threads = {}\<rparr> =
   Some \<lparr>live_fds = {4}, live_session = True, live_listener = False, live_channels = {},
      live_threads = {}\<rparr>"
proof -
  have "fst (ForwardData 5 0 (demo_forward 2))"
    by (simp add: ForwardData_def demo_forward_eval)
  then have f: "ForwardData 5 0 (demo_forward 2) = (True, snd (ForwardData 5 0 (demo_forward 2)))"
    by (metis prod.collapse)
  have "{4, 5} - {5 :: int} = {4}" by auto
  with ForwardData_releases [OF _ _ _ _ f, of "\<lparr>live_fds = {4, 5}, live_session = True,
      live_listener = False, live_channels = {0}, live_threads = {}\<rparr>"]
  show ?thesis by simp
qed

text \<open>
  A worker that cannot bind its port ends with an error, yet the tunnel still counts as connected.
\<close>

theorem WorkerFunction_dead_but_connected:
  assumes "IsConnected conn" and "wk_socket a \<ge> 0" and "wk_bind a \<noteq> 0"
  shows "\<exists>conn' l. WorkerFunction pl a conn = (True, conn', l) \<and> IsConnected conn' \<and>
    at_status (tc_GetAttributes conn') = kStatusError"
  using assms
  by (simp add: WorkerFunction_def Let_def IsConnected_def tc_GetAttributes_def set_defs)

end
