(* ===== verification/Mesh_Loader.thy ===== *)
theory Mesh_Loader
  imports Socket_Compat
begin

text \<open>
  The lazy loader of the mesh shims, from \<^verbatim>\<open>src/src/mesh_loader.cpp\<close>: how an embedded
  library is written to disk and mapped, and the latch that allows one mesh per process.

  The file system is a map from paths to contents. Which shims a build bundles is an argument
  (\<open>mesh_build\<close>), as are the answers of the operating system and of the shim. A module handle is a
  number, zero for null, and the resolved API is named by the handle it was resolved from. The
  component \<open>ml_runtimes\<close> records the kinds of the libraries mapped so far: a Go runtime is never
  unmapped again.
\<close>

section \<open>Definitions\<close>

datatype MeshKind = MeshNone | Tailscale | NetBird

fun kind_code :: "MeshKind \<Rightarrow> int" where
  "kind_code MeshNone = 0"
| "kind_code Tailscale = 1"
| "kind_code NetBird = 2"

fun MeshKindName :: "MeshKind \<Rightarrow> string" where
  "MeshKindName Tailscale = ''Tailscale''"
| "MeshKindName NetBird = ''NetBird''"
| "MeshKindName MeshNone = ''none''"

text \<open>The shims this build bundles, with their bytes.\<close>

record mesh_build =
  mb_tailscale :: "byte list option"
  mb_netbird :: "byte list option"

fun IsCompiledIn :: "mesh_build \<Rightarrow> MeshKind \<Rightarrow> bool" where
  "IsCompiledIn mb Tailscale \<longleftrightarrow> mb_tailscale mb \<noteq> None"
| "IsCompiledIn mb NetBird \<longleftrightarrow> mb_netbird mb \<noteq> None"
| "IsCompiledIn mb MeshNone \<longleftrightarrow> False"

text \<open>A null pointer with length zero is the empty blob.\<close>

fun GetBlob :: "mesh_build \<Rightarrow> MeshKind \<Rightarrow> byte list" where
  "GetBlob mb Tailscale = (case mb_tailscale mb of Some blob \<Rightarrow> blob | None \<Rightarrow> [])"
| "GetBlob mb NetBird = (case mb_netbird mb of Some blob \<Rightarrow> blob | None \<Rightarrow> [])"
| "GetBlob mb MeshNone = []"

subsection \<open>The cache key of a blob\<close>

definition fnv_basis :: "64 word" where "fnv_basis = 1469598103934665603"
definition fnv_prime :: "64 word" where "fnv_prime = 1099511628211"

definition fnv_byte :: "64 word \<Rightarrow> byte \<Rightarrow> 64 word" where
  "fnv_byte h b = xor h (ucast b) * fnv_prime"

definition blob_hash :: "byte list \<Rightarrow> 64 word" where
  "blob_hash blob = foldl fnv_byte fnv_basis blob"

definition hex_digit :: "nat \<Rightarrow> char" where
  "hex_digit d = char_of (if d < 10 then 48 + d else 87 + d)"

text \<open>The low \<open>n\<close> hexadecimal digits of a number, most significant first.\<close>

fun hex_digits :: "nat \<Rightarrow> nat \<Rightarrow> string" where
  "hex_digits 0 v = []"
| "hex_digits (Suc n) v = hex_digits n (v div 16) @ [hex_digit (v mod 16)]"

definition BlobHashHex :: "byte list \<Rightarrow> string" where
  "BlobHashHex blob = hex_digits 16 (unat (blob_hash blob))"

subsection \<open>The cache directory on Windows\<close>

type_synonym fs = "string \<Rightarrow> byte list option"

text \<open>
  An error of the Windows API: its code, and the text that \<^verbatim>\<open>FormatMessageW\<close> and
  \<^verbatim>\<open>WideCharToMultiByte\<close> give for it, if they give one. The message is the text without its line
  end, or the number. Paths are the UTF-8 text that \<^verbatim>\<open>ToUtf8\<close> converts them to.
\<close>

record win32_error =
  we_code :: nat
  we_text :: "string option"

definition is_line_end :: "char \<Rightarrow> bool" where
  "is_line_end c \<longleftrightarrow> c = CHR 0x0A \<or> c = CHR 0x0D"

definition Win32ErrorMessage :: "win32_error \<Rightarrow> string" where
  "Win32ErrorMessage e =
     (let out = rev (dropWhile is_line_end (rev (case we_text e of Some t \<Rightarrow> t | None \<Rightarrow> [])))
      in if out = [] then ''error '' @ to_string (int (we_code e)) else out)"

definition ERROR_MOD_NOT_FOUND :: nat where "ERROR_MOD_NOT_FOUND = 126"

text \<open>The prefixes of a path at which a directory is created: at every backslash and at the end,
  from position three on.\<close>

definition directory_parts :: "string \<Rightarrow> string list" where
  "directory_parts path =
     map (\<lambda>i. take i path)
       (filter (\<lambda>i. 3 \<le> i \<and> (i = length path \<or> path ! i = CHR 0x5C)) [0..<Suc (length path)])"

text \<open>
  The answer for a directory: created, already there, or an error.
\<close>

datatype mkdir_answer = DirCreated | DirExists | DirFailed win32_error

fun create_parts :: "(string \<Rightarrow> mkdir_answer) \<Rightarrow> string list \<Rightarrow> unit outcome" where
  "create_parts mk [] = Returns ()"
| "create_parts mk (part # parts) =
     (case mk part of
        DirFailed e \<Rightarrow>
          Throws (IOException (''Tunnel: could not create the mesh shim cache directory '' @ sq @
            part @ sq @ '': '' @ Win32ErrorMessage e))
      | _ \<Rightarrow> create_parts mk parts)"

definition CreateDirectoryTree :: "(string \<Rightarrow> mkdir_answer) \<Rightarrow> string \<Rightarrow> unit outcome" where
  "CreateDirectoryTree mk path = create_parts mk (directory_parts path)"

text \<open>
  \<^verbatim>\<open>SHGetKnownFolderPath\<close> gives the root, or the temporary directory without its trailing
  backslash; both can be missing.
\<close>

definition drop_last_backslash :: "string \<Rightarrow> string" where
  "drop_last_backslash s = (if s \<noteq> [] \<and> last s = CHR 0x5C then butlast s else s)"

definition backslash :: string where "backslash = [CHR 0x5C]"

definition ShimCacheRoot :: "string option \<Rightarrow> string option \<Rightarrow> string outcome" where
  "ShimCacheRoot known temp =
     bind_outcome
       (case known of
          Some (c # cs) \<Rightarrow> Returns (c # cs)
        | _ \<Rightarrow>
            (case temp of
               None \<Rightarrow> Throws (IOException
                 ''Tunnel: could not determine a directory for the mesh shim cache.'')
             | Some tmp \<Rightarrow> Returns (drop_last_backslash tmp)))
       (\<lambda>root. Returns (root @ backslash @ ''DataZoo'' @ backslash @ ''erpl-tunnel'' @ backslash @
          ''shims''))"

subsection \<open>Extraction\<close>

record write_turn =
  ww_ok :: bool
  ww_got :: nat

text \<open>
  The loop of \<^verbatim>\<open>WriteFile\<close>: whether all was written, and the bytes in the file. A call
  offers at most a mebibyte.
\<close>

definition write_chunk :: "byte list \<Rightarrow> nat \<Rightarrow> byte list" where
  "write_chunk blob written = take (min (length blob - written) (2 ^ 20)) (drop written blob)"

function write_loop :: "(nat \<Rightarrow> write_turn) \<Rightarrow> nat \<Rightarrow> byte list \<Rightarrow> nat \<Rightarrow> bool \<times> byte list" where
  "write_loop ans n blob written =
     (if written < length blob then
        (if \<not> ww_ok (ans n) \<or> ww_got (ans n) = 0 then (False, [])
         else
           (let (ok, rest) = write_loop ans (Suc n) blob (written + ww_got (ans n))
            in (ok, take (ww_got (ans n)) (write_chunk blob written) @ rest)))
      else (True, []))"
  by pat_completeness auto
termination
  by (relation "measure (\<lambda>(ans, n, blob, written). length blob - written)") auto

declare write_loop.simps [simp del]

record extract_answers =
  xa_known_folder :: "string option"
  xa_temp_path :: "string option"
  xa_mkdir :: "string \<Rightarrow> mkdir_answer"
  xa_pid :: int
  xa_create_file :: bool
  xa_writes :: "nat \<Rightarrow> write_turn"
  xa_move :: bool
  xa_error :: win32_error
  xa_mkstemp :: "string option"
  xa_ofstream :: nat

definition shim_file :: "MeshKind \<Rightarrow> string" where
  "shim_file kind = backslash @ (if kind = Tailscale then ''ts_shim.dll'' else ''nb_shim.dll'')"

definition file_size_is :: "fs \<Rightarrow> string \<Rightarrow> nat \<Rightarrow> bool" where
  "file_size_is f path n \<longleftrightarrow> (case f path of Some content \<Rightarrow> length content = n | None \<Rightarrow> False)"

text \<open>Writing the temporary file and moving it into place.\<close>

definition place_shim ::
  "extract_answers \<Rightarrow> string \<Rightarrow> byte list \<Rightarrow> fs \<Rightarrow> string outcome \<times> fs" where
  "place_shim a final_path blob f =
     (let tmp_path = final_path @ ''.tmp.'' @ to_string (xa_pid a) in
      if \<not> xa_create_file a then
        (Throws (IOException (''Tunnel: could not write the mesh shim to '' @ sq @ tmp_path @ sq @
           '': '' @ Win32ErrorMessage (xa_error a))), f)
      else
        (let (ok, content) = write_loop (xa_writes a) 0 blob 0; f1 = f(tmp_path \<mapsto> content) in
         if \<not> ok then
           (Throws (IOException (''Tunnel: failed writing the mesh shim: '' @ Win32ErrorMessage (xa_error a))),
            f1(tmp_path := None))
         else if xa_move a then (Returns final_path, f1(final_path \<mapsto> content, tmp_path := None))
         else
           (let f2 = f1(tmp_path := None) in
            if file_size_is f1 final_path (length blob) then (Returns final_path, f2)
            else
              (Throws (IOException (''Tunnel: could not place the mesh shim at '' @ sq @ final_path @
                 sq @ '': '' @ Win32ErrorMessage (xa_error a))), f2))))"

definition ExtractShim_windows ::
  "extract_answers \<Rightarrow> MeshKind \<Rightarrow> byte list \<Rightarrow> fs \<Rightarrow> string outcome \<times> fs" where
  "ExtractShim_windows a kind blob f =
     (case ShimCacheRoot (xa_known_folder a) (xa_temp_path a) of
        Returns root \<Rightarrow>
          (let dir = root @ backslash @ BlobHashHex blob; final_path = dir @ shim_file kind in
           case CreateDirectoryTree (xa_mkdir a) dir of
             Returns _ \<Rightarrow>
               if file_size_is f final_path (length blob) then (Returns final_path, f)
               else place_shim a final_path blob f
           | Throws e \<Rightarrow> (Throws e, f)
           | Undefined \<Rightarrow> (Undefined, f))
      | Throws e \<Rightarrow> (Throws e, f)
      | Undefined \<Rightarrow> (Undefined, f))"

text \<open>The stream writes as much as the disk takes; its state is not checked.\<close>

definition ExtractShim_unix ::
  "extract_answers \<Rightarrow> byte list \<Rightarrow> fs \<Rightarrow> string outcome \<times> fs" where
  "ExtractShim_unix a blob f =
     (case xa_mkstemp a of
        None \<Rightarrow>
          (Throws (IOException ''Tunnel: could not create temp file for the mesh shim.''), f)
      | Some path \<Rightarrow> (Returns path, f(path \<mapsto> take (xa_ofstream a) blob)))"

definition ExtractShim ::
  "platform \<Rightarrow> extract_answers \<Rightarrow> MeshKind \<Rightarrow> byte list \<Rightarrow> fs \<Rightarrow> string outcome \<times> fs" where
  "ExtractShim pl a kind blob f =
     (if pl = Windows then ExtractShim_windows a kind blob f else ExtractShim_unix a blob f)"

subsection \<open>Loading and the latch\<close>

record MeshLoader =
  ml_active_kind :: MeshKind
  ml_api :: nat
  ml_handle :: nat
  ml_extracted_path :: string
  ml_fs :: fs
  ml_runtimes :: "MeshKind list"

record activate_answers =
  ac_extract :: extract_answers
  ac_handle :: nat
  ac_load_error :: win32_error
  ac_dlerror :: "string option"
  ac_missing :: "string list"
  ac_reported :: int

definition msg_module_hint :: string where
  "msg_module_hint =
     '' (a dependent DLL is missing '' @ em_dash @
     '' the shim must depend only on system DLLs; rebuild it with -static-libgcc)''"

definition LoadShim ::
  "platform \<Rightarrow> activate_answers \<Rightarrow> string \<Rightarrow> MeshKind \<Rightarrow> MeshLoader \<Rightarrow> nat outcome \<times> MeshLoader" where
  "LoadShim pl a path kind ml =
     (if ac_handle a = 0 then
        (if pl = Windows then
           (Throws (IOException (''Tunnel: failed to load the '' @ MeshKindName kind @
              '' shim from '' @ sq @ path @ sq @ '': '' @ Win32ErrorMessage (ac_load_error a) @
              (if we_code (ac_load_error a) = ERROR_MOD_NOT_FOUND then msg_module_hint else []))), ml)
         else
           (Throws (IOException (''Tunnel: failed to load the '' @ MeshKindName kind @
              '' shim: '' @ (case ac_dlerror a of Some err \<Rightarrow> err | None \<Rightarrow> ''unknown''))), ml\<lparr>ml_fs := (ml_fs ml)(path := None)\<rparr>))
      else (Returns (ac_handle a), ml\<lparr>ml_runtimes := kind # ml_runtimes ml\<rparr>))"

definition mesh_symbols :: "string list" where
  "mesh_symbols =
     [''mesh_kind'', ''mesh_new'', ''mesh_set_str'', ''mesh_set_bool'', ''mesh_up'', ''mesh_dial'',
      ''mesh_export'', ''mesh_unexport'', ''mesh_peers_json'', ''mesh_self_json'', ''mesh_errmsg'',
      ''mesh_close'']"

text \<open>Symbols are resolved in order; the first that is missing throws.\<close>

fun ResolveSymbols :: "string list \<Rightarrow> string list \<Rightarrow> unit outcome" where
  "ResolveSymbols missing [] = Returns ()"
| "ResolveSymbols missing (name # names) =
     (if name \<in> set missing then
        Throws (IOException (''Tunnel: mesh shim is missing symbol '' @ sq @ name @ sq @ ''.''))
      else ResolveSymbols missing names)"

definition AfterLoad :: "platform \<Rightarrow> string \<Rightarrow> fs \<Rightarrow> fs" where
  "AfterLoad pl path f = (if pl = Windows then f else f(path := None))"

definition msg_not_in_build :: "MeshKind \<Rightarrow> string" where
  "msg_not_in_build kind =
     ''Tunnel: this build does not include the '' @ MeshKindName kind @
     '' backend. Install the erpl_tunnel build with MESH_BACKEND='' @
     (if kind = Tailscale then ''tailscale'' else ''netbird'') @ '' (or '' @ sq @ ''both'' @ sq @ '').''"

definition msg_other_mesh :: "MeshKind \<Rightarrow> MeshKind \<Rightarrow> string" where
  "msg_other_mesh active kind =
     ''Tunnel: '' @ MeshKindName active @ '' is active in this DuckDB process; '' @
     MeshKindName kind @ '' cannot be loaded '' @ em_dash @
     '' start a new session for a different mesh.''"

definition msg_kind_mismatch :: "MeshKind \<Rightarrow> int \<Rightarrow> string" where
  "msg_kind_mismatch kind reported =
     ''Tunnel: mesh shim kind mismatch (asked '' @ to_string (kind_code kind) @
     '', shim reports '' @ to_string reported @ '').''"

text \<open>After the library is mapped: resolve, check the kind, latch.\<close>

definition latch_shim ::
  "platform \<Rightarrow> activate_answers \<Rightarrow> MeshKind \<Rightarrow> string \<Rightarrow> nat \<Rightarrow> MeshLoader \<Rightarrow> nat outcome \<times> MeshLoader" where
  "latch_shim pl a kind path h ml =
     (case ResolveSymbols (ac_missing a) mesh_symbols of
        Returns _ \<Rightarrow>
          if ac_reported a \<noteq> kind_code kind then
            (Throws (InternalException (msg_kind_mismatch kind (ac_reported a))), ml)
          else
            (Returns h,
             ml\<lparr>ml_handle := h, ml_api := h, ml_extracted_path := path, ml_active_kind := kind,
                ml_fs := AfterLoad pl path (ml_fs ml)\<rparr>)
      | Throws e \<Rightarrow> (Throws e, ml)
      | Undefined \<Rightarrow> (Undefined, ml))"

definition Activate ::
  "platform \<Rightarrow> mesh_build \<Rightarrow> activate_answers \<Rightarrow> MeshKind \<Rightarrow> MeshLoader \<Rightarrow> nat outcome \<times> MeshLoader" where
  "Activate pl mb a kind ml =
     (if \<not> IsCompiledIn mb kind then
        (Throws (InvalidInputException (msg_not_in_build kind)), ml)
      else if ml_active_kind ml \<noteq> MeshNone then
        (if ml_active_kind ml = kind then (Returns (ml_api ml), ml)
         else (Throws (InvalidInputException (msg_other_mesh (ml_active_kind ml) kind)), ml))
      else if GetBlob mb kind = [] then
        (Throws (InternalException (''Tunnel: mesh shim blob missing for '' @ MeshKindName kind)), ml)
      else
        (case ExtractShim pl (ac_extract a) kind (GetBlob mb kind) (ml_fs ml) of
           (Returns path, f) \<Rightarrow>
             (case LoadShim pl a path kind (ml\<lparr>ml_fs := f\<rparr>) of
                (Returns h, ml1) \<Rightarrow> latch_shim pl a kind path h ml1
              | (r, ml1) \<Rightarrow> (r, ml1))
         | (Throws e, f) \<Rightarrow> (Throws e, ml\<lparr>ml_fs := f\<rparr>)
         | (Undefined, f) \<Rightarrow> (Undefined, ml\<lparr>ml_fs := f\<rparr>)))"

definition ActiveKind :: "MeshLoader \<Rightarrow> MeshKind" where
  "ActiveKind ml = ml_active_kind ml"

section \<open>Lemmas\<close>

text \<open>An error of the Windows API always has a message, and it ends in no line break.\<close>

lemma Win32ErrorMessage_text:
  "Win32ErrorMessage e \<noteq> [] \<and> \<not> is_line_end (last (Win32ErrorMessage e))"
proof -
  define out where "out = dropWhile is_line_end (rev (case we_text e of Some t \<Rightarrow> t | None \<Rightarrow> []))"
  have "last (to_string (int (we_code e))) \<in> set (to_string (int (we_code e)))" by simp
  then have "\<not> is_line_end (last (to_string (int (we_code e))))"
    using to_string_chars by (fastforce simp: is_line_end_def is_digit_def)
  moreover have "\<not> is_line_end (hd out)" if "out \<noteq> []"
    using that unfolding out_def by (rule hd_dropWhile)
  moreover have "Win32ErrorMessage e =
      (if out = [] then ''error '' @ to_string (int (we_code e)) else rev out)"
    by (simp add: Win32ErrorMessage_def out_def [symmetric] Let_def)
  ultimately show ?thesis by (simp add: last_rev)
qed

lemma length_hex_digits [simp]: "length (hex_digits n v) = n"
  by (induction n arbitrary: v) simp_all

lemma hex_digit_inject:
  assumes "a < 16" and "b < 16" and "hex_digit a = hex_digit b"
  shows "a = b"
proof -
  have "of_char (hex_digit a) = (of_char (hex_digit b) :: nat)" using assms(3) by simp
  then show ?thesis using assms(1,2) by (auto simp: hex_digit_def split: if_splits)
qed

lemma hex_digits_inject:
  "v < 16 ^ n \<Longrightarrow> w < 16 ^ n \<Longrightarrow> hex_digits n v = hex_digits n w \<Longrightarrow> v = w"
proof (induction n arbitrary: v w)
  case (Suc n)
  from Suc.prems(3) have "hex_digits n (v div 16) = hex_digits n (w div 16)"
    and "hex_digit (v mod 16) = hex_digit (w mod 16)"
    by simp_all
  moreover have "v div 16 < 16 ^ n" "w div 16 < 16 ^ n"
    using Suc.prems(1,2) by (simp_all add: less_mult_imp_div_less)
  ultimately have "v div 16 = w div 16" "v mod 16 = w mod 16"
    using Suc.IH hex_digit_inject [of "v mod 16" "w mod 16"] by simp_all
  then show ?case by (metis div_mult_mod_eq)
qed simp

lemma BlobHashHex_inject: "BlobHashHex b = BlobHashHex b' \<longleftrightarrow> blob_hash b = blob_hash b'"
proof
  assume "BlobHashHex b = BlobHashHex b'"
  then have "hex_digits 16 (unat (blob_hash b)) = hex_digits 16 (unat (blob_hash b'))"
    by (simp add: BlobHashHex_def)
  moreover have "unat (blob_hash b) < 16 ^ 16" "unat (blob_hash b') < 16 ^ 16"
    using unsigned_less [of "blob_hash b"] unsigned_less [of "blob_hash b'"] by simp_all
  ultimately show "blob_hash b = blob_hash b'"
    by (metis hex_digits_inject word_unat_eq_iff)
qed (simp add: BlobHashHex_def)

text \<open>\<^verbatim>\<open>WriteFile\<close> never reports more than the mebibyte it was offered.\<close>

lemma write_loop_content:
  assumes "\<And>n. ww_got (ans n) \<le> 2 ^ 20" and "write_loop ans n blob written = (True, content)"
  shows "content = drop written blob"
  using assms
proof (induction ans n blob written arbitrary: content rule: write_loop.induct)
  case (1 ans n blob written)
  show ?case
  proof (cases "written < length blob")
    case True
    with "1.prems"(2) have go: "\<not> (\<not> ww_ok (ans n) \<or> ww_got (ans n) = 0)"
      by (subst (asm) write_loop.simps) (simp split: if_splits)
    let ?g = "ww_got (ans n)"
    obtain ok rest where rest: "write_loop ans (Suc n) blob (written + ?g) = (ok, rest)" by fastforce
    have eq: "write_loop ans n blob written = (ok, take ?g (write_chunk blob written) @ rest)"
      using True go rest by (subst write_loop.simps) simp
    with "1.prems"(2) have "ok" and content: "content = take ?g (write_chunk blob written) @ rest"
      by simp_all
    with "1.IH" [OF True go "1.prems"(1), of rest] rest have "rest = drop (written + ?g) blob"
      by simp
    moreover have "take ?g (write_chunk blob written) = take ?g (drop written blob)"
      using "1.prems"(1) [of n] by (simp add: write_chunk_def min_def)
    ultimately show ?thesis
      by (simp add: content) (metis add.commute append_take_drop_id drop_drop)
  next
    case False
    then show ?thesis using "1.prems"(2) by (subst (asm) write_loop.simps) simp
  qed
qed

lemma ResolveSymbols_Returns:
  "ResolveSymbols missing names = Returns () \<longleftrightarrow> set names \<inter> set missing = {}"
  by (induction names) auto

lemma ResolveSymbols_defined [simp]: "ResolveSymbols missing names \<noteq> Undefined"
  by (induction names) auto

text \<open>A call to \<open>Activate\<close> while a mesh is latched.\<close>

lemma Activate_latched:
  assumes "ml_active_kind ml \<noteq> MeshNone"
  shows "snd (Activate pl mb a kind ml) = ml"
    and "returned (fst (Activate pl mb a kind ml)) \<longleftrightarrow>
      IsCompiledIn mb kind \<and> kind = ml_active_kind ml"
    and "fst (Activate pl mb a kind ml) = Returns h \<Longrightarrow> h = ml_api ml"
  using assms by (auto simp: Activate_def split: if_split_asm)

lemma LoadShim_cases:
  "LoadShim pl a path kind ml = (Returns h, ml') \<longleftrightarrow>
     h = ac_handle a \<and> h \<noteq> 0 \<and> ml' = ml\<lparr>ml_runtimes := kind # ml_runtimes ml\<rparr>"
  "LoadShim pl a path kind ml = (Throws e, ml') \<Longrightarrow>
     ac_handle a = 0 \<and> ml_active_kind ml' = ml_active_kind ml \<and> ml_runtimes ml' = ml_runtimes ml \<and>
     ml_fs ml' = (if pl = Windows then ml_fs ml else (ml_fs ml)(path := None))"
  "LoadShim pl a path kind ml \<noteq> (Undefined, ml')"
  by (auto simp: LoadShim_def split: if_splits)

lemma latch_shim_latches:
  assumes "latch_shim pl a kind path h ml = (r, ml')"
  shows "r \<noteq> Undefined"
    and "returned r \<longleftrightarrow> set mesh_symbols \<inter> set (ac_missing a) = {} \<and> ac_reported a = kind_code kind"
    and "returned r \<Longrightarrow> r = Returns h \<and> ml_api ml' = h \<and> ml_active_kind ml' = kind \<and>
      ml_fs ml' = AfterLoad pl path (ml_fs ml) \<and> ml_runtimes ml' = ml_runtimes ml"
    and "\<not> returned r \<Longrightarrow> ml' = ml"
  using assms ResolveSymbols_Returns [of "ac_missing a" mesh_symbols]
  by (cases "ResolveSymbols (ac_missing a) mesh_symbols";
      auto simp: latch_shim_def split: if_split_asm)+

text \<open>A call to \<open>Activate\<close> while no mesh is latched: what it changes.\<close>

lemma Activate_unlatched:
  assumes "ml_active_kind ml = MeshNone" and "Activate pl mb a kind ml = (r, ml')"
  shows "ml_active_kind ml' = (if returned r then kind else MeshNone)"
    and "returned r \<Longrightarrow> kind \<noteq> MeshNone \<and> r = Returns (ml_api ml')"
proof -
  have "ml_active_kind ml' = (if returned r then kind else MeshNone) \<and>
      (returned r \<longrightarrow> kind \<noteq> MeshNone \<and> r = Returns (ml_api ml'))"
  proof (cases "IsCompiledIn mb kind \<and> GetBlob mb kind \<noteq> []")
    case False
    then show ?thesis using assms by (auto simp: Activate_def split: if_split_asm)
  next
    case True
    then have kind: "kind \<noteq> MeshNone" by auto
    obtain x f where ex: "ExtractShim pl (ac_extract a) kind (GetBlob mb kind) (ml_fs ml) = (x, f)"
      by fastforce
    show ?thesis
    proof (cases x)
      case (Returns path)
      obtain y ml1 where ld: "LoadShim pl a path kind (ml\<lparr>ml_fs := f\<rparr>) = (y, ml1)" by fastforce
      show ?thesis
      proof (cases y)
        case yr: (Returns h)
        have "latch_shim pl a kind path h ml1 = (r, ml')"
          using assms True ex ld Returns yr by (simp add: Activate_def)
        note l = latch_shim_latches [OF this]
        have "ml_active_kind ml1 = MeshNone" using ld yr assms(1) by (simp add: LoadShim_cases(1))
        then show ?thesis using l(3,4) kind by (cases "returned r") auto
      next
        case (Throws e)
        then have "r = Throws e" "ml' = ml1"
          using assms True ex ld Returns by (simp_all add: Activate_def)
        then show ?thesis using LoadShim_cases(2) [of pl a path kind _ e ml1] ld Throws assms(1) by simp
      next
        case Undefined
        then show ?thesis using ld LoadShim_cases(3) by metis
      qed
    qed (use assms True ex in \<open>auto simp: Activate_def\<close>)
  qed
  then show "ml_active_kind ml' = (if returned r then kind else MeshNone)"
    and "returned r \<Longrightarrow> kind \<noteq> MeshNone \<and> r = Returns (ml_api ml')" by simp_all
qed

text \<open>A history of calls, from any threads: the latch's mutex makes each of them atomic.\<close>

fun activations ::
  "platform \<Rightarrow> mesh_build \<Rightarrow> (activate_answers \<times> MeshKind) list \<Rightarrow> MeshLoader \<Rightarrow>
   nat outcome list \<times> MeshLoader" where
  "activations pl mb [] ml = ([], ml)"
| "activations pl mb ((a, kind) # calls) ml =
     (let (r, ml1) = Activate pl mb a kind ml; (rs, ml2) = activations pl mb calls ml1
      in (r # rs, ml2))"

lemma activations_latched:
  assumes "ml_active_kind ml \<noteq> MeshNone" and "activations pl mb calls ml = (rs, ml')"
  shows "ml' = ml \<and> (\<forall>((a, kind), r) \<in> set (zip calls rs). returned r \<longrightarrow>
     kind = ml_active_kind ml \<and> r = Returns (ml_api ml))"
  using assms(2)
proof (induction calls arbitrary: rs ml')
  case (Cons c calls)
  obtain a kind where [simp]: "c = (a, kind)" by fastforce
  obtain r ml1 where act: "Activate pl mb a kind ml = (r, ml1)" by fastforce
  obtain rs' ml2 where rest: "activations pl mb calls ml1 = (rs', ml2)" by fastforce
  note l = Activate_latched [OF assms(1), of pl mb a kind, unfolded act fst_conv snd_conv]
  from l(1) rest have "activations pl mb calls ml = (rs', ml2)" by simp
  note IH = Cons.IH [OF this]
  have "rs = r # rs'" "ml' = ml2" using Cons.prems act rest by simp_all
  moreover have "returned r \<longrightarrow> kind = ml_active_kind ml \<and> r = Returns (ml_api ml)"
    using l by (auto simp: returned_iff)
  ultimately show ?case using IH rest l(1) by auto
qed simp

lemma activations_unlatched:
  assumes "ml_active_kind ml = MeshNone" and "activations pl mb calls ml = (rs, ml')"
  shows "\<forall>((a, kind), r) \<in> set (zip calls rs). returned r \<longrightarrow>
     kind \<noteq> MeshNone \<and> kind = ml_active_kind ml' \<and> r = Returns (ml_api ml')"
  using assms
proof (induction calls arbitrary: ml rs ml')
  case (Cons c calls)
  obtain a kind where [simp]: "c = (a, kind)" by fastforce
  obtain r ml1 where act: "Activate pl mb a kind ml = (r, ml1)" by fastforce
  obtain rs' ml2 where rest: "activations pl mb calls ml1 = (rs', ml2)" by fastforce
  have rs: "rs = r # rs'" "ml' = ml2" using Cons.prems(2) act rest by simp_all
  note u = Activate_unlatched [OF Cons.prems(1) act]
  show ?case
  proof (cases "returned r")
    case True
    then have "ml_active_kind ml1 \<noteq> MeshNone" using u by simp
    note l = activations_latched [OF this rest]
    show ?thesis using l u True rs by (fastforce simp: zip_Cons)
  next
    case False
    then have "ml_active_kind ml1 = MeshNone" using u by simp
    from Cons.IH [OF this rest] False rs show ?thesis by auto
  qed
qed simp


subsection \<open>What is left on disk\<close>

text \<open>
  A shim that was mapped and then refused: it lacks a symbol or reports another kind.
\<close>

definition refused_after_load :: "activate_answers \<Rightarrow> MeshKind \<Rightarrow> bool" where
  "refused_after_load a kind \<longleftrightarrow>
     ac_handle a \<noteq> 0 \<and>
     (set mesh_symbols \<inter> set (ac_missing a) \<noteq> {} \<or> ac_reported a \<noteq> kind_code kind)"

text \<open>
  What a first activation on Unix leaves: its temporary file is gone, unless the shim was refused
  after it was mapped.
\<close>

lemma Activate_unix:
  assumes "pl \<noteq> Windows" and "ml_active_kind ml = MeshNone" and "IsCompiledIn mb kind"
    and "GetBlob mb kind \<noteq> []" and "xa_mkstemp (ac_extract a) = Some path"
    and "Activate pl mb a kind ml = (r, ml')"
  shows "ml_fs ml' =
      (if refused_after_load a kind then (ml_fs ml)(path \<mapsto> take (xa_ofstream (ac_extract a)) (GetBlob mb kind))
       else (ml_fs ml)(path := None))"
    and "ml_runtimes ml' = (if ac_handle a \<noteq> 0 then kind # ml_runtimes ml else ml_runtimes ml)"
    and "returned r \<longleftrightarrow> ac_handle a \<noteq> 0 \<and> \<not> refused_after_load a kind"
proof -
  let ?f = "(ml_fs ml)(path \<mapsto> take (xa_ofstream (ac_extract a)) (GetBlob mb kind))"
  let ?ml = "ml\<lparr>ml_fs := ?f\<rparr>"
  have ex: "ExtractShim pl (ac_extract a) kind (GetBlob mb kind) (ml_fs ml) = (Returns path, ?f)"
    using assms(1,5) by (simp add: ExtractShim_def ExtractShim_unix_def)
  have "ml_fs ml' = (if refused_after_load a kind then ?f else (ml_fs ml)(path := None)) \<and>
      ml_runtimes ml' = (if ac_handle a \<noteq> 0 then kind # ml_runtimes ml else ml_runtimes ml) \<and>
      (returned r \<longleftrightarrow> ac_handle a \<noteq> 0 \<and> \<not> refused_after_load a kind)"
  proof (cases "ac_handle a = 0")
    case True
    then have "r \<noteq> Undefined \<and> \<not> returned r \<and> ml' = ?ml\<lparr>ml_fs := ?f(path := None)\<rparr>"
      using assms ex by (auto simp: Activate_def LoadShim_def)
    with True show ?thesis by (simp add: refused_after_load_def)
  next
    case False
    let ?ml1 = "?ml\<lparr>ml_runtimes := kind # ml_runtimes ml\<rparr>"
    have "latch_shim pl a kind path (ac_handle a) ?ml1 = (r, ml')"
      using assms ex False by (simp add: Activate_def LoadShim_def)
    note l = latch_shim_latches [OF this]
    show ?thesis
    proof (cases "returned r")
      case True
      then show ?thesis using l False assms(1) by (simp add: refused_after_load_def AfterLoad_def)
    next
      case nr: False
      then show ?thesis using l(2) l(4) [OF nr] False by (auto simp: refused_after_load_def)
    qed
  qed
  then show "ml_fs ml' = (if refused_after_load a kind then ?f else (ml_fs ml)(path := None))"
    and "ml_runtimes ml' = (if ac_handle a \<noteq> 0 then kind # ml_runtimes ml else ml_runtimes ml)"
    and "returned r \<longleftrightarrow> ac_handle a \<noteq> 0 \<and> \<not> refused_after_load a kind"
    by simp_all
qed

definition tmp_path :: "extract_answers \<Rightarrow> string \<Rightarrow> string" where
  "tmp_path a final_path = final_path @ ''.tmp.'' @ to_string (xa_pid a)"

lemma tmp_path_differs: "tmp_path a p \<noteq> p"
  by (simp add: tmp_path_def)

lemma place_shim_result:
  assumes "\<And>n. ww_got (xa_writes a n) \<le> 2 ^ 20" and "place_shim a p blob f = (r, f')"
  shows "f' = f \<or> f' = f(tmp_path a p := None) \<or> f' = f(p \<mapsto> blob, tmp_path a p := None)"
    and "r = Returns q \<Longrightarrow> q = p \<and> file_size_is f' p (length blob)"
    and "r \<noteq> Undefined"
proof -
  obtain ok content where w: "write_loop (xa_writes a) 0 blob 0 = (ok, content)" by fastforce
  have content: "ok \<Longrightarrow> content = blob" using write_loop_content [OF assms(1), where n = 0 and written = 0] w by simp
  have same: "file_size_is (f(tmp_path a p \<mapsto> content)) p n = file_size_is f p n"
    "file_size_is (f(tmp_path a p := None)) p n = file_size_is f p n" for n
    using tmp_path_differs [of a p] by (simp_all add: file_size_is_def)
  show "f' = f \<or> f' = f(tmp_path a p := None) \<or> f' = f(p \<mapsto> blob, tmp_path a p := None)"
    using assms(2) content unfolding place_shim_def tmp_path_def [symmetric]
    by (auto simp: w Let_def split: if_split_asm)
  show "r \<noteq> Undefined"
    using assms(2) by (auto simp: place_shim_def w Let_def split: if_split_asm)
  show "q = p \<and> file_size_is f' p (length blob)" if "r = Returns q"
    using assms(2) content that same tmp_path_differs [of a p] unfolding place_shim_def tmp_path_def [symmetric]
    by (auto simp: w Let_def file_size_is_def split: if_split_asm)
qed

text \<open>The loader never runs into undefined behaviour.\<close>

lemma create_parts_defined: "create_parts mk parts \<noteq> Undefined"
  by (induction parts) (auto split: mkdir_answer.splits)

lemma ExtractShim_defined: "fst (ExtractShim pl a kind blob f) \<noteq> Undefined"
proof -
  have "ShimCacheRoot k t \<noteq> Undefined" for k t
    by (auto simp: ShimCacheRoot_def split: option.splits list.splits)
  moreover have "CreateDirectoryTree mk dir \<noteq> Undefined" for mk dir
    by (simp add: CreateDirectoryTree_def create_parts_defined)
  moreover have "fst (place_shim a p blob f) \<noteq> Undefined" for p
    by (auto simp: place_shim_def Let_def split: prod.splits)
  ultimately show ?thesis
    by (auto simp: ExtractShim_def ExtractShim_unix_def ExtractShim_windows_def Let_def
        split: option.splits outcome.splits)
qed

lemma Activate_defined: "fst (Activate pl mb a kind ml) \<noteq> Undefined"
proof -
  obtain x f where ex: "ExtractShim pl (ac_extract a) kind (GetBlob mb kind) (ml_fs ml) = (x, f)"
    by fastforce
  have x: "x \<noteq> Undefined" using ExtractShim_defined [of pl "ac_extract a" kind "GetBlob mb kind" "ml_fs ml"] ex by simp
  have "fst (LoadShim pl a path kind ml') \<noteq> Undefined" for path ml' by (simp add: LoadShim_def)
  moreover have "fst (latch_shim pl a kind path h ml') \<noteq> Undefined" for path h ml'
    using latch_shim_latches(1) [of pl a kind path h ml'] by (metis prod.collapse)
  ultimately show ?thesis using x
    by (auto simp: Activate_def ex split: outcome.splits prod.splits) (metis fst_conv)+
qed

section \<open>Properties\<close>

text \<open>C28: One mesh per process. In any history of activations from the unlatched state, however the
  shims and the operating system answer, all activations that succeed are of one and the same kind
  and hand out the same API, namely those the loader ends up with.\<close>

theorem single_mesh_latch:
  assumes "ml_active_kind ml = MeshNone" and "activations pl mb calls ml = (rs, ml')"
  shows "\<forall>((a, kind), r) \<in> set (zip calls rs). returned r \<longrightarrow>
     kind \<noteq> MeshNone \<and> kind = ActiveKind ml' \<and> r = Returns (ml_api ml')"
  using activations_unlatched [OF assms] by (simp add: ActiveKind_def)

definition demo_extract :: extract_answers where
  "demo_extract =
     \<lparr>xa_known_folder = None, xa_temp_path = None, xa_mkdir = (\<lambda>_. DirCreated), xa_pid = 7,
      xa_create_file = True, xa_writes = (\<lambda>_. \<lparr>ww_ok = True, ww_got = 2\<rparr>), xa_move = True,
      xa_error = \<lparr>we_code = 0, we_text = None\<rparr>, xa_mkstemp = Some ''/tmp/shim'', xa_ofstream = 3\<rparr>"

definition demo_activate :: "nat \<Rightarrow> string list \<Rightarrow> int \<Rightarrow> activate_answers" where
  "demo_activate h missing reported =
     \<lparr>ac_extract = demo_extract, ac_handle = h, ac_load_error = \<lparr>we_code = 0, we_text = None\<rparr>,
      ac_dlerror = None,
      ac_missing = missing, ac_reported = reported\<rparr>"

definition demo_build :: mesh_build where
  "demo_build = \<lparr>mb_tailscale = Some [1, 2, 3], mb_netbird = Some [4, 5, 6]\<rparr>"

definition demo_loader :: MeshLoader where
  "demo_loader = \<lparr>ml_active_kind = MeshNone, ml_api = 0, ml_handle = 0, ml_extracted_path = [],
     ml_fs = (\<lambda>_. None), ml_runtimes = []\<rparr>"

definition demo_calls :: "(activate_answers \<times> MeshKind) list" where
  "demo_calls = [(demo_activate 9 [] 2, NetBird), (demo_activate 8 [] 1, Tailscale),
     (demo_activate 7 [] 2, NetBird)]"

lemmas demo_loader_eval = demo_calls_def demo_loader_def demo_build_def demo_activate_def
  demo_extract_def Activate_def ExtractShim_def ExtractShim_unix_def LoadShim_def latch_shim_def
  AfterLoad_def Let_def

lemma demo_symbols: "ResolveSymbols [] mesh_symbols = Returns ()"
  by (simp add: ResolveSymbols_Returns)

theorem single_mesh_latch_witness:
  "ActiveKind (snd (activations Linux demo_build demo_calls demo_loader)) = NetBird \<and>
   [kr \<leftarrow> zip (map snd demo_calls) (fst (activations Linux demo_build demo_calls demo_loader)).
      returned (snd kr) \<and> kr \<noteq> (NetBird, Returns 9)] = []"
proof -
  let ?x = "activations Linux demo_build demo_calls demo_loader"
  have x: "?x = (fst ?x, snd ?x)" by simp
  have s: "ml_active_kind (snd ?x) = NetBird" "ml_api (snd ?x) = 9"
    by (simp_all add: demo_loader_eval demo_symbols)
  have "ml_active_kind demo_loader = MeshNone" by (simp add: demo_loader_def)
  note latch = single_mesh_latch [OF this x]
  have "length demo_calls = length (fst ?x)" by (simp add: demo_loader_eval demo_symbols)
  with latch s show ?thesis
    by (fastforce simp: ActiveKind_def filter_empty_conv zip_map1)
qed

text \<open>A failed load leaves nothing behind on Unix: after an activation, successful or refused by
  the dynamic loader, the temporary library is deleted. Only a shim that was mapped and then
  rejected for a missing symbol or a wrong kind keeps its file; it also keeps its runtime mapped
  while the latch stays free.\<close>

theorem Activate_unix_cleanup:
  assumes "pl \<noteq> Windows" and "ml_active_kind ml = MeshNone" and "IsCompiledIn mb kind"
    and "GetBlob mb kind \<noteq> []" and "xa_mkstemp (ac_extract a) = Some path"
    and "Activate pl mb a kind ml = (r, ml')"
  shows "(ml_fs ml' path = None \<longleftrightarrow> \<not> refused_after_load a kind) \<and>
    (\<forall>q. q \<noteq> path \<longrightarrow> ml_fs ml' q = ml_fs ml q) \<and>
    (returned r \<longleftrightarrow> ac_handle a \<noteq> 0 \<and> \<not> refused_after_load a kind) \<and>
    (refused_after_load a kind \<longrightarrow>
       ml_active_kind ml' = MeshNone \<and> ml_runtimes ml' = kind # ml_runtimes ml)"
  using Activate_unix [OF assms] Activate_unlatched [OF assms(2,6)]
  by (simp add: refused_after_load_def)

theorem Activate_unix_cleanup_witness:
  "ml_fs (snd (Activate Linux demo_build (demo_activate 9 [] 2) NetBird demo_loader)) ''/tmp/shim'' = None"
proof -
  let ?a = "demo_activate 9 [] 2"
  let ?x = "Activate Linux demo_build ?a NetBird demo_loader"
  have pre: "Linux \<noteq> Windows" "ml_active_kind demo_loader = MeshNone" "IsCompiledIn demo_build NetBird"
    "GetBlob demo_build NetBird \<noteq> []" "xa_mkstemp (ac_extract ?a) = Some ''/tmp/shim''"
    "\<not> refused_after_load ?a NetBird"
    by (simp_all add: demo_loader_def demo_build_def demo_activate_def demo_extract_def
        refused_after_load_def)
  have "?x = (fst ?x, snd ?x)" by simp
  from Activate_unix_cleanup [OF pre(1-5) this] pre(6) show ?thesis by simp
qed

text \<open>
  The consequence for the latch: after a rejected shim of one kind, another kind is activated, and
  two Go runtimes live in the process.
\<close>

theorem two_runtimes_after_rejection:
  "ml_runtimes (snd (activations Linux demo_build
     [(demo_activate 8 [''mesh_close''] 1, Tailscale), (demo_activate 9 [] 2, NetBird)] demo_loader)) =
   [NetBird, Tailscale]"
  by (simp add: demo_loader_eval demo_symbols mesh_symbols_def)

text \<open>On Windows the shim appears under its final name only when complete. Whatever fails, the
  only changes to the disk are that the temporary file is gone and, at most, that the final path
  holds exactly the embedded bytes; and a path that is returned names a file of the right size.\<close>

theorem place_shim_atomic:
  assumes "\<forall>n. ww_got (xa_writes a n) \<le> 2 ^ 20" and "place_shim a final_path blob f = (r, f')"
  shows "(f' = f \<or> f' = f(tmp_path a final_path := None) \<or>
      f' = f(final_path \<mapsto> blob, tmp_path a final_path := None)) \<and>
    (\<forall>q. r = Returns q \<longrightarrow> q = final_path \<and> file_size_is f' final_path (length blob))"
  using place_shim_result [OF _ assms(2)] assms(1) by blast

theorem place_shim_atomic_witness:
  "\<exists>f'. place_shim demo_extract ''d'' [1, 2, 3] (\<lambda>_. None) = (Returns ''d'', f') \<and>
     file_size_is f' ''d'' 3"
proof -
  let ?x = "place_shim demo_extract ''d'' [1, 2, 3] (\<lambda>_. None)"
  have "fst ?x = Returns ''d''"
    by (simp add: place_shim_def demo_extract_def write_loop.simps write_chunk_def Let_def)
  then have x: "?x = (Returns ''d'', snd ?x)" by (simp add: prod_eq_iff)
  have "\<forall>n. ww_got (xa_writes demo_extract n) \<le> 2 ^ 20" by (simp add: demo_extract_def)
  from place_shim_atomic [OF this x] x show ?thesis by (intro exI [of _ "snd ?x"]) (simp add: numeral_3_eq_3)
qed

text \<open>The cache directory of a blob is named by exactly sixteen hexadecimal digits, and two blobs
  share a directory only when their 64-bit hashes are equal: the name loses no bit of the hash.\<close>

theorem BlobHashHex_key:
  "length (BlobHashHex blob) = 16 \<and>
   (BlobHashHex blob = BlobHashHex blob' \<longleftrightarrow> blob_hash blob = blob_hash blob')"
  using BlobHashHex_inject [of blob blob'] by (simp add: BlobHashHex_def)

text \<open>The offset basis of the hash is not that of 64-bit FNV-1a.\<close>

theorem fnv_basis_not_standard: "fnv_basis \<noteq> 14695981039346656037"
  by (simp add: fnv_basis_def)

end
