(* ===== verification/Mesh_Peers_Json.thy ===== *)
theory Mesh_Peers_Json
  imports Tunnel_Prelude
begin

text \<open>
  The parser of the peer status, from \<^verbatim>\<open>src/src/mesh_peers_json.cpp\<close>. The JSON reader is the
  yyjson library: a function \<open>reader\<close> from text to a JSON value, \<open>None\<close> for malformed text, is an
  argument. The lookup of a key returns the first entry with that key, as yyjson documents.
\<close>

section \<open>Definitions\<close>

datatype json =
    JNull
  | JBool bool
  | JNum int
  | JStr string
  | JArr "json list"
  | JObj "(string \<times> json) list"

record MeshPeer =
  mp_backend :: string
  mp_host_name :: string
  mp_dns_name :: string
  mp_mesh_ip :: string
  mp_tags :: "string list"
  mp_online :: bool

fun is_obj :: "json \<Rightarrow> bool" where
  "is_obj (JObj _) \<longleftrightarrow> True"
| "is_obj _ \<longleftrightarrow> False"

fun obj_get :: "json \<Rightarrow> string \<Rightarrow> json option" where
  "obj_get (JObj kvs) k = map_of kvs k"
| "obj_get _ k = None"

definition JsonStr :: "json \<Rightarrow> string \<Rightarrow> string" where
  "JsonStr obj key = (case obj_get obj key of Some (JStr s) \<Rightarrow> s | _ \<Rightarrow> [])"

fun json_strings :: "json list \<Rightarrow> string list" where
  "json_strings [] = []"
| "json_strings (JStr s # vs) = s # json_strings vs"
| "json_strings (_ # vs) = json_strings vs"

definition peer_of_json :: "json \<Rightarrow> MeshPeer" where
  "peer_of_json el =
     \<lparr>mp_backend = JsonStr el ''backend'', mp_host_name = JsonStr el ''host_name'',
      mp_dns_name = JsonStr el ''dns_name'', mp_mesh_ip = JsonStr el ''mesh_ip'',
      mp_tags = (case obj_get el ''tags'' of Some (JArr tags) \<Rightarrow> json_strings tags | _ \<Rightarrow> []),
      mp_online = (obj_get el ''online'' = Some (JBool True))\<rparr>"

fun peer_rows :: "json list \<Rightarrow> MeshPeer list" where
  "peer_rows [] = []"
| "peer_rows (el # els) = (if is_obj el then peer_of_json el # peer_rows els else peer_rows els)"

definition ParseMeshPeersJson :: "(string \<Rightarrow> json option) \<Rightarrow> string \<Rightarrow> MeshPeer list" where
  "ParseMeshPeersJson reader text =
     (if text = [] then []
      else (case reader text of Some (JArr els) \<Rightarrow> peer_rows els | _ \<Rightarrow> []))"

text \<open>The object a shim writes for a peer.\<close>

definition json_of_peer :: "MeshPeer \<Rightarrow> json" where
  "json_of_peer p =
     JObj [(''backend'', JStr (mp_backend p)), (''host_name'', JStr (mp_host_name p)),
       (''dns_name'', JStr (mp_dns_name p)), (''mesh_ip'', JStr (mp_mesh_ip p)),
       (''tags'', JArr (map JStr (mp_tags p))), (''online'', JBool (mp_online p))]"

section \<open>Lemmas\<close>

lemma json_strings_JStr [simp]: "json_strings (map JStr xs) = xs"
  by (induction xs) simp_all

lemma peer_of_json_of_peer [simp]: "peer_of_json (json_of_peer p) = p"
  by (simp add: peer_of_json_def json_of_peer_def JsonStr_def)

lemma peer_rows_filter: "peer_rows els = map peer_of_json (filter is_obj els)"
  by (induction els) simp_all

lemma is_obj_json_of_peer [simp]: "is_obj (json_of_peer p)"
  by (simp add: json_of_peer_def)

lemma peer_rows_roundtrip: "peer_rows (map json_of_peer ps) = ps"
  by (induction ps) simp_all

section \<open>Properties\<close>

text \<open>Reading back what a shim wrote gives the same peers, in the same order: for the text of a
  list of peer objects, with any non-object elements mixed in, the parser returns exactly them.\<close>

theorem ParseMeshPeersJson_roundtrip:
  assumes "reader text = Some (JArr els)" and "text \<noteq> []" and "filter is_obj els = map json_of_peer peers"
  shows "ParseMeshPeersJson reader text = peers"
  using assms by (simp add: ParseMeshPeersJson_def peer_rows_filter comp_def)

definition demo_peer :: MeshPeer where
  "demo_peer = \<lparr>mp_backend = ''netbird'', mp_host_name = ''db'', mp_dns_name = ''db.mesh'',
     mp_mesh_ip = ''100.64.0.7'', mp_tags = [''prod''], mp_online = True\<rparr>"

theorem ParseMeshPeersJson_roundtrip_witness:
  "ParseMeshPeersJson (\<lambda>t. if t = ''x'' then Some (JArr [JNull, json_of_peer demo_peer]) else None) ''x'' =
     [demo_peer]"
  by (rule ParseMeshPeersJson_roundtrip [of _ _ "[JNull, json_of_peer demo_peer]"]) simp_all

text \<open>Untrusted input cannot break the parser: whatever the text is, every row comes from an object
  of the top-level array, a peer is online only when the shim said literally true, and text that is
  malformed or not an array gives no rows.\<close>

theorem ParseMeshPeersJson_defensive:
  "(case reader text of
      Some (JArr els) \<Rightarrow> length (ParseMeshPeersJson reader text) \<le> length els
    | _ \<Rightarrow> ParseMeshPeersJson reader text = []) \<and>
   (\<forall>p \<in> set (ParseMeshPeersJson reader text). \<exists>els el.
      reader text = Some (JArr els) \<and> el \<in> set els \<and> is_obj el \<and> p = peer_of_json el \<and>
      (mp_online p \<longrightarrow> obj_get el ''online'' = Some (JBool True)))"
  by (auto simp: ParseMeshPeersJson_def peer_rows_filter peer_of_json_def
      split: option.splits json.splits)

theorem ParseMeshPeersJson_defensive_witness:
  "ParseMeshPeersJson (\<lambda>_. Some (JArr [JObj [(''online'', JNum 1)], JStr ''junk''])) ''x'' \<noteq> [] \<and>
   (\<forall>p \<in> set (ParseMeshPeersJson (\<lambda>_. Some (JArr [JObj [(''online'', JNum 1)], JStr ''junk''])) ''x'').
      \<not> mp_online p)"
proof -
  let ?r = "\<lambda>_ :: string. Some (JArr [JObj [(''online'', JNum 1)], JStr ''junk''])"
  have "ParseMeshPeersJson ?r ''x'' \<noteq> []" by (simp add: ParseMeshPeersJson_def)
  moreover have "\<not> mp_online p" if "p \<in> set (ParseMeshPeersJson ?r ''x'')" for p
    using ParseMeshPeersJson_defensive [of ?r "''x''"] that by fastforce
  ultimately show ?thesis by blast
qed

end
