(* ===== verification/Mesh_Backend.thy ===== *)
theory Mesh_Backend
  imports Mesh_Loader Mesh_Peers_Json Tunnel_Secret
begin

text \<open>
  The mesh transport, from \<^verbatim>\<open>src/src/mesh_backend.cpp\<close>: the node behind one secret with its
  operations over the C ABI of the shim, the process-wide cache of nodes, and the activation
  pragma. The shim is not C++ code of the extension: its return codes and buffers are answers,
  and the calls the extension makes are a log. Its buffer contract is taken from
  \<^verbatim>\<open>writeJSON\<close> in \<^verbatim>\<open>src/shim/ts/main.go\<close>.
\<close>

section \<open>Definitions\<close>

definition ParseMeshKind :: "(string \<Rightarrow> string) \<Rightarrow> string \<Rightarrow> MeshKind" where
  "ParseMeshKind lower backend =
     (let b = lower backend in
      if b = ''tailscale'' then Tailscale else if b = ''netbird'' then NetBird else MeshNone)"

record MeshOptions =
  mo_kind :: MeshKind
  mo_auth_key :: string
  mo_setup_key :: string
  mo_hostname :: string
  mo_tags :: string
  mo_groups :: string
  mo_control_url :: string
  mo_mgmt_url :: string
  mo_state_dir :: string
  mo_ephemeral :: bool

text \<open>The calls into a shim.\<close>

datatype mesh_call =
    NodeNew
  | SetStr int string string
  | SetBool int string bool
  | NodeUp int
  | NodeDial int string int
  | NodeExport int int string int
  | NodeUnexport int int
  | NodeJson int
  | NodeClose int

type_synonym mesh_log = "mesh_call list"

record MeshBackend =
  mk_opts :: MeshOptions
  mk_api :: "nat option"
  mk_node :: int
  mk_up :: bool

definition new_MeshBackend :: "MeshOptions \<Rightarrow> MeshBackend" where
  "new_MeshBackend opts = \<lparr>mk_opts = opts, mk_api = None, mk_node = 0, mk_up = False\<rparr>"

definition destroy_MeshBackend :: "MeshBackend \<Rightarrow> mesh_log" where
  "destroy_MeshBackend be =
     (if mk_api be \<noteq> None \<and> mk_node be > 0 then [NodeClose (mk_node be)] else [])"

definition LastError :: "string \<Rightarrow> MeshBackend \<Rightarrow> string" where
  "LastError errmsg be = (if mk_api be = None \<or> mk_node be \<le> 0 then [] else errmsg)"

definition Kind :: "MeshBackend \<Rightarrow> MeshKind" where
  "Kind be = mo_kind (mk_opts be)"

text \<open>How a forwarder or an exporter names its transport.\<close>

fun mesh_backend_name :: "MeshKind \<Rightarrow> string" where
  "mesh_backend_name Tailscale = ''tailscale''"
| "mesh_backend_name NetBird = ''netbird''"
| "mesh_backend_name MeshNone = ''mesh''"

subsection \<open>Bringing the node up\<close>

record up_answers =
  ua_activate :: activate_answers
  ua_node :: int
  ua_up :: int
  ua_errmsg :: string

definition set_option :: "int \<Rightarrow> string \<Rightarrow> string \<Rightarrow> mesh_log" where
  "set_option node k v = (if v \<noteq> [] then [SetStr node k v] else [])"

definition configure_node :: "MeshOptions \<Rightarrow> int \<Rightarrow> mesh_log" where
  "configure_node opts node =
     set_option node ''auth_key'' (mo_auth_key opts) @
     set_option node ''setup_key'' (mo_setup_key opts) @
     set_option node ''hostname'' (mo_hostname opts) @
     set_option node ''tags'' (mo_tags opts) @
     set_option node ''groups'' (mo_groups opts) @
     set_option node ''control_url'' (mo_control_url opts) @
     set_option node ''mgmt_url'' (mo_mgmt_url opts) @
     set_option node ''state_dir'' (mo_state_dir opts) @
     [SetBool node ''ephemeral'' (mo_ephemeral opts)]"

type_synonym 'a mesh_result = "'a outcome \<times> MeshLoader \<times> MeshBackend \<times> mesh_log"

text \<open>The last step: bring an allocated node up.\<close>

definition bring_up :: "up_answers \<Rightarrow> MeshLoader \<Rightarrow> MeshBackend \<Rightarrow> unit mesh_result" where
  "bring_up a ml be =
     (if ua_up a \<noteq> 0 then
        (Throws (IOException (''Tunnel: '' @ LastError (ua_errmsg a) be)), ml, be,
         [NodeUp (mk_node be)])
      else (Returns (), ml, be\<lparr>mk_up := True\<rparr>, [NodeUp (mk_node be)]))"

definition EnsureUp ::
  "platform \<Rightarrow> mesh_build \<Rightarrow> up_answers \<Rightarrow> MeshLoader \<Rightarrow> MeshBackend \<Rightarrow> unit mesh_result" where
  "EnsureUp pl mb a ml be =
     (if mk_up be then (Returns (), ml, be, [])
      else (case Activate pl mb (ua_activate a) (mo_kind (mk_opts be)) ml of
          (Returns h, ml1) \<Rightarrow>
            (let be1 = be\<lparr>mk_api := Some h\<rparr> in
             if mk_node be \<le> 0 then
               (let be2 = be1\<lparr>mk_node := ua_node a\<rparr> in
                if ua_node a \<le> 0 then
                  (Throws (IOException ''Tunnel: could not allocate a mesh node.''), ml1, be2, [NodeNew])
                else
                  (let (r, ml2, be3, l) = bring_up a ml1 be2
                   in (r, ml2, be3, [NodeNew] @ configure_node (mk_opts be) (ua_node a) @ l)))
             else bring_up a ml1 be1)
        | (Throws e, ml1) \<Rightarrow> (Throws e, ml1, be, [])
        | (Undefined, ml1) \<Rightarrow> (Undefined, ml1, be, [])))"

subsection \<open>Dial, export and status\<close>

definition kMeshStreamInvalid :: int where "kMeshStreamInvalid = 2 ^ 64 - 1"

text \<open>An operation that first brings the node up.\<close>

definition with_node ::
  "platform \<Rightarrow> mesh_build \<Rightarrow> up_answers \<Rightarrow> MeshLoader \<Rightarrow> MeshBackend \<Rightarrow>
   (MeshBackend \<Rightarrow> 'a outcome \<times> mesh_log) \<Rightarrow> 'a mesh_result" where
  "with_node pl mb a ml be op =
     (case EnsureUp pl mb a ml be of
        (Returns _, ml1, be1, l) \<Rightarrow> (let (r, l') = op be1 in (r, ml1, be1, l @ l'))
      | (Throws e, ml1, be1, l) \<Rightarrow> (Throws e, ml1, be1, l)
      | (Undefined, ml1, be1, l) \<Rightarrow> (Undefined, ml1, be1, l))"

record dial_reply =
  dr_rc :: int
  dr_stream :: int
  dr_errmsg :: string

definition Dial ::
  "platform \<Rightarrow> mesh_build \<Rightarrow> up_answers \<Rightarrow> dial_reply \<Rightarrow> string \<Rightarrow> int \<Rightarrow> MeshLoader \<Rightarrow> MeshBackend \<Rightarrow>
   int mesh_result" where
  "Dial pl mb a d host port ml be =
     with_node pl mb a ml be
       (\<lambda>be1.
          (if dr_rc d \<noteq> 0 \<or> dr_stream d = kMeshStreamInvalid then
             Throws (IOException (''Tunnel: '' @ LastError (dr_errmsg d) be1))
           else Returns (dr_stream d),
           [NodeDial (mk_node be1) host port]))"

record export_reply =
  er_rc :: int
  er_handle :: int
  er_errmsg :: string

definition Export ::
  "platform \<Rightarrow> mesh_build \<Rightarrow> up_answers \<Rightarrow> export_reply \<Rightarrow> int \<Rightarrow> string \<Rightarrow> int \<Rightarrow> MeshLoader \<Rightarrow>
   MeshBackend \<Rightarrow> int mesh_result" where
  "Export pl mb a e mesh_port local_host local_port ml be =
     with_node pl mb a ml be
       (\<lambda>be1.
          (if er_rc e \<noteq> 0 then Throws (IOException (''Tunnel: '' @ LastError (er_errmsg e) be1))
           else Returns (er_handle e),
           [NodeExport (mk_node be1) mesh_port local_host local_port]))"

definition Unexport :: "int \<Rightarrow> MeshBackend \<Rightarrow> mesh_log" where
  "Unexport export_handle be =
     (if mk_api be \<noteq> None \<and> mk_node be > 0 \<and> export_handle \<noteq> 0
      then [NodeUnexport (mk_node be) export_handle] else [])"

definition kMaxMeshJson :: nat where "kMaxMeshJson = 64 * 1024 * 1024"

text \<open>
  One call of \<^verbatim>\<open>peers_json\<close> or \<^verbatim>\<open>self_json\<close>: its return code, the buffer after it and
  the size it asked for. The answers are a function of the size of the buffer it was offered.
\<close>

record json_reply =
  jr_rc :: int
  jr_buf :: string
  jr_need :: nat

text \<open>\<^verbatim>\<open>std::string(buf.data())\<close>: up to the first NUL; a buffer without one is overrun.\<close>

definition c_string :: "string \<Rightarrow> string outcome" where
  "c_string buf =
     (if CHR 0x00 \<in> set buf then Returns (takeWhile (\<lambda>c. c \<noteq> CHR 0x00) buf) else Undefined)"

definition two_shot ::
  "nat \<Rightarrow> string \<Rightarrow> (nat \<Rightarrow> json_reply) \<Rightarrow> string \<Rightarrow> string outcome \<times> nat list" where
  "two_shot len0 too_large reply last_error =
     (let first = reply len0 in
      if jr_rc first = 2 \<and> jr_need first > len0 then
        (if jr_need first > kMaxMeshJson then (Throws (IOException too_large), [len0])
         else
           (let second = reply (jr_need first) in
            (if jr_rc second \<noteq> 0 then Throws (IOException (''Tunnel: '' @ last_error))
             else c_string (jr_buf second),
             [len0, jr_need first])))
      else
        (if jr_rc first \<noteq> 0 then Throws (IOException (''Tunnel: '' @ last_error))
         else c_string (jr_buf first),
         [len0]))"

definition PeersJson ::
  "platform \<Rightarrow> mesh_build \<Rightarrow> up_answers \<Rightarrow> (nat \<Rightarrow> json_reply) \<Rightarrow> string \<Rightarrow> MeshLoader \<Rightarrow> MeshBackend \<Rightarrow>
   string mesh_result" where
  "PeersJson pl mb a reply errmsg ml be =
     with_node pl mb a ml be
       (\<lambda>be1.
          (let (r, sizes) = two_shot 8192
                 ''Tunnel: mesh peer status is implausibly large; aborting.'' reply (LastError errmsg be1)
           in (r, map (\<lambda>_. NodeJson (mk_node be1)) sizes)))"

definition SelfJson ::
  "platform \<Rightarrow> mesh_build \<Rightarrow> up_answers \<Rightarrow> (nat \<Rightarrow> json_reply) \<Rightarrow> string \<Rightarrow> MeshLoader \<Rightarrow> MeshBackend \<Rightarrow>
   string mesh_result" where
  "SelfJson pl mb a reply errmsg ml be =
     with_node pl mb a ml be
       (\<lambda>be1.
          (let (r, sizes) = two_shot 4096
                 ''Tunnel: mesh self status is implausibly large; aborting.'' reply (LastError errmsg be1)
           in (r, map (\<lambda>_. NodeJson (mk_node be1)) sizes)))"

text \<open>\<^verbatim>\<open>writeJSON\<close> of the shim: it writes the text with a final NUL, or only the size it needs.\<close>

definition writeJSON :: "string \<Rightarrow> nat \<Rightarrow> json_reply" where
  "writeJSON text len =
     (if len < length text + 1 then
        \<lparr>jr_rc = 2, jr_buf = replicate len (CHR 0x00), jr_need = length text + 1\<rparr>
      else
        \<lparr>jr_rc = 0, jr_buf = text @ [CHR 0x00] @ replicate (len - length text - 1) (CHR 0x00),
         jr_need = length text + 1\<rparr>)"

subsection \<open>The node of a secret\<close>

definition SecretMeshKind :: "(string \<Rightarrow> string) \<Rightarrow> secret_manager \<Rightarrow> string \<Rightarrow> MeshKind" where
  "SecretMeshKind lower secrets secret_name =
     (if secret_name = [] then MeshNone
      else (case LookupTunnelSecret secrets secret_name of
          None \<Rightarrow> MeshNone
        | Some s \<Rightarrow>
            (case sec_map s ''backend'' of
               None \<Rightarrow> MeshNone
             | Some v \<Rightarrow> ParseMeshKind lower v)))"

definition MeshOptions_of_secret :: "(string \<Rightarrow> string) \<Rightarrow> KeyValueSecret \<Rightarrow> MeshOptions" where
  "MeshOptions_of_secret lower s =
     \<lparr>mo_kind = ParseMeshKind lower (text_or_empty s ''backend''),
      mo_auth_key = text_or_empty s ''auth_key'', mo_setup_key = text_or_empty s ''setup_key'',
      mo_hostname = text_or_empty s ''hostname'', mo_tags = text_or_empty s ''tags'',
      mo_groups = text_or_empty s ''groups'', mo_control_url = text_or_empty s ''control_url'',
      mo_mgmt_url = text_or_empty s ''management_url'', mo_state_dir = text_or_empty s ''state_dir'',
      mo_ephemeral = (text_or_empty s ''ephemeral'' = ''true'' \<or> text_or_empty s ''ephemeral'' = ''1'')\<rparr>"

definition unit_separator :: char where "unit_separator = CHR 0x1F"

fun join_fields :: "char \<Rightarrow> string list \<Rightarrow> string" where
  "join_fields sep [] = []"
| "join_fields sep [f] = f"
| "join_fields sep (f # g # fs) = f @ [sep] @ join_fields sep (g # fs)"

definition key_fields :: "string \<Rightarrow> MeshOptions \<Rightarrow> string list" where
  "key_fields secret_name opts =
     [secret_name, to_string (kind_code (mo_kind opts)), mo_auth_key opts, mo_setup_key opts, mo_hostname opts,
      mo_tags opts, mo_groups opts, mo_control_url opts, mo_mgmt_url opts, mo_state_dir opts,
      if mo_ephemeral opts then ''1'' else ''0'']"

definition cache_key :: "string \<Rightarrow> MeshOptions \<Rightarrow> string" where
  "cache_key secret_name opts = join_fields unit_separator (key_fields secret_name opts)"

text \<open>
  The process-wide cache: keys to nodes, and the nodes themselves, in the order they were made.
\<close>

record mesh_cache =
  mc_index :: "string \<rightharpoonup> nat"
  mc_nodes :: "MeshBackend list"

definition msg_need_mesh_secret :: string where
  "msg_need_mesh_secret =
     ''Tunnel: tunnel_peers/tunnel_self require secret = '' @ sq @ ''<name>'' @ sq @
     '' naming a mesh tunnel secret, e.g. CREATE SECRET ts (TYPE tunnel, backend '' @ sq @
     ''tailscale'' @ sq @ '', auth_key '' @ sq @ ellipsis @ sq @ '', hostname '' @ sq @ ellipsis @ sq @
     '');''"

definition msg_not_mesh_secret :: "string \<Rightarrow> string" where
  "msg_not_mesh_secret name =
     ''Tunnel: secret '' @ sq @ name @ sq @ '' is not a mesh secret. Set backend '' @ sq @
     ''tailscale'' @ sq @ '' or '' @ sq @ ''netbird'' @ sq @
     '' (with auth_key/setup_key) to use mesh discovery.''"

definition MeshBackendFromSecret ::
  "(string \<Rightarrow> string) \<Rightarrow> secret_manager \<Rightarrow> string \<Rightarrow> mesh_cache \<Rightarrow> nat outcome \<times> mesh_cache" where
  "MeshBackendFromSecret lower secrets secret_name mc =
     (if secret_name = [] then (Throws (InvalidInputException msg_need_mesh_secret), mc)
      else (case LookupTunnelSecret secrets secret_name of
          None \<Rightarrow>
            (Throws (InvalidInputException (''Tunnel: secret '' @ sq @ secret_name @ sq @
               '' not found.'')), mc)
        | Some s \<Rightarrow>
            (let opts = MeshOptions_of_secret lower s in
             if mo_kind opts = MeshNone then
               (Throws (InvalidInputException (msg_not_mesh_secret secret_name)), mc)
             else (case mc_index mc (cache_key secret_name opts) of
                 Some n \<Rightarrow> (Returns n, mc)
               | None \<Rightarrow>
                   (Returns (length (mc_nodes mc)),
                    mc\<lparr>mc_index := (mc_index mc)(cache_key secret_name opts \<mapsto> length (mc_nodes mc)),
                       mc_nodes := mc_nodes mc @ [new_MeshBackend opts]\<rparr>)))))"

subsection \<open>The activation pragma\<close>

definition MeshActivate ::
  "(string \<Rightarrow> string) \<Rightarrow> platform \<Rightarrow> mesh_build \<Rightarrow> activate_answers \<Rightarrow> string list \<Rightarrow> MeshLoader \<Rightarrow>
   string outcome \<times> MeshLoader" where
  "MeshActivate lower pl mb a params ml =
     (case params of
        [] \<Rightarrow> (Throws (InvalidInputException (''tunnel_mesh_activate('' @ sq @ ''tailscale'' @ sq @
                 ''|'' @ sq @ ''netbird'' @ sq @ '')'')), ml)
      | backend # _ \<Rightarrow>
          (let kind = ParseMeshKind lower backend in
           if kind = MeshNone then
             (Throws (InvalidInputException (''tunnel_mesh_activate: backend must be '' @ sq @
                ''tailscale'' @ sq @ '' or '' @ sq @ ''netbird'' @ sq @ ''.'')), ml)
           else (case Activate pl mb a kind ml of
               (Returns h, ml1) \<Rightarrow>
                 (Returns (''SELECT '' @ sq @ MeshKindName kind @ sq @ '' AS active_mesh''), ml1)
             | (Throws e, ml1) \<Rightarrow> (Throws e, ml1)
             | (Undefined, ml1) \<Rightarrow> (Undefined, ml1))))"

section \<open>Lemmas\<close>

text \<open>A node that is up was activated and allocated.\<close>

definition mk_invariant :: "MeshBackend \<Rightarrow> bool" where
  "mk_invariant be \<longleftrightarrow> (mk_up be \<longrightarrow> mk_api be \<noteq> None \<and> mk_node be > 0)"

lemma bring_up_cases:
  "bring_up a ml be = (r, ml', be', l) \<Longrightarrow>
     ml' = ml \<and> l = [NodeUp (mk_node be)] \<and> r \<noteq> Undefined \<and>
     (returned r \<longrightarrow> be' = be\<lparr>mk_up := True\<rparr>) \<and> (threw r \<longrightarrow> be' = be)"
  by (auto simp: bring_up_def split: if_splits)

lemma EnsureUp_spec:
  assumes "mk_invariant be" and "EnsureUp pl mb a ml be = (r, ml', be', l)"
  shows "mk_invariant be' \<and> mk_opts be' = mk_opts be \<and>
    (mk_node be > 0 \<longrightarrow> mk_node be' = mk_node be \<and> NodeNew \<notin> set l) \<and>
    (returned r \<longrightarrow> mk_up be' \<and> mk_node be' > 0 \<and> mk_api be' \<noteq> None) \<and>
    (mk_up be \<longrightarrow> returned r \<and> ml' = ml \<and> be' = be \<and> l = [])"
proof (cases "mk_up be")
  case True
  with assms show ?thesis by (auto simp: EnsureUp_def mk_invariant_def)
next
  case False
  obtain x ml1 where act: "Activate pl mb (ua_activate a) (mo_kind (mk_opts be)) ml = (x, ml1)"
    by fastforce
  show ?thesis
  proof (cases x)
    case (Returns h)
    let ?be1 = "be\<lparr>mk_api := Some h\<rparr>" and ?be2 = "be\<lparr>mk_api := Some h, mk_node := ua_node a\<rparr>"
    consider (old) "mk_node be > 0" | (bad) "mk_node be \<le> 0" "ua_node a \<le> 0"
      | (new_node) "mk_node be \<le> 0" "ua_node a > 0" by linarith
    then show ?thesis
    proof cases
      case old
      then have "bring_up a ml1 ?be1 = (r, ml', be', l)"
        using assms(2) False act Returns by (simp add: EnsureUp_def Let_def)
      from bring_up_cases [OF this] old False show ?thesis
        by (cases r) (auto simp: mk_invariant_def)
    next
      case bad
      then show ?thesis using assms(2) False act Returns
        by (auto simp: EnsureUp_def Let_def mk_invariant_def)
    next
      case new_node
      obtain r2 ml2 be3 l2 where up: "bring_up a ml1 ?be2 = (r2, ml2, be3, l2)" by (metis prod_cases4)
      then have "r = r2" "be' = be3"
        using new_node assms(2) False act Returns by (auto simp: EnsureUp_def Let_def)
      with bring_up_cases [OF up] new_node False show ?thesis
        by (cases r) (auto simp: mk_invariant_def)
    qed
  qed (use assms False act in \<open>auto simp: EnsureUp_def mk_invariant_def\<close>)
qed

lemma EnsureUp_defined: "fst (EnsureUp pl mb a ml be) \<noteq> Undefined"
proof -
  obtain x ml1 where act: "Activate pl mb (ua_activate a) (mo_kind (mk_opts be)) ml = (x, ml1)"
    by fastforce
  then have "x \<noteq> Undefined" using Activate_defined [of pl mb "ua_activate a" "mo_kind (mk_opts be)" ml] by simp
  then show ?thesis by (cases x) (auto simp: EnsureUp_def act Let_def bring_up_def)
qed

lemma Dial_cases:
  assumes "Dial pl mb a d host port ml be = (r, ml', be', l)"
  shows "r \<noteq> Undefined"
    and "r = Returns m \<Longrightarrow> m = dr_stream d \<and> dr_rc d = 0 \<and> m \<noteq> kMeshStreamInvalid"
proof -
  obtain x ml1 be1 l1 where up: "EnsureUp pl mb a ml be = (x, ml1, be1, l1)" by (metis prod_cases4)
  then have "x \<noteq> Undefined" using EnsureUp_defined [of pl mb a ml be] by simp
  then show "r \<noteq> Undefined" and "r = Returns m \<Longrightarrow> m = dr_stream d \<and> dr_rc d = 0 \<and> m \<noteq> kMeshStreamInvalid"
    using assms by (cases x; auto simp: Dial_def with_node_def up split: if_split_asm)+
qed

lemma EnsureUp_calls: "c \<in> set (snd (snd (snd (EnsureUp pl mb a ml be)))) \<Longrightarrow>
    (\<forall>n p h q. c \<noteq> NodeExport n p h q) \<and> (\<forall>n h. c \<noteq> NodeUnexport n h)"
proof -
  have set_opt: "c \<in> set (set_option node k v) \<Longrightarrow> c = SetStr node k v" for node k v
    by (simp add: set_option_def split: if_split_asm)
  have cfg: "c \<in> set (configure_node opts node) \<Longrightarrow>
      (\<forall>n p h q. c \<noteq> NodeExport n p h q) \<and> (\<forall>n h. c \<noteq> NodeUnexport n h)" for opts node
    by (auto simp: configure_node_def dest!: set_opt)
  assume "c \<in> set (snd (snd (snd (EnsureUp pl mb a ml be))))"
  then show ?thesis using cfg
    by (auto simp: EnsureUp_def bring_up_def Let_def split: if_split_asm outcome.split_asm prod.split_asm)
qed

text \<open>An operation on a node that is up does not bring it up again.\<close>

lemma with_node_up:
  "mk_up be \<Longrightarrow> with_node pl mb a ml be op = (fst (op be), ml, be, snd (op be))"
  by (simp add: with_node_def EnsureUp_def case_prod_beta)

lemma SelfJson_up:
  assumes "mk_up be" and "SelfJson pl mb a reply errmsg ml be = (r, ml', be', l)"
  shows "be' = be" and "set l \<subseteq> {NodeJson (mk_node be)}"
  using assms by (auto simp: SelfJson_def with_node_up case_prod_beta)

text \<open>A history of attempts to bring one node up, with what each found in the loader.\<close>

fun ensure_ups ::
  "platform \<Rightarrow> mesh_build \<Rightarrow> (up_answers \<times> MeshLoader) list \<Rightarrow> MeshBackend \<Rightarrow> MeshBackend \<times> mesh_log" where
  "ensure_ups pl mb [] be = (be, [])"
| "ensure_ups pl mb ((a, ml) # calls) be =
     (let (r, ml', be', l) = EnsureUp pl mb a ml be; (be'', l') = ensure_ups pl mb calls be'
      in (be'', l @ l'))"

definition allocations :: "mesh_log \<Rightarrow> nat" where
  "allocations l = length (filter (\<lambda>c. c = NodeNew) l)"

lemma ensure_ups_allocated:
  assumes "mk_invariant be" and "mk_node be > 0"
  shows "NodeNew \<notin> set (snd (ensure_ups pl mb calls be)) \<and>
    mk_node (fst (ensure_ups pl mb calls be)) = mk_node be"
  using assms
proof (induction calls arbitrary: be)
  case (Cons c calls)
  obtain a ml where [simp]: "c = (a, ml)" by fastforce
  obtain r ml' be' l where up: "EnsureUp pl mb a ml be = (r, ml', be', l)" by (metis prod_cases4)
  note s = EnsureUp_spec [OF Cons.prems(1) up]
  with Cons.IH [of be'] Cons.prems(2) up show ?case by (auto simp: case_prod_beta Let_def)
qed simp

subsection \<open>Cache keys\<close>

lemma join_fields_Cons:
  "fs \<noteq> [] \<Longrightarrow> join_fields sep (f # fs) = f @ [sep] @ join_fields sep fs"
  by (cases fs) simp_all

lemma split_at_separator:
  assumes "sep \<notin> set xs" and "sep \<notin> set ys" and "xs @ [sep] @ as = ys @ [sep] @ bs"
  shows "xs = ys \<and> as = bs"
  using assms by (auto simp: append_eq_append_conv2 append_eq_Cons_conv Cons_eq_append_conv)

lemma join_fields_inject:
  assumes "length fs = length gs" and "\<forall>f \<in> set fs \<union> set gs. sep \<notin> set f"
    and "join_fields sep fs = join_fields sep gs"
  shows "fs = gs"
  using assms
proof (induction fs gs rule: list_induct2)
  case (Cons f fs g gs)
  show ?case
  proof (cases "fs = []")
    case True
    with Cons show ?thesis by simp
  next
    case False
    with Cons.hyps have "gs \<noteq> []" by auto
    with False Cons.prems have "f @ [sep] @ join_fields sep fs = g @ [sep] @ join_fields sep gs"
      by (simp add: join_fields_Cons)
    from split_at_separator [OF _ _ this] Cons show ?thesis by auto
  qed
qed simp

lemma kind_code_inject [simp]: "kind_code a = kind_code b \<longleftrightarrow> a = b"
  by (cases a; cases b) simp_all

text \<open>The texts a key is built from do not contain the separator.\<close>

definition separator_free :: "string \<Rightarrow> MeshOptions \<Rightarrow> bool" where
  "separator_free name opts \<longleftrightarrow>
     (\<forall>f \<in> {name, mo_auth_key opts, mo_setup_key opts, mo_hostname opts, mo_tags opts, mo_groups opts,
        mo_control_url opts, mo_mgmt_url opts, mo_state_dir opts}. unit_separator \<notin> set f)"

lemma separator_not_in_number: "unit_separator \<notin> set (to_string i)"
  by (auto dest!: to_string_chars simp: unit_separator_def is_digit_def)

lemma key_fields_free: "separator_free name opts \<Longrightarrow> f \<in> set (key_fields name opts) \<Longrightarrow> unit_separator \<notin> set f"
  by (auto simp: key_fields_def separator_free_def separator_not_in_number)
    (simp_all add: unit_separator_def split: if_splits)

lemma key_fields_inject:
  assumes "key_fields n a = key_fields m b"
  shows "n = m \<and> a = b"
proof -
  have e: "(if mo_ephemeral a then ''1'' else ''0'') = (if mo_ephemeral b then ''1'' else ''0'')"
    using assms by (simp add: key_fields_def)
  then have "mo_ephemeral a = mo_ephemeral b" by (simp split: if_splits)
  with assms show ?thesis
    by (auto simp: key_fields_def intro: MeshOptions.equality)
qed

lemma cache_key_inject:
  assumes "separator_free n a" and "separator_free m b"
  shows "cache_key n a = cache_key m b \<longleftrightarrow> n = m \<and> a = b"
proof
  assume "cache_key n a = cache_key m b"
  moreover have "length (key_fields n a) = length (key_fields m b)" by (simp add: key_fields_def)
  ultimately have "key_fields n a = key_fields m b"
    unfolding cache_key_def using assms by (auto intro!: join_fields_inject dest: key_fields_free)
  then show "n = m \<and> a = b" by (rule key_fields_inject)
qed simp

text \<open>Every cached key has a node of its own.\<close>

definition mc_invariant :: "mesh_cache \<Rightarrow> bool" where
  "mc_invariant mc \<longleftrightarrow>
     (\<forall>k n. mc_index mc k = Some n \<longrightarrow> n < length (mc_nodes mc)) \<and>
     (\<forall>k k' n. mc_index mc k = Some n \<and> mc_index mc k' = Some n \<longrightarrow> k = k')"

lemma MeshBackendFromSecret_cases:
  assumes "MeshBackendFromSecret lower secrets name mc = (r, mc')"
  obtains (failed) e where "r = Throws e" "mc' = mc"
  | (found) s n where "LookupTunnelSecret secrets name = Some s"
      "mc_index mc (cache_key name (MeshOptions_of_secret lower s)) = Some n" "r = Returns n" "mc' = mc"
  | (made) s where "LookupTunnelSecret secrets name = Some s"
      "mc_index mc (cache_key name (MeshOptions_of_secret lower s)) = None"
      "r = Returns (length (mc_nodes mc))"
      "mc' = mc\<lparr>mc_index := (mc_index mc)(cache_key name (MeshOptions_of_secret lower s) \<mapsto>
           length (mc_nodes mc)),
         mc_nodes := mc_nodes mc @ [new_MeshBackend (MeshOptions_of_secret lower s)]\<rparr>"
proof (cases "LookupTunnelSecret secrets name")
  case None
  with assms have "(\<exists>e. r = Throws e) \<and> mc' = mc"
    by (auto simp: MeshBackendFromSecret_def split: if_split_asm)
  then show ?thesis using failed by blast
next
  case (Some s)
  let ?o = "MeshOptions_of_secret lower s"
  show ?thesis
  proof (cases "name = [] \<or> mo_kind ?o = MeshNone")
    case True
    with assms Some have "(\<exists>e. r = Throws e) \<and> mc' = mc"
      by (auto simp: MeshBackendFromSecret_def Let_def split: if_split_asm)
    then show ?thesis using failed by blast
  next
    case False
    then show ?thesis
    proof (cases "mc_index mc (cache_key name ?o)")
      case None
      with assms Some False show ?thesis by (intro made) (auto simp: MeshBackendFromSecret_def Let_def)
    next
      case (Some n)
      with assms \<open>LookupTunnelSecret secrets name = Some s\<close> False show ?thesis
        by (intro found) (auto simp: MeshBackendFromSecret_def Let_def)
    qed
  qed
qed

lemma MeshBackendFromSecret_invariant:
  assumes "mc_invariant mc" and "MeshBackendFromSecret lower secrets name mc = (r, mc')"
  shows "mc_invariant mc' \<and> mc_index mc \<subseteq>\<^sub>m mc_index mc'"
  using assms(2)
proof (cases rule: MeshBackendFromSecret_cases)
  case (made s)
  let ?k = "cache_key name (MeshOptions_of_secret lower s)"
  have "mc_index mc \<subseteq>\<^sub>m mc_index mc'" using made by (auto simp: map_le_def)
  moreover have "mc_invariant mc'"
    using assms(1) made(4) by (fastforce simp: mc_invariant_def less_Suc_eq)
  ultimately show ?thesis by blast
qed (use assms(1) in auto)

lemma MeshBackendFromSecret_indexed:
  assumes "MeshBackendFromSecret lower secrets name mc = (Returns n, mc')"
    and "LookupTunnelSecret secrets name = Some s"
  shows "name \<noteq> [] \<and> mo_kind (MeshOptions_of_secret lower s) \<noteq> MeshNone \<and>
    mc_index mc' (cache_key name (MeshOptions_of_secret lower s)) = Some n"
proof -
  have "name \<noteq> [] \<and> mo_kind (MeshOptions_of_secret lower s) \<noteq> MeshNone"
    using assms by (auto simp: MeshBackendFromSecret_def Let_def split: if_split_asm)
  then show ?thesis
    using assms by (auto simp: MeshBackendFromSecret_def Let_def split: option.split_asm)
qed

lemma map_le_SomeD: "m \<subseteq>\<^sub>m m' \<Longrightarrow> m k = Some v \<Longrightarrow> m' k = Some v"
  by (metis domI map_le_def)

lemma MeshBackendFromSecret_again:
  assumes "LookupTunnelSecret secrets name = Some s" and "name \<noteq> []"
    and "mo_kind (MeshOptions_of_secret lower s) \<noteq> MeshNone"
    and "mc_index mc (cache_key name (MeshOptions_of_secret lower s)) = Some n"
  shows "MeshBackendFromSecret lower secrets name mc = (Returns n, mc)"
  using assms by (simp add: MeshBackendFromSecret_def Let_def)

subsection \<open>The buffer contract\<close>

lemma takeWhile_before_NUL:
  "CHR 0x00 \<notin> set cs \<Longrightarrow> takeWhile (\<lambda>c. c \<noteq> CHR 0x00) (cs @ CHR 0x00 # rest) = cs"
  by (induction cs) auto

lemma two_shot_sizes:
  "\<forall>n \<in> set (snd (two_shot len0 m reply err)). n = len0 \<or> n \<le> kMaxMeshJson"
  by (auto simp: two_shot_def Let_def)

lemma two_shot_writeJSON:
  assumes "CHR 0x00 \<notin> set text" and "length text < kMaxMeshJson"
  shows "fst (two_shot len0 m (writeJSON text) err) = Returns text"
  using assms by (simp add: two_shot_def writeJSON_def Let_def c_string_def takeWhile_before_NUL)

section \<open>Properties\<close>

text \<open>Bringing a node up is idempotent and never allocates a second node. Whatever the loader and the
  shim answer, a node that was allocated keeps its handle and is not allocated again, an attempt
  that returns leaves the node up, and one on a node that is up makes no call at all.\<close>

theorem EnsureUp_once:
  assumes "mk_invariant be" and "EnsureUp pl mb a ml be = (r, ml', be', l)"
  shows "mk_invariant be' \<and> mk_opts be' = mk_opts be \<and>
    (mk_node be > 0 \<longrightarrow> mk_node be' = mk_node be \<and> NodeNew \<notin> set l) \<and>
    (returned r \<longrightarrow> mk_up be' \<and> mk_node be' > 0 \<and> mk_api be' \<noteq> None) \<and>
    (mk_up be \<longrightarrow> returned r \<and> ml' = ml \<and> be' = be \<and> l = [])"
  using assms by (rule EnsureUp_spec)

definition demo_options :: MeshOptions where
  "demo_options = \<lparr>mo_kind = NetBird, mo_auth_key = [], mo_setup_key = ''k'', mo_hostname = ''h'',
     mo_tags = [], mo_groups = [], mo_control_url = [], mo_mgmt_url = [], mo_state_dir = [],
     mo_ephemeral = True\<rparr>"

definition demo_node :: MeshBackend where
  "demo_node = \<lparr>mk_opts = demo_options, mk_api = Some 9, mk_node = 5, mk_up = False\<rparr>"

definition demo_up :: up_answers where
  "demo_up = \<lparr>ua_activate = demo_activate 9 [] 2, ua_node = 6, ua_up = 0, ua_errmsg = []\<rparr>"

theorem EnsureUp_once_witness:
  "case EnsureUp Linux demo_build demo_up demo_loader demo_node of
     (r, ml', be', l) \<Rightarrow> mk_node be' = 5 \<and> NodeNew \<notin> set l"
proof -
  obtain r ml' be' l where up:
    "EnsureUp Linux demo_build demo_up demo_loader demo_node = (r, ml', be', l)" by (metis prod_cases4)
  have "mk_invariant demo_node" "mk_node demo_node = 5"
    by (simp_all add: demo_node_def mk_invariant_def)
  with EnsureUp_once [OF this(1) up] up show ?thesis by simp
qed

text \<open>The two-shot buffer protocol delivers the whole status. Against a shim that follows its buffer
  contract, for any status text without a NUL byte shorter than 64 MiB the C++ side returns exactly
  that text; and whatever a shim answers, no buffer beyond the cap is allocated.\<close>

theorem two_shot_roundtrip:
  assumes "CHR 0x00 \<notin> set text" and "length text < kMaxMeshJson"
  shows "fst (two_shot len0 too_large (writeJSON text) last_error) = Returns text \<and>
    (\<forall>n \<in> set (snd (two_shot len0 too_large reply last_error)). n = len0 \<or> n \<le> kMaxMeshJson)"
  using two_shot_writeJSON [OF assms] two_shot_sizes by blast

theorem two_shot_roundtrip_witness:
  "fst (two_shot 4 [] (writeJSON ''{online}'') []) = Returns ''{online}''"
proof -
  have "CHR 0x00 \<notin> set ''{online}''" "length ''{online}'' < kMaxMeshJson"
    by (simp_all add: kMaxMeshJson_def)
  from two_shot_roundtrip [OF this] show ?thesis by blast
qed

text \<open>C29: One node per secret definition, for the life of the process. Two lookups, with any other
  lookups between them, give the same node exactly when the secrets have the same name and the same
  options, provided no text contains the separator character; the second of two equal lookups
  changes nothing.\<close>

theorem MeshBackendFromSecret_one_node:
  assumes "mc_invariant mc1" and "MeshBackendFromSecret lower secrets1 name1 mc1 = (Returns n1, mc1')"
    and "mc_invariant mc2" and "mc_index mc1' \<subseteq>\<^sub>m mc_index mc2"
    and "MeshBackendFromSecret lower secrets2 name2 mc2 = (Returns n2, mc2')"
    and "LookupTunnelSecret secrets1 name1 = Some s1" and "LookupTunnelSecret secrets2 name2 = Some s2"
    and "separator_free name1 (MeshOptions_of_secret lower s1)"
    and "separator_free name2 (MeshOptions_of_secret lower s2)"
  shows "(n1 = n2 \<longleftrightarrow> name1 = name2 \<and> MeshOptions_of_secret lower s1 = MeshOptions_of_secret lower s2) \<and>
    (n1 = n2 \<longrightarrow> mc2' = mc2)"
proof -
  let ?k1 = "cache_key name1 (MeshOptions_of_secret lower s1)"
  let ?k2 = "cache_key name2 (MeshOptions_of_secret lower s2)"
  have k1: "mc_index mc2 ?k1 = Some n1"
    using MeshBackendFromSecret_indexed [OF assms(2,6)] assms(4) by (auto intro: map_le_SomeD)
  have k2: "mc_index mc2' ?k2 = Some n2" and n2: "name2 \<noteq> []"
    and kind: "mo_kind (MeshOptions_of_secret lower s2) \<noteq> MeshNone"
    using MeshBackendFromSecret_indexed [OF assms(5,7)] by simp_all
  from MeshBackendFromSecret_invariant [OF assms(3,5)]
  have inv: "mc_invariant mc2'" and le: "mc_index mc2 \<subseteq>\<^sub>m mc_index mc2'" by auto
  have "mc_index mc2' ?k1 = Some n1" using k1 le by (auto intro: map_le_SomeD)
  with k2 inv have iff: "n1 = n2 \<longleftrightarrow> ?k1 = ?k2" unfolding mc_invariant_def by (metis option.inject)
  moreover have "mc2' = mc2" if "n1 = n2"
    using MeshBackendFromSecret_again [OF assms(7) n2 kind, of mc2 n1] that iff k1 assms(5) by simp
  ultimately show ?thesis using cache_key_inject [OF assms(8,9)] by blast
qed

definition demo_secret :: "string \<Rightarrow> KeyValueSecret" where
  "demo_secret key = \<lparr>sec_type = ''tunnel'', sec_provider = ''config'', sec_name = ''nb'',
     sec_map = [''backend'' \<mapsto> ''netbird'', ''setup_key'' \<mapsto> key], sec_redact_keys = []\<rparr>"

definition demo_cache :: mesh_cache where
  "demo_cache = \<lparr>mc_index = Map.empty, mc_nodes = []\<rparr>"

theorem MeshBackendFromSecret_one_node_witness:
  "\<exists>mc1 mc2. MeshBackendFromSecret id (\<lambda>_. Some (demo_secret ''a'')) ''nb'' demo_cache = (Returns 0, mc1) \<and>
     MeshBackendFromSecret id (\<lambda>_. Some (demo_secret ''b'')) ''nb'' mc1 = (Returns 1, mc2)"
proof -
  let ?s1 = "\<lambda>_ :: string. Some (demo_secret ''a'')" and ?s2 = "\<lambda>_ :: string. Some (demo_secret ''b'')"
  let ?l1 = "MeshBackendFromSecret id ?s1 ''nb'' demo_cache"
  have lk: "LookupTunnelSecret ?s1 ''nb'' = Some (demo_secret ''a'')"
    "LookupTunnelSecret ?s2 ''nb'' = Some (demo_secret ''b'')"
    by (simp_all add: LookupTunnelSecret_def demo_secret_def TUNNEL_SECRET_TYPE_NAME_def
        TUNNEL_SECRET_TYPE_ALIAS_def)
  have opts: "mo_kind (MeshOptions_of_secret id (demo_secret k)) = NetBird"
    "mo_setup_key (MeshOptions_of_secret id (demo_secret k)) = k" for k
    by (simp_all add: MeshOptions_of_secret_def text_or_empty_def demo_secret_def ParseMeshKind_def)
  have free: "separator_free ''nb'' (MeshOptions_of_secret id (demo_secret ''a''))"
    "separator_free ''nb'' (MeshOptions_of_secret id (demo_secret ''b''))"
    by (simp_all add: separator_free_def MeshOptions_of_secret_def text_or_empty_def demo_secret_def
        unit_separator_def)
  have l1: "fst ?l1 = Returns 0"
    by (simp add: MeshBackendFromSecret_def lk opts demo_cache_def Let_def)
  then have e1: "?l1 = (Returns 0, snd ?l1)" by (simp add: prod_eq_iff)
  have inv0: "mc_invariant demo_cache" by (simp add: mc_invariant_def demo_cache_def)
  have inv1: "mc_invariant (snd ?l1)" using MeshBackendFromSecret_invariant [OF inv0 e1] by simp
  let ?l2 = "MeshBackendFromSecret id ?s2 ''nb'' (snd ?l1)"
  have "returned (fst ?l2)"
    by (auto simp: MeshBackendFromSecret_def [of id ?s2] lk opts Let_def split: option.splits)
  then obtain n2 where n2: "?l2 = (Returns n2, snd ?l2)" by (auto simp: returned_iff prod_eq_iff)
  have "demo_secret ''a'' \<noteq> demo_secret ''b''"
    and "MeshOptions_of_secret id (demo_secret ''a'') \<noteq> MeshOptions_of_secret id (demo_secret ''b'')"
    using opts(2) [of "''a''"] opts(2) [of "''b''"] by auto
  with MeshBackendFromSecret_one_node [OF inv0 e1 inv1 map_le_refl n2 lk free] have "n2 \<noteq> 0" by simp
  moreover have "length (mc_nodes (snd ?l1)) = 1"
    by (simp add: MeshBackendFromSecret_def lk opts demo_cache_def Let_def)
  then have "n2 \<le> 1"
    using n2 inv1 by (auto simp: MeshBackendFromSecret_def [of id ?s2] lk opts Let_def mc_invariant_def
        split: option.splits)
  ultimately show ?thesis using e1 n2 by (metis One_nat_def le_neq_implies_less less_one)
qed

end
