(* ===== verification/Mesh_Forwarder.thy ===== *)
theory Mesh_Forwarder
  imports Mesh_Backend
begin

text \<open>
  The mesh import, from \<^verbatim>\<open>src/src/mesh_forwarder.cpp\<close>: a local listener, an accept loop that
  dials the mesh for every client, and a byte pump between the two sockets. The stream a shim hands
  out is an open descriptor the forwarder owns.
\<close>

section \<open>Definitions\<close>

text \<open>A worker carries what its closure captured: the client and the mesh descriptor.\<close>

record MeshForwarder =
  fo_attrs :: TunnelConnectionAttributes
  fo_listen_sock :: int
  fo_running :: bool
  fo_accept_thread :: bool
  fo_workers :: "(nat \<times> int \<times> int) list"
  fo_spawned :: nat

definition make_MeshForwarder ::
  "platform \<Rightarrow> MeshKind \<Rightarrow> string \<Rightarrow> int \<Rightarrow> int \<Rightarrow> bool \<Rightarrow> MeshForwarder" where
  "make_MeshForwarder pl kind remote_host remote_port local_port bind_all =
     \<lparr>fo_attrs = default_attributes
        \<lparr>at_backend := mesh_backend_name kind, at_remote_host := remote_host,
         at_remote_port := remote_port, at_local_port := local_port,
         at_bind_addr := (if bind_all then ''0.0.0.0'' else ''127.0.0.1''),
         at_status := ''Configuring''\<rparr>,
      fo_listen_sock = kInvalidSocket pl, fo_running = False, fo_accept_thread = False,
      fo_workers = [], fo_spawned = 0\<rparr>"

definition fo_IsActive :: "MeshForwarder \<Rightarrow> bool" where
  "fo_IsActive fo \<longleftrightarrow> fo_running fo"

definition fo_GetAttributes :: "MeshForwarder \<Rightarrow> TunnelConnectionAttributes" where
  "fo_GetAttributes fo = fo_attrs fo"

subsection \<open>Start\<close>

text \<open>One turn of the probe: whether the deadline is still ahead, the probe socket, its connect.\<close>

record probe_turn =
  pr_before_deadline :: bool
  pr_socket :: int
  pr_connect :: int

fun probe_loop :: "platform \<Rightarrow> probe_turn list \<Rightarrow> bool option \<times> log" where
  "probe_loop pl [] = (None, [])"
| "probe_loop pl (t # ts) =
     (if \<not> pr_before_deadline t then (Some False, [])
      else if \<not> SocketValid pl (pr_socket t) then probe_loop pl ts
      else
        (let l = [OpenFd (pr_socket t), ConnectFd (pr_socket t)] @ CloseSocketHandle pl (pr_socket t) in
         if pr_connect t = 0 then (Some True, l)
         else (let (r, l') = probe_loop pl ts in (r, l @ l'))))"

record forwarder_answers =
  fs_up :: up_answers
  fs_socket :: int
  fs_bind :: int
  fs_listen :: int
  fs_probes :: "probe_turn list"

definition listening_status :: "TunnelConnectionAttributes \<Rightarrow> string" where
  "listening_status at =
     ''Listening on '' @ at_bind_addr at @ '':'' @ to_string (at_local_port at)"

definition msg_port_in_use :: "int \<Rightarrow> string" where
  "msg_port_in_use port =
     ''Tunnel: local port '' @ to_string port @ '' is already in use. Choose a free local_port.''"

definition msg_not_connectable :: "int \<Rightarrow> int \<Rightarrow> string" where
  "msg_not_connectable port timeout_seconds =
     ''Tunnel: listener on port '' @ to_string port @ '' did not become connectable within '' @
     to_string timeout_seconds @ ''s.''"

text \<open>\<^verbatim>\<open>static_cast<uint16_t>\<close>: the port that is really bound.\<close>

definition bound_port :: "int \<Rightarrow> int" where
  "bound_port port = port mod 65536"

definition forwarder_open :: "MeshForwarder \<Rightarrow> int \<Rightarrow> log" where
  "forwarder_open fo sock =
     [OpenFd sock,
      BindFd sock (at_bind_addr (fo_attrs fo)) (bound_port (at_local_port (fo_attrs fo)))]"

text \<open>What follows once the node is up; no outcome means that the probe is still running.\<close>

definition forwarder_listen ::
  "platform \<Rightarrow> int \<Rightarrow> forwarder_answers \<Rightarrow> MeshForwarder \<Rightarrow> unit outcome option \<times> MeshForwarder \<times> log" where
  "forwarder_listen pl timeout_seconds a fo =
     (let sock = fs_socket a; port = at_local_port (fo_attrs fo) in
      if \<not> SocketValid pl sock then
        (Some (Throws (IOException ''Tunnel: could not create listening socket.'')), fo, [])
      else if fs_bind a \<noteq> 0 then
        (Some (Throws (IOException (msg_port_in_use port))), fo,
         forwarder_open fo sock @ CloseSocketHandle pl sock)
      else if fs_listen a \<noteq> 0 then
        (Some (Throws (IOException (''Tunnel: failed to listen on port '' @ to_string port @ ''.''))),
         fo, forwarder_open fo sock @ [ListenFd sock] @ CloseSocketHandle pl sock)
      else
        (let fo1 = fo\<lparr>fo_listen_sock := sock, fo_running := True,
                      fo_attrs := (fo_attrs fo)\<lparr>at_status := listening_status (fo_attrs fo)\<rparr>,
                      fo_accept_thread := True\<rparr>;
             l = forwarder_open fo sock @ [ListenFd sock, NonBlockingFd sock, SpawnThread AcceptThread];
             (ok, l') = probe_loop pl (fs_probes a) in
         (case ok of
            None \<Rightarrow> None
          | Some True \<Rightarrow> Some (Returns ())
          | Some False \<Rightarrow> Some (Throws (IOException (msg_not_connectable port timeout_seconds))),
          fo1, l @ l')))"

type_synonym forwarder_result =
  "unit outcome option \<times> MeshForwarder \<times> MeshLoader \<times> MeshBackend \<times> mesh_log \<times> log"

definition MeshForwarder_Start ::
  "platform \<Rightarrow> mesh_build \<Rightarrow> int \<Rightarrow> forwarder_answers \<Rightarrow> MeshLoader \<Rightarrow> MeshBackend \<Rightarrow> MeshForwarder \<Rightarrow>
   forwarder_result" where
  "MeshForwarder_Start pl mb timeout_seconds a ml be fo =
     (case EnsureUp pl mb (fs_up a) ml be of
        (Returns _, ml1, be1, calls) \<Rightarrow>
          (let (r, fo1, l) = forwarder_listen pl timeout_seconds a fo in (r, fo1, ml1, be1, calls, l))
      | (Throws e, ml1, be1, calls) \<Rightarrow> (Some (Throws e), fo, ml1, be1, calls, [])
      | (Undefined, ml1, be1, calls) \<Rightarrow> (Some Undefined, fo, ml1, be1, calls, []))"

subsection \<open>The accept loop\<close>

record forwarder_turn =
  ft_running :: bool
  ft_select :: int
  ft_accept :: int
  ft_running_after :: bool
  ft_up :: up_answers
  ft_dial :: dial_reply

definition spawn_mesh_worker :: "int \<Rightarrow> int \<Rightarrow> MeshForwarder \<Rightarrow> MeshForwarder" where
  "spawn_mesh_worker client mesh fo =
     fo\<lparr>fo_workers := fo_workers fo @ [(fo_spawned fo, client, mesh)],
        fo_spawned := Suc (fo_spawned fo)\<rparr>"

type_synonym mesh_accept_result = "bool \<times> MeshForwarder \<times> MeshLoader \<times> MeshBackend \<times> log"

fun MeshForwarder_AcceptLoop ::
  "platform \<Rightarrow> mesh_build \<Rightarrow> forwarder_turn list \<Rightarrow> MeshLoader \<Rightarrow> MeshBackend \<Rightarrow> MeshForwarder \<Rightarrow>
   mesh_accept_result" where
  "MeshForwarder_AcceptLoop pl mb [] ml be fo = (False, fo, ml, be, [])"
| "MeshForwarder_AcceptLoop pl mb (t # ts) ml be fo =
     (let ls = fo_listen_sock fo; client = ft_accept t in
      if \<not> ft_running t then (True, fo, ml, be, [])
      else if ft_select t \<le> 0 \<or> \<not> SocketValid pl client then
        (let (fin, fo1, ml1, be1, l) = MeshForwarder_AcceptLoop pl mb ts ml be fo
         in (fin, fo1, ml1, be1, SelectRead [ls] # l))
      else if \<not> ft_running_after t then
        (True, fo, ml, be, [SelectRead [ls], OpenFd client] @ CloseSocketHandle pl client)
      else
        (let (r, ml1, be1, calls) = Dial pl mb (ft_up t) (ft_dial t)
               (at_remote_host (fo_attrs fo)) (at_remote_port (fo_attrs fo)) ml be in
         case r of
           Returns mesh \<Rightarrow>
             (let (fin, fo1, ml2, be2, l) =
                MeshForwarder_AcceptLoop pl mb ts ml1 be1 (spawn_mesh_worker client mesh fo)
              in (fin, fo1, ml2, be2,
                  [SelectRead [ls], OpenFd client, OpenFd mesh,
                   SpawnThread (PumpThread (fo_spawned fo))] @ l))
         | Throws e \<Rightarrow>
             (let (fin, fo1, ml2, be2, l) =
                MeshForwarder_AcceptLoop pl mb ts ml1 be1
                  (fo\<lparr>fo_attrs := (fo_attrs fo)\<lparr>at_error_message := exn_message e\<rparr>\<rparr>)
              in (fin, fo1, ml2, be2,
                  [SelectRead [ls], OpenFd client] @ CloseSocketHandle pl client @ l))
         | Undefined \<Rightarrow> (True, fo, ml1, be1, [SelectRead [ls], OpenFd client])))"

subsection \<open>The pump\<close>

record relay_turn =
  rt_running :: bool
  rt_select :: int
  rt_client_ready :: bool
  rt_client_recv :: recv_result
  rt_client_sends :: "send_turn list"
  rt_mesh_ready :: bool
  rt_mesh_recv :: recv_result
  rt_mesh_sends :: "send_turn list"

datatype relay_end =
    RelayPending
  | RelayStopped
  | RelaySelectError
  | RelayEof
  | RelayRecvError
  | RelaySendFailed

text \<open>One direction of a turn: read from one socket, send all of it on the other.\<close>

definition relay_half ::
  "platform \<Rightarrow> int \<Rightarrow> int \<Rightarrow> bool \<Rightarrow> recv_result \<Rightarrow> send_turn list \<Rightarrow> relay_end option \<times> log" where
  "relay_half pl src dst ready recv sends =
     (if \<not> ready then (None, [])
      else (case recv of
          Received [] \<Rightarrow> (Some RelayEof, [RecvOn src [], ShutdownWr dst])
        | RecvFailed _ \<Rightarrow> (Some RelayRecvError, [RecvOn src []])
        | Received (b # bs) \<Rightarrow>
            (case SendAll pl dst (b # bs) sends of
               (None, l) \<Rightarrow> (Some RelayPending, RecvOn src (b # bs) # l)
             | (Some ok, l) \<Rightarrow>
                 (if ok then None else Some RelaySendFailed, RecvOn src (b # bs) # l))))"

fun relay_loop :: "platform \<Rightarrow> int \<Rightarrow> int \<Rightarrow> relay_turn list \<Rightarrow> relay_end \<times> log" where
  "relay_loop pl client mesh [] = (RelayPending, [])"
| "relay_loop pl client mesh (t # ts) =
     (if \<not> rt_running t then (RelayStopped, [])
      else if rt_select t < 0 then (RelaySelectError, [SelectRead [client, mesh]])
      else if rt_select t = 0 then
        (let (e, l) = relay_loop pl client mesh ts in (e, SelectRead [client, mesh] # l))
      else
        (case relay_half pl client mesh (rt_client_ready t) (rt_client_recv t) (rt_mesh_sends t) of
           (Some e, l) \<Rightarrow> (e, SelectRead [client, mesh] # l)
         | (None, l) \<Rightarrow>
             (case relay_half pl mesh client (rt_mesh_ready t) (rt_mesh_recv t) (rt_client_sends t) of
                (Some e, l') \<Rightarrow> (e, SelectRead [client, mesh] # l @ l')
              | (None, l') \<Rightarrow>
                  (let (e, l'') = relay_loop pl client mesh ts
                   in (e, SelectRead [client, mesh] # l @ l' @ l'')))))"

definition MeshForwarder_Pump ::
  "platform \<Rightarrow> int \<Rightarrow> int \<Rightarrow> relay_turn list \<Rightarrow> bool \<times> log" where
  "MeshForwarder_Pump pl client mesh turns =
     (let (e, l) = relay_loop pl client mesh turns in
      if e = RelayPending then (False, l)
      else (True, l @ CloseSocketHandle pl client @ CloseSocketHandle pl mesh))"

subsection \<open>Close\<close>

definition MeshForwarder_Close :: "platform \<Rightarrow> MeshForwarder \<Rightarrow> MeshForwarder \<times> log" where
  "MeshForwarder_Close pl fo =
     (fo\<lparr>fo_running := False, fo_accept_thread := False, fo_workers := [],
         fo_listen_sock := kInvalidSocket pl,
         fo_attrs := (fo_attrs fo)\<lparr>at_status := ''Closed''\<rparr>\<rparr>,
      (if fo_accept_thread fo then [JoinThread AcceptThread] else []) @
      join_pumps (map fst (fo_workers fo)) @
      CloseSocketHandle pl (fo_listen_sock fo))"

section \<open>What the forwarder holds\<close>

definition fo_fds :: "MeshForwarder \<Rightarrow> int set" where
  "fo_fds fo = (\<Union>(w, client, mesh) \<in> set (fo_workers fo). {client, mesh})"

text \<open>The resources while no pump has ended; \<open>F\<close> are the descriptors of others.\<close>

definition fo_resources :: "platform \<Rightarrow> int set \<Rightarrow> MeshForwarder \<Rightarrow> resources" where
  "fo_resources pl F fo =
     \<lparr>live_fds = F \<union> (if SocketValid pl (fo_listen_sock fo) then {fo_listen_sock fo} else {}),
      live_session = False, live_listener = False, live_channels = {},
      live_threads = (if fo_accept_thread fo then {AcceptThread} else {}) \<union>
        PumpThread ` set (map fst (fo_workers fo))\<rparr>"

definition fo_invariant :: "platform \<Rightarrow> int set \<Rightarrow> MeshForwarder \<Rightarrow> bool" where
  "fo_invariant pl F fo \<longleftrightarrow>
     fo_listen_sock fo \<notin> F \<and>
     (fo_running fo \<longrightarrow> fo_accept_thread fo) \<and>
     distinct (map fst (fo_workers fo)) \<and> (\<forall>w \<in> set (fo_workers fo). fst w < fo_spawned fo)"

section \<open>Lemmas\<close>

subsection \<open>Closing\<close>

lemma MeshForwarder_Close_resources:
  assumes "fo_invariant pl F fo"
  shows "resource_run (snd (MeshForwarder_Close pl fo)) (fo_resources pl F fo) = Some (only_fds F)"
proof -
  let ?s = "fo_listen_sock fo" and ?ws = "map fst (fo_workers fo)"
  define r1 where "r1 = (fo_resources pl F fo)\<lparr>live_threads := {}\<rparr>"
  define l1 where "l1 = (if fo_accept_thread fo then [JoinThread AcceptThread] else []) @ join_pumps ?ws"
  have joins: "resource_run l1 (fo_resources pl F fo) = Some r1"
    using assms
    by (auto simp: l1_def r1_def resource_run_join_pumps fo_resources_def fo_invariant_def
        intro!: resources_eqI)
  have closes: "resource_run (CloseSocketHandle pl ?s) r1 = Some (only_fds F)"
    using assms
    by (auto simp: r1_def CloseSocketHandle_def fo_resources_def fo_invariant_def
        intro!: resources_eqI)
  have "snd (MeshForwarder_Close pl fo) = l1 @ CloseSocketHandle pl ?s"
    by (simp add: MeshForwarder_Close_def l1_def)
  with joins closes show ?thesis by (simp add: resource_run_append)
qed

lemma MeshForwarder_Close_again:
  "MeshForwarder_Close pl (fst (MeshForwarder_Close pl fo)) = (fst (MeshForwarder_Close pl fo), [])"
  by (simp add: MeshForwarder_Close_def CloseSocketHandle_def join_pumps_def)

subsection \<open>Starting\<close>

lemma probe_loop_resources:
  assumes "\<forall>t \<in> set ts. pr_socket t \<notin> live_fds r"
  shows "resource_run (snd (probe_loop pl ts)) r = Some r"
  using assms
proof (induction ts)
  case (Cons t ts)
  have "resource_run (CloseSocketHandle pl (pr_socket t))
      (r\<lparr>live_fds := insert (pr_socket t) (live_fds r)\<rparr>) = Some r" if "SocketValid pl (pr_socket t)"
    using that Cons.prems by (auto simp: CloseSocketHandle_def)
  with Cons show ?case by (auto simp: Let_def case_prod_beta resource_run_append)
qed simp

lemma forwarder_listen_resources:
  assumes fo: "fo = make_MeshForwarder pl kind rh rp lp ba" and no: "kInvalidSocket pl \<notin> F"
    and ls: "fs_socket a \<notin> F" and pr: "\<forall>t \<in> set (fs_probes a). pr_socket t \<notin> insert (fs_socket a) F"
    and call: "forwarder_listen pl timeout a fo = (r, fo', l)"
  shows "resource_run l (only_fds F) = Some (fo_resources pl F fo') \<and> fo_invariant pl F fo' \<and>
    (r = Some (Returns ()) \<longrightarrow> fo_IsActive fo' \<and>
       BindFd (fs_socket a) (if ba then ''0.0.0.0'' else ''127.0.0.1'') (bound_port lp) \<in> set l)"
proof -
  let ?s = "fs_socket a"
  have empty: "fo_resources pl F fo = only_fds F" "fo_invariant pl F fo"
    using no by (auto simp: fo make_MeshForwarder_def fo_resources_def fo_invariant_def
        intro!: resources_eqI)
  have opened: "resource_run (forwarder_open fo ?s) (only_fds F) = Some ((only_fds F)\<lparr>live_fds := insert ?s F\<rparr>)"
    using ls by (simp add: forwarder_open_def)
  consider (bad) "\<not> SocketValid pl ?s" | (refused) "SocketValid pl ?s" "fs_bind a \<noteq> 0 \<or> fs_listen a \<noteq> 0"
    | (ok) "SocketValid pl ?s" "fs_bind a = 0" "fs_listen a = 0" by blast
  then show ?thesis
  proof cases
    case bad
    then show ?thesis using call empty by (auto simp: forwarder_listen_def Let_def)
  next
    case refused
    have "resource_run (CloseSocketHandle pl ?s) ((only_fds F)\<lparr>live_fds := insert ?s F\<rparr>) = Some (only_fds F)"
      using refused(1) ls by (auto simp: CloseSocketHandle_def intro!: resources_eqI)
    moreover have "fo' = fo" "\<exists>e. r = Some (Throws e)"
      "l = forwarder_open fo ?s @ CloseSocketHandle pl ?s \<or>
       l = forwarder_open fo ?s @ [ListenFd ?s] @ CloseSocketHandle pl ?s"
      using refused call by (auto simp: forwarder_listen_def Let_def split: if_split_asm)
    ultimately show ?thesis using empty opened by (auto simp: resource_run_append)
  next
    case ok
    let ?fo = "fo\<lparr>fo_listen_sock := ?s, fo_running := True,
      fo_attrs := (fo_attrs fo)\<lparr>at_status := listening_status (fo_attrs fo)\<rparr>, fo_accept_thread := True\<rparr>"
    obtain p l' where pl: "probe_loop pl (fs_probes a) = (p, l')" by fastforce
    have res: "fo' = ?fo" and l: "l = forwarder_open fo ?s @
        [ListenFd ?s, NonBlockingFd ?s, SpawnThread AcceptThread] @ l'"
      using ok call pl by (simp_all add: forwarder_listen_def Let_def)
    let ?r = "(only_fds F)\<lparr>live_fds := insert ?s F, live_threads := {AcceptThread}\<rparr>"
    have eq: "fo_resources pl F ?fo = ?r"
      using ok(1) by (auto simp: fo make_MeshForwarder_def fo_resources_def intro!: resources_eqI)
    have "resource_run l' ?r = Some ?r"
      using probe_loop_resources [of "fs_probes a" ?r pl] pr pl by simp
    moreover have "resource_run [ListenFd ?s, NonBlockingFd ?s, SpawnThread AcceptThread]
        ((only_fds F)\<lparr>live_fds := insert ?s F\<rparr>) = Some ?r" by simp
    ultimately have "resource_run l (only_fds F) = Some (fo_resources pl F ?fo)"
      using opened unfolding l eq
      by (simp add: resource_run_append del: resource_run.simps append.simps)
    moreover have "fo_invariant pl F ?fo"
      using ls by (simp add: fo make_MeshForwarder_def fo_invariant_def)
    moreover have "BindFd ?s (if ba then ''0.0.0.0'' else ''127.0.0.1'') (bound_port lp) \<in> set l"
      by (simp add: l forwarder_open_def fo make_MeshForwarder_def)
    ultimately show ?thesis by (simp add: res fo_IsActive_def)
  qed
qed

subsection \<open>The pump\<close>

lemma relay_half_streams:
  assumes "relay_half pl src dst ready recv sends = (e, l)" and "src \<noteq> dst"
  shows "\<exists>rest. received_on src l = sent_on dst l @ rest \<and>
      (rest \<noteq> [] \<longrightarrow> e = Some RelaySendFailed \<or> e = Some RelayPending)"
    and "received_on dst l = []" and "sent_on src l = []"
proof -
  have "(\<exists>rest. received_on src l = sent_on dst l @ rest \<and>
      (rest \<noteq> [] \<longrightarrow> e = Some RelaySendFailed \<or> e = Some RelayPending)) \<and>
      received_on dst l = [] \<and> sent_on src l = []"
  proof (cases "\<exists>b bs. ready \<and> recv = Received (b # bs)")
    case True
    then obtain b bs where data: "ready" "recv = Received (b # bs)" by blast
    obtain r l' where rl: "SendAll pl dst (b # bs) sends = (r, l')" by fastforce
    from SendAll_loop_sent [of 0 "b # bs" dst pl sends] rl
    obtain rest where rest: "b # bs = sent_on dst l' @ rest" "r = Some True \<longleftrightarrow> rest = []"
      by (auto simp: SendAll_def)
    have l: "l = RecvOn src (b # bs) # l'"
      and e: "e = (case r of None \<Rightarrow> Some RelayPending | Some ok \<Rightarrow>
        if ok then None else Some RelaySendFailed)"
      using assms(1) data rl by (auto simp: relay_half_def split: option.splits)
    have "received_on src l' = []" "received_on dst l' = []" "sent_on src l' = []"
      using SendAll_streams(1,4) [where pl = pl and s = dst and buf = "b # bs" and turns = sends]
        rl assms(2) by simp_all
    with l e rest assms(2) show ?thesis
      by (intro conjI exI [of _ rest]) (simp_all split: option.splits)
  next
    case False
    then consider "\<not> ready" | "recv = Received []" | err where "recv = RecvFailed err"
      by (metis list.exhaust recv_result.exhaust)
    then show ?thesis using assms by cases (auto simp: relay_half_def split: if_split_asm)
  qed
  then show "\<exists>rest. received_on src l = sent_on dst l @ rest \<and>
      (rest \<noteq> [] \<longrightarrow> e = Some RelaySendFailed \<or> e = Some RelayPending)"
    and "received_on dst l = []" and "sent_on src l = []" by blast+
qed

definition relayed :: "int \<Rightarrow> int \<Rightarrow> relay_end \<times> log \<Rightarrow> bool" where
  "relayed client mesh res \<longleftrightarrow>
     (\<exists>up down.
        received_on client (snd res) = sent_on mesh (snd res) @ up \<and>
        received_on mesh (snd res) = sent_on client (snd res) @ down \<and>
        (fst res \<notin> {RelaySendFailed, RelayPending} \<longrightarrow> up = [] \<and> down = []))"

lemma relayedI:
  assumes "received_on client l = sent_on mesh l @ up" and "received_on mesh l = sent_on client l @ down"
    and "e \<notin> {RelaySendFailed, RelayPending} \<Longrightarrow> up = [] \<and> down = []"
  shows "relayed client mesh (e, l)"
  using assms unfolding relayed_def by (intro exI [of _ up] exI [of _ down]) auto

lemma relay_loop_streams:
  assumes ne: "client \<noteq> mesh"
  shows "relayed client mesh (relay_loop pl client mesh ts)"
proof (induction ts)
  case Nil
  then show ?case by (auto intro: relayedI)
next
  case (Cons t ts)
  let ?sel = "SelectRead [client, mesh]"
  obtain e1 l1 where h1: "relay_half pl client mesh (rt_client_ready t) (rt_client_recv t)
      (rt_mesh_sends t) = (e1, l1)" by fastforce
  obtain e2 l2 where h2: "relay_half pl mesh client (rt_mesh_ready t) (rt_mesh_recv t)
      (rt_client_sends t) = (e2, l2)" by fastforce
  obtain e3 l3 where h3: "relay_loop pl client mesh ts = (e3, l3)" by fastforce
  from relay_half_streams [OF h1 ne] obtain up where
    up: "received_on client l1 = sent_on mesh l1 @ up"
      "up \<noteq> [] \<longrightarrow> e1 = Some RelaySendFailed \<or> e1 = Some RelayPending"
    and s1: "received_on mesh l1 = []" "sent_on client l1 = []" by blast
  from relay_half_streams [OF h2 ne [symmetric]] obtain down where
    down: "received_on mesh l2 = sent_on client l2 @ down"
      "down \<noteq> [] \<longrightarrow> e2 = Some RelaySendFailed \<or> e2 = Some RelayPending"
    and s2: "received_on client l2 = []" "sent_on mesh l2 = []" by blast
  from Cons.IH h3 obtain up3 down3 where IH:
    "received_on client l3 = sent_on mesh l3 @ up3" "received_on mesh l3 = sent_on client l3 @ down3"
    "e3 \<notin> {RelaySendFailed, RelayPending} \<longrightarrow> up3 = [] \<and> down3 = []"
    unfolding relayed_def by auto
  consider (stop) "\<not> rt_running t \<or> rt_select t < 0" | (idle) "rt_running t" "rt_select t = 0"
    | (one) e where "rt_running t" "rt_select t > 0" "e1 = Some e"
    | (two) e where "rt_running t" "rt_select t > 0" "e1 = None" "e2 = Some e"
    | (next_turn) "rt_running t" "rt_select t > 0" "e1 = None" "e2 = None"
    by (cases e1; cases e2) fastforce+
  then show ?case
  proof cases
    case stop
    then show ?thesis by (auto intro: relayedI)
  next
    case idle
    then show ?thesis using IH h3 by (auto intro!: relayedI [of _ _ _ up3 down3])
  next
    case one
    have "relayed client mesh (e, ?sel # l1)"
      by (rule relayedI [of _ _ _ up "[]"]) (use one up s1 in auto)
    with one h1 show ?thesis by simp
  next
    case two
    with up have "up = []" by auto
    then have "relayed client mesh (e, ?sel # l1 @ l2)"
      by (intro relayedI [of _ _ _ "[]" down]) (use two up s1 down s2 in auto)
    with two h1 h2 show ?thesis by simp
  next
    case next_turn
    with up down have "up = []" "down = []" by auto
    then have "relayed client mesh (e3, ?sel # l1 @ l2 @ l3)"
      by (intro relayedI [of _ _ _ up3 down3]) (use up s1 down s2 IH in auto)
    with next_turn h1 h2 h3 show ?thesis by simp
  qed
qed

lemma relay_half_resources:
  assumes "src \<in> live_fds r" and "dst \<in> live_fds r"
  shows "resource_run (snd (relay_half pl src dst ready recv sends)) r = Some r"
  using assms SendAll_resources [OF assms(2), of pl]
  by (auto simp: relay_half_def case_prod_beta split: recv_result.split list.split option.split)

lemma relay_loop_resources:
  assumes "client \<in> live_fds r" and "mesh \<in> live_fds r"
  shows "resource_run (snd (relay_loop pl client mesh ts)) r = Some r"
proof (induction ts)
  case (Cons t ts)
  obtain e1 l1 where h1: "relay_half pl client mesh (rt_client_ready t) (rt_client_recv t)
      (rt_mesh_sends t) = (e1, l1)" by fastforce
  obtain e2 l2 where h2: "relay_half pl mesh client (rt_mesh_ready t) (rt_mesh_recv t)
      (rt_client_sends t) = (e2, l2)" by fastforce
  obtain e3 l3 where h3: "relay_loop pl client mesh ts = (e3, l3)" by fastforce
  have l1: "resource_run l1 r = Some r" and l2: "resource_run l2 r = Some r"
    and l3: "resource_run l3 r = Some r"
    using relay_half_resources [OF assms, of pl "rt_client_ready t" "rt_client_recv t" "rt_mesh_sends t"]
      relay_half_resources [OF assms(2,1), of pl "rt_mesh_ready t" "rt_mesh_recv t" "rt_client_sends t"]
      Cons.IH by (simp_all add: h1 h2 h3)
  then have "resource_run (l1 @ l2) r = Some r" "resource_run (l1 @ l2 @ l3) r = Some r"
    by (simp_all add: resource_run_append)
  with l1 l3 assms show ?case by (cases e1; cases e2) (simp_all add: h1 h2 h3)
qed simp

lemma MeshForwarder_Pump_resources:
  assumes "client \<in> live_fds r" and "mesh \<in> live_fds r" and "client \<noteq> mesh"
    and "SocketValid pl client" and "SocketValid pl mesh"
    and "MeshForwarder_Pump pl client mesh turns = (True, l)"
  shows "resource_run l r = Some (r\<lparr>live_fds := live_fds r - {client, mesh}\<rparr>)"
proof -
  obtain e l1 where h: "relay_loop pl client mesh turns = (e, l1)" by fastforce
  have l: "l = l1 @ CloseSocketHandle pl client @ CloseSocketHandle pl mesh"
    using assms(6) by (auto simp: MeshForwarder_Pump_def h split: if_split_asm)
  have "resource_run l1 r = Some r"
    using relay_loop_resources [OF assms(1,2), of pl turns] h by simp
  moreover have "live_fds r - {client} - {mesh} = live_fds r - {client, mesh}" by auto
  ultimately show ?thesis using assms by (simp add: l resource_run_append CloseSocketHandle_def)
qed

subsection \<open>Accepting\<close>

definition fo_serving :: "platform \<Rightarrow> int set \<Rightarrow> MeshForwarder \<Rightarrow> resources" where
  "fo_serving pl F fo = fo_resources pl (F \<union> fo_fds fo) fo"

definition accepting_clients :: "platform \<Rightarrow> int set \<Rightarrow> MeshForwarder \<Rightarrow> bool" where
  "accepting_clients pl F fo \<longleftrightarrow>
     fo_invariant pl (F \<union> fo_fds fo) fo \<and> SocketValid pl (fo_listen_sock fo) \<and> fo_accept_thread fo"

definition fo_in_use :: "int set \<Rightarrow> MeshForwarder \<Rightarrow> int set" where
  "fo_in_use F fo = insert (fo_listen_sock fo) (F \<union> fo_fds fo)"

text \<open>Accepted clients and dialled streams are descriptors that are not open.\<close>

fun mesh_fresh :: "int set \<Rightarrow> forwarder_turn list \<Rightarrow> bool" where
  "mesh_fresh F [] \<longleftrightarrow> True"
| "mesh_fresh F (t # ts) \<longleftrightarrow>
     ft_accept t \<notin> F \<and>
     (if dr_rc (ft_dial t) = 0 then
        dr_stream (ft_dial t) \<notin> insert (ft_accept t) F \<and>
        mesh_fresh (insert (ft_accept t) (insert (dr_stream (ft_dial t)) F)) ts
      else mesh_fresh F ts)"

lemma mesh_fresh_mono: "mesh_fresh F' ts \<Longrightarrow> F \<subseteq> F' \<Longrightarrow> mesh_fresh F ts"
proof (induction ts arbitrary: F F')
  case (Cons t ts)
  let ?i = "\<lambda>F. insert (ft_accept t) (insert (dr_stream (ft_dial t)) F)"
  show ?case
  proof (cases "dr_rc (ft_dial t) = 0")
    case True
    with Cons.prems have "mesh_fresh (?i F') ts" and sub: "?i F \<subseteq> ?i F'" by auto
    from Cons.IH [OF this] True Cons.prems show ?thesis by auto
  next
    case False
    with Cons.prems Cons.IH [of F' F] show ?thesis by auto
  qed
qed simp

lemma spawn_mesh_worker_serving:
  assumes "accepting_clients pl F fo" and "client \<notin> fo_in_use F fo"
    and "mesh \<notin> insert client (fo_in_use F fo)"
  shows "accepting_clients pl F (spawn_mesh_worker client mesh fo)"
    and "fo_in_use F (spawn_mesh_worker client mesh fo) = insert client (insert mesh (fo_in_use F fo))"
    and "resource_run [OpenFd client, OpenFd mesh, SpawnThread (PumpThread (fo_spawned fo))]
      (fo_serving pl F fo) = Some (fo_serving pl F (spawn_mesh_worker client mesh fo))"
proof -
  have new: "PumpThread (fo_spawned fo) \<notin> PumpThread ` fst ` set (fo_workers fo)"
    using assms(1) by (auto simp: accepting_clients_def fo_invariant_def)
  have fds: "fo_fds (spawn_mesh_worker client mesh fo) = insert client (insert mesh (fo_fds fo))"
    by (auto simp: fo_fds_def spawn_mesh_worker_def)
  have fields: "fo_listen_sock (spawn_mesh_worker client mesh fo) = fo_listen_sock fo"
    "fo_running (spawn_mesh_worker client mesh fo) = fo_running fo"
    "fo_accept_thread (spawn_mesh_worker client mesh fo) = fo_accept_thread fo"
    "fo_workers (spawn_mesh_worker client mesh fo) = fo_workers fo @ [(fo_spawned fo, client, mesh)]"
    "fo_spawned (spawn_mesh_worker client mesh fo) = Suc (fo_spawned fo)"
    by (simp_all add: spawn_mesh_worker_def)
  show "accepting_clients pl F (spawn_mesh_worker client mesh fo)"
    using assms new
    by (auto simp: accepting_clients_def fo_invariant_def fds fo_in_use_def fields less_Suc_eq)
  show "fo_in_use F (spawn_mesh_worker client mesh fo) = insert client (insert mesh (fo_in_use F fo))"
    by (auto simp: fo_in_use_def fds fields)
  show "resource_run [OpenFd client, OpenFd mesh, SpawnThread (PumpThread (fo_spawned fo))]
      (fo_serving pl F fo) = Some (fo_serving pl F (spawn_mesh_worker client mesh fo))"
    using assms new
    by (auto simp: fo_serving_def fds fo_in_use_def fo_resources_def fields intro!: resources_eqI)
qed

lemma MeshForwarder_AcceptLoop_resources:
  assumes "accepting_clients pl F fo" and "mesh_fresh (fo_in_use F fo) ts"
    and "MeshForwarder_AcceptLoop pl mb ts ml be fo = (fin, fo', ml', be', l)"
  shows "resource_run l (fo_serving pl F fo) = Some (fo_serving pl F fo') \<and> accepting_clients pl F fo'"
  using assms
proof (induction ts arbitrary: ml be fo fin fo' ml' be' l)
  case (Cons t ts)
  let ?c = "ft_accept t" and ?r = "fo_serving pl F fo" and ?ls = "fo_listen_sock fo"
  have ls: "?ls \<in> live_fds ?r"
    using Cons.prems(1) by (simp add: fo_serving_def fo_resources_def accepting_clients_def)
  have c: "?c \<notin> fo_in_use F fo" using Cons.prems(2) by simp
  have notlive: "?c \<notin> live_fds ?r"
    using c by (auto simp: fo_in_use_def fo_serving_def fo_resources_def)
  have later: "mesh_fresh (fo_in_use F fo) ts"
    using Cons.prems(2) by (auto split: if_split_asm elim: mesh_fresh_mono)
  have closed: "resource_run (CloseSocketHandle pl ?c) (?r\<lparr>live_fds := insert ?c (live_fds ?r)\<rparr>) = Some ?r"
    if "SocketValid pl ?c"
    using that notlive by (simp add: CloseSocketHandle_def)
  obtain d ml1 be1 calls where dial: "Dial pl mb (ft_up t) (ft_dial t) (at_remote_host (fo_attrs fo))
      (at_remote_port (fo_attrs fo)) ml be = (d, ml1, be1, calls)" by (metis prod_cases4)
  consider (stop) "\<not> ft_running t" | (idle) "ft_running t" "ft_select t \<le> 0 \<or> \<not> SocketValid pl ?c"
    | (late) "ft_running t" "ft_select t > 0" "SocketValid pl ?c" "\<not> ft_running_after t"
    | (dialled) m where "ft_running t" "ft_select t > 0" "SocketValid pl ?c" "ft_running_after t"
        "d = Returns m"
    | (refused) e where "ft_running t" "ft_select t > 0" "SocketValid pl ?c" "ft_running_after t"
        "d = Throws e"
    using Dial_cases(1) [OF dial] by (cases d) (linarith | force)+
  then show ?case
  proof cases
    case stop
    then show ?thesis using Cons.prems by simp
  next
    case idle
    obtain fin1 fo1 ml2 be2 l1 where rest:
      "MeshForwarder_AcceptLoop pl mb ts ml be fo = (fin1, fo1, ml2, be2, l1)" by (metis prod_cases5)
    then have "fo' = fo1" "l = SelectRead [?ls] # l1"
      using idle Cons.prems(3) by (auto simp: Let_def)
    then show ?thesis using Cons.IH [OF Cons.prems(1) later rest] ls by simp
  next
    case late
    then have "fo' = fo" "l = [SelectRead [?ls], OpenFd ?c] @ CloseSocketHandle pl ?c"
      using Cons.prems(3) by (auto simp: Let_def)
    then show ?thesis using Cons.prems(1) late(3) ls notlive closed by simp
  next
    case dialled
    let ?fo = "spawn_mesh_worker ?c m fo"
    have m: "m = dr_stream (ft_dial t)" "dr_rc (ft_dial t) = 0"
      using Dial_cases(2) [OF dial dialled(5)] by simp_all
    then have "m \<notin> insert ?c (fo_in_use F fo)" using Cons.prems(2) by simp
    note sp = spawn_mesh_worker_serving [OF Cons.prems(1) c this]
    obtain fin1 fo1 ml2 be2 l1 where rest:
      "MeshForwarder_AcceptLoop pl mb ts ml1 be1 ?fo = (fin1, fo1, ml2, be2, l1)" by (metis prod_cases5)
    have "mesh_fresh (fo_in_use F ?fo) ts" using Cons.prems(2) m sp(2) by simp
    note IH = Cons.IH [OF sp(1) this rest]
    have "fo' = fo1" "l = [SelectRead [?ls]] @ [OpenFd ?c, OpenFd m,
        SpawnThread (PumpThread (fo_spawned fo))] @ l1"
      using dialled Cons.prems(3) dial rest by (auto simp: Let_def)
    moreover have "resource_run [SelectRead [?ls]] ?r = Some ?r" using ls by simp
    ultimately show ?thesis using sp(3) IH
      by (simp add: resource_run_append del: resource_run.simps append.simps)
  next
    case refused
    let ?fo = "fo\<lparr>fo_attrs := (fo_attrs fo)\<lparr>at_error_message := exn_message e\<rparr>\<rparr>"
    have same: "fo_serving pl F ?fo = ?r" "accepting_clients pl F ?fo" "fo_in_use F ?fo = fo_in_use F fo"
      using Cons.prems(1)
      by (simp_all add: fo_serving_def fo_resources_def fo_fds_def accepting_clients_def
          fo_invariant_def fo_in_use_def)
    obtain fin1 fo1 ml2 be2 l1 where rest:
      "MeshForwarder_AcceptLoop pl mb ts ml1 be1 ?fo = (fin1, fo1, ml2, be2, l1)" by (metis prod_cases5)
    note IH = Cons.IH [OF same(2) _ rest, unfolded same(1,3), OF later]
    have "fo' = fo1" "l = [SelectRead [?ls], OpenFd ?c] @ CloseSocketHandle pl ?c @ l1"
      using refused Cons.prems(3) dial rest by (auto simp: Let_def)
    then show ?thesis using IH refused(3) ls notlive closed by (simp add: resource_run_append)
  qed
qed simp

lemma forwarder_listen_returns:
  "forwarder_listen pl timeout a fo = (Some (Returns u), fo', l) \<Longrightarrow>
     fo_running fo' \<and> (\<exists>st. fo_attrs fo' = (fo_attrs fo)\<lparr>at_status := st\<rparr>)"
  by (auto simp: forwarder_listen_def Let_def split: if_splits prod.splits)

lemma MeshForwarder_Start_returns:
  "MeshForwarder_Start pl mb timeout a ml be fo = (Some (Returns u), fo', ml', be', calls, l) \<Longrightarrow>
     fo_running fo' \<and> (\<exists>st. fo_attrs fo' = (fo_attrs fo)\<lparr>at_status := st\<rparr>)"
  by (auto simp: MeshForwarder_Start_def dest!: forwarder_listen_returns
      split: outcome.splits prod.splits)

section \<open>Properties\<close>

text \<open>Starting a mesh import holds exactly what its object says, on every path: a failed bind or
  listen leaves nothing open, a listener that never becomes connectable is still owned by the object
  and so released when it is destroyed, and on success the listener is bound to loopback unless all
  interfaces were asked for.\<close>

theorem forwarder_listen_safe:
  assumes "kInvalidSocket pl \<notin> F" and "fs_socket a \<notin> F"
    and "\<forall>t \<in> set (fs_probes a). pr_socket t \<notin> insert (fs_socket a) F"
    and "forwarder_listen pl timeout a (make_MeshForwarder pl kind remote_host remote_port local_port bind_all)
      = (r, fo', l)"
  shows "resource_run (l @ snd (MeshForwarder_Close pl fo')) (only_fds F) = Some (only_fds F) \<and>
    (r = Some (Returns ()) \<longrightarrow> fo_IsActive fo' \<and>
       BindFd (fs_socket a) (if bind_all then ''0.0.0.0'' else ''127.0.0.1'') (bound_port local_port) \<in> set l)"
  using forwarder_listen_resources [OF refl assms] MeshForwarder_Close_resources [of pl F fo']
  by (auto simp: resource_run_append)

definition demo_listen :: "int \<Rightarrow> forwarder_answers" where
  "demo_listen bind_rc =
     \<lparr>fs_up = demo_up, fs_socket = 5, fs_bind = bind_rc, fs_listen = 0,
      fs_probes = [\<lparr>pr_before_deadline = True, pr_socket = 6, pr_connect = 0\<rparr>]\<rparr>"

definition demo_forwarder :: MeshForwarder where
  "demo_forwarder = make_MeshForwarder Linux NetBird ''db'' 5432 6432 False"

theorem forwarder_listen_safe_witness:
  "fst (forwarder_listen Linux 60 (demo_listen 0) demo_forwarder) = Some (Returns ()) \<and>
   BindFd 5 ''127.0.0.1'' 6432 \<in> set (snd (snd (forwarder_listen Linux 60 (demo_listen 0) demo_forwarder)))"
proof -
  let ?x = "forwarder_listen Linux 60 (demo_listen 0) (make_MeshForwarder Linux NetBird ''db'' 5432 6432 False)"
  have r: "fst ?x = Some (Returns ())"
    by (simp add: forwarder_listen_def demo_listen_def Let_def SocketValid_def kInvalidSocket_def)
  have x: "?x = (Some (Returns ()), fst (snd ?x), snd (snd ?x))" using r by (simp add: prod_eq_iff)
  have pre: "kInvalidSocket Linux \<notin> {3}" "fs_socket (demo_listen 0) \<notin> {3}"
    "\<forall>t \<in> set (fs_probes (demo_listen 0)). pr_socket t \<notin> insert (fs_socket (demo_listen 0)) {3}"
    by (simp_all add: kInvalidSocket_def demo_listen_def)
  from forwarder_listen_safe [OF pre x] r show ?thesis
    by (simp add: demo_forwarder_def bound_port_def demo_listen_def)
qed

text \<open>
  The import over a mesh does not check the range of \<open>local_port\<close>: the listener of port 70000 is
  bound to port 4464, while the attributes keep saying 70000.
\<close>

theorem mesh_import_port_wraps:
  "bound_port 70000 = 4464 \<and>
   at_local_port (fo_attrs (make_MeshForwarder pl kind remote_host remote_port 70000 bind_all)) = 70000"
  by (simp add: bound_port_def make_MeshForwarder_def)

text \<open>The accept loop of a mesh import is safe for any sequence of clients and any answers of the
  mesh: every accepted client is handed, with its own dialled stream, to one new pump, or closed
  when the dial fails; nothing is leaked and nothing is used after it was closed.\<close>

theorem MeshForwarder_AcceptLoop_safe:
  assumes "accepting_clients pl F fo" and "mesh_fresh (fo_in_use F fo) ts"
    and "MeshForwarder_AcceptLoop pl mb ts ml be fo = (fin, fo', ml', be', l)"
  shows "resource_run l (fo_serving pl F fo) = Some (fo_serving pl F fo') \<and> accepting_clients pl F fo'"
  using assms by (rule MeshForwarder_AcceptLoop_resources)

definition demo_mesh_turns :: "forwarder_turn list" where
  "demo_mesh_turns =
     [\<lparr>ft_running = True, ft_select = 1, ft_accept = 7, ft_running_after = True, ft_up = demo_up,
       ft_dial = \<lparr>dr_rc = 0, dr_stream = 8, dr_errmsg = []\<rparr>\<rparr>,
      \<lparr>ft_running = True, ft_select = 1, ft_accept = 9, ft_running_after = True, ft_up = demo_up,
       ft_dial = \<lparr>dr_rc = 1, dr_stream = 0, dr_errmsg = ''no route''\<rparr>\<rparr>]"

definition demo_accepting :: MeshForwarder where
  "demo_accepting = demo_forwarder\<lparr>fo_listen_sock := 5, fo_running := True, fo_accept_thread := True\<rparr>"

theorem MeshForwarder_AcceptLoop_safe_witness:
  "case MeshForwarder_AcceptLoop Linux demo_build demo_mesh_turns demo_loader (demo_node\<lparr>mk_up := True\<rparr>)
     demo_accepting of (fin, fo', ml', be', l) \<Rightarrow>
     resource_run l (fo_serving Linux {3} demo_accepting) = Some (fo_serving Linux {3} fo')"
proof -
  obtain fin fo' ml' be' l where x: "MeshForwarder_AcceptLoop Linux demo_build demo_mesh_turns demo_loader
      (demo_node\<lparr>mk_up := True\<rparr>) demo_accepting = (fin, fo', ml', be', l)" by (metis prod_cases5)
  have pre: "accepting_clients Linux {3} demo_accepting"
    "mesh_fresh (fo_in_use {3} demo_accepting) demo_mesh_turns"
    by (simp_all add: accepting_clients_def fo_invariant_def demo_accepting_def demo_forwarder_def
        make_MeshForwarder_def fo_fds_def SocketValid_def kInvalidSocket_def fo_in_use_def
        demo_mesh_turns_def)
  from MeshForwarder_AcceptLoop_safe [OF pre x] show ?thesis by (simp add: x)
qed

text \<open>C27: A pump of a mesh import copies bytes faithfully. In each direction what is sent is, in order,
  a prefix of what was read, and all of it unless a send failed or was stopped.\<close>

theorem mesh_pump_streams:
  assumes "client \<noteq> mesh"
  shows "\<exists>up down.
     received_on client (snd (relay_loop pl client mesh turns)) =
       sent_on mesh (snd (relay_loop pl client mesh turns)) @ up \<and>
     received_on mesh (snd (relay_loop pl client mesh turns)) =
       sent_on client (snd (relay_loop pl client mesh turns)) @ down \<and>
     (fst (relay_loop pl client mesh turns) \<notin> {RelaySendFailed, RelayPending} \<longrightarrow> up = [] \<and> down = [])"
  using relay_loop_streams [OF assms, of pl turns] unfolding relayed_def .

definition demo_relay :: "relay_turn list" where
  "demo_relay =
     [\<lparr>rt_running = True, rt_select = 1, rt_client_ready = True, rt_client_recv = Received [1, 2],
       rt_client_sends = [], rt_mesh_ready = False, rt_mesh_recv = Received [],
       rt_mesh_sends = [\<lparr>st_running = True, st_send = 2, st_errno = 0\<rparr>]\<rparr>,
      \<lparr>rt_running = True, rt_select = 1, rt_client_ready = True, rt_client_recv = Received [],
       rt_client_sends = [], rt_mesh_ready = True, rt_mesh_recv = Received [7, 8],
       rt_mesh_sends = []\<rparr>]"

theorem mesh_pump_streams_witness:
  "sent_on 6 (snd (relay_loop Linux 5 6 demo_relay)) = [1, 2]"
proof -
  have e: "fst (relay_loop Linux 5 6 demo_relay) = RelayEof"
    "received_on 5 (snd (relay_loop Linux 5 6 demo_relay)) = [1, 2]"
    by (simp_all add: demo_relay_def relay_half_def SendAll_def SendAll_loop.simps)
  with mesh_pump_streams [of 5 6 Linux demo_relay] show ?thesis by simp
qed

text \<open>
  The end of the client's stream ends the pump at once: bytes of the answer that are already
  waiting on the mesh side (here 7 and 8) are not delivered, although the code means to let the
  answer finish.
\<close>

theorem mesh_pump_truncates_answer:
  "rt_mesh_ready (demo_relay ! 1) \<and> rt_mesh_recv (demo_relay ! 1) = Received [7, 8] \<and>
   sent_on 5 (snd (relay_loop Linux 5 6 demo_relay)) = [] \<and>
   fst (MeshForwarder_Pump Linux 5 6 demo_relay)"
  by (simp add: demo_relay_def relay_half_def SendAll_def SendAll_loop.simps MeshForwarder_Pump_def)

text \<open>A pump that ends has closed both of its sockets, each exactly once, and \<open>Close\<close> of the forwarder
  joins every thread and closes the listener, after which only the descriptors of others are open;
  closing again makes no call.\<close>

theorem MeshForwarder_releases:
  assumes "client \<in> live_fds r" and "mesh \<in> live_fds r" and "client \<noteq> mesh"
    and "SocketValid pl client" and "SocketValid pl mesh"
    and "MeshForwarder_Pump pl client mesh turns = (True, l)" and "fo_invariant pl F fo"
  shows "resource_run l r = Some (r\<lparr>live_fds := live_fds r - {client, mesh}\<rparr>) \<and>
    resource_run (snd (MeshForwarder_Close pl fo)) (fo_resources pl F fo) = Some (only_fds F) \<and>
    snd (MeshForwarder_Close pl (fst (MeshForwarder_Close pl fo))) = []"
  using MeshForwarder_Pump_resources [OF assms(1-6)] MeshForwarder_Close_resources [OF assms(7)]
  by (simp add: MeshForwarder_Close_again)

theorem MeshForwarder_releases_witness:
  "resource_run (snd (MeshForwarder_Pump Linux 5 6 demo_relay)) (only_fds {3, 5, 6}) =
     Some (only_fds {3})"
proof -
  have p: "MeshForwarder_Pump Linux 5 6 demo_relay = (True, snd (MeshForwarder_Pump Linux 5 6 demo_relay))"
    by (simp add: demo_relay_def relay_half_def SendAll_def SendAll_loop.simps MeshForwarder_Pump_def)
  have v: "SocketValid Linux 5" "SocketValid Linux 6"
    by (simp_all add: SocketValid_def kInvalidSocket_def)
  have i: "fo_invariant Linux {3} demo_accepting"
    by (simp add: fo_invariant_def demo_accepting_def demo_forwarder_def make_MeshForwarder_def)
  have "{3, 5, 6} - {5, 6 :: int} = {3}" by auto
  with MeshForwarder_releases [OF _ _ _ v p i, of "only_fds {3, 5, 6}"] show ?thesis
    by (simp add: only_fds_def)
qed

end
