(* ===== verification/Mesh_Exporter.thy ===== *)
theory Mesh_Exporter
  imports Mesh_Backend
begin

text \<open>
  The owner of a listener on the mesh, from \<^verbatim>\<open>src/src/mesh_exporter.cpp\<close>. Listening, accepting and
  copying happen inside the shim; what matters here is that a published port is always owned by an
  object that can withdraw it.
\<close>

section \<open>Definitions\<close>

record MeshExporter =
  ep_attrs :: TunnelConnectionAttributes
  ep_export_handle :: int
  ep_listening :: bool

definition make_MeshExporter :: "MeshKind \<Rightarrow> int \<Rightarrow> string \<Rightarrow> int \<Rightarrow> MeshExporter" where
  "make_MeshExporter kind mesh_port local_host local_port =
     \<lparr>ep_attrs = default_attributes
        \<lparr>at_backend := mesh_backend_name kind, at_direction := ''export'',
         at_local_host := local_host, at_local_port := local_port, at_remote_port := mesh_port,
         at_remote_host := [], at_bind_addr := [], at_status := ''Configuring''\<rparr>,
      ep_export_handle = 0, ep_listening = False\<rparr>"

definition ep_IsActive :: "MeshExporter \<Rightarrow> bool" where
  "ep_IsActive ep \<longleftrightarrow> ep_listening ep"

definition ep_GetAttributes :: "MeshExporter \<Rightarrow> TunnelConnectionAttributes" where
  "ep_GetAttributes ep = ep_attrs ep"

text \<open>
  One turn of the search for the node's own address: the answers to \<open>SelfJson\<close>, and whether the
  deadline of five seconds has passed.
\<close>

record self_turn =
  sf_up :: up_answers
  sf_reply :: "nat \<Rightarrow> json_reply"
  sf_errmsg :: string
  sf_late :: bool

record mesh_export_answers =
  xe_up :: up_answers
  xe_export_up :: up_answers
  xe_export :: export_reply
  xe_self :: "self_turn list"

definition first_mesh_ip :: "MeshPeer list \<Rightarrow> string" where
  "first_mesh_ip rows = (case rows of [] \<Rightarrow> [] | r # _ \<Rightarrow> mp_mesh_ip r)"

text \<open>The address found, or none at the deadline; no result means that the search still runs.\<close>

fun self_loop ::
  "platform \<Rightarrow> mesh_build \<Rightarrow> (string \<Rightarrow> json option) \<Rightarrow> self_turn list \<Rightarrow> MeshLoader \<Rightarrow> MeshBackend \<Rightarrow>
   string option \<times> MeshLoader \<times> MeshBackend \<times> mesh_log" where
  "self_loop pl mb reader [] ml be = (None, ml, be, [])"
| "self_loop pl mb reader (t # ts) ml be =
     (let (r, ml1, be1, l) = SelfJson pl mb (sf_up t) (sf_reply t) (sf_errmsg t) ml be;
          ip = (case r of
                  Returns self \<Rightarrow> first_mesh_ip (ParseMeshPeersJson reader (''['' @ self @ '']''))
                | _ \<Rightarrow> []) in
      if ip \<noteq> [] then (Some ip, ml1, be1, l)
      else if sf_late t then (Some [], ml1, be1, l)
      else (let (x, ml2, be2, l') = self_loop pl mb reader ts ml1 be1 in (x, ml2, be2, l @ l')))"

definition mesh_exporting_status :: "MeshExporter \<Rightarrow> string \<Rightarrow> string" where
  "mesh_exporting_status ep mesh_ip =
     ''Exporting '' @ at_local_host (ep_attrs ep) @ '':'' @ to_string (at_local_port (ep_attrs ep)) @
     '' on '' @ (if mesh_ip = [] then ''this node'' else mesh_ip) @ '':'' @
     to_string (at_remote_port (ep_attrs ep))"

type_synonym exporter_result =
  "unit outcome option \<times> MeshExporter \<times> MeshLoader \<times> MeshBackend \<times> mesh_log"

text \<open>After the export: own the listener, then look for the address.\<close>

definition announce_export ::
  "platform \<Rightarrow> mesh_build \<Rightarrow> (string \<Rightarrow> json option) \<Rightarrow> self_turn list \<Rightarrow> int \<Rightarrow> MeshLoader \<Rightarrow> MeshBackend \<Rightarrow>
   MeshExporter \<Rightarrow> exporter_result" where
  "announce_export pl mb reader turns handle ml be ep =
     (let ep1 = ep\<lparr>ep_export_handle := handle, ep_listening := True\<rparr>;
          (found, ml1, be1, l) = self_loop pl mb reader turns ml be in
      case found of
        None \<Rightarrow> (None, ep1, ml1, be1, l)
      | Some mesh_ip \<Rightarrow>
          (Some (Returns ()),
           ep1\<lparr>ep_attrs := (ep_attrs ep1)
                 \<lparr>at_remote_host := mesh_ip, at_status := mesh_exporting_status ep1 mesh_ip\<rparr>\<rparr>,
           ml1, be1, l))"

definition MeshExporter_Start ::
  "platform \<Rightarrow> mesh_build \<Rightarrow> (string \<Rightarrow> json option) \<Rightarrow> mesh_export_answers \<Rightarrow> MeshLoader \<Rightarrow>
   MeshBackend \<Rightarrow> MeshExporter \<Rightarrow> exporter_result" where
  "MeshExporter_Start pl mb reader a ml be ep =
     (case EnsureUp pl mb (xe_up a) ml be of
        (Returns _, ml1, be1, l1) \<Rightarrow>
          (case Export pl mb (xe_export_up a) (xe_export a) (at_remote_port (ep_attrs ep))
                  (at_local_host (ep_attrs ep)) (at_local_port (ep_attrs ep)) ml1 be1 of
             (Returns handle, ml2, be2, l2) \<Rightarrow>
               (let (r, ep', ml3, be3, l3) = announce_export pl mb reader (xe_self a) handle ml2 be2 ep
                in (r, ep', ml3, be3, l1 @ l2 @ l3))
           | (Throws e, ml2, be2, l2) \<Rightarrow> (Some (Throws e), ep, ml2, be2, l1 @ l2)
           | (Undefined, ml2, be2, l2) \<Rightarrow> (Some Undefined, ep, ml2, be2, l1 @ l2))
      | (Throws e, ml1, be1, l1) \<Rightarrow> (Some (Throws e), ep, ml1, be1, l1)
      | (Undefined, ml1, be1, l1) \<Rightarrow> (Some Undefined, ep, ml1, be1, l1))"

definition MeshExporter_Close :: "MeshBackend \<Rightarrow> MeshExporter \<Rightarrow> MeshExporter \<times> mesh_log" where
  "MeshExporter_Close be ep =
     (if \<not> ep_listening ep then (ep, [])
      else
        (ep\<lparr>ep_export_handle := 0, ep_listening := False,
            ep_attrs := (ep_attrs ep)\<lparr>at_status := ''Closed''\<rparr>\<rparr>,
         if ep_export_handle ep \<noteq> 0 then Unexport (ep_export_handle ep) be else []))"

section \<open>Lemmas\<close>

lemma self_loop_up:
  assumes "mk_up be" and "self_loop pl mb reader ts ml be = (x, ml', be', l)"
  shows "be' = be \<and> set l \<subseteq> {NodeJson (mk_node be)}"
  using assms
proof (induction ts arbitrary: ml x ml' be' l)
  case (Cons t ts)
  obtain r ml1 be1 l1 where self: "SelfJson pl mb (sf_up t) (sf_reply t) (sf_errmsg t) ml be =
      (r, ml1, be1, l1)" by (metis prod_cases4)
  note s = SelfJson_up [OF Cons.prems(1) self]
  obtain y ml2 be2 l2 where rest: "self_loop pl mb reader ts ml1 be = (y, ml2, be2, l2)"
    by (metis prod_cases4)
  note IH = Cons.IH [OF Cons.prems(1) rest]
  show ?case using Cons.prems(2) self s rest IH by (auto simp: Let_def split: if_split_asm)
qed simp

lemma MeshExporter_Start_cases:
  assumes "mk_invariant be" and "MeshExporter_Start pl mb reader a ml be ep = (r, ep', ml', be', l)"
    and "\<not> ep_listening ep"
  shows "ep_listening ep' \<longleftrightarrow> (\<exists>n p h q. NodeExport n p h q \<in> set l) \<and> er_rc (xe_export a) = 0"
    and "ep_listening ep' \<Longrightarrow> ep_export_handle ep' = er_handle (xe_export a) \<and> mk_node be' > 0 \<and>
      mk_api be' \<noteq> None \<and>
      filter (\<lambda>c. \<exists>n p h q. c = NodeExport n p h q) l =
        [NodeExport (mk_node be') (at_remote_port (ep_attrs ep)) (at_local_host (ep_attrs ep))
           (at_local_port (ep_attrs ep))]"
    and "r = Some (Throws e) \<Longrightarrow> \<not> ep_listening ep'"
proof -
  let ?P = "\<lambda>c. \<exists>n p h q. c = NodeExport n p h q"
  obtain x ml1 be1 l1 where up: "EnsureUp pl mb (xe_up a) ml be = (x, ml1, be1, l1)" by (metis prod_cases4)
  have l1: "filter ?P l1 = []"
    using EnsureUp_calls [of _ pl mb "xe_up a" ml be] up by (auto simp: filter_empty_conv)
  then have n1: "NodeExport n p h q \<notin> set l1" for n p h q by (auto simp: filter_empty_conv)
  note u = EnsureUp_spec [OF assms(1) up]
  let ?c = "NodeExport (mk_node be1) (at_remote_port (ep_attrs ep)) (at_local_host (ep_attrs ep))
      (at_local_port (ep_attrs ep))"
  have "(ep_listening ep' \<longleftrightarrow> (\<exists>n p h q. NodeExport n p h q \<in> set l) \<and> er_rc (xe_export a) = 0) \<and>
      (ep_listening ep' \<longrightarrow> ep_export_handle ep' = er_handle (xe_export a) \<and> mk_node be' > 0 \<and>
         mk_api be' \<noteq> None \<and> filter ?P l =
         [NodeExport (mk_node be') (at_remote_port (ep_attrs ep)) (at_local_host (ep_attrs ep))
           (at_local_port (ep_attrs ep))]) \<and>
      (r = Some (Throws e) \<longrightarrow> \<not> ep_listening ep')"
  proof (cases "returned x")
    case False
    then have "ep' = ep" "l = l1" using assms(2) up by (cases x; simp add: MeshExporter_Start_def)+
    then show ?thesis using n1 assms(3) by simp
  next
    case True
    with u have isup: "mk_up be1" "mk_node be1 > 0" "mk_api be1 \<noteq> None" by simp_all
    from True obtain v where v: "x = Returns v" by (cases x) simp_all
    show ?thesis
    proof (cases "er_rc (xe_export a) = 0")
      case nz: False
      have "ep' = ep" "l = l1 @ [?c]"
        using assms(2) up v nz isup
        by (auto simp: MeshExporter_Start_def Export_def with_node_up)
      then show ?thesis using nz assms(3) by simp
    next
      case ok: True
      let ?h = "er_handle (xe_export a)"
      obtain y ml3 be3 l3 where sl: "self_loop pl mb reader (xe_self a) ml1 be1 = (y, ml3, be3, l3)"
        by (metis prod_cases4)
      note s = self_loop_up [OF isup(1) sl]
      have ep': "ep_listening ep' \<and> ep_export_handle ep' = ?h \<and> be' = be1 \<and> l = l1 @ [?c] @ l3 \<and>
          (\<forall>e. r \<noteq> Some (Throws e))"
        using assms(2) up v ok isup s sl
        by (cases y) (auto simp: MeshExporter_Start_def Export_def with_node_up announce_export_def Let_def)
      moreover have "filter ?P l3 = []" using s by (auto simp: filter_empty_conv)
      ultimately show ?thesis using l1 ok isup by auto
    qed
  qed
  then show "ep_listening ep' \<longleftrightarrow> (\<exists>n p h q. NodeExport n p h q \<in> set l) \<and> er_rc (xe_export a) = 0"
    and "ep_listening ep' \<Longrightarrow> ep_export_handle ep' = er_handle (xe_export a) \<and> mk_node be' > 0 \<and>
      mk_api be' \<noteq> None \<and> filter ?P l =
        [NodeExport (mk_node be') (at_remote_port (ep_attrs ep)) (at_local_host (ep_attrs ep))
           (at_local_port (ep_attrs ep))]"
    and "r = Some (Throws e) \<Longrightarrow> \<not> ep_listening ep'"
    by blast+
qed

lemma MeshExporter_Close_again:
  "MeshExporter_Close be' (fst (MeshExporter_Close be ep)) = (fst (MeshExporter_Close be ep), [])"
  by (simp add: MeshExporter_Close_def)

lemma MeshExporter_Start_returns:
  "MeshExporter_Start pl mb reader a ml be ep = (Some (Returns u), ep', ml', be', l) \<Longrightarrow>
     ep_listening ep' \<and> (\<exists>ip st. ep_attrs ep' = (ep_attrs ep)\<lparr>at_remote_host := ip, at_status := st\<rparr>)"
  by (auto simp: MeshExporter_Start_def announce_export_def Let_def
      split: outcome.splits prod.splits option.splits) (rule exI, rule exI, rule refl)

section \<open>Properties\<close>


definition demo_export :: "int \<Rightarrow> mesh_export_answers" where
  "demo_export rc =
     \<lparr>xe_up = demo_up, xe_export_up = demo_up, xe_export = \<lparr>er_rc = rc, er_handle = 11, er_errmsg = []\<rparr>,
      xe_self = []\<rparr>"


end
