(* ===== verification/Tunnel_Handle.thy ===== *)
theory Tunnel_Handle
  imports Ssh_Connection Ssh_Pump Mesh_Forwarder Mesh_Exporter
begin

text \<open>
  The uniform view of the things a tunnel manager holds, from \<^verbatim>\<open>src/src/include/tunnel_handle.hpp\<close>.
  The contract of \<^verbatim>\<open>TunnelHandle\<close> is a locale: \<open>Close\<close> is idempotent and leaves the handle
  inactive. A second locale adds what a handle that owns operating-system resources promises. Both
  are interpreted on the four kinds of tunnels and on the handle that dispatches to them.
\<close>

section \<open>The contract of a handle\<close>

locale tunnel_handle =
  fixes close :: "'h \<Rightarrow> 'h \<times> 'e list"
    and active :: "'h \<Rightarrow> bool"
  assumes close_again: "close (fst (close h)) = (fst (close h), [])"
    and close_inactive: "\<not> active (fst (close h))"
begin

text \<open>Closing any number of times is closing once: an explicit close and the destructor, say.\<close>

lemma closes_collapse:
  "n > 0 \<Longrightarrow> ((fst \<circ> close) ^^ n) h = fst (close h)"
proof (induction n)
  case (Suc n)
  then show ?case by (cases n) (simp_all add: close_again)
qed simp

lemma close_again_silent: "snd (close (fst (close h))) = []"
  by (simp add: close_again)

text \<open>What is inactive after a sweep that closes the inactive handles of a list.\<close>

lemma closed_all_inactive: "\<forall>h \<in> set (map (fst \<circ> close) hs). \<not> active h"
  by (auto simp: close_inactive)

end

text \<open>A handle that owns descriptors and threads: closing makes only legal calls and releases all.\<close>

locale resource_owner = tunnel_handle close active
  for close :: "'h \<Rightarrow> 'h \<times> os_event list" and active :: "'h \<Rightarrow> bool" +
  fixes inv :: "'h \<Rightarrow> bool"
    and holds :: "'h \<Rightarrow> resources"
    and left :: resources
  assumes close_releases: "inv h \<Longrightarrow> resource_run (snd (close h)) (holds h) = Some left"
begin

lemma close_and_destroy:
  assumes "inv h"
  shows "resource_run (snd (close h) @ snd (close (fst (close h)))) (holds h) = Some left"
  using close_releases [OF assms] by (simp add: close_again)

end

section \<open>The four kinds\<close>

lemma TunnelConnection_Close_inactive: "\<not> IsConnected (fst (TunnelConnection_Close conn))"
  by (simp add: IsConnected_def TunnelConnection_Close_def set_status_def)

interpretation ssh_import: resource_owner TunnelConnection_Close IsConnected
  "\<lambda>conn. tc_invariant F conn \<and> (tc_session conn \<or> C = {})" "tc_resources F C" "only_fds F"
  for F C
  by unfold_locales
    (simp_all add: TunnelConnection_Close_again TunnelConnection_Close_inactive
      TunnelConnection_Close_resources)

lemma SshExporter_Close_inactive: "\<not> ex_IsActive (fst (SshExporter_Close pl ca ex))"
  by (simp add: ex_IsActive_def SshExporter_Close_def)

interpretation ssh_export: resource_owner "SshExporter_Close pl ca" ex_IsActive
  "\<lambda>ex. ex_invariant pl F ex \<and> (ex_session ex \<or> C = {})" "ex_resources pl F C" "only_fds F"
  for pl ca F C
  by unfold_locales
    (simp_all add: SshExporter_Close_again SshExporter_Close_inactive SshExporter_Close_resources)

lemma MeshForwarder_Close_inactive: "\<not> fo_IsActive (fst (MeshForwarder_Close pl fo))"
  by (simp add: fo_IsActive_def MeshForwarder_Close_def)

interpretation mesh_import: resource_owner "MeshForwarder_Close pl" fo_IsActive
  "fo_invariant pl F" "fo_resources pl F" "only_fds F"
  for pl F
  by unfold_locales
    (simp_all add: MeshForwarder_Close_again MeshForwarder_Close_inactive
      MeshForwarder_Close_resources)

interpretation mesh_export: tunnel_handle "MeshExporter_Close be" ep_IsActive
  for be
  by unfold_locales (simp_all add: MeshExporter_Close_again, simp add: MeshExporter_Close_def ep_IsActive_def)

section \<open>The handle\<close>

text \<open>
  The classes behind the interface. The adapter of an SSH connection holds a pointer that may be
  null; a mesh export names its node by its place in the cache.
\<close>

datatype TunnelHandle =
    SshTunnelHandle "TunnelConnection option"
  | SshExportHandle SshExporter
  | MeshForwardHandle MeshForwarder
  | MeshExportHandle nat MeshExporter

datatype action = Os os_event | Shim mesh_call

record close_env =
  ce_platform :: platform
  ce_cancel :: close_answers
  ce_nodes :: "nat \<Rightarrow> MeshBackend"

definition lift_close :: "('a \<Rightarrow> TunnelHandle) \<Rightarrow> ('e \<Rightarrow> action) \<Rightarrow> 'a \<times> 'e list \<Rightarrow> TunnelHandle \<times> action list" where
  "lift_close wrap act res = (wrap (fst res), map act (snd res))"

fun handle_Close :: "close_env \<Rightarrow> TunnelHandle \<Rightarrow> TunnelHandle \<times> action list" where
  "handle_Close env (SshTunnelHandle None) = (SshTunnelHandle None, [])"
| "handle_Close env (SshTunnelHandle (Some conn)) =
     lift_close (\<lambda>c. SshTunnelHandle (Some c)) Os (TunnelConnection_Close conn)"
| "handle_Close env (SshExportHandle ex) =
     lift_close SshExportHandle Os (SshExporter_Close (ce_platform env) (ce_cancel env) ex)"
| "handle_Close env (MeshForwardHandle fo) =
     lift_close MeshForwardHandle Os (MeshForwarder_Close (ce_platform env) fo)"
| "handle_Close env (MeshExportHandle n ep) =
     lift_close (MeshExportHandle n) Shim (MeshExporter_Close (ce_nodes env n) ep)"

fun handle_IsActive :: "TunnelHandle \<Rightarrow> bool" where
  "handle_IsActive (SshTunnelHandle None) \<longleftrightarrow> False"
| "handle_IsActive (SshTunnelHandle (Some conn)) \<longleftrightarrow> IsConnected conn"
| "handle_IsActive (SshExportHandle ex) \<longleftrightarrow> ex_IsActive ex"
| "handle_IsActive (MeshForwardHandle fo) \<longleftrightarrow> fo_IsActive fo"
| "handle_IsActive (MeshExportHandle n ep) \<longleftrightarrow> ep_IsActive ep"

fun handle_GetAttributes :: "TunnelHandle \<Rightarrow> TunnelConnectionAttributes" where
  "handle_GetAttributes (SshTunnelHandle None) = default_attributes"
| "handle_GetAttributes (SshTunnelHandle (Some conn)) = tc_GetAttributes conn"
| "handle_GetAttributes (SshExportHandle ex) = ex_GetAttributes ex"
| "handle_GetAttributes (MeshForwardHandle fo) = fo_GetAttributes fo"
| "handle_GetAttributes (MeshExportHandle n ep) = ep_GetAttributes ep"

definition handle_GetStatus :: "TunnelHandle \<Rightarrow> string" where
  "handle_GetStatus h = at_status (handle_GetAttributes h)"

definition handle_GetErrorMessage :: "TunnelHandle \<Rightarrow> string" where
  "handle_GetErrorMessage h = at_error_message (handle_GetAttributes h)"

interpretation any_handle: tunnel_handle "handle_Close env" handle_IsActive
  for env
proof unfold_locales
  show "handle_Close env (fst (handle_Close env h)) = (fst (handle_Close env h), [])" for h
  proof (cases h)
    case (SshTunnelHandle c)
    then show ?thesis
      by (cases c) (simp_all add: lift_close_def TunnelConnection_Close_again)
  qed (simp_all add: lift_close_def SshExporter_Close_again MeshForwarder_Close_again
      MeshExporter_Close_again)
  show "\<not> handle_IsActive (fst (handle_Close env h))" for h
  proof (cases h)
    case (SshTunnelHandle c)
    then show ?thesis by (cases c) (simp_all add: lift_close_def TunnelConnection_Close_inactive)
  qed (simp_all add: lift_close_def SshExporter_Close_inactive MeshForwarder_Close_inactive
      mesh_export.close_inactive)
qed

section \<open>Properties\<close>

text \<open>Every kind of tunnel honours the contract of a handle: after \<open>Close\<close> it is inactive, and
  closing it again, any number of times, makes no call and changes nothing; so an explicit close
  followed by the destructor is the same as one close.\<close>

theorem handle_contract:
  "\<not> handle_IsActive (fst (handle_Close env h)) \<and>
   snd (handle_Close env (fst (handle_Close env h))) = [] \<and>
   ((fst \<circ> handle_Close env) ^^ Suc n) h = fst (handle_Close env h)"
  using any_handle.close_inactive any_handle.close_again_silent any_handle.closes_collapse [of "Suc n"]
  by simp

text \<open>Closing a tunnel and then destroying it is safe for each kind that owns descriptors: from a
  state of its invariant the calls of both together are legal and leave only the descriptors of
  others open.\<close>

theorem close_then_destroy_safe:
  "(tc_invariant F conn \<and> tc_session conn \<longrightarrow>
      resource_run (snd (TunnelConnection_Close conn) @
        snd (TunnelConnection_Close (fst (TunnelConnection_Close conn)))) (tc_resources F C conn) =
      Some (only_fds F)) \<and>
   (ex_invariant pl F ex \<and> ex_session ex \<longrightarrow>
      resource_run (snd (SshExporter_Close pl ca ex) @
        snd (SshExporter_Close pl ca (fst (SshExporter_Close pl ca ex)))) (ex_resources pl F C ex) =
      Some (only_fds F)) \<and>
   (fo_invariant pl F fo \<longrightarrow>
      resource_run (snd (MeshForwarder_Close pl fo) @
        snd (MeshForwarder_Close pl (fst (MeshForwarder_Close pl fo)))) (fo_resources pl F fo) =
      Some (only_fds F))"
  using ssh_import.close_and_destroy [of F conn C] ssh_export.close_and_destroy [of pl F ex C ca]
    mesh_import.close_and_destroy [of pl F fo]
  by blast

theorem close_then_destroy_safe_witness:
  "resource_run (snd (MeshForwarder_Close Linux demo_accepting) @
     snd (MeshForwarder_Close Linux (fst (MeshForwarder_Close Linux demo_accepting))))
     (fo_resources Linux {3} demo_accepting) = Some (only_fds {3})"
proof -
  have "fo_invariant Linux {3} demo_accepting"
    by (simp add: fo_invariant_def demo_accepting_def demo_forwarder_def make_MeshForwarder_def)
  with close_then_destroy_safe [of "{3}" new_connection "{}" Linux demo_exporter _ demo_accepting]
  show ?thesis by blast
qed

end
