(* ===== verification/Tunnel_Manager.thy ===== *)
theory Tunnel_Manager
  imports Tunnel_Handle "HOL-Library.Multiset"
begin

text \<open>
  The registry of all tunnels, from \<^verbatim>\<open>src/src/tunnel_manager.cpp\<close>. The hash map is a list of
  entries in the order an iteration visits them; an identifier is the 64-bit counter value it was
  made from. The factories compose the operations of the four kinds of tunnels; a tunnel that is
  not stored is destroyed, and its destructor closes it.
\<close>

section \<open>Definitions\<close>

type_synonym tunnel_id = "64 word"

record TunnelManager =
  tm_tunnels :: "(tunnel_id \<times> TunnelHandle) list"
  tm_next_tunnel_id :: tunnel_id

definition new_TunnelManager :: TunnelManager where
  "new_TunnelManager = \<lparr>tm_tunnels = [], tm_next_tunnel_id = 1\<rparr>"

definition GenerateTunnelId :: "TunnelManager \<Rightarrow> tunnel_id \<times> TunnelManager" where
  "GenerateTunnelId tm =
     (tm_next_tunnel_id tm, tm\<lparr>tm_next_tunnel_id := tm_next_tunnel_id tm + 1\<rparr>)"

subsection \<open>The map\<close>

definition find_tunnel :: "TunnelManager \<Rightarrow> tunnel_id \<Rightarrow> TunnelHandle option" where
  "find_tunnel tm i = map_of (tm_tunnels tm) i"

text \<open>\<^verbatim>\<open>tunnels[id] = handle\<close>: replace the entry, or add one.\<close>

fun put_entry :: "'k \<Rightarrow> 'v \<Rightarrow> ('k \<times> 'v) list \<Rightarrow> ('k \<times> 'v) list" where
  "put_entry k v [] = [(k, v)]"
| "put_entry k v ((k', v') # es) =
     (if k' = k then (k, v) # es else (k', v') # put_entry k v es)"

definition store_tunnel :: "tunnel_id \<Rightarrow> TunnelHandle \<Rightarrow> TunnelManager \<Rightarrow> TunnelManager" where
  "store_tunnel i h tm = tm\<lparr>tm_tunnels := put_entry i h (tm_tunnels tm)\<rparr>"

definition erase_tunnel :: "tunnel_id \<Rightarrow> TunnelManager \<Rightarrow> TunnelManager" where
  "erase_tunnel i tm = tm\<lparr>tm_tunnels := filter (\<lambda>e. fst e \<noteq> i) (tm_tunnels tm)\<rparr>"

subsection \<open>Closing\<close>

definition CloseTunnel ::
  "close_env \<Rightarrow> tunnel_id \<Rightarrow> TunnelManager \<Rightarrow> bool \<times> TunnelManager \<times> action list" where
  "CloseTunnel env i tm =
     (case find_tunnel tm i of
        None \<Rightarrow> (False, tm, [])
      | Some h \<Rightarrow> (True, erase_tunnel i tm, snd (handle_Close env h)))"

definition close_handles :: "close_env \<Rightarrow> TunnelHandle list \<Rightarrow> action list" where
  "close_handles env hs = concat (map (\<lambda>h. snd (handle_Close env h)) hs)"

definition CloseAllTunnels :: "close_env \<Rightarrow> TunnelManager \<Rightarrow> TunnelManager \<times> action list" where
  "CloseAllTunnels env tm =
     (tm\<lparr>tm_tunnels := []\<rparr>, close_handles env (map snd (tm_tunnels tm)))"

text \<open>The destructor of the manager.\<close>

definition destroy_TunnelManager :: "close_env \<Rightarrow> TunnelManager \<Rightarrow> action list" where
  "destroy_TunnelManager env tm = snd (CloseAllTunnels env tm)"

definition CleanupInactiveTunnels :: "close_env \<Rightarrow> TunnelManager \<Rightarrow> TunnelManager \<times> action list" where
  "CleanupInactiveTunnels env tm =
     (tm\<lparr>tm_tunnels := filter (\<lambda>e. handle_IsActive (snd e)) (tm_tunnels tm)\<rparr>,
      close_handles env (map snd (filter (\<lambda>e. \<not> handle_IsActive (snd e)) (tm_tunnels tm))))"

definition RemoveTunnel :: "close_env \<Rightarrow> tunnel_id \<Rightarrow> TunnelManager \<Rightarrow> TunnelManager \<times> action list" where
  "RemoveTunnel env i tm =
     (case find_tunnel tm i of
        None \<Rightarrow> (tm, [])
      | Some h \<Rightarrow> (erase_tunnel i tm, snd (handle_Close env h)))"

subsection \<open>Questions\<close>

definition GetTunnelBoundPort :: "tunnel_id \<Rightarrow> TunnelManager \<Rightarrow> int" where
  "GetTunnelBoundPort i tm =
     (case find_tunnel tm i of None \<Rightarrow> 0 | Some h \<Rightarrow> at_remote_port (handle_GetAttributes h))"

definition IsTunnelActive :: "tunnel_id \<Rightarrow> TunnelManager \<Rightarrow> bool" where
  "IsTunnelActive i tm =
     (case find_tunnel tm i of None \<Rightarrow> False | Some h \<Rightarrow> handle_IsActive h)"

text \<open>The listings give up, with an empty result, when the mutex is taken.\<close>

definition ListTunnels :: "bool \<Rightarrow> TunnelManager \<Rightarrow> (tunnel_id \<times> string) list" where
  "ListTunnels owns_lock tm =
     (if \<not> owns_lock then [] else map (\<lambda>(i, h). (i, handle_GetStatus h)) (tm_tunnels tm))"

definition ListTunnelsWithDetails ::
  "bool \<Rightarrow> TunnelManager \<Rightarrow> (tunnel_id \<times> TunnelConnectionAttributes) list" where
  "ListTunnelsWithDetails owns_lock tm =
     (if \<not> owns_lock then [] else map (\<lambda>(i, h). (i, handle_GetAttributes h)) (tm_tunnels tm))"

definition GetTunnelStatus :: "tunnel_id \<Rightarrow> TunnelManager \<Rightarrow> string" where
  "GetTunnelStatus i tm =
     (case find_tunnel tm i of None \<Rightarrow> ''Not found'' | Some h \<Rightarrow> handle_GetStatus h)"

definition GetTunnelError :: "tunnel_id \<Rightarrow> TunnelManager \<Rightarrow> string" where
  "GetTunnelError i tm =
     (case find_tunnel tm i of None \<Rightarrow> ''Tunnel not found'' | Some h \<Rightarrow> handle_GetErrorMessage h)"

subsection \<open>Creating an SSH import\<close>

text \<open>
  The answers for one creation; \<open>cr_worker\<close> is what the worker thread sees up to the end of the
  self-test.
\<close>

record create_answers =
  cr_connect :: connect_answers
  cr_auth :: auth_answers
  cr_worker :: worker_answers
  cr_test :: "test_turn list"

definition manager_authenticate ::
  "auth_answers \<Rightarrow> TunnelAuthParams \<Rightarrow> TunnelConnection \<Rightarrow> bool \<times> TunnelConnection \<times> log" where
  "manager_authenticate a auth conn =
     (if au_auth_method auth = ''password'' then
        (if au_password auth \<noteq> [] then AuthenticateWithPassword a conn else (False, conn, []))
      else if au_auth_method auth = ''key'' then
        (if au_private_key_path auth \<noteq> [] then
           AuthenticateWithKey a (au_private_key_path auth) conn else (False, conn, []))
      else if au_auth_method auth = ''agent'' then AuthenticateWithAgent conn
      else (False, conn, []))"

definition msg_create_timeout :: "int \<Rightarrow> string" where
  "msg_create_timeout timeout_seconds =
     ''Tunnel creation timed out after '' @ to_string timeout_seconds @
     ''s waiting for the local listener. Check that local_port is free (not already in '' @
     ''use), that loopback connections aren'' @ sq @
     ''t blocked, and consider raising timeout.''"

text \<open>
  The body of the try block, up to the storing: the connection, or the exception with the log of
  the destroyed connection. No outcome means that the self-test is still running.
\<close>

definition establish_tunnel ::
  "platform \<Rightarrow> create_answers \<Rightarrow> TunnelAuthParams \<Rightarrow> string \<Rightarrow> int \<Rightarrow> int \<Rightarrow> string \<Rightarrow> int \<Rightarrow> string \<Rightarrow>
   int \<Rightarrow> bool \<Rightarrow> TunnelConnection outcome option \<times> log" where
  "establish_tunnel pl a auth remote_host remote_port local_port ssh_host ssh_port ssh_user
      timeout_seconds bind_all =
     (let (r, conn1, l1) = TunnelConnection_Connect (cr_connect a) ssh_host ssh_port ssh_user
            remote_host remote_port local_port (SetBindAll bind_all new_connection) in
      case r of
        Throws e \<Rightarrow> (Some (Throws e), l1 @ snd (TunnelConnection_Close conn1))
      | Undefined \<Rightarrow> (Some Undefined, l1)
      | Returns _ \<Rightarrow>
          (let (auth_success, conn2, l2) = manager_authenticate (cr_auth a) auth conn1 in
           if \<not> auth_success then
             (Some (Throws (IOException (''SSH authentication failed: '' @ GetErrorMessage conn2))),
              l1 @ l2 @ snd (TunnelConnection_Close conn2))
           else
             (let (conn3, l3) = StartWorker conn2;
                  (fin, conn4, l4) = WorkerFunction pl (cr_worker a) conn3;
                  (ready, l5) = TestTunnelConnection pl timeout_seconds (cr_test a) in
              case ready of
                None \<Rightarrow> (None, l1 @ l2 @ l3 @ l4 @ l5)
              | Some False \<Rightarrow>
                  (let (conn5, l6) = TunnelConnection_Close conn4 in
                   (Some (Throws (IOException (msg_create_timeout timeout_seconds))),
                    l1 @ l2 @ l3 @ l4 @ l5 @ l6 @ snd (TunnelConnection_Close conn5)))
              | Some True \<Rightarrow> (Some (Returns conn4), l1 @ l2 @ l3 @ l4 @ l5))))"

definition msg_agent_up_front :: string where
  "msg_agent_up_front =
     ''Tunnel: SSH agent authentication is not supported. Use auth_method '' @ sq @ ''key'' @ sq @
     '' or '' @ sq @ ''password'' @ sq @
     '' instead (set private_key_path/passphrase, or password, on the secret).''"

text \<open>\<open>what\<close> is the text DuckDB's exceptions report of themselves.\<close>

definition CreateTunnel ::
  "platform \<Rightarrow> (exn \<Rightarrow> string) \<Rightarrow> create_answers \<Rightarrow> TunnelAuthParams \<Rightarrow> string \<Rightarrow> int \<Rightarrow> int \<Rightarrow> string \<Rightarrow>
   int \<Rightarrow> string \<Rightarrow> int \<Rightarrow> bool \<Rightarrow> TunnelManager \<Rightarrow> tunnel_id outcome option \<times> TunnelManager \<times> log" where
  "CreateTunnel pl what a auth remote_host remote_port local_port ssh_host ssh_port ssh_user
      timeout_seconds bind_all tm =
     (if au_auth_method auth = kAuthMethodAgent then
        (Some (Throws (InvalidInputException msg_agent_up_front)), tm, [])
      else
        (let (i, tm1) = GenerateTunnelId tm;
             (r, l) = establish_tunnel pl a auth remote_host remote_port local_port ssh_host ssh_port
                ssh_user timeout_seconds bind_all in
         case r of
           None \<Rightarrow> (None, tm1, l)
         | Some (Returns conn) \<Rightarrow> (Some (Returns i), store_tunnel i (SshTunnelHandle (Some conn)) tm1, l)
         | Some (Throws e) \<Rightarrow>
             (Some (Throws (IOException (''Failed to create tunnel: '' @ what e))), tm1, l)
         | Some Undefined \<Rightarrow> (Some Undefined, tm1, l)))"

subsection \<open>The other factories\<close>

definition CreateSshExport ::
  "platform \<Rightarrow> start_answers \<Rightarrow> TunnelAuthParams \<Rightarrow> string \<Rightarrow> int \<Rightarrow> string \<Rightarrow> int \<Rightarrow> int \<Rightarrow>
   TunnelManager \<Rightarrow> tunnel_id outcome \<times> TunnelManager \<times> log" where
  "CreateSshExport pl a auth local_host local_port remote_bind_host remote_port timeout_seconds tm =
     (let (i, tm1) = GenerateTunnelId tm;
          (r, ex, l) = SshExporter_Start pl timeout_seconds a
             (make_SshExporter pl auth local_host local_port remote_bind_host remote_port) in
      case r of
        Returns _ \<Rightarrow> (Returns i, store_tunnel i (SshExportHandle ex) tm1, l)
      | Throws e \<Rightarrow> (Throws e, tm1, l @ snd (SshExporter_Close pl (sa_close a) ex))
      | Undefined \<Rightarrow> (Undefined, tm1, l))"

type_synonym 'a factory_result =
  "'a outcome option \<times> TunnelManager \<times> MeshLoader \<times> mesh_cache \<times> action list"

definition set_node :: "nat \<Rightarrow> MeshBackend \<Rightarrow> mesh_cache \<Rightarrow> mesh_cache" where
  "set_node n be mc = mc\<lparr>mc_nodes := (mc_nodes mc)[n := be]\<rparr>"

definition CreateMeshTunnel ::
  "platform \<Rightarrow> mesh_build \<Rightarrow> forwarder_answers \<Rightarrow> nat \<Rightarrow> string \<Rightarrow> int \<Rightarrow> int \<Rightarrow> int \<Rightarrow> bool \<Rightarrow>
   TunnelManager \<Rightarrow> MeshLoader \<Rightarrow> mesh_cache \<Rightarrow> tunnel_id factory_result" where
  "CreateMeshTunnel pl mb a n remote_host remote_port local_port timeout_seconds bind_all tm ml mc =
     (let (i, tm1) = GenerateTunnelId tm; be = mc_nodes mc ! n;
          (r, fo, ml1, be1, calls, l) = MeshForwarder_Start pl mb timeout_seconds a ml be
             (make_MeshForwarder pl (Kind be) remote_host remote_port local_port bind_all);
          mc1 = set_node n be1 mc; acts = map Shim calls @ map Os l in
      case r of
        None \<Rightarrow> (None, tm1, ml1, mc1, acts)
      | Some (Returns _) \<Rightarrow>
          (Some (Returns i), store_tunnel i (MeshForwardHandle fo) tm1, ml1, mc1, acts)
      | Some (Throws e) \<Rightarrow>
          (Some (Throws e), tm1, ml1, mc1, acts @ map Os (snd (MeshForwarder_Close pl fo)))
      | Some Undefined \<Rightarrow> (Some Undefined, tm1, ml1, mc1, acts))"

definition CreateMeshExport ::
  "platform \<Rightarrow> mesh_build \<Rightarrow> (string \<Rightarrow> json option) \<Rightarrow> mesh_export_answers \<Rightarrow> nat \<Rightarrow> int \<Rightarrow> string \<Rightarrow> int \<Rightarrow>
   TunnelManager \<Rightarrow> MeshLoader \<Rightarrow> mesh_cache \<Rightarrow> tunnel_id factory_result" where
  "CreateMeshExport pl mb reader a n mesh_port local_host local_port tm ml mc =
     (let (i, tm1) = GenerateTunnelId tm; be = mc_nodes mc ! n;
          (r, ep, ml1, be1, calls) = MeshExporter_Start pl mb reader a ml be
             (make_MeshExporter (Kind be) mesh_port local_host local_port);
          mc1 = set_node n be1 mc; acts = map Shim calls in
      case r of
        None \<Rightarrow> (None, tm1, ml1, mc1, acts)
      | Some (Returns _) \<Rightarrow>
          (Some (Returns i), store_tunnel i (MeshExportHandle n ep) tm1, ml1, mc1, acts)
      | Some (Throws e) \<Rightarrow>
          (Some (Throws e), tm1, ml1, mc1, acts @ map Shim (snd (MeshExporter_Close be1 ep)))
      | Some Undefined \<Rightarrow> (Some Undefined, tm1, ml1, mc1, acts))"

section \<open>The registry as a map\<close>

text \<open>
  What the operations of the manager rely on: a store can be looked up, an erase is gone, and both
  leave the other entries alone.
\<close>

locale tunnel_registry =
  fixes lookup :: "'m \<Rightarrow> 'k \<Rightarrow> 'v option"
    and store :: "'k \<Rightarrow> 'v \<Rightarrow> 'm \<Rightarrow> 'm"
    and erase :: "'k \<Rightarrow> 'm \<Rightarrow> 'm"
    and inv :: "'m \<Rightarrow> bool"
  assumes lookup_store: "inv m \<Longrightarrow> lookup (store k v m) = (lookup m)(k \<mapsto> v)"
    and lookup_erase: "inv m \<Longrightarrow> lookup (erase k m) = (lookup m)(k := None)"
    and inv_store: "inv m \<Longrightarrow> inv (store k v m)"
    and inv_erase: "inv m \<Longrightarrow> inv (erase k m)"
begin

lemma erase_after_store: "inv m \<Longrightarrow> lookup m k = None \<Longrightarrow> lookup (erase k (store k v m)) = lookup m"
  by (auto simp: lookup_store lookup_erase inv_store)

lemma erase_twice: "inv m \<Longrightarrow> lookup (erase k (erase k m)) = lookup (erase k m)"
  by (simp add: lookup_erase inv_erase)

end

definition tm_invariant :: "TunnelManager \<Rightarrow> bool" where
  "tm_invariant tm \<longleftrightarrow> distinct (map fst (tm_tunnels tm))"

lemma put_entry_keys: "set (map fst (put_entry k v es)) = insert k (set (map fst es))"
  by (induction k v es rule: put_entry.induct) auto

lemma put_entry_distinct: "distinct (map fst es) \<Longrightarrow> distinct (map fst (put_entry k v es))"
proof (induction es)
  case (Cons e es)
  then show ?case using put_entry_keys [of k v es] by (cases e) auto
qed simp

lemma map_of_put_entry: "map_of (put_entry k v es) = (map_of es)(k \<mapsto> v)"
  by (induction k v es rule: put_entry.induct) (auto simp: fun_eq_iff)

lemma map_of_erase: "map_of (filter (\<lambda>e. fst e \<noteq> k) es) = (map_of es)(k := None)"
  by (induction es) (auto simp: fun_eq_iff)

interpretation registry: tunnel_registry find_tunnel store_tunnel erase_tunnel tm_invariant
  by unfold_locales
    (auto simp: find_tunnel_def store_tunnel_def erase_tunnel_def tm_invariant_def map_of_put_entry
      map_of_erase put_entry_distinct distinct_map_filter fun_eq_iff)

section \<open>Lemmas\<close>

lemmas manager_defs = CloseTunnel_def CloseAllTunnels_def CleanupInactiveTunnels_def RemoveTunnel_def

text \<open>What a step of the manager did: the entries it dropped, each of them closed once.\<close>

definition drops ::
  "close_env \<Rightarrow> TunnelManager \<Rightarrow> TunnelManager \<Rightarrow> (tunnel_id \<times> TunnelHandle) list \<Rightarrow> action list \<Rightarrow> bool" where
  "drops env tm tm' es acts \<longleftrightarrow>
     mset (tm_tunnels tm) = mset (tm_tunnels tm') + mset es \<and>
     acts = close_handles env (map snd es) \<and> tm_next_tunnel_id tm' = tm_next_tunnel_id tm"

lemma drops_nothing: "drops env tm tm [] []"
  by (simp add: drops_def close_handles_def)

lemma filter_key_single:
  assumes "distinct (map fst es)" and "map_of es k = Some v"
  shows "filter (\<lambda>e. fst e = k) es = [(k, v)]"
  using assms
proof (induction es)
  case (Cons e es)
  show ?case
  proof (cases "fst e = k")
    case True
    with Cons.prems have "k \<notin> fst ` set es" by simp
    then have "filter (\<lambda>e. fst e = k) es = []" by (auto simp: filter_empty_conv)
    with True Cons.prems show ?thesis by (cases e) simp
  next
    case False
    with Cons show ?thesis by (cases e) simp
  qed
qed simp

lemma erase_drops:
  assumes "tm_invariant tm" and "find_tunnel tm i = Some h"
  shows "drops env tm (erase_tunnel i tm) [(i, h)] (snd (handle_Close env h))"
proof -
  let ?es = "tm_tunnels tm"
  have "mset ?es = mset (filter (\<lambda>e. fst e \<noteq> i) ?es) + mset (filter (\<lambda>e. fst e = i) ?es)"
    using multiset_partition [of "mset ?es" "\<lambda>e. fst e \<noteq> i"] by simp
  with assms filter_key_single [of ?es i h] show ?thesis
    by (simp add: drops_def erase_tunnel_def close_handles_def tm_invariant_def find_tunnel_def)
qed

lemma CleanupInactiveTunnels_drops:
  "drops env tm (fst (CleanupInactiveTunnels env tm))
     (filter (\<lambda>e. \<not> handle_IsActive (snd e)) (tm_tunnels tm)) (snd (CleanupInactiveTunnels env tm))"
  using multiset_partition [of "mset (tm_tunnels tm)" "\<lambda>e. handle_IsActive (snd e)"]
  by (simp add: drops_def CleanupInactiveTunnels_def)

lemma CloseAllTunnels_drops:
  "drops env tm (fst (CloseAllTunnels env tm)) (tm_tunnels tm) (snd (CloseAllTunnels env tm))"
  by (simp add: drops_def CloseAllTunnels_def)

lemma CloseTunnel_drops:
  assumes "tm_invariant tm" and "CloseTunnel env i tm = (found, tm', acts)"
  shows "drops env tm tm' (case find_tunnel tm i of None \<Rightarrow> [] | Some h \<Rightarrow> [(i, h)]) acts"
  using assms erase_drops [OF assms(1)] drops_nothing
  by (auto simp: CloseTunnel_def split: option.splits)

lemma map_of_filter_values:
  assumes "distinct (map fst es)"
  shows "map_of (filter (\<lambda>e. P (snd e)) es) k =
    (case map_of es k of None \<Rightarrow> None | Some v \<Rightarrow> if P v then Some v else None)"
  using assms
proof (induction es)
  case (Cons e es)
  then show ?case by (cases e) (auto simp: map_of_eq_None_iff rev_image_eqI split: option.splits)
qed simp

lemma manager_keeps_invariant:
  assumes "tm_invariant tm"
  shows "tm_invariant (fst (snd (CloseTunnel env i tm)))" "tm_invariant (fst (CloseAllTunnels env tm))"
    "tm_invariant (fst (CleanupInactiveTunnels env tm))" "tm_invariant (fst (RemoveTunnel env i tm))"
  using assms registry.inv_erase [OF assms]
  by (auto simp: manager_defs tm_invariant_def distinct_map_filter split: option.split)

subsection \<open>Identifiers\<close>

text \<open>Every stored identifier was handed out: it is positive and below the counter.\<close>

definition tm_wf :: "TunnelManager \<Rightarrow> bool" where
  "tm_wf tm \<longleftrightarrow> tm_invariant tm \<and> 0 < sint (tm_next_tunnel_id tm) \<and>
     (\<forall>i \<in> set (map fst (tm_tunnels tm)). 0 < sint i \<and> sint i < sint (tm_next_tunnel_id tm))"

definition ids_left :: "TunnelManager \<Rightarrow> bool" where
  "ids_left tm \<longleftrightarrow> sint (tm_next_tunnel_id tm) < 2 ^ 63 - 1"

lemma sint_next:
  assumes "ids_left tm" and "0 < sint (tm_next_tunnel_id tm)"
  shows "sint (tm_next_tunnel_id tm + 1) = sint (tm_next_tunnel_id tm) + 1"
  using assms by (simp add: ids_left_def sint_word_ariths signed_take_bit_int_eq_self)

text \<open>
  What a factory does to the manager: on success it returns the next identifier, unused so far, and
  adds one entry under it; otherwise it changes no entry.
\<close>

definition published :: "TunnelManager \<Rightarrow> tunnel_id outcome option \<Rightarrow> TunnelManager \<Rightarrow> bool" where
  "published tm r tm' \<longleftrightarrow> tm_wf tm' \<and>
     (case r of
        Some (Returns i) \<Rightarrow> i = tm_next_tunnel_id tm \<and> find_tunnel tm i = None \<and>
          (\<exists>h. find_tunnel tm' = (find_tunnel tm)(i \<mapsto> h))
      | _ \<Rightarrow> tm_tunnels tm' = tm_tunnels tm)"

lemma next_id_unused: "tm_wf tm \<Longrightarrow> find_tunnel tm (tm_next_tunnel_id tm) = None"
  by (auto simp: tm_wf_def find_tunnel_def map_of_eq_None_iff)

lemma GenerateTunnelId_wf:
  assumes "tm_wf tm" and "ids_left tm" and "GenerateTunnelId tm = (i, tm1)"
  shows "tm_wf tm1" "i = tm_next_tunnel_id tm" "tm_tunnels tm1 = tm_tunnels tm"
    "find_tunnel tm1 = find_tunnel tm"
  using assms sint_next [of tm]
  by (force simp: GenerateTunnelId_def tm_wf_def tm_invariant_def find_tunnel_def)+

lemma published_nothing:
  assumes "tm_wf tm" and "ids_left tm" and "GenerateTunnelId tm = (i, tm1)"
    and "\<And>j. r \<noteq> Some (Returns j)"
  shows "published tm r tm1"
  using GenerateTunnelId_wf [OF assms(1-3)] assms(4)
  by (auto simp: published_def split: option.split outcome.split)

lemma published_stored:
  assumes "tm_wf tm" and "ids_left tm" and "GenerateTunnelId tm = (i, tm1)"
  shows "published tm (Some (Returns i)) (store_tunnel i h tm1)"
proof -
  note g = GenerateTunnelId_wf [OF assms]
  have inv: "tm_invariant tm1" using g(1) by (simp add: tm_wf_def)
  have keys: "set (map fst (tm_tunnels (store_tunnel i h tm1))) =
      insert i (set (map fst (tm_tunnels tm)))"
    by (simp add: store_tunnel_def g(3) put_entry_keys del: set_map)
  have nxt: "tm_next_tunnel_id (store_tunnel i h tm1) = tm_next_tunnel_id tm + 1"
    using assms(3) by (auto simp: store_tunnel_def GenerateTunnelId_def)
  have old: "\<forall>j \<in> set (map fst (tm_tunnels tm)). 0 < sint j \<and> sint j < sint (tm_next_tunnel_id tm)"
    "0 < sint (tm_next_tunnel_id tm)"
    using assms(1) by (simp_all add: tm_wf_def)
  have "tm_wf (store_tunnel i h tm1)"
    unfolding tm_wf_def keys nxt sint_next [OF assms(2) old(2)]
    using registry.inv_store [OF inv, of i h] old g(2) by force
  moreover have "find_tunnel (store_tunnel i h tm1) = (find_tunnel tm)(i \<mapsto> h)"
    using registry.lookup_store [OF inv] g(4) by simp
  ultimately show ?thesis using next_id_unused [OF assms(1)] g(2) by (auto simp: published_def)
qed

subsection \<open>Creation\<close>

text \<open>The manager's own dispatch on the method is the one of \<^verbatim>\<open>TunnelAuthParams::Connect\<close>.\<close>

lemma manager_authenticate_eq: "manager_authenticate = authenticate"
  by (simp add: fun_eq_iff manager_authenticate_def authenticate_def kAuthMethodPassword_def
      kAuthMethodKey_def kAuthMethodAgent_def)

lemma CreateTunnel_published:
  assumes "tm_wf tm" and "ids_left tm"
    and "CreateTunnel pl what a auth rh rp lp sh sp su timeout ba tm = (r, tm', l)"
  shows "published tm r tm'"
proof (cases "au_auth_method auth = kAuthMethodAgent")
  case True
  with assms show ?thesis by (auto simp: CreateTunnel_def published_def)
next
  case False
  obtain i tm1 where g: "GenerateTunnelId tm = (i, tm1)" by fastforce
  note ok = published_stored [OF assms(1,2) g] and none = published_nothing [OF assms(1,2) g]
  obtain x l' where e: "establish_tunnel pl a auth rh rp lp sh sp su timeout ba = (x, l')" by fastforce
  show ?thesis
  proof (cases x)
    case None
    with False assms(3) g e none show ?thesis by (auto simp: CreateTunnel_def)
  next
    case (Some y)
    with False assms(3) g e ok none show ?thesis by (cases y) (auto simp: CreateTunnel_def)
  qed
qed

lemma CreateSshExport_published:
  assumes "tm_wf tm" and "ids_left tm"
    and "CreateSshExport pl a auth lh lp rbh rp timeout tm = (r, tm', l)"
  shows "published tm (Some r) tm'"
proof -
  obtain i tm1 where g: "GenerateTunnelId tm = (i, tm1)" by fastforce
  note ok = published_stored [OF assms(1,2) g] and none = published_nothing [OF assms(1,2) g]
  obtain x ex l' where "SshExporter_Start pl timeout a (make_SshExporter pl auth lh lp rbh rp) = (x, ex, l')"
    by (metis prod_cases3)
  with assms(3) g ok none show ?thesis by (cases x) (auto simp: CreateSshExport_def)
qed

lemma CreateMeshTunnel_published:
  assumes "tm_wf tm" and "ids_left tm"
    and "CreateMeshTunnel pl mb a n rh rp lp timeout ba tm ml mc = (r, tm', ml', mc', l)"
  shows "published tm r tm'"
proof -
  obtain i tm1 where g: "GenerateTunnelId tm = (i, tm1)" by fastforce
  note ok = published_stored [OF assms(1,2) g] and none = published_nothing [OF assms(1,2) g]
  obtain x fo ml1 be1 calls l' where st: "MeshForwarder_Start pl mb timeout a ml (mc_nodes mc ! n)
      (make_MeshForwarder pl (Kind (mc_nodes mc ! n)) rh rp lp ba) = (x, fo, ml1, be1, calls, l')"
    by (metis prod_cases6)
  show ?thesis
  proof (cases x)
    case None
    with assms(3) g st none show ?thesis by (auto simp: CreateMeshTunnel_def)
  next
    case (Some y)
    with assms(3) g st ok none show ?thesis by (cases y) (auto simp: CreateMeshTunnel_def)
  qed
qed

lemma CreateMeshExport_published:
  assumes "tm_wf tm" and "ids_left tm"
    and "CreateMeshExport pl mb reader a n mesh_port lh lp tm ml mc = (r, tm', ml', mc', l)"
  shows "published tm r tm'"
proof -
  obtain i tm1 where g: "GenerateTunnelId tm = (i, tm1)" by fastforce
  note ok = published_stored [OF assms(1,2) g] and none = published_nothing [OF assms(1,2) g]
  obtain x ep ml1 be1 calls where st: "MeshExporter_Start pl mb reader a ml (mc_nodes mc ! n)
      (make_MeshExporter (Kind (mc_nodes mc ! n)) mesh_port lh lp) = (x, ep, ml1, be1, calls)"
    by (metis prod_cases5)
  show ?thesis
  proof (cases x)
    case None
    with assms(3) g st none show ?thesis by (auto simp: CreateMeshExport_def)
  next
    case (Some y)
    with assms(3) g st ok none show ?thesis by (cases y) (auto simp: CreateMeshExport_def)
  qed
qed

lemma WorkerFunction_attributes:
  assumes "WorkerFunction pl a conn = (fin, conn', l)"
  shows "(tc_attributes conn')\<lparr>at_status := st, at_error_message := m\<rparr> =
      (tc_attributes conn)\<lparr>at_status := st, at_error_message := m\<rparr>"
    and "IsConnected conn' = IsConnected conn"
proof -
  have loop: "worker_loop pl ls ts c = (f, c', l') \<Longrightarrow>
      (tc_attributes c')\<lparr>at_status := st, at_error_message := m\<rparr> =
      (tc_attributes c)\<lparr>at_status := st, at_error_message := m\<rparr>" for ls ts c f c' l'
  proof (induction ts arbitrary: c l')
    case (Cons t ts)
    then show ?case
      by (auto simp: Let_def set_defs spawn_forward_def split: if_splits option.splits prod.splits)
  qed simp
  show "(tc_attributes conn')\<lparr>at_status := st, at_error_message := m\<rparr> =
      (tc_attributes conn)\<lparr>at_status := st, at_error_message := m\<rparr>"
    using assms
    by (auto simp: WorkerFunction_def Let_def set_defs dest!: loop split: if_splits prod.splits)
  show "IsConnected conn' = IsConnected conn"
    using assms
    by (auto simp: WorkerFunction_def Let_def set_defs IsConnected_def dest!: worker_loop_keeps
        split: if_splits prod.splits)
qed

definition bind_address :: "bool \<Rightarrow> string" where
  "bind_address bind_all = (if bind_all then ''0.0.0.0'' else ''127.0.0.1'')"

lemma SetBindAll_new: "tc_attributes (SetBindAll ba new_connection) =
    default_attributes\<lparr>at_bind_addr := bind_address ba\<rparr>"
  by (simp add: SetBindAll_def new_connection_def bind_address_def)

lemma establish_tunnel_returns:
  assumes "establish_tunnel pl a auth rh rp lp sh sp su timeout ba = (Some (Returns conn), l)"
  shows "au_auth_method auth = kAuthMethodPassword \<and> au_password auth \<noteq> [] \<and> aa_password_rc (cr_auth a) = 0 \<or>
      au_auth_method auth = kAuthMethodKey \<and> au_private_key_path auth \<noteq> [] \<and>
        aa_key_file (cr_auth a) \<and> aa_key_rc (cr_auth a) = 0"
    and "valid_port sp \<and> valid_port rp \<and> valid_port lp"
    and "\<exists>t \<in> set (cr_test a). tt_elapsed t < timeout * 1000 \<and> test_reached pl t"
    and "IsConnected conn"
    and "\<exists>st m. tc_attributes conn = default_attributes
      \<lparr>at_bind_addr := bind_address ba, at_ssh_host := sh, at_ssh_port := sp, at_ssh_user := su,
       at_remote_host := rh, at_remote_port := rp, at_local_port := lp,
       at_status := st, at_error_message := m\<rparr>"
proof -
  let ?c = "TunnelConnection_Connect (cr_connect a) sh sp su rh rp lp (SetBindAll ba new_connection)"
  obtain r1 conn1 l1 where c1: "?c = (r1, conn1, l1)" by (metis prod_cases3)
  obtain ok conn2 l2 where c2: "authenticate (cr_auth a) auth conn1 = (ok, conn2, l2)"
    by (metis prod_cases3)
  obtain conn3 l3 where c3: "StartWorker conn2 = (conn3, l3)" by fastforce
  obtain fin conn4 l4 where c4: "WorkerFunction pl (cr_worker a) conn3 = (fin, conn4, l4)"
    by (metis prod_cases3)
  obtain ready l5 where c5: "TestTunnelConnection pl timeout (cr_test a) = (ready, l5)" by fastforce
  note eval = establish_tunnel_def c1 manager_authenticate_eq c2 c3 c4 c5
  have r: "r1 = Returns ()" "ok = True" "ready = Some True" "conn4 = conn"
    using assms
    by (auto simp: eval split: outcome.splits if_splits option.splits bool.splits prod.splits)
  note connected = TunnelConnection_Connect_returns [OF c1 [unfolded r]]
  note authed = authenticate_returns [OF c2 [unfolded r]] authenticate_holds [OF c2]
  have started: "tc_attributes conn3 = tc_attributes conn2" "IsConnected conn3 = tc_is_connected conn2"
    using c3 by (auto simp: StartWorker_def IsConnected_def)
  show "au_auth_method auth = kAuthMethodPassword \<and> au_password auth \<noteq> [] \<and> aa_password_rc (cr_auth a) = 0 \<or>
      au_auth_method auth = kAuthMethodKey \<and> au_private_key_path auth \<noteq> [] \<and>
        aa_key_file (cr_auth a) \<and> aa_key_rc (cr_auth a) = 0"
    using authed by blast
  show "valid_port sp \<and> valid_port rp \<and> valid_port lp" using connected by blast
  show "\<exists>t \<in> set (cr_test a). tt_elapsed t < timeout * 1000 \<and> test_reached pl t"
    using TestTunnelConnection_True [of pl timeout "cr_test a"] c5 r by auto
  show "IsConnected conn"
    using WorkerFunction_attributes(2) [OF c4] started connected authed r by simp
  have "tc_attributes conn = (tc_attributes conn)\<lparr>at_status := at_status (tc_attributes conn),
      at_error_message := at_error_message (tc_attributes conn)\<rparr>" by simp
  also have "\<dots> = (tc_attributes conn3)\<lparr>at_status := at_status (tc_attributes conn),
      at_error_message := at_error_message (tc_attributes conn)\<rparr>"
    unfolding r(4) [symmetric] by (rule WorkerFunction_attributes(1) [OF c4])
  finally show "\<exists>st m. tc_attributes conn = default_attributes
      \<lparr>at_bind_addr := bind_address ba, at_ssh_host := sh, at_ssh_port := sp, at_ssh_user := su,
       at_remote_host := rh, at_remote_port := rp, at_local_port := lp,
       at_status := st, at_error_message := m\<rparr>"
    using connected(2) authed(2) started(1) SetBindAll_new [of ba] by (auto intro: exI)
qed

lemma establish_tunnel_binds:
  "set (binds (snd (establish_tunnel pl a auth rh rp lp sh sp su timeout ba))) \<subseteq>
     {(bind_address ba, lp)}"
proof -
  let ?c = "TunnelConnection_Connect (cr_connect a) sh sp su rh rp lp (SetBindAll ba new_connection)"
  obtain r1 conn1 l1 where c1: "?c = (r1, conn1, l1)" by (metis prod_cases3)
  obtain ok conn2 l2 where c2: "authenticate (cr_auth a) auth conn1 = (ok, conn2, l2)"
    by (metis prod_cases3)
  obtain conn3 l3 where c3: "StartWorker conn2 = (conn3, l3)" by fastforce
  obtain fin conn4 l4 where c4: "WorkerFunction pl (cr_worker a) conn3 = (fin, conn4, l4)"
    by (metis prod_cases3)
  obtain ready l5 where c5: "TestTunnelConnection pl timeout (cr_test a) = (ready, l5)" by fastforce
  note eval = establish_tunnel_def c1 manager_authenticate_eq c2 c3 c4 c5
  have none: "binds l1 = []" "binds l2 = []" "binds l3 = []" "binds l5 = []"
    using Connect_binds [of "cr_connect a" sh sp su rh rp lp "SetBindAll ba new_connection"] c1
      authenticate_binds [of "cr_auth a" auth conn1] c2 c3
      TestTunnelConnection_binds [of pl timeout "cr_test a"] c5
    by (auto simp: StartWorker_def)
  have worker: "set (binds l4) \<subseteq> {(bind_address ba, lp)}" if "r1 = Returns ()" ok
  proof -
    note connected = TunnelConnection_Connect_returns [OF c1 [unfolded that(1)]]
    have "tc_attributes conn3 = (tc_attributes conn1)\<lparr>at_status := kStatusAuthenticated\<rparr>"
      using authenticate_returns(2) [of "cr_auth a" auth conn1 conn2 l2] c2 c3 that
      by (auto simp: StartWorker_def)
    with connected SetBindAll_new [of ba] WorkerFunction_binds [of pl "cr_worker a" conn3] c4
    show ?thesis by (simp add: valid_port_bounds)
  qed
  show ?thesis
  proof (cases r1)
    case (Returns u)
    then show ?thesis using none worker
      by (cases ok; cases ready) (auto simp: eval case_prod_beta split: bool.split)
  qed (simp_all add: eval none)
qed

section \<open>Properties\<close>

text \<open>C3: Dropping tunnels refines a map. \<open>CloseTunnel\<close> removes exactly the named tunnel and says
  whether it was there, \<open>CloseAllTunnels\<close> empties the map, \<open>CleanupInactiveTunnels\<close> keeps exactly the
  active tunnels; each of them closes every handle it drops, exactly once, and no other.\<close>

theorem manager_refines_map:
  assumes "tm_invariant tm"
  shows "(case CloseTunnel env i tm of (found, tm', acts) \<Rightarrow>
      (found \<longleftrightarrow> find_tunnel tm i \<noteq> None) \<and> find_tunnel tm' = (find_tunnel tm)(i := None) \<and>
      tm_invariant tm' \<and> (\<exists>es. drops env tm tm' es acts)) \<and>
    (case CloseAllTunnels env tm of (tm', acts) \<Rightarrow>
      find_tunnel tm' = Map.empty \<and> tm_invariant tm' \<and> (\<exists>es. drops env tm tm' es acts)) \<and>
    (case CleanupInactiveTunnels env tm of (tm', acts) \<Rightarrow>
      (\<forall>j. find_tunnel tm' j = (case find_tunnel tm j of
         None \<Rightarrow> None | Some h \<Rightarrow> if handle_IsActive h then Some h else None)) \<and>
      tm_invariant tm' \<and> (\<exists>es. drops env tm tm' es acts))"
proof (intro conjI)
  obtain found tm' acts where c: "CloseTunnel env i tm = (found, tm', acts)" by (metis prod_cases3)
  with CloseTunnel_drops [OF assms c] manager_keeps_invariant(1) [OF assms, of env i]
    registry.lookup_erase [OF assms, of i]
  show "case CloseTunnel env i tm of (found, tm', acts) \<Rightarrow>
      (found \<longleftrightarrow> find_tunnel tm i \<noteq> None) \<and> find_tunnel tm' = (find_tunnel tm)(i := None) \<and>
      tm_invariant tm' \<and> (\<exists>es. drops env tm tm' es acts)"
    by (auto simp: CloseTunnel_def split: option.splits)
  show "case CloseAllTunnels env tm of (tm', acts) \<Rightarrow>
      find_tunnel tm' = Map.empty \<and> tm_invariant tm' \<and> (\<exists>es. drops env tm tm' es acts)"
    using CloseAllTunnels_drops [of env tm] manager_keeps_invariant(2) [OF assms, of env]
    by (auto simp: CloseAllTunnels_def find_tunnel_def)
  show "case CleanupInactiveTunnels env tm of (tm', acts) \<Rightarrow>
      (\<forall>j. find_tunnel tm' j = (case find_tunnel tm j of
         None \<Rightarrow> None | Some h \<Rightarrow> if handle_IsActive h then Some h else None)) \<and>
      tm_invariant tm' \<and> (\<exists>es. drops env tm tm' es acts)"
    using CleanupInactiveTunnels_drops [of env tm] manager_keeps_invariant(3) [OF assms, of env]
      map_of_filter_values [of "tm_tunnels tm" handle_IsActive] assms
    by (auto simp: CleanupInactiveTunnels_def find_tunnel_def tm_invariant_def)
qed

definition demo_manager :: TunnelManager where
  "demo_manager =
     \<lparr>tm_tunnels = [(1, SshTunnelHandle (Some demo_serving)), (2, MeshForwardHandle demo_accepting),
        (4, SshTunnelHandle None)], tm_next_tunnel_id = 5\<rparr>"

definition demo_env :: close_env where
  "demo_env = \<lparr>ce_platform = Linux, ce_cancel = \<lparr>ca_start = 0, ca_cancel = []\<rparr>,
     ce_nodes = (\<lambda>n. demo_node)\<rparr>"

theorem manager_refines_map_witness:
  "fst (CloseTunnel demo_env 2 demo_manager) \<and> \<not> fst (CloseTunnel demo_env 3 demo_manager) \<and>
   find_tunnel (fst (CleanupInactiveTunnels demo_env demo_manager)) 4 = None"
proof -
  have "tm_invariant demo_manager" by (simp add: tm_invariant_def demo_manager_def)
  from manager_refines_map [OF this, where env = demo_env and i = 2]
    manager_refines_map [OF this, where env = demo_env and i = 3]
  show ?thesis by (auto simp: find_tunnel_def demo_manager_def split: prod.splits)
qed

text \<open>C4: Every factory publishes at most one tunnel, under a new identifier. While identifiers
  are left, a creation that returns gives the next number, which named no tunnel before, and the map
  gains that entry and changes no other; one that throws changes no entry. The registry stays
  well-formed.\<close>

theorem factories_publish:
  assumes "tm_wf tm" and "ids_left tm"
  shows "(case CreateTunnel pl what ia auth rh rp lp sh sp su timeout ba tm of (r, tm', l) \<Rightarrow>
       published tm r tm') \<and>
    (case CreateSshExport pl xa auth lh lp rbh rp timeout tm of (r, tm', l) \<Rightarrow>
       published tm (Some r) tm') \<and>
    (case CreateMeshTunnel pl mb fa n rh rp lp timeout ba tm ml mc of (r, tm', ml', mc', l) \<Rightarrow>
       published tm r tm') \<and>
    (case CreateMeshExport pl mb reader ea n rp lh lp tm ml mc of (r, tm', ml', mc', l) \<Rightarrow>
       published tm r tm')"
  using CreateTunnel_published [OF assms] CreateSshExport_published [OF assms]
    CreateMeshTunnel_published [OF assms] CreateMeshExport_published [OF assms]
  by (intro conjI) (auto split: prod.split)

definition demo_create :: create_answers where
  "demo_create = \<lparr>cr_connect = demo_connect 0, cr_auth = demo_auth_answers 0, cr_worker = demo_worker,
     cr_test = [\<lparr>tt_elapsed = 10, tt_running = True, tt_socket = 6, tt_connect = 0, tt_errno = 0,
       tt_select = 0, tt_getsockopt = 0, tt_error = 0\<rparr>]\<rparr>"

definition demo_CreateTunnel :: "tunnel_id outcome option \<times> TunnelManager \<times> log" where
  "demo_CreateTunnel = CreateTunnel Linux (\<lambda>e. []) demo_create demo_params ''db'' 5432 6432
     ''bastion'' 22 ''deploy'' 60 False demo_manager"

lemma demo_manager_wf: "tm_wf demo_manager" "ids_left demo_manager"
  by (simp_all add: tm_wf_def tm_invariant_def demo_manager_def ids_left_def)

lemma demo_CreateTunnel_result: "fst demo_CreateTunnel = Some (Returns 5)"
proof -
  let ?e = "establish_tunnel Linux demo_create demo_params ''db'' 5432 6432 ''bastion'' 22 ''deploy'' 60 False"
  have "\<exists>conn. fst ?e = Some (Returns conn)"
    by (simp add: establish_tunnel_def demo_create_def manager_authenticate_eq demo_import_eval
        SetBindAll_def new_connection_def set_defs test_reached_def case_prod_beta)
  then show ?thesis
    by (auto simp: demo_CreateTunnel_def CreateTunnel_def GenerateTunnelId_def demo_manager_def
        demo_params_def default_auth_params_def kAuthMethodPassword_def kAuthMethodAgent_def
        case_prod_beta)
qed

theorem factories_publish_witness:
  "\<exists>h. find_tunnel (fst (snd demo_CreateTunnel)) = (find_tunnel demo_manager)(5 \<mapsto> h)"
proof -
  from factories_publish [OF demo_manager_wf, of Linux "\<lambda>e. []" demo_create demo_params "''db''" 5432
      6432 "''bastion''" 22 "''deploy''" 60 False]
  have "published demo_manager (fst demo_CreateTunnel) (fst (snd demo_CreateTunnel))"
    by (simp add: demo_CreateTunnel_def case_prod_beta)
  then show ?thesis by (simp add: published_def demo_CreateTunnel_result)
qed



text \<open>A remote-forward export is created completely or not at all. When \<open>CreateSshExport\<close>
  throws, no tunnel was stored and every resource the attempt acquired is released; when it
  returns, the stored tunnel is active, holds exactly its own resources, and the port reported for
  it is the non-zero one the server bound.\<close>

theorem CreateSshExport_safe:
  assumes "tm_wf tm" and "ids_left tm" and "kInvalidSocket pl \<notin> F"
    and "\<forall>t \<in> set (da_tries (sa_probe a)) \<union> set (da_tries (sa_dial a)). dt_socket t \<notin> F"
    and "connect_timeout timeout = Returns ms"
    and "CreateSshExport pl a auth lh lp rbh rp timeout tm = (r, tm', l)"
  shows "case r of
      Returns i \<Rightarrow> \<exists>ex. find_tunnel tm' = (find_tunnel tm)(i \<mapsto> SshExportHandle ex) \<and>
        IsTunnelActive i tm' \<and> resource_run l (only_fds F) = Some (ex_resources pl F {} ex) \<and>
        GetTunnelBoundPort i tm' = sa_bound a \<and> sa_bound a \<noteq> 0
    | Throws e \<Rightarrow> tm_tunnels tm' = tm_tunnels tm \<and> resource_run l (only_fds F) = Some (only_fds F)
    | Undefined \<Rightarrow> False"
proof -
  obtain i tm1 where g: "GenerateTunnelId tm = (i, tm1)" by fastforce
  note w = GenerateTunnelId_wf [OF assms(1,2) g]
  obtain x ex l' where st: "SshExporter_Start pl timeout a (make_SshExporter pl auth lh lp rbh rp) = (x, ex, l')"
    by (metis prod_cases3)
  note ok = SshExporter_Start_ok [OF assms(3-5), of auth lh lp rbh rp, unfolded st start_ok_def prod.case]
  have inv: "tm_invariant tm1" using w(1) by (simp add: tm_wf_def)
  show ?thesis
  proof (cases x)
    case (Returns u)
    with ok assms(6) g st w registry.lookup_store [OF inv] show ?thesis
      by (auto simp: CreateSshExport_def IsTunnelActive_def GetTunnelBoundPort_def ex_IsActive_def
          BoundRemotePort_def ex_GetAttributes_def ex_invariant_def)
  next
    case (Throws e)
    moreover have "resource_run (snd (SshExporter_Close pl (sa_close a) ex)) (ex_resources pl F {} ex) =
        Some (only_fds F)"
      using ok by (intro SshExporter_Close_resources) simp_all
    ultimately show ?thesis using ok assms(6) g st w
      by (auto simp: CreateSshExport_def resource_run_append)
  next
    case Undefined
    with ok show ?thesis by simp
  qed
qed

theorem CreateSshExport_safe_witness:
  "case CreateSshExport Linux demo_start demo_auth ''localhost'' 5432 ''localhost'' 0 5 demo_manager of
     (r, tm', l) \<Rightarrow> threw r \<and> tm_tunnels tm' = tm_tunnels demo_manager \<and>
       resource_run l (only_fds {3}) = Some (only_fds {3})"
proof -
  let ?c = "CreateSshExport Linux demo_start demo_auth ''localhost'' 5432 ''localhost'' 0 5 demo_manager"
  have thr: "threw (fst ?c)" by code_simp
  have pre: "kInvalidSocket Linux \<notin> {3}" "connect_timeout 5 = Returns 5000"
    "\<forall>t \<in> set (da_tries (sa_probe demo_start)) \<union> set (da_tries (sa_dial demo_start)).
       dt_socket t \<notin> {3}"
    by (simp_all add: kInvalidSocket_def connect_timeout_bounds demo_start_def demo_try_def)
  have "?c = (fst ?c, fst (snd ?c), snd (snd ?c))" by simp
  from CreateSshExport_safe [OF demo_manager_wf pre(1,3,2) this] thr show ?thesis
    by (cases "fst ?c") (auto simp: case_prod_beta)
qed

end
