(* ===== verification/Manager_Concurrency.thy ===== *)
theory Manager_Concurrency
  imports Tunnel_Manager
begin

text \<open>
  The manager under concurrent use. Several connections of the database call the manager at once;
  what is atomic is the increment of the counter and each critical section under
  \<^verbatim>\<open>tunnels_mutex\<close>, while tunnels are set up before the map is locked and closed after it
  is released. The step relation has one rule per atomic part of an operation of
  \<^verbatim>\<open>src/src/tunnel_manager.cpp\<close>, so its executions are all the interleavings. The history of
  closed identifiers is kept only to state properties.
\<close>

section \<open>Definitions\<close>

record managed =
  mg_tm :: TunnelManager
  mg_pending :: "tunnel_id list"
  mg_closing :: "(tunnel_id \<times> TunnelHandle) list"
  mg_closed :: "tunnel_id list"

definition start_managed :: managed where
  "start_managed = \<lparr>mg_tm = new_TunnelManager, mg_pending = [], mg_closing = [], mg_closed = []\<rparr>"

inductive manager_step :: "managed \<Rightarrow> managed \<Rightarrow> bool" where
  begin_create: "ids_left (mg_tm s) \<Longrightarrow> GenerateTunnelId (mg_tm s) = (i, tm) \<Longrightarrow>
    manager_step s (s\<lparr>mg_tm := tm, mg_pending := i # mg_pending s\<rparr>)"
| publish: "i \<in> set (mg_pending s) \<Longrightarrow>
    manager_step s (s\<lparr>mg_tm := store_tunnel i h (mg_tm s), mg_pending := remove1 i (mg_pending s)\<rparr>)"
| give_up: "i \<in> set (mg_pending s) \<Longrightarrow>
    manager_step s (s\<lparr>mg_pending := remove1 i (mg_pending s)\<rparr>)"
| take_one: "find_tunnel (mg_tm s) i = Some h \<Longrightarrow>
    manager_step s (s\<lparr>mg_tm := erase_tunnel i (mg_tm s), mg_closing := (i, h) # mg_closing s\<rparr>)"
| take_all: "manager_step s (s\<lparr>mg_tm := fst (CloseAllTunnels env (mg_tm s)),
      mg_closing := tm_tunnels (mg_tm s) @ mg_closing s\<rparr>)"
| take_inactive: "manager_step s (s\<lparr>mg_tm := fst (CleanupInactiveTunnels env (mg_tm s)),
      mg_closing := filter (\<lambda>e. \<not> handle_IsActive (snd e)) (tm_tunnels (mg_tm s)) @ mg_closing s\<rparr>)"
| finish_close: "(i, h) \<in> set (mg_closing s) \<Longrightarrow>
    manager_step s (s\<lparr>mg_closing := remove1 (i, h) (mg_closing s), mg_closed := i # mg_closed s\<rparr>)"
| tunnel_changes: "find_tunnel (mg_tm s) i = Some h \<Longrightarrow>
    manager_step s (s\<lparr>mg_tm := store_tunnel i h' (mg_tm s)\<rparr>)"

inductive_cases manager_stepE: "manager_step s s'"

inductive reachable_managed :: "managed \<Rightarrow> bool" where
  start: "reachable_managed start_managed"
| step: "reachable_managed s \<Longrightarrow> manager_step s s' \<Longrightarrow> reachable_managed s'"

section \<open>The invariant\<close>

definition keys_of :: "TunnelManager \<Rightarrow> tunnel_id list" where
  "keys_of tm = map fst (tm_tunnels tm)"

text \<open>Where an identifier can be: with its creator, in the map, with its closer, or in the past.\<close>

definition ids_of :: "managed \<Rightarrow> tunnel_id multiset" where
  "ids_of s = mset (mg_pending s) + mset (keys_of (mg_tm s)) + mset (map fst (mg_closing s)) +
     mset (mg_closed s)"

definition managed_inv :: "managed \<Rightarrow> bool" where
  "managed_inv s \<longleftrightarrow> (\<forall>i. count (ids_of s) i \<le> 1) \<and> 0 < sint (tm_next_tunnel_id (mg_tm s)) \<and>
     (\<forall>i \<in># ids_of s. 0 < sint i \<and> sint i < sint (tm_next_tunnel_id (mg_tm s)))"

lemma put_entry_new: "k \<notin> set (map fst es) \<Longrightarrow> put_entry k v es = es @ [(k, v)]"
  by (induction k v es rule: put_entry.induct) auto

lemma put_entry_old: "k \<in> set (map fst es) \<Longrightarrow> map fst (put_entry k v es) = map fst es"
  by (induction k v es rule: put_entry.induct) auto

lemma keys_of_store:
  "i \<notin> set (keys_of tm) \<Longrightarrow> keys_of (store_tunnel i h tm) = keys_of tm @ [i]"
  "i \<in> set (keys_of tm) \<Longrightarrow> keys_of (store_tunnel i h tm) = keys_of tm"
  by (simp_all add: keys_of_def store_tunnel_def put_entry_new put_entry_old del: set_map)

lemma find_tunnel_keys: "find_tunnel tm i = None \<longleftrightarrow> i \<notin> set (keys_of tm)"
  by (simp add: find_tunnel_def keys_of_def map_of_eq_None_iff)

lemma drops_keys:
  assumes "drops env tm tm' es acts"
  shows "mset (keys_of tm) = mset (keys_of tm') + mset (map fst es)"
proof -
  have "image_mset fst (mset (tm_tunnels tm)) = image_mset fst (mset (tm_tunnels tm') + mset es)"
    using assms by (simp add: drops_def)
  then show ?thesis by (simp add: keys_of_def)
qed

lemma distinct_of_count: "(\<And>x. count (mset xs) x \<le> 1) \<Longrightarrow> distinct xs"
proof (induction xs)
  case (Cons x xs)
  have "count (mset xs) y \<le> 1" for y 
    using Cons.prems [of y] by (simp del: count_mset_0_iff split: if_splits)
  moreover have "x \<notin> set xs" using Cons.prems [of x] by simp
  ultimately show ?case using Cons.IH by simp
qed simp

lemma managed_inv_keys:
  assumes "managed_inv s"
  shows "tm_invariant (mg_tm s)" "i \<in> set (mg_pending s) \<Longrightarrow> i \<notin> set (keys_of (mg_tm s))"
proof -
  have c: "count (ids_of s) j \<le> 1" for j using assms by (simp add: managed_inv_def)
  have "count (mset (keys_of (mg_tm s))) j \<le> 1" for j
    using c [of j] by (simp add: ids_of_def)
  then show "tm_invariant (mg_tm s)"
    using distinct_of_count [of "keys_of (mg_tm s)"] by (simp add: tm_invariant_def keys_of_def)
  show "i \<notin> set (keys_of (mg_tm s))" if "i \<in> set (mg_pending s)"
  proof
    assume "i \<in> set (keys_of (mg_tm s))"
    then have "count (mset (keys_of (mg_tm s))) i \<ge> 1" "count (mset (mg_pending s)) i \<ge> 1"
      using that by (simp_all add: Suc_le_eq)
    with c [of i] show False by (simp add: ids_of_def)
  qed
qed

lemma managed_inv_shrink:
  assumes "managed_inv s" and "ids_of s' \<subseteq># ids_of s"
    and "tm_next_tunnel_id (mg_tm s') = tm_next_tunnel_id (mg_tm s)"
  shows "managed_inv s'"
  using assms mset_subset_eq_count [OF assms(2)] set_mset_mono [OF assms(2)]
  unfolding managed_inv_def by (metis le_trans subset_iff)

text \<open>Every step but the start of a creation moves identifiers or forgets one.\<close>

lemma manager_step_ids:
  assumes inv: "managed_inv s" and "manager_step s s'"
  shows "ids_of s' \<subseteq># ids_of s \<and> tm_next_tunnel_id (mg_tm s') = tm_next_tunnel_id (mg_tm s) \<or>
    ids_of s' = add_mset (tm_next_tunnel_id (mg_tm s)) (ids_of s) \<and> ids_left (mg_tm s) \<and>
      tm_next_tunnel_id (mg_tm s') = tm_next_tunnel_id (mg_tm s) + 1"
  using assms(2)
proof cases
  case (begin_create i tm)
  then have "i = tm_next_tunnel_id (mg_tm s)" "tm_tunnels tm = tm_tunnels (mg_tm s)"
    "tm_next_tunnel_id tm = tm_next_tunnel_id (mg_tm s) + 1"
    by (auto simp: GenerateTunnelId_def)
  with begin_create show ?thesis by (simp add: ids_of_def keys_of_def)
next
  case (publish i h)
  with managed_inv_keys(2) [OF inv] have "ids_of s' = ids_of s"
    by (simp add: ids_of_def keys_of_store(1))
  with publish show ?thesis by (simp add: store_tunnel_def)
next
  case (give_up i)
  then show ?thesis by (simp add: ids_of_def diff_subset_eq_self subset_mset.add_mono)
next
  case (take_one i h)
  with drops_keys [OF erase_drops [OF managed_inv_keys(1) [OF inv], of i h]]
  show ?thesis by (simp add: ids_of_def erase_tunnel_def)
next
  case (take_all env)
  with drops_keys [OF CloseAllTunnels_drops [of env "mg_tm s"]]
  show ?thesis by (simp add: ids_of_def CloseAllTunnels_def)
next
  case (take_inactive env)
  with drops_keys [OF CleanupInactiveTunnels_drops [of env "mg_tm s"]]
  show ?thesis by (simp add: ids_of_def CleanupInactiveTunnels_def)
next
  case (finish_close i h)
  then have "mset (mg_closing s) = add_mset (i, h) (mset (remove1 (i, h) (mg_closing s)))" by simp
  then have "image_mset fst (mset (mg_closing s)) =
      add_mset i (image_mset fst (mset (remove1 (i, h) (mg_closing s))))"
    by (metis fst_conv image_mset_add_mset)
  with finish_close show ?thesis by (simp add: ids_of_def)
next
  case (tunnel_changes i h h')
  then have "i \<in> set (keys_of (mg_tm s))" by (metis find_tunnel_keys option.distinct(1))
  with tunnel_changes have "ids_of s' = ids_of s" by (simp add: ids_of_def keys_of_store(2))
  with tunnel_changes show ?thesis by (simp add: store_tunnel_def)
qed

lemma managed_inv_step:
  assumes inv: "managed_inv s" and st: "manager_step s s'"
  shows "managed_inv s'"
proof -
  let ?n = "tm_next_tunnel_id (mg_tm s)"
  have pos: "0 < sint ?n" and below: "\<forall>i \<in># ids_of s. 0 < sint i \<and> sint i < sint ?n"
    and one: "\<forall>i. count (ids_of s) i \<le> 1"
    using inv by (simp_all add: managed_inv_def)
  from manager_step_ids [OF assms] show ?thesis
  proof
    assume "ids_of s' \<subseteq># ids_of s \<and> tm_next_tunnel_id (mg_tm s') = ?n"
    then show ?thesis using managed_inv_shrink [OF inv] by blast
  next
    assume new: "ids_of s' = add_mset ?n (ids_of s) \<and> ids_left (mg_tm s) \<and>
      tm_next_tunnel_id (mg_tm s') = ?n + 1"
    then have s1: "sint (?n + 1) = sint ?n + 1" using sint_next [OF _ pos] by blast
    have "?n \<notin># ids_of s" using below by force
    then have "\<forall>i. count (ids_of s') i \<le> 1" using new one by (simp add: not_in_iff)
    moreover have "0 < sint i \<and> sint i < sint ?n + 1" if "i \<in># ids_of s'" for i
      using that new below pos by force
    ultimately show ?thesis using new less_imp_le [OF pos] s1 by (simp add: managed_inv_def)
  qed
qed

lemma managed_inv_reachable: "reachable_managed s \<Longrightarrow> managed_inv s"
proof (induction rule: reachable_managed.induct)
  case start
  then show ?case
    by (simp add: managed_inv_def ids_of_def start_managed_def new_TunnelManager_def keys_of_def)
next
  case (step s s')
  then show ?case using managed_inv_step by blast
qed

section \<open>Whole operations as runs\<close>

lemma creation_runs:
  assumes "ids_left (mg_tm s)" and "GenerateTunnelId (mg_tm s) = (i, tm)"
  shows "manager_step\<^sup>*\<^sup>* s (s\<lparr>mg_tm := tm\<rparr>)"
    and "manager_step\<^sup>*\<^sup>* s (s\<lparr>mg_tm := store_tunnel i h tm\<rparr>)"
proof -
  let ?s = "s\<lparr>mg_tm := tm, mg_pending := i # mg_pending s\<rparr>"
  have b: "manager_step s ?s" by (rule begin_create [OF assms])
  have "manager_step ?s (?s\<lparr>mg_pending := remove1 i (mg_pending ?s)\<rparr>)"
    by (rule give_up) simp
  with b show "manager_step\<^sup>*\<^sup>* s (s\<lparr>mg_tm := tm\<rparr>)" by simp
  have "manager_step ?s (?s\<lparr>mg_tm := store_tunnel i h (mg_tm ?s),
      mg_pending := remove1 i (mg_pending ?s)\<rparr>)"
    by (rule publish) simp
  with b show "manager_step\<^sup>*\<^sup>* s (s\<lparr>mg_tm := store_tunnel i h tm\<rparr>)" by simp
qed

lemma finish_all:
  "manager_step\<^sup>*\<^sup>* (s\<lparr>mg_closing := es @ mg_closing s\<rparr>)
     (s\<lparr>mg_closed := rev (map fst es) @ mg_closed s\<rparr>)"
proof (induction es arbitrary: s)
  case (Cons e es)
  obtain i h where e: "e = (i, h)" by fastforce
  let ?s = "s\<lparr>mg_closed := i # mg_closed s\<rparr>"
  have "manager_step (s\<lparr>mg_closing := (e # es) @ mg_closing s\<rparr>)
      (?s\<lparr>mg_closing := es @ mg_closing ?s\<rparr>)"
    using finish_close [of i h "s\<lparr>mg_closing := (e # es) @ mg_closing s\<rparr>"]
    by (cases s) (simp add: e)
  with Cons.IH [of ?s] show ?case by (simp add: e)
qed simp

section \<open>Properties\<close>


definition demo_race :: managed where
  "demo_race =
     \<lparr>mg_tm = \<lparr>tm_tunnels = [(2, SshTunnelHandle None)], tm_next_tunnel_id = 3\<rparr>, mg_pending = [1],
      mg_closing = [], mg_closed = []\<rparr>"

lemma demo_race_reachable: "reachable_managed demo_race"
proof -
  let ?s1 = "start_managed\<lparr>mg_tm := new_TunnelManager\<lparr>tm_next_tunnel_id := 2\<rparr>, mg_pending := [1]\<rparr>"
  let ?s2 = "start_managed\<lparr>mg_tm := new_TunnelManager\<lparr>tm_next_tunnel_id := 3\<rparr>, mg_pending := [2, 1]\<rparr>"
  note eval = start_managed_def new_TunnelManager_def ids_left_def GenerateTunnelId_def
  have "manager_step start_managed ?s1"
    using begin_create [of start_managed] by (simp add: eval)
  moreover have "manager_step ?s1 ?s2"
    using begin_create [of ?s1] by (simp add: eval)
  moreover have "manager_step ?s2 demo_race"
    using publish [of 2 ?s2 "SshTunnelHandle None"] by (simp add: eval store_tunnel_def demo_race_def)
  ultimately show ?thesis by (blast intro: reachable_managed.intros)
qed




end
