(* ===== verification/Tunnel_Pragmas.thy ===== *)
theory Tunnel_Pragmas
  imports Tunnel_Manager Tunnel_Secret
begin

text \<open>
  The SQL surface that changes tunnels: \<^verbatim>\<open>tunnel_import\<close> (and its alias
  \<^verbatim>\<open>tunnel_create\<close>), \<^verbatim>\<open>tunnel_export\<close>, \<^verbatim>\<open>tunnel_close\<close> and
  \<^verbatim>\<open>tunnel_close_all\<close>, from the four \<^verbatim>\<open>src/src/pragma_tunnel_*.cpp\<close>. Each handler
  reads its named parameters, checks them, chooses the backend of the secret, calls the manager and
  answers with the text of a query.

  DuckDB is a parameter: \<open>pe_text\<close>, \<open>pe_int\<close> and \<open>pe_bool\<close> read a value of the type \<open>'v\<close> (and may
  throw), \<open>pe_lower\<close> is \<^verbatim>\<open>StringUtil::Lower\<close>, \<open>pe_secrets\<close> is the secret manager,
  \<open>pe_what\<close> the text of an exception and \<open>pe_reader\<close> the JSON reader. The named parameters are a
  list in the order an iteration over DuckDB's map visits them. Telemetry changes nothing here.
\<close>

section \<open>Definitions\<close>

record 'v pragma_env =
  pe_platform :: platform
  pe_has_mesh :: bool
  pe_build :: mesh_build
  pe_lower :: "string \<Rightarrow> string"
  pe_text :: "'v \<Rightarrow> string"
  pe_int :: "'v \<Rightarrow> int outcome"
  pe_bool :: "'v \<Rightarrow> bool outcome"
  pe_secrets :: secret_manager
  pe_what :: "exn \<Rightarrow> string"
  pe_reader :: "string \<Rightarrow> json option"

text \<open>What the handlers act on.\<close>

record world =
  wo_tm :: TunnelManager
  wo_ml :: MeshLoader
  wo_mc :: mesh_cache

type_synonym pragma_result = "string outcome option \<times> world \<times> action list"

subsection \<open>tunnel_import\<close>

record import_params =
  ip_remote_host :: string
  ip_remote_port :: int
  ip_local_port :: int
  ip_timeout_seconds :: int
  ip_bind_all :: bool

definition default_import_params :: import_params where
  "default_import_params = \<lparr>ip_remote_host = [], ip_remote_port = 0, ip_local_port = 0,
     ip_timeout_seconds = 60, ip_bind_all = False\<rparr>"

fun read_import_params ::
  "'v pragma_env \<Rightarrow> (string \<times> 'v) list \<Rightarrow> import_params \<Rightarrow> import_params outcome" where
  "read_import_params pe [] ip = Returns ip"
| "read_import_params pe ((name, v) # named) ip =
     (if name = ''remote_host'' then
        read_import_params pe named (ip\<lparr>ip_remote_host := pe_text pe v\<rparr>)
      else if name = ''remote_port'' then
        bind_outcome (pe_int pe v) (\<lambda>i. read_import_params pe named (ip\<lparr>ip_remote_port := i\<rparr>))
      else if name = ''local_port'' then
        bind_outcome (pe_int pe v) (\<lambda>i. read_import_params pe named (ip\<lparr>ip_local_port := i\<rparr>))
      else if name = ''timeout'' then
        bind_outcome (pe_int pe v) (\<lambda>i. read_import_params pe named (ip\<lparr>ip_timeout_seconds := i\<rparr>))
      else if name = ''bind_all'' then
        bind_outcome (pe_bool pe v) (\<lambda>b. read_import_params pe named (ip\<lparr>ip_bind_all := b\<rparr>))
      else read_import_params pe named ip)"

definition msg_import_usage :: string where
  "msg_import_usage =
     ''tunnel_import requires remote_host, remote_port, and local_port. Example:'' @ [CHR 0x0A] @
     ''  PRAGMA tunnel_import(secret='' @ sq @ ''my_secret'' @ sq @ '', remote_host='' @ sq @
     ''host.internal'' @ sq @ '', '' @
     ''remote_port=8000, local_port=9000 [, timeout=60, bind_all=false]);'' @ [CHR 0x0A] @
     ''(named parameters use '' @ sq @ ''='' @ sq @ '' '' @ em_dash @ '' a PRAGMA does not accept '' @
     sq @ '':='' @ sq @ '')''"

definition msg_created :: "tunnel_id \<Rightarrow> string" where
  "msg_created i =
     ''SELECT '' @ to_string (sint i) @ '' as tunnel_id, '' @ sq @ ''Tunnel created successfully'' @
     sq @ '' as message''"

text \<open>The outcome of a factory, turned into the answer of a handler.\<close>

definition answer :: "tunnel_id outcome option \<Rightarrow> (tunnel_id \<Rightarrow> string) \<Rightarrow> string outcome option" where
  "answer r query = (case r of
       None \<Rightarrow> None
     | Some (Returns i) \<Rightarrow> Some (Returns (query i))
     | Some (Throws e) \<Rightarrow> Some (Throws e)
     | Some Undefined \<Rightarrow> Some Undefined)"

record import_answers =
  ia_ssh :: create_answers
  ia_mesh :: forwarder_answers

definition create_over_mesh ::
  "'v pragma_env \<Rightarrow> import_answers \<Rightarrow> string \<Rightarrow> import_params \<Rightarrow> world \<Rightarrow> pragma_result" where
  "create_over_mesh pe a secret_name ip w =
     (case MeshBackendFromSecret (pe_lower pe) (pe_secrets pe) secret_name (wo_mc w) of
        (Returns n, mc) \<Rightarrow>
          (let (r, tm, ml, mc1, acts) = CreateMeshTunnel (pe_platform pe) (pe_build pe) (ia_mesh a) n
                 (ip_remote_host ip) (ip_remote_port ip) (ip_local_port ip) (ip_timeout_seconds ip)
                 (ip_bind_all ip) (wo_tm w) (wo_ml w) mc
           in (answer r msg_created, \<lparr>wo_tm = tm, wo_ml = ml, wo_mc = mc1\<rparr>, acts))
      | (Throws e, mc) \<Rightarrow> (Some (Throws e), w\<lparr>wo_mc := mc\<rparr>, [])
      | (Undefined, mc) \<Rightarrow> (Some Undefined, w\<lparr>wo_mc := mc\<rparr>, []))"

definition create_over_ssh ::
  "'v pragma_env \<Rightarrow> import_answers \<Rightarrow> string \<Rightarrow> import_params \<Rightarrow> world \<Rightarrow> pragma_result" where
  "create_over_ssh pe a secret_name ip w =
     (case GetTunnelAuthParamsFromContext (pe_secrets pe) secret_name of
        Returns auth \<Rightarrow>
          (let (r, tm, l) = CreateTunnel (pe_platform pe) (pe_what pe) (ia_ssh a) auth
                 (ip_remote_host ip) (ip_remote_port ip) (ip_local_port ip) (au_ssh_host auth)
                 (au_ssh_port auth) (au_ssh_user auth) (ip_timeout_seconds ip) (ip_bind_all ip) (wo_tm w)
           in (answer r msg_created, w\<lparr>wo_tm := tm\<rparr>, map Os l))
      | Throws e \<Rightarrow> (Some (Throws e), w, [])
      | Undefined \<Rightarrow> (Some Undefined, w, []))"

definition TunnelCreate ::
  "'v pragma_env \<Rightarrow> import_answers \<Rightarrow> (string \<times> 'v) list \<Rightarrow> world \<Rightarrow> pragma_result" where
  "TunnelCreate pe a named w =
     (case read_import_params pe named default_import_params of
        Throws e \<Rightarrow> (Some (Throws e), w, [])
      | Undefined \<Rightarrow> (Some Undefined, w, [])
      | Returns ip \<Rightarrow>
          if ip_remote_host ip = [] \<or> ip_remote_port ip = 0 \<or> ip_local_port ip = 0 then
            (Some (Throws (InvalidInputException msg_import_usage)), w, [])
          else
            (let secret_name = GetTunnelSecretNameFromParams (pe_text pe) named in
             if pe_has_mesh pe \<and>
                SecretMeshKind (pe_lower pe) (pe_secrets pe) secret_name \<noteq> MeshNone
             then create_over_mesh pe a secret_name ip w
             else create_over_ssh pe a secret_name ip w))"

subsection \<open>tunnel_export\<close>

record export_params =
  xp_local_host :: string
  xp_local_port :: int
  xp_remote_port :: int
  xp_remote_port_given :: bool
  xp_remote_host :: string

definition default_export_params :: export_params where
  "default_export_params = \<lparr>xp_local_host = ''127.0.0.1'', xp_local_port = 0, xp_remote_port = 0,
     xp_remote_port_given = False, xp_remote_host = []\<rparr>"

fun read_export_params ::
  "'v pragma_env \<Rightarrow> (string \<times> 'v) list \<Rightarrow> export_params \<Rightarrow> export_params outcome" where
  "read_export_params pe [] xp = Returns xp"
| "read_export_params pe ((name, v) # named) xp =
     (if name = ''local_host'' then
        read_export_params pe named (xp\<lparr>xp_local_host := pe_text pe v\<rparr>)
      else if name = ''local_port'' then
        bind_outcome (pe_int pe v) (\<lambda>i. read_export_params pe named (xp\<lparr>xp_local_port := i\<rparr>))
      else if name = ''remote_port'' then
        bind_outcome (pe_int pe v)
          (\<lambda>i. read_export_params pe named (xp\<lparr>xp_remote_port := i, xp_remote_port_given := True\<rparr>))
      else if name = ''remote_host'' then
        read_export_params pe named (xp\<lparr>xp_remote_host := pe_text pe v\<rparr>)
      else read_export_params pe named xp)"

fun read_timeout :: "'v pragma_env \<Rightarrow> (string \<times> 'v) list \<Rightarrow> int \<Rightarrow> int outcome" where
  "read_timeout pe [] t = Returns t"
| "read_timeout pe ((name, v) # named) t =
     (if name = ''timeout'' then bind_outcome (pe_int pe v) (read_timeout pe named)
      else read_timeout pe named t)"

definition msg_export_usage :: string where
  "msg_export_usage =
     ''tunnel_export requires local_port '' @ em_dash @
     '' the service on this machine to publish. Example:'' @ [CHR 0x0A] @
     ''  PRAGMA tunnel_export(secret='' @ sq @ ''ts'' @ sq @ '', local_port=9494);'' @ [CHR 0x0A] @
     ''  PRAGMA tunnel_export(secret='' @ sq @ ''ts'' @ sq @
     '', local_port=9494, remote_port=19494);'' @ [CHR 0x0A] @
     ''(named parameters use '' @ sq @ ''='' @ sq @ '' '' @ em_dash @ '' a PRAGMA does not accept '' @
     sq @ '':='' @ sq @ '')''"

definition msg_local_port :: "int \<Rightarrow> string" where
  "msg_local_port p =
     ''tunnel_export: local_port must be between '' @ to_string kMinPortNumber @ '' and '' @
     to_string kMaxPortNumber @ '' (got '' @ to_string p @ '').''"

definition msg_remote_port :: "int \<Rightarrow> string" where
  "msg_remote_port p =
     ''tunnel_export: remote_port must be between '' @ to_string kMinPortNumber @ '' and '' @
     to_string kMaxPortNumber @ '', or 0 to let an SSH server allocate one (got '' @ to_string p @
     '').''"

definition msg_export_secret :: string where
  "msg_export_secret =
     ''tunnel_export requires secret = '' @ sq @ ''<name>'' @ sq @
     '' naming the network to publish on, e.g. CREATE SECRET ts (TYPE tunnel, backend '' @ sq @
     ''tailscale'' @ sq @ '', auth_key '' @ sq @ ellipsis @ sq @ '', hostname '' @ sq @ ellipsis @ sq @
     '');''"

definition msg_mesh_remote_host :: "string \<Rightarrow> string" where
  "msg_mesh_remote_host secret_name =
     ''tunnel_export: remote_host applies only to the ssh backend. On a mesh the service is '' @
     ''published on this node'' @ sq @ ''s own mesh address, which you can see with SELECT * FROM '' @
     ''tunnel_self(secret = '' @ sq @ secret_name @ sq @ '');''"

definition msg_mesh_port_zero :: string where
  "msg_mesh_port_zero =
     ''tunnel_export: remote_port = 0 asks the server to allocate a port, which only the ssh '' @
     ''backend can do. On a mesh you choose the port yourself '' @ em_dash @
     '' pass the port peers should connect to, or omit remote_port to reuse local_port.''"

definition msg_exporting :: "string \<Rightarrow> int \<Rightarrow> string \<Rightarrow> int \<Rightarrow> tunnel_id \<Rightarrow> string" where
  "msg_exporting where_to remote_port local_host local_port i =
     ''SELECT '' @ to_string (sint i) @ '' as tunnel_id, '' @ to_string remote_port @
     '' as remote_port, '' @ sq @ ''Exporting '' @ local_host @ '':'' @ to_string local_port @
     where_to @ sq @ '' as message''"

text \<open>The checks before anything is opened: the remote port to use, or the exception.\<close>

definition check_export_ports :: "export_params \<Rightarrow> int outcome" where
  "check_export_ports xp =
     (if xp_local_port xp = 0 then Throws (InvalidInputException msg_export_usage)
      else if xp_local_port xp < kMinPortNumber \<or> xp_local_port xp > kMaxPortNumber then
        Throws (InvalidInputException (msg_local_port (xp_local_port xp)))
      else
        (let remote_port = (if \<not> xp_remote_port_given xp then xp_local_port xp else xp_remote_port xp);
             wants_server_allocated = (remote_port = 0) in
         if \<not> wants_server_allocated \<and>
            (remote_port < kMinPortNumber \<or> remote_port > kMaxPortNumber)
         then Throws (InvalidInputException (msg_remote_port remote_port))
         else Returns remote_port))"

record export_answers =
  xa_ssh :: start_answers
  xa_mesh :: mesh_export_answers

definition export_over_mesh ::
  "'v pragma_env \<Rightarrow> export_answers \<Rightarrow> string \<Rightarrow> export_params \<Rightarrow> int \<Rightarrow> world \<Rightarrow> pragma_result" where
  "export_over_mesh pe a secret_name xp remote_port w =
     (if xp_remote_host xp \<noteq> [] then
        (Some (Throws (InvalidInputException (msg_mesh_remote_host secret_name))), w, [])
      else if remote_port = 0 then
        (Some (Throws (InvalidInputException msg_mesh_port_zero)), w, [])
      else (case MeshBackendFromSecret (pe_lower pe) (pe_secrets pe) secret_name (wo_mc w) of
          (Returns n, mc) \<Rightarrow>
            (let (r, tm, ml, mc1, acts) = CreateMeshExport (pe_platform pe) (pe_build pe) (pe_reader pe)
                   (xa_mesh a) n remote_port (xp_local_host xp) (xp_local_port xp) (wo_tm w) (wo_ml w) mc
             in (answer r (msg_exporting '' on the mesh'' remote_port (xp_local_host xp) (xp_local_port xp)),
                 \<lparr>wo_tm = tm, wo_ml = ml, wo_mc = mc1\<rparr>, acts))
        | (Throws e, mc) \<Rightarrow> (Some (Throws e), w\<lparr>wo_mc := mc\<rparr>, [])
        | (Undefined, mc) \<Rightarrow> (Some Undefined, w\<lparr>wo_mc := mc\<rparr>, [])))"

definition export_over_ssh ::
  "'v pragma_env \<Rightarrow> export_answers \<Rightarrow> (string \<times> 'v) list \<Rightarrow> string \<Rightarrow> export_params \<Rightarrow> int \<Rightarrow> world \<Rightarrow>
   pragma_result" where
  "export_over_ssh pe a named secret_name xp remote_port w =
     (case GetTunnelAuthParamsFromContext (pe_secrets pe) secret_name of
        Throws e \<Rightarrow> (Some (Throws e), w, [])
      | Undefined \<Rightarrow> (Some Undefined, w, [])
      | Returns auth \<Rightarrow>
          (case read_timeout pe named 60 of
             Throws e \<Rightarrow> (Some (Throws e), w, [])
           | Undefined \<Rightarrow> (Some Undefined, w, [])
           | Returns timeout_seconds \<Rightarrow>
               (let (r, tm, l) = CreateSshExport (pe_platform pe) (xa_ssh a) auth (xp_local_host xp)
                      (xp_local_port xp) (xp_remote_host xp) remote_port timeout_seconds (wo_tm w)
                in (answer (Some r) (\<lambda>i. msg_exporting '' via the SSH server'' (GetTunnelBoundPort i tm)
                      (xp_local_host xp) (xp_local_port xp) i),
                    w\<lparr>wo_tm := tm\<rparr>, map Os l))))"

definition TunnelExport ::
  "'v pragma_env \<Rightarrow> export_answers \<Rightarrow> (string \<times> 'v) list \<Rightarrow> world \<Rightarrow> pragma_result" where
  "TunnelExport pe a named w =
     (case read_export_params pe named default_export_params of
        Throws e \<Rightarrow> (Some (Throws e), w, [])
      | Undefined \<Rightarrow> (Some Undefined, w, [])
      | Returns xp \<Rightarrow>
          (case check_export_ports xp of
             Throws e \<Rightarrow> (Some (Throws e), w, [])
           | Undefined \<Rightarrow> (Some Undefined, w, [])
           | Returns remote_port \<Rightarrow>
               (let secret_name = GetTunnelSecretNameFromParams (pe_text pe) named in
                if secret_name = [] then
                  (Some (Throws (InvalidInputException msg_export_secret)), w, [])
                else if pe_has_mesh pe \<and>
                  SecretMeshKind (pe_lower pe) (pe_secrets pe) secret_name \<noteq> MeshNone
                then export_over_mesh pe a secret_name xp remote_port w
                else export_over_ssh pe a named secret_name xp remote_port w)))"

subsection \<open>tunnel_close and tunnel_close_all\<close>

definition msg_close_result :: "int \<Rightarrow> bool \<Rightarrow> string" where
  "msg_close_result tunnel_id success =
     ''SELECT '' @ to_string tunnel_id @ '' as tunnel_id, '' @ sq @
     (if success then ''Tunnel closed successfully'' else ''Tunnel not found or already closed'') @
     sq @ '' as message''"

definition TunnelClose ::
  "'v pragma_env \<Rightarrow> close_env \<Rightarrow> 'v \<Rightarrow> TunnelManager \<Rightarrow> string outcome \<times> TunnelManager \<times> action list" where
  "TunnelClose pe env v tm =
     (case pe_int pe v of
        Throws e \<Rightarrow> (Throws e, tm, [])
      | Undefined \<Rightarrow> (Undefined, tm, [])
      | Returns tunnel_id \<Rightarrow>
          (let (success, tm', acts) = CloseTunnel env (word_of_int tunnel_id) tm
           in (Returns (msg_close_result tunnel_id success), tm', acts)))"

definition TunnelCloseAll ::
  "close_env \<Rightarrow> TunnelManager \<Rightarrow> string outcome \<times> TunnelManager \<times> action list" where
  "TunnelCloseAll env tm =
     (let (tm', acts) = CloseAllTunnels env tm
      in (Returns (''SELECT '' @ sq @ ''All tunnels closed successfully'' @ sq @ '' as message''),
          tm', acts))"

section \<open>Lemmas\<close>

lemma answer_Returns:
  "answer r query = Some (Returns s) \<longleftrightarrow> (\<exists>i. r = Some (Returns i) \<and> s = query i)"
  by (auto simp: answer_def split: option.splits outcome.splits)

lemma answer_not_Returns: "(\<And>s. answer r query \<noteq> Some (Returns s)) \<Longrightarrow> r \<noteq> Some (Returns i)"
  by (auto simp: answer_Returns)

lemma answer_cases:
  "(\<And>s. r = Some (Returns s) \<Longrightarrow> P s) \<Longrightarrow> ((\<And>s. r \<noteq> Some (Returns s)) \<Longrightarrow> Q) \<Longrightarrow>
   (case r of Some (Returns s) \<Rightarrow> P s | _ \<Rightarrow> Q)"
  by (auto split: option.split outcome.split)

text \<open>What \<open>published\<close> says of the two kinds of results.\<close>

lemma published_Returns:
  assumes "published tm (Some (Returns i)) tm'"
  shows "find_tunnel tm i = None" "tm_wf tm'" "find_tunnel tm' = (find_tunnel tm)(i \<mapsto> the (find_tunnel tm' i))"
  using assms by (auto simp: published_def)

lemma published_otherwise:
  "published tm r tm' \<Longrightarrow> (\<And>i. r \<noteq> Some (Returns i)) \<Longrightarrow> tm_tunnels tm' = tm_tunnels tm"
  by (auto simp: published_def split: option.splits outcome.splits)

text \<open>An import as it was asked for.\<close>

definition imports_as_asked :: "import_params \<Rightarrow> TunnelHandle \<Rightarrow> bool" where
  "imports_as_asked ip h \<longleftrightarrow> handle_IsActive h \<and>
     (let at = handle_GetAttributes h in
      at_direction at = ''import'' \<and> at_remote_host at = ip_remote_host ip \<and>
      at_remote_port at = ip_remote_port ip \<and> at_local_port at = ip_local_port ip \<and>
      at_bind_addr at = bind_address (ip_bind_all ip))"

lemma CreateTunnel_imports:
  assumes "CreateTunnel pl what a auth (ip_remote_host ip) (ip_remote_port ip) (ip_local_port ip)
      sh sp su timeout (ip_bind_all ip) tm = (Some (Returns i), tm', l)"
  shows "\<exists>h. find_tunnel tm' i = Some h \<and> imports_as_asked ip h"
proof -
  from assms obtain conn l1 where e: "establish_tunnel pl a auth (ip_remote_host ip) (ip_remote_port ip)
      (ip_local_port ip) sh sp su timeout (ip_bind_all ip) = (Some (Returns conn), l1)"
    and tm': "tm' = store_tunnel i (SshTunnelHandle (Some conn)) (snd (GenerateTunnelId tm))"
    by (auto simp: CreateTunnel_def case_prod_beta prod_eq_iff split: option.splits outcome.splits if_splits)
  from establish_tunnel_returns(4,5) [OF e] show ?thesis
    by (auto simp: tm' find_tunnel_def store_tunnel_def map_of_put_entry imports_as_asked_def
        tc_GetAttributes_def default_attributes_def)
qed

lemma CreateMeshTunnel_imports:
  assumes "CreateMeshTunnel pl mb a n (ip_remote_host ip) (ip_remote_port ip) (ip_local_port ip)
      timeout (ip_bind_all ip) tm ml mc = (Some (Returns i), tm', ml', mc', l)"
  shows "\<exists>h. find_tunnel tm' i = Some h \<and> imports_as_asked ip h"
proof -
  let ?fo = "make_MeshForwarder pl (Kind (mc_nodes mc ! n)) (ip_remote_host ip) (ip_remote_port ip)
    (ip_local_port ip) (ip_bind_all ip)"
  obtain x fo ml1 be1 calls l' where st: "MeshForwarder_Start pl mb timeout a ml (mc_nodes mc ! n) ?fo =
      (x, fo, ml1, be1, calls, l')"
    by (metis prod_cases6)
  with assms have x: "x = Some (Returns ())"
    and tm': "tm' = store_tunnel i (MeshForwardHandle fo) (snd (GenerateTunnelId tm))"
    by (auto simp: CreateMeshTunnel_def Let_def case_prod_beta split: option.splits outcome.splits)
  from MeshForwarder_Start_returns [OF st [unfolded x]] show ?thesis
    by (auto simp: tm' find_tunnel_def store_tunnel_def map_of_put_entry imports_as_asked_def
        fo_GetAttributes_def fo_IsActive_def default_attributes_def make_MeshForwarder_def bind_address_def)
qed

text \<open>An export as it was asked for, published on the port \<open>bound\<close>.\<close>

definition exports_as_asked :: "export_params \<Rightarrow> int \<Rightarrow> TunnelHandle \<Rightarrow> bool" where
  "exports_as_asked xp bound h \<longleftrightarrow> handle_IsActive h \<and> bound \<noteq> 0 \<and>
     (let at = handle_GetAttributes h in
      at_direction at = ''export'' \<and> at_local_host at = xp_local_host xp \<and>
      at_local_port at = xp_local_port xp \<and> at_remote_port at = bound)"

lemma CreateSshExport_exports:
  assumes "CreateSshExport pl a auth (xp_local_host xp) (xp_local_port xp) rbh rp timeout tm =
      (Returns i, tm', l)"
  shows "\<exists>h. find_tunnel tm' i = Some h \<and> exports_as_asked xp (GetTunnelBoundPort i tm') h"
proof -
  let ?ex = "make_SshExporter pl auth (xp_local_host xp) (xp_local_port xp) rbh rp"
  obtain x ex l' where st: "SshExporter_Start pl timeout a ?ex = (x, ex, l')" by (metis prod_cases3)
  with assms have x: "x = Returns ()"
    and tm': "tm' = store_tunnel i (SshExportHandle ex) (snd (GenerateTunnelId tm))"
    by (auto simp: CreateSshExport_def case_prod_beta split: outcome.splits)
  from SshExporter_Start_returns [OF st [unfolded x]] show ?thesis
    by (auto simp: tm' find_tunnel_def store_tunnel_def map_of_put_entry exports_as_asked_def
        GetTunnelBoundPort_def export_started_def ex_GetAttributes_def ex_IsActive_def make_SshExporter_def)
qed

lemma CreateMeshExport_exports:
  assumes "CreateMeshExport pl mb reader a n port (xp_local_host xp) (xp_local_port xp) tm ml mc =
      (Some (Returns i), tm', ml', mc', l)" and "port \<noteq> 0"
  shows "\<exists>h. find_tunnel tm' i = Some h \<and> exports_as_asked xp port h"
proof -
  let ?ep = "make_MeshExporter (Kind (mc_nodes mc ! n)) port (xp_local_host xp) (xp_local_port xp)"
  obtain x ep ml1 be1 calls where st: "MeshExporter_Start pl mb reader a ml (mc_nodes mc ! n) ?ep =
      (x, ep, ml1, be1, calls)"
    by (metis prod_cases5)
  with assms have x: "x = Some (Returns ())"
    and tm': "tm' = store_tunnel i (MeshExportHandle n ep) (snd (GenerateTunnelId tm))"
    by (auto simp: CreateMeshExport_def Let_def case_prod_beta split: option.splits outcome.splits)
  from MeshExporter_Start_returns [OF st [unfolded x]] assms(2) show ?thesis
    by (auto simp: tm' find_tunnel_def store_tunnel_def map_of_put_entry exports_as_asked_def
        ep_GetAttributes_def ep_IsActive_def make_MeshExporter_def)
qed

text \<open>Which routes a handler takes, and what they leave in the registry.\<close>

lemma create_over_mesh_result:
  assumes "tm_wf (wo_tm w)" and "ids_left (wo_tm w)" and "create_over_mesh pe a name ip w = (r, w', acts)"
  shows "(\<forall>s. r = Some (Returns s) \<longrightarrow> (\<exists>i h. s = msg_created i \<and> find_tunnel (wo_tm w) i = None \<and>
      find_tunnel (wo_tm w') = (find_tunnel (wo_tm w))(i \<mapsto> h) \<and> imports_as_asked ip h)) \<and>
    ((\<forall>s. r \<noteq> Some (Returns s)) \<longrightarrow> tm_tunnels (wo_tm w') = tm_tunnels (wo_tm w))"
proof -
  obtain x mc where m: "MeshBackendFromSecret (pe_lower pe) (pe_secrets pe) name (wo_mc w) = (x, mc)"
    by fastforce
  show ?thesis
  proof (cases x)
    case (Returns n)
    obtain r' tm ml mc' acts' where c: "CreateMeshTunnel (pe_platform pe) (pe_build pe) (ia_mesh a) n
        (ip_remote_host ip) (ip_remote_port ip) (ip_local_port ip) (ip_timeout_seconds ip)
        (ip_bind_all ip) (wo_tm w) (wo_ml w) mc = (r', tm, ml, mc', acts')"
      by (metis prod_cases5)
    with assms(3) m Returns have r: "r = answer r' msg_created" "wo_tm w' = tm"
      by (auto simp: create_over_mesh_def)
    note p = CreateMeshTunnel_published [OF assms(1,2) c]
    have "\<exists>h. find_tunnel (wo_tm w) i = None \<and> find_tunnel tm = (find_tunnel (wo_tm w))(i \<mapsto> h) \<and>
        imports_as_asked ip h" if "r' = Some (Returns i)" for i
      using published_Returns [OF p [unfolded that]] CreateMeshTunnel_imports [OF c [unfolded that]]
      by (metis option.sel)
    then show ?thesis using r p published_otherwise [OF p] by (auto simp: answer_Returns)
  qed (use assms(3) m in \<open>auto simp: create_over_mesh_def\<close>)
qed

lemma create_over_ssh_result:
  assumes "tm_wf (wo_tm w)" and "ids_left (wo_tm w)" and "create_over_ssh pe a name ip w = (r, w', acts)"
  shows "(\<forall>s. r = Some (Returns s) \<longrightarrow> (\<exists>i h. s = msg_created i \<and> find_tunnel (wo_tm w) i = None \<and>
      find_tunnel (wo_tm w') = (find_tunnel (wo_tm w))(i \<mapsto> h) \<and> imports_as_asked ip h)) \<and>
    ((\<forall>s. r \<noteq> Some (Returns s)) \<longrightarrow> tm_tunnels (wo_tm w') = tm_tunnels (wo_tm w))"
proof (cases "GetTunnelAuthParamsFromContext (pe_secrets pe) name")
  case (Returns auth)
  obtain r' tm l where c: "CreateTunnel (pe_platform pe) (pe_what pe) (ia_ssh a) auth
      (ip_remote_host ip) (ip_remote_port ip) (ip_local_port ip) (au_ssh_host auth) (au_ssh_port auth)
      (au_ssh_user auth) (ip_timeout_seconds ip) (ip_bind_all ip) (wo_tm w) = (r', tm, l)"
    by (metis prod_cases3)
  with assms(3) Returns have r: "r = answer r' msg_created" "wo_tm w' = tm"
    by (auto simp: create_over_ssh_def)
  note p = CreateTunnel_published [OF assms(1,2) c]
  have "\<exists>h. find_tunnel (wo_tm w) i = None \<and> find_tunnel tm = (find_tunnel (wo_tm w))(i \<mapsto> h) \<and>
      imports_as_asked ip h" if "r' = Some (Returns i)" for i
    using published_Returns [OF p [unfolded that]] CreateTunnel_imports [OF c [unfolded that]]
    by (metis option.sel)
  then show ?thesis using r p published_otherwise [OF p] by (auto simp: answer_Returns)
qed (use assms(3) in \<open>auto simp: create_over_ssh_def\<close>)

lemma export_over_mesh_result:
  assumes "tm_wf (wo_tm w)" and "ids_left (wo_tm w)"
    and "export_over_mesh pe a name xp port w = (r, w', acts)"
  shows "(\<forall>s. r = Some (Returns s) \<longrightarrow> port \<noteq> 0 \<and> (\<exists>i h. find_tunnel (wo_tm w) i = None \<and>
      s = msg_exporting '' on the mesh'' port (xp_local_host xp) (xp_local_port xp) i \<and>
      find_tunnel (wo_tm w') = (find_tunnel (wo_tm w))(i \<mapsto> h) \<and> exports_as_asked xp port h)) \<and>
    ((\<forall>s. r \<noteq> Some (Returns s)) \<longrightarrow> tm_tunnels (wo_tm w') = tm_tunnels (wo_tm w))"
proof (cases "xp_remote_host xp \<noteq> [] \<or> port = 0")
  case True
  with assms(3) show ?thesis by (auto simp: export_over_mesh_def split: if_splits)
next
  case False
  obtain x mc where m: "MeshBackendFromSecret (pe_lower pe) (pe_secrets pe) name (wo_mc w) = (x, mc)"
    by fastforce
  show ?thesis
  proof (cases x)
    case (Returns n)
    obtain r' tm ml mc' acts' where c: "CreateMeshExport (pe_platform pe) (pe_build pe) (pe_reader pe)
        (xa_mesh a) n port (xp_local_host xp) (xp_local_port xp) (wo_tm w) (wo_ml w) mc =
        (r', tm, ml, mc', acts')"
      by (metis prod_cases5)
    with assms(3) m Returns False
    have r: "r = answer r' (msg_exporting '' on the mesh'' port (xp_local_host xp) (xp_local_port xp))"
      "wo_tm w' = tm"
      by (auto simp: export_over_mesh_def)
    note p = CreateMeshExport_published [OF assms(1,2) c]
    have "\<exists>h. find_tunnel (wo_tm w) i = None \<and> find_tunnel tm = (find_tunnel (wo_tm w))(i \<mapsto> h) \<and>
        exports_as_asked xp port h" if "r' = Some (Returns i)" for i
      using published_Returns [OF p [unfolded that]] CreateMeshExport_exports [OF c [unfolded that]] False
      by (metis option.sel)
    then show ?thesis using r p published_otherwise [OF p] False by (auto simp: answer_Returns)
  qed (use assms(3) m False in \<open>auto simp: export_over_mesh_def\<close>)
qed

lemma export_over_ssh_result:
  assumes "tm_wf (wo_tm w)" and "ids_left (wo_tm w)"
    and "export_over_ssh pe a named name xp port w = (r, w', acts)"
  shows "(\<forall>s. r = Some (Returns s) \<longrightarrow> (\<exists>i h bound. find_tunnel (wo_tm w) i = None \<and>
      s = msg_exporting '' via the SSH server'' bound (xp_local_host xp) (xp_local_port xp) i \<and>
      find_tunnel (wo_tm w') = (find_tunnel (wo_tm w))(i \<mapsto> h) \<and> exports_as_asked xp bound h)) \<and>
    ((\<forall>s. r \<noteq> Some (Returns s)) \<longrightarrow> tm_tunnels (wo_tm w') = tm_tunnels (wo_tm w))"
proof (cases "GetTunnelAuthParamsFromContext (pe_secrets pe) name")
  case (Returns auth)
  show ?thesis
  proof (cases "read_timeout pe named 60")
    case (Returns t)
    obtain r' tm l where c: "CreateSshExport (pe_platform pe) (xa_ssh a) auth (xp_local_host xp)
        (xp_local_port xp) (xp_remote_host xp) port t (wo_tm w) = (r', tm, l)"
      by (metis prod_cases3)
    with assms(3) Returns \<open>GetTunnelAuthParamsFromContext _ _ = _\<close>
    have r: "r = answer (Some r') (\<lambda>i. msg_exporting '' via the SSH server'' (GetTunnelBoundPort i tm)
        (xp_local_host xp) (xp_local_port xp) i)" "wo_tm w' = tm"
      by (auto simp: export_over_ssh_def)
    note p = CreateSshExport_published [OF assms(1,2) c]
    have "\<exists>h. find_tunnel (wo_tm w) i = None \<and> find_tunnel tm = (find_tunnel (wo_tm w))(i \<mapsto> h) \<and>
        exports_as_asked xp (GetTunnelBoundPort i tm) h" if "r' = Returns i" for i
      using published_Returns [OF p [unfolded that]] CreateSshExport_exports [OF c [unfolded that]]
      by (metis option.sel)
    then show ?thesis using r p published_otherwise [OF p] by (auto simp: answer_Returns) blast
  qed (use assms(3) Returns in \<open>auto simp: export_over_ssh_def\<close>)
qed (use assms(3) in \<open>auto simp: export_over_ssh_def\<close>)

lemma check_export_ports_Returns:
  "check_export_ports xp = Returns port \<longleftrightarrow>
     valid_port (xp_local_port xp) \<and>
     port = (if xp_remote_port_given xp then xp_remote_port xp else xp_local_port xp) \<and>
     (port = 0 \<or> valid_port port)"
  by (auto simp: check_export_ports_def valid_port_def Let_def port_defs)

section \<open>Properties\<close>


text \<open>A value of the demonstrations carries its three readings.\<close>

definition demo_pe :: "(string \<times> int \<times> bool) pragma_env" where
  "demo_pe = \<lparr>pe_platform = Linux, pe_has_mesh = False, pe_build = demo_build, pe_lower = id,
     pe_text = fst, pe_int = (\<lambda>v. Returns (fst (snd v))), pe_bool = (\<lambda>v. Returns (snd (snd v))),
     pe_secrets = (\<lambda>_. Some \<lparr>sec_type = ''tunnel'', sec_provider = ''config'', sec_name = ''s'',
       sec_map = [''ssh_host'' \<mapsto> ''bastion'', ''ssh_user'' \<mapsto> ''deploy'', ''password'' \<mapsto> ''pw''],
       sec_redact_keys = []\<rparr>),
     pe_what = (\<lambda>_. []), pe_reader = (\<lambda>_. None)\<rparr>"

definition demo_text :: "string \<Rightarrow> string \<times> int \<times> bool" where
  "demo_text s = (s, 0, False)"

definition demo_int :: "int \<Rightarrow> string \<times> int \<times> bool" where
  "demo_int i = ([], i, False)"

definition demo_world :: world where
  "demo_world = \<lparr>wo_tm = demo_manager, wo_ml = demo_loader, wo_mc = demo_cache\<rparr>"

definition demo_named_import :: "(string \<times> string \<times> int \<times> bool) list" where
  "demo_named_import = [(''secret'', demo_text ''s''), (''local_port'', demo_int 6432),
     (''remote_host'', demo_text ''db''), (''remote_port'', demo_int 5432)]"

definition demo_import_answers :: import_answers where
  "demo_import_answers = \<lparr>ia_ssh = demo_create,
     ia_mesh = \<lparr>fs_up = demo_up, fs_socket = 5, fs_bind = 0, fs_listen = 0, fs_probes = []\<rparr>\<rparr>"

lemma demo_auth_params: "GetTunnelAuthParamsFromContext (pe_secrets demo_pe) ''s'' = Returns demo_params"
  by (simp add: GetTunnelAuthParamsFromContext_def FromContext_def LookupTunnelSecret_def demo_pe_def
      TUNNEL_SECRET_TYPE_ALIAS_def ConvertTunnelSecretToAuthParams_def text_or_empty_def
      secret_ssh_port_def secret_auth_method_def demo_params_def default_auth_params_def
      kDefaultSshPort_def kAuthMethodPassword_def)

lemma demo_pe_fields:
  "pe_platform demo_pe = Linux" "pe_has_mesh demo_pe = False" "pe_what demo_pe = (\<lambda>_. [])"
  "au_ssh_host demo_params = ''bastion''" "au_ssh_port demo_params = 22"
  "au_ssh_user demo_params = ''deploy''"
  by (simp_all add: demo_pe_def demo_params_def default_auth_params_def kDefaultSshPort_def)



definition demo_named_export :: "(string \<times> string \<times> int \<times> bool) list" where
  "demo_named_export = [(''secret'', demo_text ''s''), (''local_port'', demo_int 70000)]"


text \<open>\<^verbatim>\<open>PRAGMA tunnel_close\<close> is idempotent and exact: it says whether the tunnel was
  there, removes that tunnel and no other, and a second call reports that nothing was found,
  changes nothing and makes no call. Closing all leaves nothing to close.\<close>

theorem TunnelClose_idempotent:
  assumes "tm_invariant tm" and "pe_int pe v = Returns k"
  shows "(case TunnelClose pe env v tm of (r, tm', acts) \<Rightarrow>
      r = Returns (msg_close_result k (find_tunnel tm (word_of_int k) \<noteq> None)) \<and>
      find_tunnel tm' = (find_tunnel tm)(word_of_int k := None) \<and>
      TunnelClose pe env' v tm' = (Returns (msg_close_result k False), tm', [])) \<and>
    (case TunnelCloseAll env tm of (r, tm', acts) \<Rightarrow>
      find_tunnel tm' = Map.empty \<and>
      TunnelClose pe env' v tm' = (Returns (msg_close_result k False), tm', []))"
proof -
  have miss: "TunnelClose pe env' v tm' = (Returns (msg_close_result k False), tm', [])"
    if "find_tunnel tm' (word_of_int k) = None" for tm'
    using that assms(2) by (simp add: TunnelClose_def CloseTunnel_def)
  have none: "find_tunnel (fst (CloseAllTunnels env tm)) = Map.empty"
    by (simp add: CloseAllTunnels_def find_tunnel_def fun_eq_iff)
  show ?thesis
  proof (cases "find_tunnel tm (word_of_int k)")
    case None
    then show ?thesis
      using miss none assms(2) by (auto simp: TunnelClose_def CloseTunnel_def TunnelCloseAll_def case_prod_beta)
  next
    case (Some h)
    then show ?thesis
      using miss none assms registry.lookup_erase [OF assms(1), of "word_of_int k"]
      by (simp add: TunnelClose_def CloseTunnel_def TunnelCloseAll_def case_prod_beta)
  qed
qed

theorem TunnelClose_idempotent_witness:
  "fst (TunnelClose demo_pe demo_env (demo_int 2) demo_manager) = Returns (msg_close_result 2 True) \<and>
   find_tunnel (fst (snd (TunnelClose demo_pe demo_env (demo_int 2) demo_manager))) 2 = None"
proof -
  have "pe_int demo_pe (demo_int 2) = Returns 2" by (simp add: demo_pe_def demo_int_def)
  moreover have "tm_invariant demo_manager" using demo_manager_wf(1) by (simp add: tm_wf_def)
  moreover have "find_tunnel demo_manager 2 \<noteq> None" by (simp add: find_tunnel_def demo_manager_def)
  ultimately show ?thesis
    using TunnelClose_idempotent [of demo_manager demo_pe "demo_int 2" 2 demo_env demo_env]
    by (simp add: case_prod_beta)
qed

end
