(* ===== verification/Scan_Interface.thy ===== *)
theory Scan_Interface
  imports Tunnel_Prelude
begin

text \<open>
  How DuckDB consumes a table function: it calls the function again and again, each call fills one
  chunk from a cursor in the bind data, and an empty chunk ends the scan. The locale states what a
  bind data of this extension promises for one call; its lemmas give the whole scan. The bind data
  of \<^verbatim>\<open>tunnels()\<close> and of \<^verbatim>\<open>tunnel_peers()\<close>/\<^verbatim>\<open>tunnel_self()\<close> interpret it.
\<close>

text \<open>The DuckDB types the extension uses, and a value with the type it is built with.\<close>

datatype LogicalType = BIGINT | INTEGER | VARCHAR | BOOLEAN | LIST LogicalType

datatype cell =
    BigIntCell "64 word"
  | IntegerCell int
  | VarcharCell string
  | BooleanCell bool
  | VarcharListCell "string list"

fun cell_type :: "cell \<Rightarrow> LogicalType" where
  "cell_type (BigIntCell i) = BIGINT"
| "cell_type (IntegerCell i) = INTEGER"
| "cell_type (VarcharCell s) = VARCHAR"
| "cell_type (BooleanCell b) = BOOLEAN"
| "cell_type (VarcharListCell ss) = LIST VARCHAR"

text \<open>The rows of \<open>n\<close> calls.\<close>

primrec drain :: "('s \<Rightarrow> 'r list \<times> 's) \<Rightarrow> nat \<Rightarrow> 's \<Rightarrow> 'r list" where
  "drain fetch 0 s = []"
| "drain fetch (Suc n) s = fst (fetch s) @ drain fetch n (snd (fetch s))"

locale chunked_scan =
  fixes rows :: "'s \<Rightarrow> 'r list"
    and cursor :: "'s \<Rightarrow> nat"
    and fetch :: "'s \<Rightarrow> 'r list \<times> 's"
    and width :: nat
  assumes width_positive: "0 < width"
    and rows_kept: "rows (snd (fetch s)) = rows s"
    and chunk: "fst (fetch s) = take width (drop (cursor s) (rows s))"
    and advance: "cursor (snd (fetch s)) = cursor s + length (fst (fetch s))"
begin

lemma empty_chunk_iff: "fst (fetch s) = [] \<longleftrightarrow> length (rows s) \<le> cursor s"
  using width_positive by (simp add: chunk)

lemma drain_prefix: "drain fetch n s = take (n * width) (drop (cursor s) (rows s))"
proof (induction n arbitrary: s)
  case (Suc n)
  have "drop (cursor (snd (fetch s))) (rows s) = drop (length (fst (fetch s))) (drop (cursor s) (rows s))"
    by (simp add: advance add.commute)
  also have "\<dots> = drop width (drop (cursor s) (rows s))"
    by (simp add: chunk min_def)
  finally have "drain fetch n (snd (fetch s)) = take (n * width) (drop width (drop (cursor s) (rows s)))"
    using Suc.IH [of "snd (fetch s)"] by (simp add: rows_kept)
  then show ?case by (simp add: chunk take_add add.commute)
qed simp

lemma drain_complete:
  assumes "length (rows s) \<le> cursor s + n * width"
  shows "drain fetch n s = drop (cursor s) (rows s)"
  using assms by (simp add: drain_prefix)

end

end
