(* ===== verification/Tunnel_Scanner.thy ===== *)
theory Tunnel_Scanner
  imports Tunnel_Manager Scan_Interface
begin

text \<open>
  The table function \<^verbatim>\<open>tunnels()\<close>, from \<^verbatim>\<open>src/src/scanner_tunnels.cpp\<close> and its header: the
  bind declares the columns and takes a snapshot of the manager, and each call of the function
  emits one row.
\<close>

section \<open>Definitions\<close>

definition tunnels_return_types :: "LogicalType list" where
  "tunnels_return_types =
     [BIGINT, VARCHAR, VARCHAR, VARCHAR, INTEGER, VARCHAR, VARCHAR, INTEGER, INTEGER, VARCHAR,
      VARCHAR, VARCHAR]"

definition tunnels_names :: "string list" where
  "tunnels_names =
     [''tunnel_id'', ''backend'', ''direction'', ''ssh_host'', ''ssh_port'', ''ssh_user'',
      ''remote_host'', ''remote_port'', ''local_port'', ''bind_addr'', ''local_host'', ''status'']"

record TunnelsBindData =
  tb_tunnels :: "(tunnel_id \<times> TunnelConnectionAttributes) list"
  tb_current_row :: nat

definition make_TunnelsBindData ::
  "(tunnel_id \<times> TunnelConnectionAttributes) list \<Rightarrow> TunnelsBindData" where
  "make_TunnelsBindData tunnels = \<lparr>tb_tunnels = tunnels, tb_current_row = 0\<rparr>"

definition tb_Copy :: "TunnelsBindData \<Rightarrow> TunnelsBindData" where
  "tb_Copy b = make_TunnelsBindData (tb_tunnels b)"

definition tb_Equals :: "TunnelsBindData \<Rightarrow> TunnelsBindData \<Rightarrow> bool" where
  "tb_Equals b c \<longleftrightarrow>
     list_all2 (\<lambda>(i, at) (j, at'). i = j \<and> attributes_eq at at') (tb_tunnels b) (tb_tunnels c)"

definition HasMoreResults :: "TunnelsBindData \<Rightarrow> bool" where
  "HasMoreResults b \<longleftrightarrow> tb_current_row b < length (tb_tunnels b)"

definition tunnel_row :: "tunnel_id \<times> TunnelConnectionAttributes \<Rightarrow> cell list" where
  "tunnel_row info =
     (let at = snd info in
      [BigIntCell (fst info), VarcharCell (at_backend at), VarcharCell (at_direction at),
       VarcharCell (at_ssh_host at), IntegerCell (at_ssh_port at), VarcharCell (at_ssh_user at),
       VarcharCell (at_remote_host at), IntegerCell (at_remote_port at),
       IntegerCell (at_local_port at), VarcharCell (at_bind_addr at),
       VarcharCell (at_local_host at), VarcharCell (at_status at)])"

text \<open>The rows of the chunk, and the bind data with its cursor moved on.\<close>

definition FetchNextResult :: "TunnelsBindData \<Rightarrow> cell list list \<times> TunnelsBindData" where
  "FetchNextResult b =
     (if \<not> HasMoreResults b then ([], b)
      else ([tunnel_row (tb_tunnels b ! tb_current_row b)],
            b\<lparr>tb_current_row := tb_current_row b + 1\<rparr>))"

definition ListTunnelsFunction :: "TunnelsBindData \<Rightarrow> cell list list \<times> TunnelsBindData" where
  "ListTunnelsFunction b = (if \<not> HasMoreResults b then ([], b) else FetchNextResult b)"

text \<open>The manager pointer may be null; \<open>owns_lock\<close> is whether the mutex was free.\<close>

definition ListTunnelsBind ::
  "bool \<Rightarrow> TunnelManager option \<Rightarrow> LogicalType list \<times> string list \<times> TunnelsBindData" where
  "ListTunnelsBind owns_lock manager =
     (tunnels_return_types, tunnels_names,
      make_TunnelsBindData
        (case manager of None \<Rightarrow> [] | Some tm \<Rightarrow> ListTunnelsWithDetails owns_lock tm))"

section \<open>Lemmas\<close>

interpretation tunnels_scan: chunked_scan "\<lambda>b. map tunnel_row (tb_tunnels b)" tb_current_row
  ListTunnelsFunction 1
proof unfold_locales
  show "fst (ListTunnelsFunction b) =
      take 1 (drop (tb_current_row b) (map tunnel_row (tb_tunnels b)))" for b
    by (simp add: ListTunnelsFunction_def FetchNextResult_def HasMoreResults_def not_less
        take_Suc_conv_app_nth)
qed (simp_all add: ListTunnelsFunction_def FetchNextResult_def HasMoreResults_def)

lemma tb_Equals_iff: "tb_Equals b c \<longleftrightarrow> tb_tunnels b = tb_tunnels c"
proof -
  have "(\<lambda>(i :: tunnel_id, at) (j, at'). i = j \<and> attributes_eq at at') = (=)"
    by (auto simp: fun_eq_iff attributes_eq_iff)
  then show ?thesis by (simp add: tb_Equals_def list.rel_eq)
qed

section \<open>Properties\<close>

text \<open>C35: \<^verbatim>\<open>SELECT * FROM tunnels()\<close> shows every tunnel of the registry exactly once, with the
  attributes it has at the time of the bind, whenever the bind finds the mutex free; when it does
  not, the result is empty. The number of calls needed is one per tunnel.\<close>

theorem tunnels_complete:
  assumes "tm_invariant tm" and "length (tm_tunnels tm) \<le> n"
    and "ListTunnelsBind owns_lock (Some tm) = (types, names, b)"
  shows "set (drain ListTunnelsFunction n b) =
      (if owns_lock then {tunnel_row (i, handle_GetAttributes h) | i h. find_tunnel tm i = Some h} else {}) \<and>
    length (drain ListTunnelsFunction n b) = (if owns_lock then length (tm_tunnels tm) else 0)"
proof -
  have b: "b = make_TunnelsBindData (ListTunnelsWithDetails owns_lock tm)"
    using assms(3) by (simp add: ListTunnelsBind_def)
  have "drain ListTunnelsFunction n b = map tunnel_row (ListTunnelsWithDetails owns_lock tm)"
    using tunnels_scan.drain_complete [of b n] assms(2)
    by (simp add: b make_TunnelsBindData_def ListTunnelsWithDetails_def)
  moreover have "find_tunnel tm i = Some h \<longleftrightarrow> (i, h) \<in> set (tm_tunnels tm)" for i h
    using assms(1) by (simp add: find_tunnel_def tm_invariant_def)
  ultimately show ?thesis by (force simp: ListTunnelsWithDetails_def)
qed

theorem tunnels_complete_witness:
  "length (drain ListTunnelsFunction 3 (snd (snd (ListTunnelsBind True (Some demo_manager))))) = 3"
proof -
  have "tm_invariant demo_manager" "length (tm_tunnels demo_manager) \<le> 3"
    "length (tm_tunnels demo_manager) = 3"
    by (simp_all add: tm_invariant_def demo_manager_def)
  with tunnels_complete [of demo_manager 3 True] show ?thesis by (metis prod.collapse)
qed

text \<open>C36: Every row of \<^verbatim>\<open>tunnels()\<close> has the declared columns: as many cells as names and types,
  each of its declared type; a copied plan starts its scan over and is equal to the original.\<close>

theorem tunnels_rows_typed:
  assumes "ListTunnelsBind owns_lock manager = (types, names, b)"
  shows "distinct names \<and> length names = length types \<and>
    (\<forall>row \<in> set (drain ListTunnelsFunction n b). map cell_type row = types) \<and>
    tb_Equals (tb_Copy b) b \<and> tb_current_row (tb_Copy b) = 0"
proof -
  have "map cell_type (tunnel_row info) = tunnels_return_types" for info
    by (simp add: tunnel_row_def Let_def tunnels_return_types_def)
  moreover have "set (drain ListTunnelsFunction n b) \<subseteq> tunnel_row ` set (tb_tunnels b)"
    by (auto simp: tunnels_scan.drain_prefix dest!: in_set_takeD in_set_dropD)
  moreover have "types = tunnels_return_types" "names = tunnels_names"
    using assms by (simp_all add: ListTunnelsBind_def)
  moreover have "distinct tunnels_names" "length tunnels_names = length tunnels_return_types"
    by (simp_all add: tunnels_names_def tunnels_return_types_def)
  ultimately show ?thesis
    by (auto simp: tb_Equals_iff tb_Copy_def make_TunnelsBindData_def)
qed

theorem tunnels_rows_typed_witness:
  "map (map cell_type) (drain ListTunnelsFunction 2
       (snd (snd (ListTunnelsBind True (Some demo_manager))))) =
     replicate 2 tunnels_return_types"
proof -
  let ?b = "ListTunnelsBind True (Some demo_manager)"
  have "?b = (tunnels_return_types, tunnels_names, snd (snd ?b))" by (simp add: ListTunnelsBind_def)
  from tunnels_rows_typed [OF this, of 2]
  have "map (map cell_type) (drain ListTunnelsFunction 2 (snd (snd ?b))) =
      replicate (length (drain ListTunnelsFunction 2 (snd (snd ?b)))) tunnels_return_types"
    by (simp add: map_replicate_const [symmetric] del: map_replicate_const)
  moreover have "length (drain ListTunnelsFunction 2 (snd (snd ?b))) = 2"
    by (simp add: tunnels_scan.drain_prefix ListTunnelsBind_def make_TunnelsBindData_def
        ListTunnelsWithDetails_def demo_manager_def)
  ultimately show ?thesis by simp
qed

end
