(* ===== verification/Mesh_Discovery.thy ===== *)
theory Mesh_Discovery
  imports Mesh_Backend Scan_Interface
begin

text \<open>
  The table functions \<^verbatim>\<open>tunnel_peers\<close> and \<^verbatim>\<open>tunnel_self\<close>, from the second half of
  \<^verbatim>\<open>src/src/mesh_backend.cpp\<close>: the bind declares the columns, finds the node of the secret,
  brings it up, asks it for its status and parses the text; each call of the function then fills one
  vector. The named parameters, the secret manager, the JSON reader and the shim's replies are
  arguments.
\<close>

section \<open>Definitions\<close>

record MeshPeersBindData =
  pb_rows :: "MeshPeer list"
  pb_cursor :: nat

definition make_MeshPeersBindData :: "MeshPeer list \<Rightarrow> MeshPeersBindData" where
  "make_MeshPeersBindData rows = \<lparr>pb_rows = rows, pb_cursor = 0\<rparr>"

definition pb_Copy :: "MeshPeersBindData \<Rightarrow> MeshPeersBindData" where
  "pb_Copy b = make_MeshPeersBindData (pb_rows b)"

definition pb_Equals :: "MeshPeersBindData \<Rightarrow> MeshPeersBindData \<Rightarrow> bool" where
  "pb_Equals b c = False"

definition PeersSchema :: "LogicalType list \<times> string list" where
  "PeersSchema =
     ([VARCHAR, VARCHAR, VARCHAR, VARCHAR, LIST VARCHAR, BOOLEAN],
      [''backend'', ''host_name'', ''dns_name'', ''mesh_ip'', ''tags'', ''online''])"

definition STANDARD_VECTOR_SIZE :: nat where "STANDARD_VECTOR_SIZE = 2048"

definition peer_cells :: "MeshPeer \<Rightarrow> cell list" where
  "peer_cells r =
     [VarcharCell (mp_backend r), VarcharCell (mp_host_name r), VarcharCell (mp_dns_name r),
      VarcharCell (mp_mesh_ip r), VarcharListCell (mp_tags r), BooleanCell (mp_online r)]"

text \<open>The loop of one call: \<open>count\<close> rows are in the chunk already.\<close>

function emit_loop :: "nat \<Rightarrow> MeshPeersBindData \<Rightarrow> cell list list \<times> MeshPeersBindData" where
  "emit_loop count bind =
     (if pb_cursor bind < length (pb_rows bind) \<and> count < STANDARD_VECTOR_SIZE then
        (let (out, bind') = emit_loop (count + 1) (bind\<lparr>pb_cursor := pb_cursor bind + 1\<rparr>)
         in (peer_cells (pb_rows bind ! pb_cursor bind) # out, bind'))
      else ([], bind))"
  by pat_completeness auto
termination
  by (relation "measure (\<lambda>(count, bind). STANDARD_VECTOR_SIZE - count)") auto

declare emit_loop.simps [simp del]

definition MeshPeersEmit :: "MeshPeersBindData \<Rightarrow> cell list list \<times> MeshPeersBindData" where
  "MeshPeersEmit bind = emit_loop 0 bind"

text \<open>
  What the binds consult and change: the platform and the build, the reader of parameters and
  secrets, and the process-wide loader and cache of nodes.
\<close>

record 'v discovery_env =
  de_platform :: platform
  de_build :: mesh_build
  de_lower :: "string \<Rightarrow> string"
  de_text :: "'v \<Rightarrow> string"
  de_secrets :: secret_manager
  de_reader :: "string \<Rightarrow> json option"

record status_answers =
  sa_up :: up_answers
  sa_reply :: "nat \<Rightarrow> json_reply"
  sa_errmsg :: string

type_synonym bind_result =
  "(LogicalType list \<times> string list \<times> MeshPeersBindData) outcome \<times> MeshLoader \<times> mesh_cache \<times> mesh_log"

text \<open>
  The part the two binds share: the node of the secret is found in the cache, asked for its status
  with \<open>ask\<close>, and put back as that call leaves it.
\<close>

definition bind_status ::
  "(string \<Rightarrow> string) \<Rightarrow>
   (platform \<Rightarrow> mesh_build \<Rightarrow> up_answers \<Rightarrow> (nat \<Rightarrow> json_reply) \<Rightarrow> string \<Rightarrow> MeshLoader \<Rightarrow> MeshBackend \<Rightarrow>
      string mesh_result) \<Rightarrow>
   'v discovery_env \<Rightarrow> status_answers \<Rightarrow> (string \<times> 'v) list \<Rightarrow> MeshLoader \<Rightarrow> mesh_cache \<Rightarrow> bind_result" where
  "bind_status wrap ask de a named ml mc =
     (let secret_name = GetTunnelSecretNameFromParams (de_text de) named in
      case MeshBackendFromSecret (de_lower de) (de_secrets de) secret_name mc of
        (Throws e, mc1) \<Rightarrow> (Throws e, ml, mc1, [])
      | (Undefined, mc1) \<Rightarrow> (Undefined, ml, mc1, [])
      | (Returns n, mc1) \<Rightarrow>
          (case ask (de_platform de) (de_build de) (sa_up a) (sa_reply a) (sa_errmsg a) ml
                  (mc_nodes mc1 ! n) of
             (r, ml1, be1, l) \<Rightarrow>
               (bind_outcome r (\<lambda>text. Returns (fst PeersSchema, snd PeersSchema,
                   make_MeshPeersBindData (ParseMeshPeersJson (de_reader de) (wrap text)))),
                ml1, mc1\<lparr>mc_nodes := (mc_nodes mc1)[n := be1]\<rparr>, l)))"

definition TunnelPeersBind ::
  "'v discovery_env \<Rightarrow> status_answers \<Rightarrow> (string \<times> 'v) list \<Rightarrow> MeshLoader \<Rightarrow> mesh_cache \<Rightarrow> bind_result" where
  "TunnelPeersBind = bind_status (\<lambda>text. text) PeersJson"

definition TunnelSelfBind ::
  "'v discovery_env \<Rightarrow> status_answers \<Rightarrow> (string \<times> 'v) list \<Rightarrow> MeshLoader \<Rightarrow> mesh_cache \<Rightarrow> bind_result" where
  "TunnelSelfBind = bind_status (\<lambda>self. ''['' @ self @ '']'') SelfJson"

section \<open>Lemmas\<close>

lemma emit_loop_eq:
  "emit_loop count bind =
     (map peer_cells (take (STANDARD_VECTOR_SIZE - count) (drop (pb_cursor bind) (pb_rows bind))),
      bind\<lparr>pb_cursor := pb_cursor bind +
        length (take (STANDARD_VECTOR_SIZE - count) (drop (pb_cursor bind) (pb_rows bind)))\<rparr>)"
proof (induction count bind rule: emit_loop.induct)
  case (1 count bind)
  let ?c = "pb_cursor bind" and ?rs = "pb_rows bind"
  show ?case
  proof (cases "?c < length ?rs \<and> count < STANDARD_VECTOR_SIZE")
    case True
    then have "STANDARD_VECTOR_SIZE - count = Suc (STANDARD_VECTOR_SIZE - (count + 1))" by linarith
    moreover have "drop ?c ?rs = ?rs ! ?c # drop (?c + 1) ?rs"
      using True by (simp add: Cons_nth_drop_Suc)
    ultimately show ?thesis using True "1.IH" by (subst emit_loop.simps) simp
  next
    case False
    then show ?thesis by (subst emit_loop.simps) auto
  qed
qed

interpretation peers_scan: chunked_scan "\<lambda>b. map peer_cells (pb_rows b)" pb_cursor MeshPeersEmit
  STANDARD_VECTOR_SIZE
  by unfold_locales
    (simp_all add: MeshPeersEmit_def emit_loop_eq STANDARD_VECTOR_SIZE_def take_map drop_map)

lemma peer_cells_typed: "map cell_type (peer_cells r) = fst PeersSchema"
  by (simp add: peer_cells_def PeersSchema_def)

lemma drain_peers_typed: "\<forall>row \<in> set (drain MeshPeersEmit n b). map cell_type row = fst PeersSchema"
  by (auto simp: peers_scan.drain_prefix peer_cells_typed dest!: in_set_takeD in_set_dropD)

text \<open>What the two status calls return against a shim that follows its buffer contract.\<close>

lemma with_node_Returns:
  "with_node pl mb a ml be op = (Returns x, ml', be', l) \<Longrightarrow> \<exists>be1. fst (op be1) = Returns x"
  by (auto simp: with_node_def case_prod_beta split: prod.splits outcome.splits)

lemma status_text:
  assumes "CHR 0x00 \<notin> set status" and "length status < kMaxMeshJson"
    and "ask = PeersJson \<or> ask = SelfJson"
    and "ask pl mb up (writeJSON status) errmsg ml be = (Returns text, ml', be', l)"
  shows "text = status"
  using assms(3,4) two_shot_writeJSON [OF assms(1,2)]
  by (auto simp: PeersJson_def SelfJson_def case_prod_beta dest!: with_node_Returns)

lemma bind_status_Returns:
  assumes "bind_status wrap ask de a named ml mc = (Returns (types, names, b), ml', mc', l)"
    and "sa_reply a = writeJSON status" and "CHR 0x00 \<notin> set status" and "length status < kMaxMeshJson"
    and "ask = PeersJson \<or> ask = SelfJson"
  shows "types = fst PeersSchema" and "names = snd PeersSchema"
    and "b = make_MeshPeersBindData (ParseMeshPeersJson (de_reader de) (wrap status))"
    and "\<exists>n mc1. MeshBackendFromSecret (de_lower de) (de_secrets de)
          (GetTunnelSecretNameFromParams (de_text de) named) mc = (Returns n, mc1) \<and>
        mc_index mc' = mc_index mc1 \<and> length (mc_nodes mc') = length (mc_nodes mc1)"
proof -
  let ?found = "MeshBackendFromSecret (de_lower de) (de_secrets de)
    (GetTunnelSecretNameFromParams (de_text de) named) mc"
  obtain n mc1 where found: "?found = (Returns n, mc1)"
    using assms(1) by (cases ?found; cases "fst ?found") (auto simp: bind_status_def)
  obtain r ml1 be1 l1 where ask: "ask (de_platform de) (de_build de) (sa_up a) (sa_reply a) (sa_errmsg a)
      ml (mc_nodes mc1 ! n) = (r, ml1, be1, l1)"
    by (metis prod_cases4)
  with assms(1) found obtain shown where r: "r = Returns shown"
    by (cases r) (auto simp: bind_status_def)
  from ask r assms(2) have "shown = status"
    using status_text [OF assms(3-5)] by metis
  then show "types = fst PeersSchema" "names = snd PeersSchema"
    "b = make_MeshPeersBindData (ParseMeshPeersJson (de_reader de) (wrap status))"
    using assms(1) found ask r by (simp_all add: bind_status_def)
  show "\<exists>n mc1. ?found = (Returns n, mc1) \<and> mc_index mc' = mc_index mc1 \<and>
      length (mc_nodes mc') = length (mc_nodes mc1)"
    using assms(1) found ask r by (auto simp: bind_status_def)
qed

section \<open>Properties\<close>

text \<open>C32: Discovery, end to end. When the bind of \<^verbatim>\<open>tunnel_peers\<close> or \<^verbatim>\<open>tunnel_self\<close> returns,
  against a shim that follows its buffer contract and whatever the state of the node was, the scan
  emits, in order and each once, exactly the rows parsed from the status the shim holds, every cell
  of its declared type, as many cells as names; a copy of the bind data starts over. The name of the
  secret gave a mesh node, and the cache still indexes it.\<close>

theorem discovery_complete:
  assumes "sa_reply a = writeJSON status" and "CHR 0x00 \<notin> set status" and "length status < kMaxMeshJson"
    and "TunnelPeersBind de a named ml mc = (Returns (types, names, b), ml', mc', l) \<and> text = status \<or>
      TunnelSelfBind de a named ml mc = (Returns (types, names, b), ml', mc', l) \<and>
        text = ''['' @ status @ '']''"
    and "length (ParseMeshPeersJson (de_reader de) text) \<le> n * STANDARD_VECTOR_SIZE"
  shows "drain MeshPeersEmit n b = map peer_cells (ParseMeshPeersJson (de_reader de) text) \<and>
    (\<forall>row \<in> set (drain MeshPeersEmit n b). map cell_type row = types) \<and>
    length names = length types \<and> distinct names \<and>
    drain MeshPeersEmit n (pb_Copy b) = drain MeshPeersEmit n b \<and>
    (\<exists>k mc1. MeshBackendFromSecret (de_lower de) (de_secrets de)
          (GetTunnelSecretNameFromParams (de_text de) named) mc = (Returns k, mc1) \<and>
        mc_index mc' = mc_index mc1)"
proof -
  let ?rows = "ParseMeshPeersJson (de_reader de) text"
  have facts: "types = fst PeersSchema" "names = snd PeersSchema" "b = make_MeshPeersBindData ?rows"
    "\<exists>k mc1. MeshBackendFromSecret (de_lower de) (de_secrets de)
          (GetTunnelSecretNameFromParams (de_text de) named) mc = (Returns k, mc1) \<and>
        mc_index mc' = mc_index mc1"
    using assms(4)
      bind_status_Returns [of "\<lambda>text. text" PeersJson de a named ml mc types names b ml' mc' l, OF _ assms(1-3)]
      bind_status_Returns [of "\<lambda>self. ''['' @ self @ '']''" SelfJson de a named ml mc types names b ml' mc' l,
        OF _ assms(1-3)]
    unfolding TunnelPeersBind_def TunnelSelfBind_def by blast+
  have "drain MeshPeersEmit n b = map peer_cells ?rows"
    using peers_scan.drain_complete [of b n] assms(5) facts(3)
    by (simp add: make_MeshPeersBindData_def)
  moreover have "pb_Copy b = b" by (simp add: facts(3) pb_Copy_def make_MeshPeersBindData_def)
  ultimately show ?thesis using drain_peers_typed [of n b] facts
    by (simp add: PeersSchema_def)
qed


definition demo_discovery :: "string discovery_env" where
  "demo_discovery = \<lparr>de_platform = Linux, de_build = demo_build, de_lower = id, de_text = id,
     de_secrets = (\<lambda>_. Some (demo_secret ''a'')),
     de_reader = (\<lambda>_. Some (JArr [json_of_peer demo_peer, json_of_peer demo_peer]))\<rparr>"

definition demo_status :: status_answers where
  "demo_status = \<lparr>sa_up = demo_up, sa_reply = writeJSON ''status'', sa_errmsg = []\<rparr>"

definition demo_up_cache :: mesh_cache where
  "demo_up_cache = \<lparr>mc_index = [cache_key ''nb'' (MeshOptions_of_secret id (demo_secret ''a'')) \<mapsto> 0],
     mc_nodes = [demo_node\<lparr>mk_up := True\<rparr>]\<rparr>"

lemma demo_bind_returns:
  "\<exists>types names b ml' mc' l.
     TunnelPeersBind (demo_discovery\<lparr>de_reader := reader\<rparr>) demo_status [(''secret'', ''nb'')] demo_loader demo_up_cache =
       (Returns (types, names, b), ml', mc', l)"
proof -
  have kind: "mo_kind (MeshOptions_of_secret id (demo_secret k)) = NetBird" for k
    by (simp add: MeshOptions_of_secret_def text_or_empty_def demo_secret_def ParseMeshKind_def)
  have looked_up: "LookupTunnelSecret (\<lambda>_. Some (demo_secret ''a'')) ''nb'' = Some (demo_secret ''a'')"
    by (simp add: LookupTunnelSecret_def demo_secret_def TUNNEL_SECRET_TYPE_NAME_def
        TUNNEL_SECRET_TYPE_ALIAS_def)
  have found: "MeshBackendFromSecret id (\<lambda>_. Some (demo_secret ''a'')) ''nb'' demo_up_cache =
      (Returns 0, demo_up_cache)"
    by (simp add: MeshBackendFromSecret_def looked_up demo_up_cache_def Let_def kind)
  have reply: "fst (two_shot n m (writeJSON ''status'') err) = Returns ''status''" for n m err
    by (rule two_shot_writeJSON) (simp_all add: kMaxMeshJson_def)
  show ?thesis
    using found
    by (simp add: TunnelPeersBind_def bind_status_def demo_discovery_def demo_status_def
        GetTunnelSecretNameFromParams_def PeersJson_def with_node_up case_prod_beta reply)
      (simp add: demo_up_cache_def with_node_up reply)
qed

theorem discovery_complete_witness:
  "\<exists>types names b ml' mc' l.
     TunnelPeersBind demo_discovery demo_status [(''secret'', ''nb'')] demo_loader demo_up_cache =
       (Returns (types, names, b), ml', mc', l) \<and>
     drain MeshPeersEmit 1 b = [peer_cells demo_peer, peer_cells demo_peer]"
proof -
  obtain types names b ml' mc' l where b:
      "TunnelPeersBind demo_discovery demo_status [(''secret'', ''nb'')] demo_loader demo_up_cache =
       (Returns (types, names, b), ml', mc', l)"
    using demo_bind_returns [of "de_reader demo_discovery"] by (auto simp: demo_discovery_def)
  have rows: "ParseMeshPeersJson (de_reader demo_discovery) ''status'' = [demo_peer, demo_peer]"
    by (simp add: demo_discovery_def ParseMeshPeersJson_def)
  have "sa_reply demo_status = writeJSON ''status''" "CHR 0x00 \<notin> set ''status''"
      "length ''status'' < kMaxMeshJson"
    by (simp_all add: demo_status_def kMaxMeshJson_def)
  from discovery_complete [OF this, of demo_discovery "[(''secret'', ''nb'')]" demo_loader demo_up_cache
      types names b ml' mc' l "''status''" 1] b rows
  show ?thesis
    by (intro exI [of _ types] exI [of _ names] exI [of _ b] exI [of _ ml'] exI [of _ mc'] exI [of _ l])
      (simp add: STANDARD_VECTOR_SIZE_def)
qed

end
