(* ===== verification/Tunnel_Extension.thy ===== *)
theory Tunnel_Extension
  imports Tunnel_Pragmas Tunnel_Scanner Mesh_Discovery
begin

text \<open>
  The entry point, from \<^verbatim>\<open>src/src/tunnel_extension.cpp\<close>, with the functions of the other files
  that build what it registers: the pragmas, the table functions, the secret types and the settings,
  and the global \<^verbatim>\<open>g_tunnel_manager\<close>, which a load replaces.

  The database is DuckDB's: it is an argument of the type \<open>'db\<close>, and what registering something does
  to it is the record \<open>loader\<close>, each call of which may throw. A function object is the sequence of
  the builder calls that make it: its name, the handler it points to and the parameters added.
\<close>

section \<open>Function objects\<close>

datatype pragma_handler =
    CallsTunnelCreate
  | CallsTunnelExport
  | CallsTunnelClose
  | CallsTunnelCloseAll
  | CallsMeshActivate

record PragmaFunction =
  pf_name :: string
  pf_handler :: pragma_handler
  pf_arguments :: "LogicalType list"
  pf_argument_names :: "string list"
  pf_named :: "(string \<times> LogicalType) list"

definition PragmaCall :: "string \<Rightarrow> pragma_handler \<Rightarrow> LogicalType list \<Rightarrow> PragmaFunction" where
  "PragmaCall name handler arguments =
     \<lparr>pf_name = name, pf_handler = handler, pf_arguments = arguments, pf_argument_names = [],
      pf_named = []\<rparr>"

definition MakeImportPragma :: "string \<Rightarrow> PragmaFunction" where
  "MakeImportPragma name = (PragmaCall name CallsTunnelCreate [])\<lparr>pf_named :=
     [(''secret'', VARCHAR), (''remote_host'', VARCHAR), (''remote_port'', INTEGER),
      (''local_port'', INTEGER), (''timeout'', INTEGER), (''bind_all'', BOOLEAN)]\<rparr>"

definition CreateTunnelImportPragma :: PragmaFunction where
  "CreateTunnelImportPragma = MakeImportPragma ''tunnel_import''"

definition CreateTunnelCreatePragma :: PragmaFunction where
  "CreateTunnelCreatePragma = MakeImportPragma ''tunnel_create''"

definition MakeExportPragma :: "string \<Rightarrow> PragmaFunction" where
  "MakeExportPragma name = (PragmaCall name CallsTunnelExport [])\<lparr>pf_named :=
     [(''secret'', VARCHAR), (''local_port'', INTEGER), (''local_host'', VARCHAR),
      (''remote_port'', INTEGER), (''remote_host'', VARCHAR), (''timeout'', INTEGER)]\<rparr>"

definition CreateTunnelExportPragma :: PragmaFunction where
  "CreateTunnelExportPragma = MakeExportPragma ''tunnel_export''"

definition CreateTunnelClosePragma :: PragmaFunction where
  "CreateTunnelClosePragma = PragmaCall ''tunnel_close'' CallsTunnelClose [INTEGER]"

definition CreateTunnelCloseAllPragma :: PragmaFunction where
  "CreateTunnelCloseAllPragma = PragmaCall ''tunnel_close_all'' CallsTunnelCloseAll []"

definition CreateMeshActivatePragma :: PragmaFunction where
  "CreateMeshActivatePragma = PragmaCall ''tunnel_mesh_activate'' CallsMeshActivate [VARCHAR]"

datatype bind_handler = CallsListTunnelsBind | CallsTunnelPeersBind | CallsTunnelSelfBind

datatype scan_handler = CallsListTunnelsFunction | CallsMeshPeersEmit

record TableFunction =
  tf_name :: string
  tf_function :: scan_handler
  tf_bind :: bind_handler
  tf_named :: "(string \<times> LogicalType) list"

definition CreateTunnelsTableFunction :: TableFunction where
  "CreateTunnelsTableFunction = \<lparr>tf_name = ''tunnels'', tf_function = CallsListTunnelsFunction,
     tf_bind = CallsListTunnelsBind, tf_named = []\<rparr>"

definition MakeMeshTableFunction :: "string \<Rightarrow> bind_handler \<Rightarrow> TableFunction" where
  "MakeMeshTableFunction name bind = \<lparr>tf_name = name, tf_function = CallsMeshPeersEmit,
     tf_bind = bind, tf_named = [(''secret'', VARCHAR)]\<rparr>"

definition CreateTunnelPeersFunction :: TableFunction where
  "CreateTunnelPeersFunction = MakeMeshTableFunction ''tunnel_peers'' CallsTunnelPeersBind"

definition CreateTunnelSelfFunction :: TableFunction where
  "CreateTunnelSelfFunction = MakeMeshTableFunction ''tunnel_self'' CallsTunnelSelfBind"

section \<open>Secret types\<close>

record SecretType =
  st_name :: string
  st_default_provider :: string

record CreateSecretFunctionInfo =
  sf_type :: string
  sf_provider :: string
  sf_named :: "(string \<times> LogicalType) list"

definition SetTunnelSecretParameters :: "CreateSecretFunctionInfo \<Rightarrow> CreateSecretFunctionInfo" where
  "SetTunnelSecretParameters function = function\<lparr>sf_named := sf_named function @
     [(''backend'', VARCHAR),
      (''ssh_host'', VARCHAR), (''ssh_port'', INTEGER), (''ssh_user'', VARCHAR),
      (''host'', VARCHAR), (''user'', VARCHAR), (''port'', INTEGER),
      (''password'', VARCHAR), (''private_key_path'', VARCHAR), (''passphrase'', VARCHAR),
      (''auth_method'', VARCHAR),
      (''auth_key'', VARCHAR), (''setup_key'', VARCHAR), (''hostname'', VARCHAR),
      (''tags'', VARCHAR), (''groups'', VARCHAR), (''control_url'', VARCHAR),
      (''management_url'', VARCHAR), (''state_dir'', VARCHAR), (''ephemeral'', BOOLEAN)]\<rparr>"

section \<open>Registration\<close>

datatype OnCreateConflict = ERROR_ON_CONFLICT | REPLACE_ON_CONFLICT

record FunctionDescription =
  fd_description :: string
  fd_examples :: "string list"
  fd_parameter_names :: "string list"
  fd_categories :: "string list"

record CreatePragmaFunctionInfo =
  pi_function :: PragmaFunction
  pi_on_conflict :: OnCreateConflict
  pi_descriptions :: "FunctionDescription list"

record CreateTableFunctionInfo =
  ti_function :: TableFunction
  ti_on_conflict :: OnCreateConflict
  ti_descriptions :: "FunctionDescription list"

datatype setting_callback = OnTelemetryEnabled | OnAPIKey

text \<open>What the callbacks of the two settings ask of the telemetry library, for a value of the declared type.\<close>

datatype telemetry_call = SetEnabled bool | SetAPIKey string

fun run_callback :: "setting_callback \<Rightarrow> cell \<Rightarrow> telemetry_call option" where
  "run_callback OnTelemetryEnabled (BooleanCell b) = Some (SetEnabled b)"
| "run_callback OnAPIKey (VarcharCell key) = Some (SetAPIKey key)"
| "run_callback _ _ = None"

record extension_option =
  eo_name :: string
  eo_type :: LogicalType
  eo_default :: string
  eo_callback :: setting_callback

record 'db loader =
  ld_RegisterSecretType :: "SecretType \<Rightarrow> 'db \<Rightarrow> 'db outcome"
  ld_RegisterSecretFunction :: "CreateSecretFunctionInfo \<Rightarrow> 'db \<Rightarrow> 'db outcome"
  ld_CreatePragmaFunction :: "CreatePragmaFunctionInfo \<Rightarrow> 'db \<Rightarrow> 'db outcome"
  ld_RegisterTableFunction :: "CreateTableFunctionInfo \<Rightarrow> 'db \<Rightarrow> 'db outcome"
  ld_AddExtensionOption :: "extension_option \<Rightarrow> 'db \<Rightarrow> 'db outcome"
  ld_RegisterBannerOption :: "'db \<Rightarrow> 'db outcome"
  ld_SetDescription :: "string \<Rightarrow> 'db \<Rightarrow> 'db outcome"

text \<open>
  The process: the global manager, whether the library is pinned, and the calls a load makes on
  other libraries. \<open>Closes\<close> is a call of a destructor of the manager that a load replaces.
\<close>

datatype load_call =
    PinLibrary
  | OpensslInit
  | SetProduct string string string
  | AssociateGroup string
  | CaptureExtensionLoad string string
  | ShowBanner
  | Closes action

record process =
  pr_manager :: "TunnelManager option"
  pr_pinned :: bool

type_synonym 'db load_step = "'db \<Rightarrow> process \<Rightarrow> unit outcome \<times> 'db \<times> process \<times> load_call list"

definition db_step :: "('db \<Rightarrow> 'db outcome) \<Rightarrow> 'db load_step" where
  "db_step register db p =
     (case register db of
        Returns db' \<Rightarrow> (Returns (), db', p, [])
      | Throws e \<Rightarrow> (Throws e, db, p, [])
      | Undefined \<Rightarrow> (Undefined, db, p, []))"

definition call_step :: "load_call \<Rightarrow> 'db load_step" where
  "call_step c db p = (Returns (), db, p, [c])"

text \<open>Statements in a row; a throw ends them.\<close>

fun in_sequence :: "'db load_step list \<Rightarrow> 'db load_step" where
  "in_sequence [] db p = (Returns (), db, p, [])"
| "in_sequence (s # ss) db p =
     (case s db p of
        (Returns _, db', p', l) \<Rightarrow>
          (case in_sequence ss db' p' of (r, db'', p'', l') \<Rightarrow> (r, db'', p'', l @ l'))
      | (Throws e, db', p', l) \<Rightarrow> (Throws e, db', p', l)
      | (Undefined, db', p', l) \<Rightarrow> (Undefined, db', p', l))"

definition secret_type_steps :: "'db loader \<Rightarrow> string \<Rightarrow> 'db load_step list" where
  "secret_type_steps ld type_name =
     [db_step (ld_RegisterSecretType ld
        \<lparr>st_name = type_name, st_default_provider = TUNNEL_SECRET_PROVIDER\<rparr>),
      db_step (ld_RegisterSecretFunction ld (SetTunnelSecretParameters
        \<lparr>sf_type = type_name, sf_provider = TUNNEL_SECRET_PROVIDER, sf_named = []\<rparr>))]"

definition RegisterTunnelSecretType :: "'db loader \<Rightarrow> 'db load_step" where
  "RegisterTunnelSecretType ld = in_sequence (concat (map (secret_type_steps ld)
     [TUNNEL_SECRET_TYPE_NAME, TUNNEL_SECRET_TYPE_ALIAS]))"

definition pragma_info :: "PragmaFunction \<Rightarrow> FunctionDescription list \<Rightarrow> CreatePragmaFunctionInfo" where
  "pragma_info pragma descriptions =
     \<lparr>pi_function = (if descriptions \<noteq> [] \<and> fd_parameter_names (hd descriptions) \<noteq> []
        then pragma\<lparr>pf_argument_names := fd_parameter_names (hd descriptions)\<rparr> else pragma),
      pi_on_conflict = REPLACE_ON_CONFLICT, pi_descriptions = descriptions\<rparr>"

definition RegisterPragmaReplacing ::
  "'db loader \<Rightarrow> PragmaFunction \<Rightarrow> FunctionDescription list \<Rightarrow> 'db load_step" where
  "RegisterPragmaReplacing ld pragma descriptions =
     db_step (ld_CreatePragmaFunction ld (pragma_info pragma descriptions))"

definition TunnelDoc :: "string \<Rightarrow> string list \<Rightarrow> string list \<Rightarrow> string list \<Rightarrow> FunctionDescription" where
  "TunnelDoc description examples parameter_names categories =
     \<lparr>fd_description = description, fd_examples = examples, fd_parameter_names = parameter_names,
      fd_categories = categories\<rparr>"

text \<open>The pragmas with their documentation, in the order they are registered.\<close>

definition import_example :: "string \<Rightarrow> string" where
  "import_example name = ''PRAGMA '' @ name @ ''(secret = '' @ sq @ ''bastion'' @ sq @
     '', remote_host = '' @ sq @ ''db.internal'' @ sq @ '', remote_port = 5432, local_port = 15432);''"

definition tunnel_pragmas :: "(PragmaFunction \<times> FunctionDescription) list" where
  "tunnel_pragmas =
     [(CreateTunnelImportPragma,
       TunnelDoc (''Bring a remote service to a local port; returns (tunnel_id, message). '' @
           ''Named parameters: secret, remote_host, remote_port, local_port, timeout, bind_all. '' @
           ''Binds 127.0.0.1 unless bind_all is true.'')
         [import_example ''tunnel_import''] [] [''tunnel'']),
      (CreateTunnelCreatePragma,
       TunnelDoc (''Deprecated alias of tunnel_import, kept so existing scripts keep working; '' @
           ''use tunnel_import instead.'')
         [import_example ''tunnel_create''] [] [''tunnel'']),
      (CreateTunnelExportPragma,
       TunnelDoc (''Publish a local port onto the network; returns (tunnel_id, remote_port, message). '' @
           ''Named parameters: secret, local_port, local_host, remote_port, remote_host, timeout. '' @
           ''Over a mesh backend there is no host to name, so remote_host is rejected.'')
         [''PRAGMA tunnel_export(secret = '' @ sq @ ''ts'' @ sq @ '', local_port = 9494);''] [] [''tunnel'']),
      (CreateTunnelClosePragma,
       TunnelDoc ''Close one tunnel by id; idempotent, and reports whether the tunnel was still open.''
         [''PRAGMA tunnel_close(1);''] [''tunnel_id''] [''tunnel'']),
      (CreateTunnelCloseAllPragma,
       TunnelDoc ''Close every open tunnel; idempotent.'' [''PRAGMA tunnel_close_all;''] [] [''tunnel''])]"

definition mesh_pragmas :: "(PragmaFunction \<times> FunctionDescription) list" where
  "mesh_pragmas =
     [(CreateMeshActivatePragma,
       TunnelDoc (''Advanced -- force-load a mesh backend ('' @ sq @ ''tailscale'' @ sq @ '' or '' @ sq @
           ''netbird'' @ sq @ '') now. Normally '' @
           ''automatic on first tunnel_import/tunnel_peers; use only to surface auth errors '' @
           ''early or to pin the one mesh for this process.'')
         [''PRAGMA tunnel_mesh_activate('' @ sq @ ''tailscale'' @ sq @ '');''] [''backend'']
         [''tunnel'', ''mesh''])]"

definition table_info :: "TableFunction \<Rightarrow> FunctionDescription \<Rightarrow> CreateTableFunctionInfo" where
  "table_info f desc =
     \<lparr>ti_function = f, ti_on_conflict = REPLACE_ON_CONFLICT, ti_descriptions = [desc]\<rparr>"

definition tunnels_table :: CreateTableFunctionInfo where
  "tunnels_table = table_info CreateTunnelsTableFunction
     (TunnelDoc ''List all active tunnels (SSH and mesh) with their backend, connection details, and status.''
        [''SELECT * FROM tunnels()''] [] [''tunnel''])"

definition mesh_tables :: "CreateTableFunctionInfo list" where
  "mesh_tables =
     [table_info CreateTunnelPeersFunction
        (TunnelDoc ''Enumerate mesh peers for a tunnel secret (peer-local, no API token).''
           [''SELECT * FROM tunnel_peers(secret = '' @ sq @ ''ts'' @ sq @ '')''] [] [''tunnel'', ''mesh'']),
      table_info CreateTunnelSelfFunction
        (TunnelDoc (''Show this node'' @ sq @ ''s own mesh identity (name/ip/tags) for a tunnel secret.'')
           [''SELECT * FROM tunnel_self(secret = '' @ sq @ ''ts'' @ sq @ '')''] [] [''tunnel'', ''mesh''])]"

text \<open>
  \<^verbatim>\<open>g_tunnel_manager = std::make_unique<TunnelManager>()\<close>: the manager that was there is destroyed,
  which closes its tunnels.
\<close>

definition replace_manager :: "close_env \<Rightarrow> 'db load_step" where
  "replace_manager env db p =
     (Returns (), db, p\<lparr>pr_manager := Some new_TunnelManager\<rparr>,
      (case pr_manager p of None \<Rightarrow> [] | Some tm \<Rightarrow> map Closes (destroy_TunnelManager env tm)))"

definition RegisterTunnelFunctions :: "bool \<Rightarrow> close_env \<Rightarrow> 'db loader \<Rightarrow> 'db load_step" where
  "RegisterTunnelFunctions has_mesh env ld = in_sequence
     ([RegisterTunnelSecretType ld, replace_manager env] @
      map (\<lambda>(f, d). RegisterPragmaReplacing ld f [d])
        (tunnel_pragmas @ (if has_mesh then mesh_pragmas else [])) @
      map (\<lambda>info. db_step (ld_RegisterTableFunction ld info))
        (tunnels_table # (if has_mesh then mesh_tables else [])))"

definition RegisterConfiguration :: "'db loader \<Rightarrow> 'db load_step" where
  "RegisterConfiguration ld = in_sequence
     [db_step (ld_AddExtensionOption ld \<lparr>eo_name = ''erpl_telemetry_enabled'', eo_type = BOOLEAN,
        eo_default = ''true'', eo_callback = OnTelemetryEnabled\<rparr>),
      db_step (ld_AddExtensionOption ld \<lparr>eo_name = ''erpl_telemetry_key'', eo_type = VARCHAR,
        eo_default = ''phc_t3wwRLtpyEmLHYaZCSszG0MqVr74J6wnCrj9D41zk2t'', eo_callback = OnAPIKey\<rparr>),
      db_step (ld_RegisterBannerOption ld)]"

text \<open>Pinning: \<open>dladdr\<close> and \<open>dlopen\<close> are whether those calls succeed.\<close>

definition pin_library :: "platform \<Rightarrow> bool \<Rightarrow> bool \<Rightarrow> 'db load_step" where
  "pin_library pl dladdr dlopen db p =
     (if pl \<noteq> Windows \<and> \<not> pr_pinned p \<and> dladdr then
        (Returns (), db, p\<lparr>pr_pinned := dlopen\<rparr>, [PinLibrary])
      else (Returns (), db, p, []))"

definition ERPL_TUNNEL_VERSION :: string where
  "ERPL_TUNNEL_VERSION = ''2026.10.20''"

definition ErplTunnelExtension_Name :: string where
  "ErplTunnelExtension_Name = ''erpl_tunnel''"

record load_env =
  le_platform :: platform
  le_has_mesh :: bool
  le_openssl_1_1 :: bool
  le_dladdr :: bool
  le_dlopen :: bool
  le_distinct_id :: string
  le_close :: close_env

definition extension_description :: string where
  "extension_description =
     ''Reach any TCP service from DuckDB through an SSH bastion, a Tailscale tailnet, or a NetBird network '' @
     em_dash @ '' one localhost:PORT, no daemon, no root.''"

text \<open>What a load does before it registers the functions.\<close>

definition before_functions :: "load_env \<Rightarrow> 'db loader \<Rightarrow> 'db load_step list" where
  "before_functions le ld =
     [pin_library (le_platform le) (le_dladdr le) (le_dlopen le)] @
     (if le_openssl_1_1 le then [call_step OpensslInit] else []) @
     [db_step (ld_SetDescription ld extension_description),
      call_step (SetProduct ErplTunnelExtension_Name ERPL_TUNNEL_VERSION ''oss''),
      call_step (AssociateGroup (le_distinct_id le)),
      call_step (CaptureExtensionLoad ErplTunnelExtension_Name ERPL_TUNNEL_VERSION),
      RegisterConfiguration ld]"

definition LoadInternal :: "load_env \<Rightarrow> 'db loader \<Rightarrow> 'db load_step" where
  "LoadInternal le ld = in_sequence
     (before_functions le ld @
      [RegisterTunnelFunctions (le_has_mesh le) (le_close le) ld, call_step ShowBanner])"

section \<open>The catalog\<close>

text \<open>
  What a user finds in the catalog, and what the load relies on of DuckDB: an entry created with
  \<^verbatim>\<open>REPLACE_ON_CONFLICT\<close> is created whatever held its name, and touches no other; the other
  registrations leave the functions alone.
\<close>

datatype catalog_entry = PragmaEntry CreatePragmaFunctionInfo | TableEntry CreateTableFunctionInfo

fun entry_key :: "catalog_entry \<Rightarrow> bool \<times> string" where
  "entry_key (PragmaEntry info) = (True, pf_name (pi_function info))"
| "entry_key (TableEntry info) = (False, tf_name (ti_function info))"

type_synonym catalog = "bool \<times> string \<rightharpoonup> catalog_entry"

definition creates_entry :: "('db \<Rightarrow> catalog) \<Rightarrow> ('db \<Rightarrow> 'db outcome) \<Rightarrow> catalog_entry \<Rightarrow> bool" where
  "creates_entry look register e \<longleftrightarrow>
     (\<forall>db. \<exists>db'. register db = Returns db' \<and> look db' = (look db)(entry_key e \<mapsto> e))"

definition leaves_functions :: "('db \<Rightarrow> catalog) \<Rightarrow> ('db \<Rightarrow> 'db outcome) \<Rightarrow> bool" where
  "leaves_functions look register \<longleftrightarrow> (\<forall>db db'. register db = Returns db' \<longrightarrow> look db' = look db)"

definition replacing_catalog :: "('db \<Rightarrow> catalog) \<Rightarrow> 'db loader \<Rightarrow> bool" where
  "replacing_catalog look ld \<longleftrightarrow>
     (\<forall>info. pi_on_conflict info = REPLACE_ON_CONFLICT \<longrightarrow>
        creates_entry look (ld_CreatePragmaFunction ld info) (PragmaEntry info)) \<and>
     (\<forall>info. ti_on_conflict info = REPLACE_ON_CONFLICT \<longrightarrow>
        creates_entry look (ld_RegisterTableFunction ld info) (TableEntry info)) \<and>
     (\<forall>x. leaves_functions look (ld_RegisterSecretType ld x)) \<and>
     (\<forall>x. leaves_functions look (ld_RegisterSecretFunction ld x)) \<and>
     (\<forall>x. leaves_functions look (ld_AddExtensionOption ld x)) \<and>
     (\<forall>x. leaves_functions look (ld_SetDescription ld x)) \<and>
     leaves_functions look (ld_RegisterBannerOption ld)"

definition surface_entries :: "bool \<Rightarrow> catalog_entry list" where
  "surface_entries has_mesh =
     map (\<lambda>(f, d). PragmaEntry (pragma_info f [d])) (tunnel_pragmas @ (if has_mesh then mesh_pragmas else [])) @
     map TableEntry (tunnels_table # (if has_mesh then mesh_tables else []))"

definition surface :: "bool \<Rightarrow> catalog" where
  "surface has_mesh = map_of (map (\<lambda>e. (entry_key e, e)) (surface_entries has_mesh))"

section \<open>Lemmas\<close>

lemma in_sequence_append:
  "in_sequence (xs @ ys) db p =
     (case in_sequence xs db p of
        (Returns _, db', p', l) \<Rightarrow>
          (case in_sequence ys db' p' of (r, db'', p'', l') \<Rightarrow> (r, db'', p'', l @ l'))
      | (Throws e, db', p', l) \<Rightarrow> (Throws e, db', p', l)
      | (Undefined, db', p', l) \<Rightarrow> (Undefined, db', p', l))"
proof (induction xs arbitrary: db p)
  case (Cons x xs)
  obtain r db1 p1 l where x: "x db p = (r, db1, p1, l)" by (metis prod_cases4)
  obtain r' db2 p2 l' where xs: "in_sequence xs db1 p1 = (r', db2, p2, l')" by (metis prod_cases4)
  show ?case using Cons.IH [of db1 p1] x xs
    by (cases r; cases r') (auto split: prod.splits)
qed (auto split: prod.splits)

text \<open>A step that leaves the functions and the manager alone.\<close>

definition quiet_call :: "load_call \<Rightarrow> bool" where
  "quiet_call c \<longleftrightarrow> c \<noteq> ShowBanner \<and> (\<forall>a. c \<noteq> Closes a)"

definition quiet :: "('db \<Rightarrow> catalog) \<Rightarrow> 'db load_step \<Rightarrow> bool" where
  "quiet look step \<longleftrightarrow> (\<forall>db p r db' p' l. step db p = (r, db', p', l) \<longrightarrow>
     look db' = look db \<and> pr_manager p' = pr_manager p \<and> list_all quiet_call l)"

lemma quietD:
  "quiet look step \<Longrightarrow> step db p = (r, db', p', l) \<Longrightarrow>
     look db' = look db \<and> pr_manager p' = pr_manager p \<and> list_all quiet_call l"
  by (simp add: quiet_def)

lemma quiet_db_step: "leaves_functions look register \<Longrightarrow> quiet look (db_step register)"
  by (auto simp: quiet_def db_step_def leaves_functions_def split: outcome.splits)

lemma quiet_in_sequence: "list_all (quiet look) ss \<Longrightarrow> quiet look (in_sequence ss)"
proof (induction ss)
  case Nil
  then show ?case by (simp add: quiet_def)
next
  case (Cons s ss)
  show ?case
    unfolding quiet_def
  proof (intro allI impI)
    fix db p r db' p' l
    assume run: "in_sequence (s # ss) db p = (r, db', p', l)"
    obtain r1 db1 p1 l1 where s: "s db p = (r1, db1, p1, l1)" by (metis prod_cases4)
    obtain r2 db2 p2 l2 where ss: "in_sequence ss db1 p1 = (r2, db2, p2, l2)" by (metis prod_cases4)
    have "quiet look s" "quiet look (in_sequence ss)" using Cons by simp_all
    from quietD [OF this(1) s] quietD [OF this(2) ss] run s ss
    show "look db' = look db \<and> pr_manager p' = pr_manager p \<and> list_all quiet_call l"
      by (cases r1) auto
  qed
qed

lemma quiet_before_functions:
  assumes "replacing_catalog look ld"
  shows "quiet look (RegisterTunnelSecretType ld)" "quiet look (RegisterConfiguration ld)"
    "quiet look (db_step (ld_SetDescription ld t))"
  using assms
  by (auto simp: RegisterTunnelSecretType_def RegisterConfiguration_def secret_type_steps_def
      replacing_catalog_def intro!: quiet_in_sequence quiet_db_step)

lemma quiet_calls:
  "quiet_call c \<Longrightarrow> quiet look (call_step c)" "quiet look (pin_library pl a b)"
  by (auto simp: quiet_def call_step_def pin_library_def quiet_call_def split: if_splits)

text \<open>Registering functions, one after the other.\<close>

lemma fold_updates:
  assumes "distinct (map entry_key es)"
  shows "fold (\<lambda>e m. m(entry_key e \<mapsto> e)) es m = m ++ map_of (map (\<lambda>e. (entry_key e, e)) es)"
  using assms
proof (induction es arbitrary: m)
  case (Cons e es)
  have "map_of (map (\<lambda>e. (entry_key e, e)) es) (entry_key e) = None"
    using Cons.prems by (auto simp: map_of_eq_None_iff image_image)
  with Cons show ?case by (auto simp: fun_eq_iff map_add_def split: option.splits)
qed simp

lemma register_all:
  assumes "list_all2 (creates_entry look) regs es"
  shows "\<exists>db'. in_sequence (map db_step regs) db p = (Returns (), db', p, []) \<and>
    look db' = fold (\<lambda>e m. m(entry_key e \<mapsto> e)) es (look db)"
  using assms
proof (induction regs es arbitrary: db rule: list_all2_induct)
  case (Cons reg regs e es)
  then obtain db1 where db1: "reg db = Returns db1" "look db1 = (look db)(entry_key e \<mapsto> e)"
    by (auto simp: creates_entry_def)
  with Cons.IH [of db1] show ?case by (auto simp: db_step_def)
qed simp

lemma surface_keys:
  "map entry_key (surface_entries has_mesh) =
     map (Pair True) ([''tunnel_import'', ''tunnel_create'', ''tunnel_export'', ''tunnel_close'',
       ''tunnel_close_all''] @ (if has_mesh then [''tunnel_mesh_activate''] else [])) @
     map (Pair False) (''tunnels'' # (if has_mesh then [''tunnel_peers'', ''tunnel_self''] else []))"
  by (cases has_mesh)
    (simp_all add: surface_entries_def tunnel_pragmas_def mesh_pragmas_def tunnels_table_def mesh_tables_def
      pragma_info_def TunnelDoc_def table_info_def CreateTunnelImportPragma_def CreateTunnelCreatePragma_def
      CreateTunnelExportPragma_def CreateTunnelClosePragma_def CreateTunnelCloseAllPragma_def
      CreateMeshActivatePragma_def CreateTunnelsTableFunction_def CreateTunnelPeersFunction_def
      CreateTunnelSelfFunction_def MakeImportPragma_def MakeExportPragma_def MakeMeshTableFunction_def
      PragmaCall_def)

lemma surface_distinct: "distinct (map entry_key (surface_entries has_mesh))"
  by (auto simp: surface_keys)

lemma surface_entry:
  assumes "e \<in> set (surface_entries has_mesh)"
  shows "surface has_mesh (entry_key e) = Some e"
  unfolding surface_def
  by (rule map_of_is_SomeI) (use assms surface_distinct [of has_mesh] in \<open>simp_all add: comp_def\<close>)

lemma register_surface:
  fixes ld :: "'db loader"
  assumes "replacing_catalog look ld"
  shows "\<exists>db'. in_sequence
      (map (\<lambda>(f, d). RegisterPragmaReplacing ld f [d])
         (tunnel_pragmas @ (if has_mesh then mesh_pragmas else [])) @
       map (\<lambda>info. db_step (ld_RegisterTableFunction ld info))
         (tunnels_table # (if has_mesh then mesh_tables else []))) db p = (Returns (), db', p, []) \<and>
    look db' = look db ++ surface has_mesh"
proof -
  let ?ps = "tunnel_pragmas @ (if has_mesh then mesh_pragmas else [])"
    and ?ts = "tunnels_table # (if has_mesh then mesh_tables else [])"
  let ?regs = "map (\<lambda>(f, d). ld_CreatePragmaFunction ld (pragma_info f [d])) ?ps @
    map (ld_RegisterTableFunction ld) ?ts"
  have tables: "list_all (\<lambda>info. ti_on_conflict info = REPLACE_ON_CONFLICT) ?ts"
    by (simp add: tunnels_table_def mesh_tables_def table_info_def)
  have "list_all2 (creates_entry look) (map (ld_RegisterTableFunction ld) ts) (map TableEntry ts)"
    if "list_all (\<lambda>info. ti_on_conflict info = REPLACE_ON_CONFLICT) ts" for ts
    using that assms by (induction ts) (simp_all add: replacing_catalog_def)
  moreover have "list_all2 (creates_entry look)
      (map (\<lambda>(f, d). ld_CreatePragmaFunction ld (pragma_info f [d])) ps)
      (map (\<lambda>(f, d). PragmaEntry (pragma_info f [d])) ps)" for ps
    using assms by (induction ps) (auto simp: replacing_catalog_def pragma_info_def)
  ultimately have "list_all2 (creates_entry look) ?regs (surface_entries has_mesh)"
    using tables unfolding surface_entries_def by (intro list_all2_appendI)
  moreover have "map db_step (map (\<lambda>(f, d). ld_CreatePragmaFunction ld (pragma_info f [d])) ps @
        map (ld_RegisterTableFunction ld) ts) =
      map (\<lambda>(f, d). RegisterPragmaReplacing ld f [d]) ps @
        map (\<lambda>info. db_step (ld_RegisterTableFunction ld info)) ts" for ps ts
    by (simp add: RegisterPragmaReplacing_def case_prod_beta comp_def)
  ultimately show ?thesis
    using register_all [of look ?regs "surface_entries has_mesh" db p]
    by (simp only: fold_updates [OF surface_distinct] surface_def)
qed


lemma replace_manager_eq:
  "replace_manager env db p = (Returns (), db, p\<lparr>pr_manager := Some new_TunnelManager\<rparr>,
     map Closes (case pr_manager p of None \<Rightarrow> [] | Some tm \<Rightarrow> destroy_TunnelManager env tm))"
  by (simp add: replace_manager_def split: option.split)

text \<open>How a load ends, and what it has done by then.\<close>

definition load_post ::
  "('db \<Rightarrow> catalog) \<Rightarrow> bool \<Rightarrow> close_env \<Rightarrow> 'db \<Rightarrow> process \<Rightarrow> unit outcome \<times> 'db \<times> process \<times> load_call list \<Rightarrow> bool"
where
  "load_post look has_mesh env db p res \<longleftrightarrow>
     (case res of (r, db', p', l) \<Rightarrow>
        (case r of
           Returns _ \<Rightarrow>
             look db' = look db ++ surface has_mesh \<and> pr_manager p' = Some new_TunnelManager \<and>
             filter (\<lambda>c. \<not> quiet_call c) l =
               map Closes (case pr_manager p of None \<Rightarrow> [] | Some tm \<Rightarrow> destroy_TunnelManager env tm)
         | _ \<Rightarrow> look db' = look db \<and> pr_manager p' = pr_manager p \<and> list_all quiet_call l))"

lemma filter_not_quiet: "list_all quiet_call l \<Longrightarrow> filter (\<lambda>c. \<not> quiet_call c) l = []"
  by (simp add: list_all_iff filter_empty_conv)

lemma not_quiet_Closes: "filter (\<lambda>c. \<not> quiet_call c) (map Closes acts) = map Closes acts"
  by (simp add: filter_map comp_def quiet_call_def)

lemma RegisterTunnelFunctions_post:
  assumes "replacing_catalog look ld"
  shows "load_post look has_mesh env db p (RegisterTunnelFunctions has_mesh env ld db p)"
proof -
  obtain r1 db1 p1 l1 where s: "RegisterTunnelSecretType ld db p = (r1, db1, p1, l1)"
    by (metis prod_cases4)
  note q = quietD [OF quiet_before_functions(1) [OF assms] s]
  obtain db2 where "in_sequence
      (map (\<lambda>(f, d). RegisterPragmaReplacing ld f [d])
         (tunnel_pragmas @ (if has_mesh then mesh_pragmas else [])) @
       map (\<lambda>info. db_step (ld_RegisterTableFunction ld info))
         (tunnels_table # (if has_mesh then mesh_tables else []))) db1
        (p1\<lparr>pr_manager := Some new_TunnelManager\<rparr>) =
      (Returns (), db2, p1\<lparr>pr_manager := Some new_TunnelManager\<rparr>, [])"
    "look db2 = look db1 ++ surface has_mesh"
    using register_surface [OF assms] by blast
  with s q show ?thesis
    by (cases r1) (simp_all only: RegisterTunnelFunctions_def append.simps in_sequence.simps
        replace_manager_eq split, simp_all add: load_post_def filter_not_quiet not_quiet_Closes)
qed

lemma load_post_quiet_before:
  assumes "quiet look (in_sequence pre)" and "\<And>db p. load_post look m env db p (main db p)"
  shows "load_post look m env db p (in_sequence (pre @ [main]) db p)"
proof -
  obtain r1 db1 p1 l1 where s: "in_sequence pre db p = (r1, db1, p1, l1)" by (metis prod_cases4)
  obtain r2 db2 p2 l2 where m: "main db1 p1 = (r2, db2, p2, l2)" by (metis prod_cases4)
  show ?thesis
    using quietD [OF assms(1) s] assms(2) [of db1 p1] s m
    by (cases r1; cases r2) (auto simp: in_sequence_append load_post_def filter_not_quiet)
qed

lemma banner_last:
  assumes "in_sequence ss db p = (r, db', p', l)"
  shows "in_sequence (ss @ [call_step ShowBanner]) db p =
    (r, db', p', l @ (if returned r then [ShowBanner] else []))"
  using assms by (cases r) (simp_all add: in_sequence_append call_step_def)

lemma LoadInternal_result:
  assumes "replacing_catalog look ld" and "LoadInternal le ld db p = (r, db', p', l)"
  shows "\<exists>l1. l = l1 @ (if returned r then [ShowBanner] else []) \<and>
    load_post look (le_has_mesh le) (le_close le) db p (r, db', p', l1)"
proof -
  let ?main = "RegisterTunnelFunctions (le_has_mesh le) (le_close le) ld"
  let ?ss = "before_functions le ld @ [?main]"
  have "quiet look (in_sequence (before_functions le ld))"
    using quiet_before_functions [OF assms(1)]
    by (intro quiet_in_sequence) (simp add: before_functions_def quiet_calls quiet_call_def)
  then have post: "load_post look (le_has_mesh le) (le_close le) db p (in_sequence ?ss db p)"
    using RegisterTunnelFunctions_post [OF assms(1)] by (rule load_post_quiet_before)
  obtain r1 db1 p1 l1 where run: "in_sequence ?ss db p = (r1, db1, p1, l1)" by (metis prod_cases4)
  have "LoadInternal le ld db p = in_sequence (?ss @ [call_step ShowBanner]) db p"
    by (simp only: LoadInternal_def append.simps append_assoc)
  then have "(r, db', p', l) = (r1, db1, p1, l1 @ (if returned r1 then [ShowBanner] else []))"
    using banner_last [OF run] assms(2) by simp
  with post run show ?thesis by (intro exI [of _ l1]) simp
qed

lemma LoadInternal_post:
  assumes "replacing_catalog look ld" and "LoadInternal le ld db p = (Returns u, db', p', l)"
  shows "load_post look (le_has_mesh le) (le_close le) db p (Returns u, db', p', butlast l)"
  using LoadInternal_result [OF assms] by auto

text \<open>The named parameters of a call that are registered for it.\<close>

definition only_registered :: "(string \<times> LogicalType) list \<Rightarrow> (string \<times> 'v) list \<Rightarrow> (string \<times> 'v) list" where
  "only_registered registered named = filter (\<lambda>p. fst p \<in> fst ` set registered) named"

lemma read_import_registered:
  "read_import_params pe (only_registered (pf_named (MakeImportPragma n)) named) ip =
     read_import_params pe named ip"
proof (induction pe named ip rule: read_import_params.induct)
  case (2 pe name v named ip)
  then show ?case
    by (cases "pe_int pe v"; cases "pe_bool pe v")
      (simp_all add: only_registered_def MakeImportPragma_def PragmaCall_def)
qed (simp add: only_registered_def)

lemma read_export_registered:
  "read_export_params pe (only_registered (pf_named (MakeExportPragma n)) named) xp =
     read_export_params pe named xp"
proof (induction pe named xp rule: read_export_params.induct)
  case (2 pe name v named xp)
  then show ?case
    by (cases "pe_int pe v")
      (simp_all add: only_registered_def MakeExportPragma_def PragmaCall_def)
qed (simp add: only_registered_def)

section \<open>Properties\<close>


text \<open>A catalog that is a map, in which every registration is accepted.\<close>

definition demo_loader_calls :: "catalog loader" where
  "demo_loader_calls =
     \<lparr>ld_RegisterSecretType = (\<lambda>_. Returns), ld_RegisterSecretFunction = (\<lambda>_. Returns),
      ld_CreatePragmaFunction = (\<lambda>info db. Returns (db(entry_key (PragmaEntry info) \<mapsto> PragmaEntry info))),
      ld_RegisterTableFunction = (\<lambda>info db. Returns (db(entry_key (TableEntry info) \<mapsto> TableEntry info))),
      ld_AddExtensionOption = (\<lambda>_. Returns), ld_RegisterBannerOption = Returns,
      ld_SetDescription = (\<lambda>_. Returns)\<rparr>"

definition demo_load_env :: load_env where
  "demo_load_env = \<lparr>le_platform = Linux, le_has_mesh = True, le_openssl_1_1 = True, le_dladdr = True,
     le_dlopen = True, le_distinct_id = ''id'', le_close = demo_env\<rparr>"

definition demo_process :: process where
  "demo_process = \<lparr>pr_manager = Some demo_manager, pr_pinned = False\<rparr>"

lemma in_sequence_returns:
  assumes "\<And>s db p. s \<in> set ss \<Longrightarrow> returned (fst (s db p))"
  shows "returned (fst (in_sequence ss db p))"
  using assms
proof (induction ss arbitrary: db p)
  case (Cons s ss)
  obtain r db1 p1 l where s: "s db p = (r, db1, p1, l)" by (metis prod_cases4)
  with Cons.prems [of s db p] obtain u where "r = Returns u" by (auto simp: returned_iff)
  with s Cons.IH [of db1 p1] Cons.prems show ?case by (auto split: prod.splits)
qed simp

lemma demo_load_returns: "returned (fst (LoadInternal demo_load_env demo_loader_calls db p))"
proof -
  have "returned (fst (RegisterConfiguration demo_loader_calls db p))"
    "returned (fst (RegisterTunnelSecretType demo_loader_calls db p))" for db p
    unfolding RegisterConfiguration_def RegisterTunnelSecretType_def
    by (rule in_sequence_returns; auto simp: db_step_def demo_loader_calls_def secret_type_steps_def)+
  moreover have "returned (fst (RegisterTunnelFunctions m env demo_loader_calls db p))" for m env db p
    unfolding RegisterTunnelFunctions_def
    by (rule in_sequence_returns)
      (use calculation(2) in \<open>auto simp: replace_manager_def RegisterPragmaReplacing_def db_step_def
         demo_loader_calls_def\<close>)
  ultimately show ?thesis
    unfolding LoadInternal_def before_functions_def
    by (intro in_sequence_returns)
      (auto simp: pin_library_def call_step_def db_step_def demo_loader_calls_def demo_load_env_def
        split: if_splits)
qed

lemma demo_catalog: "replacing_catalog id demo_loader_calls"
  by (simp add: replacing_catalog_def creates_entry_def leaves_functions_def demo_loader_calls_def)


text \<open>The registered parameters are the ones the handlers read: a handler's answer does not depend on a
  name that is not registered for it, the options registered for a secret are those that creating one
  accepts, and a pragma is documented with as many parameter names as it has positional arguments.\<close>

theorem parameters_agree:
  "read_import_params pe (only_registered (pf_named (MakeImportPragma n)) named) ip =
     read_import_params pe named ip \<and>
   read_export_params pe (only_registered (pf_named (MakeExportPragma n)) named) xp =
     read_export_params pe named xp \<and>
   fst ` set (sf_named (SetTunnelSecretParameters \<lparr>sf_type = t, sf_provider = q, sf_named = []\<rparr>)) =
     set kKnownKeys \<and>
   list_all (\<lambda>(f, d). length (fd_parameter_names d) = length (pf_arguments f)) (tunnel_pragmas @ mesh_pragmas)"
proof (intro conjI read_import_registered read_export_registered)
  show "fst ` set (sf_named (SetTunnelSecretParameters \<lparr>sf_type = t, sf_provider = q, sf_named = []\<rparr>)) =
      set kKnownKeys"
    by (simp add: SetTunnelSecretParameters_def kKnownKeys_def)
  show "list_all (\<lambda>(f, d). length (fd_parameter_names d) = length (pf_arguments f))
      (tunnel_pragmas @ mesh_pragmas)"
    by (simp add: tunnel_pragmas_def mesh_pragmas_def TunnelDoc_def CreateTunnelImportPragma_def
        CreateTunnelCreatePragma_def CreateTunnelExportPragma_def CreateTunnelClosePragma_def
        CreateTunnelCloseAllPragma_def CreateMeshActivatePragma_def MakeImportPragma_def
        MakeExportPragma_def PragmaCall_def)
qed

end
