(* ===== verification/Tunnel_Session.thy ===== *)
theory Tunnel_Session
  imports Tunnel_Extension
begin

text \<open>
  The components together: a user's session. A statement names a pragma of the catalog, which a
  load filled; the handler found there runs on the process state, and \<^verbatim>\<open>tunnels()\<close> shows the
  result. The specification is a set of identifiers: an answer opens one, closes one, closes all or
  has no effect, and the user can read off which.
\<close>

section \<open>Statements\<close>

record pragma_answers =
  pa_import :: import_answers
  pa_export :: export_answers
  pa_close :: close_env
  pa_activate :: activate_answers

record 'v statement =
  ss_name :: string
  ss_values :: "'v list"
  ss_named :: "(string \<times> 'v) list"
  ss_answers :: pragma_answers

text \<open>
  The call of a handler. DuckDB binds the positional arguments before it, so \<^verbatim>\<open>values[0]\<close> exists for
  \<^verbatim>\<open>tunnel_close\<close>; without one the read is past the end.
\<close>

definition invoke :: "'v pragma_env \<Rightarrow> pragma_handler \<Rightarrow> 'v statement \<Rightarrow> world \<Rightarrow> pragma_result" where
  "invoke pe h st w =
     (case h of
        CallsTunnelCreate \<Rightarrow> TunnelCreate pe (pa_import (ss_answers st)) (ss_named st) w
      | CallsTunnelExport \<Rightarrow> TunnelExport pe (pa_export (ss_answers st)) (ss_named st) w
      | CallsTunnelClose \<Rightarrow>
          (case ss_values st of
             [] \<Rightarrow> (Some Undefined, w, [])
           | v # _ \<Rightarrow>
               (case TunnelClose pe (pa_close (ss_answers st)) v (wo_tm w) of
                  (r, tm, acts) \<Rightarrow> (Some r, w\<lparr>wo_tm := tm\<rparr>, acts)))
      | CallsTunnelCloseAll \<Rightarrow>
          (case TunnelCloseAll (pa_close (ss_answers st)) (wo_tm w) of
             (r, tm, acts) \<Rightarrow> (Some r, w\<lparr>wo_tm := tm\<rparr>, acts))
      | CallsMeshActivate \<Rightarrow>
          (case MeshActivate (pe_lower pe) (pe_platform pe) (pe_build pe) (pa_activate (ss_answers st))
                  (map (pe_text pe) (ss_values st)) (wo_ml w) of
             (r, ml) \<Rightarrow> (Some r, w\<lparr>wo_ml := ml\<rparr>, [])))"

text \<open>A statement whose name is no pragma of the catalog runs no handler.\<close>

definition handler_of :: "catalog \<Rightarrow> string \<Rightarrow> pragma_handler option" where
  "handler_of cat name =
     (case cat (True, name) of Some (PragmaEntry info) \<Rightarrow> Some (pf_handler (pi_function info)) | _ \<Rightarrow> None)"

fun run_session ::
  "catalog \<Rightarrow> 'v pragma_env \<Rightarrow> 'v statement list \<Rightarrow> world \<Rightarrow> string outcome option list \<times> world" where
  "run_session cat pe [] w = ([], w)"
| "run_session cat pe (st # sts) w =
     (case handler_of cat (ss_name st) of
        None \<Rightarrow> (case run_session cat pe sts w of (rs, w') \<Rightarrow> (None # rs, w'))
      | Some h \<Rightarrow>
          (case invoke pe h st w of
             (r, w1, acts) \<Rightarrow> (case run_session cat pe sts w1 of (rs, w') \<Rightarrow> (r # rs, w'))))"

section \<open>The specification\<close>

datatype effect = Opens tunnel_id | ClosesOne tunnel_id | ClosesAll | NoEffect

fun apply_effect :: "effect \<Rightarrow> tunnel_id set \<Rightarrow> tunnel_id set" where
  "apply_effect (Opens i) S = insert i S"
| "apply_effect (ClosesOne i) S = S - {i}"
| "apply_effect ClosesAll S = {}"
| "apply_effect NoEffect S = S"

text \<open>The effect a user reads off a statement and its answer: the answer of an import or export begins
  with the identifier, a close names it.\<close>

definition names_tunnel :: "string \<Rightarrow> tunnel_id \<Rightarrow> bool" where
  "names_tunnel s i \<longleftrightarrow> (\<exists>rest. s = ''SELECT '' @ to_string (sint i) @ '' as tunnel_id, '' @ rest)"

inductive shows_effect ::
  "catalog \<Rightarrow> 'v pragma_env \<Rightarrow> 'v statement \<Rightarrow> string outcome option \<Rightarrow> effect \<Rightarrow> bool" for cat pe st
where
  opened: "shows_effect cat pe st (Some (Returns s)) (Opens i)"
    if "handler_of cat (ss_name st) \<in> {Some CallsTunnelCreate, Some CallsTunnelExport}" and "names_tunnel s i"
| closed: "shows_effect cat pe st (Some (Returns s)) (ClosesOne (word_of_int k))"
    if "handler_of cat (ss_name st) = Some CallsTunnelClose" and "ss_values st = v # vs"
      and "pe_int pe v = Returns k"
| closed_all: "shows_effect cat pe st (Some (Returns s)) ClosesAll"
    if "handler_of cat (ss_name st) = Some CallsTunnelCloseAll"
| activated: "shows_effect cat pe st (Some (Returns s)) NoEffect"
    if "handler_of cat (ss_name st) = Some CallsMeshActivate"
| failed: "shows_effect cat pe st r NoEffect"
    if "\<And>s. r \<noteq> Some (Returns s)"

inductive_cases shows_opens: "shows_effect cat pe st r (Opens i)"

fun opened_ids :: "effect list \<Rightarrow> tunnel_id list" where
  "opened_ids [] = []"
| "opened_ids (Opens i # es) = i # opened_ids es"
| "opened_ids (_ # es) = opened_ids es"

section \<open>Lemmas\<close>

text \<open>The counter goes up by one at most.\<close>

lemma next_id_store [simp]: "tm_next_tunnel_id (store_tunnel i h tm) = tm_next_tunnel_id tm"
  by (simp add: store_tunnel_def)

lemma next_id_generate [simp]: "tm_next_tunnel_id (snd (GenerateTunnelId tm)) = tm_next_tunnel_id tm + 1"
  by (simp add: GenerateTunnelId_def)

definition counted :: "TunnelManager \<Rightarrow> TunnelManager \<Rightarrow> bool" where
  "counted tm tm' \<longleftrightarrow> tm_next_tunnel_id tm' \<in> {tm_next_tunnel_id tm, tm_next_tunnel_id tm + 1}"

lemma factories_counted:
  "counted tm (fst (snd (CreateTunnel pl what ia auth rh rp lp sh sp su timeout ba tm)))"
  "counted tm (fst (snd (CreateSshExport pl xa auth lh lp rbh rp timeout tm)))"
  "counted tm (fst (snd (CreateMeshTunnel pl mb fa n rh rp lp timeout ba tm ml mc)))"
  "counted tm (fst (snd (CreateMeshExport pl mb reader ea n rp lh lp tm ml mc)))"
  by (auto simp: counted_def CreateTunnel_def CreateSshExport_def CreateMeshTunnel_def CreateMeshExport_def
      Let_def case_prod_beta split: option.split outcome.split)


definition open_ids :: "TunnelManager \<Rightarrow> tunnel_id set" where
  "open_ids tm = dom (find_tunnel tm)"

lemma find_tunnel_fun: "find_tunnel tm = map_of (tm_tunnels tm)"
  by (simp add: find_tunnel_def fun_eq_iff)

lemma open_ids_keys: "open_ids tm = set (map fst (tm_tunnels tm))"
  by (simp add: open_ids_def find_tunnel_fun dom_map_of_conv_image_fst)

lemma open_below: "tm_wf tm \<Longrightarrow> i \<in> open_ids tm \<Longrightarrow> sint i < sint (tm_next_tunnel_id tm)"
  unfolding tm_wf_def open_ids_keys by blast

text \<open>What a handler that creates does to the registry, in the words of the specification.\<close>

definition opens_next :: "TunnelManager \<Rightarrow> string outcome option \<Rightarrow> TunnelManager \<Rightarrow> bool" where
  "opens_next tm r tm' \<longleftrightarrow> tm_wf tm' \<and> counted tm tm' \<and>
     (case r of
        Some (Returns s) \<Rightarrow> names_tunnel s (tm_next_tunnel_id tm) \<and>
          open_ids tm' = insert (tm_next_tunnel_id tm) (open_ids tm)
      | _ \<Rightarrow> open_ids tm' = open_ids tm)"

lemma opens_next_nothing:
  "tm_wf tm \<Longrightarrow> (\<And>s. r \<noteq> Some (Returns s)) \<Longrightarrow> opens_next tm r tm"
  by (auto simp: opens_next_def counted_def split: option.split outcome.split)

lemma opens_next_answer:
  assumes "published tm r tm'" and "counted tm tm'" and "\<And>i. names_tunnel (query i) i"
  shows "opens_next tm (answer r query) tm'"
proof (cases "\<exists>i. r = Some (Returns i)")
  case True
  with assms show ?thesis by (auto simp: opens_next_def published_def answer_def open_ids_def)
next
  case False
  then have "\<And>s. answer r query \<noteq> Some (Returns s)" by (auto simp: answer_Returns)
  moreover have "find_tunnel tm' = find_tunnel tm"
    using published_otherwise [OF assms(1)] False by (auto simp: find_tunnel_def fun_eq_iff)
  ultimately show ?thesis using assms(1,2)
    by (auto simp: opens_next_def published_def open_ids_def split: option.split outcome.split)
qed

lemma names_tunnel_messages [simp]:
  "names_tunnel (msg_created i) i" "names_tunnel (msg_exporting where_to p lh lp i) i"
  by (simp_all add: names_tunnel_def msg_created_def msg_exporting_def)

lemma create_over_mesh_opens:
  assumes "tm_wf (wo_tm w)" and "ids_left (wo_tm w)" and "create_over_mesh pe a name ip w = (r, w', acts)"
  shows "opens_next (wo_tm w) r (wo_tm w')"
proof -
  obtain x mc where m: "MeshBackendFromSecret (pe_lower pe) (pe_secrets pe) name (wo_mc w) = (x, mc)"
    by fastforce
  show ?thesis
  proof (cases x)
    case (Returns n)
    obtain r' tm ml mc' l where c: "CreateMeshTunnel (pe_platform pe) (pe_build pe) (ia_mesh a) n
        (ip_remote_host ip) (ip_remote_port ip) (ip_local_port ip) (ip_timeout_seconds ip)
        (ip_bind_all ip) (wo_tm w) (wo_ml w) mc = (r', tm, ml, mc', l)"
      by (metis prod_cases5)
    with assms(3) m Returns have "r = answer r' msg_created" "wo_tm w' = tm"
      by (auto simp: create_over_mesh_def)
    moreover have "counted (wo_tm w) tm" using factories_counted(3) c by (metis fst_conv snd_conv)
    ultimately show ?thesis
      using opens_next_answer [OF CreateMeshTunnel_published [OF assms(1,2) c]] by simp
  qed (use assms(3) m opens_next_nothing [OF assms(1)] in \<open>auto simp: create_over_mesh_def\<close>)
qed

lemma create_over_ssh_opens:
  assumes "tm_wf (wo_tm w)" and "ids_left (wo_tm w)" and "create_over_ssh pe a name ip w = (r, w', acts)"
  shows "opens_next (wo_tm w) r (wo_tm w')"
proof (cases "GetTunnelAuthParamsFromContext (pe_secrets pe) name")
  case (Returns auth)
  obtain r' tm l where c: "CreateTunnel (pe_platform pe) (pe_what pe) (ia_ssh a) auth
      (ip_remote_host ip) (ip_remote_port ip) (ip_local_port ip) (au_ssh_host auth) (au_ssh_port auth)
      (au_ssh_user auth) (ip_timeout_seconds ip) (ip_bind_all ip) (wo_tm w) = (r', tm, l)"
    by (metis prod_cases3)
  with assms(3) Returns have "r = answer r' msg_created" "wo_tm w' = tm"
    by (auto simp: create_over_ssh_def)
  moreover have "counted (wo_tm w) tm" using factories_counted(1) c by (metis fst_conv snd_conv)
  ultimately show ?thesis
    using opens_next_answer [OF CreateTunnel_published [OF assms(1,2) c]] by simp
qed (use assms(3) opens_next_nothing [OF assms(1)] in \<open>auto simp: create_over_ssh_def\<close>)

lemma export_over_mesh_opens:
  assumes "tm_wf (wo_tm w)" and "ids_left (wo_tm w)"
    and "export_over_mesh pe a name xp port w = (r, w', acts)"
  shows "opens_next (wo_tm w) r (wo_tm w')"
proof (cases "xp_remote_host xp \<noteq> [] \<or> port = 0")
  case True
  with assms(3) opens_next_nothing [OF assms(1)] show ?thesis
    by (auto simp: export_over_mesh_def split: if_splits)
next
  case False
  obtain x mc where m: "MeshBackendFromSecret (pe_lower pe) (pe_secrets pe) name (wo_mc w) = (x, mc)"
    by fastforce
  show ?thesis
  proof (cases x)
    case (Returns n)
    obtain r' tm ml mc' l where c: "CreateMeshExport (pe_platform pe) (pe_build pe) (pe_reader pe)
        (xa_mesh a) n port (xp_local_host xp) (xp_local_port xp) (wo_tm w) (wo_ml w) mc =
        (r', tm, ml, mc', l)"
      by (metis prod_cases5)
    with assms(3) m Returns False
    have "r = answer r' (msg_exporting '' on the mesh'' port (xp_local_host xp) (xp_local_port xp))"
      "wo_tm w' = tm"
      by (auto simp: export_over_mesh_def)
    moreover have "counted (wo_tm w) tm" using factories_counted(4) c by (metis fst_conv snd_conv)
    ultimately show ?thesis
      using opens_next_answer [OF CreateMeshExport_published [OF assms(1,2) c]] by simp
  qed (use assms(3) m opens_next_nothing [OF assms(1)] False in \<open>auto simp: export_over_mesh_def\<close>)
qed

lemma export_over_ssh_opens:
  assumes "tm_wf (wo_tm w)" and "ids_left (wo_tm w)"
    and "export_over_ssh pe a named name xp port w = (r, w', acts)"
  shows "opens_next (wo_tm w) r (wo_tm w')"
proof (cases "GetTunnelAuthParamsFromContext (pe_secrets pe) name")
  case (Returns auth)
  note auth = this
  show ?thesis
  proof (cases "read_timeout pe named 60")
    case (Returns t)
    obtain r' tm l where c: "CreateSshExport (pe_platform pe) (xa_ssh a) auth (xp_local_host xp)
        (xp_local_port xp) (xp_remote_host xp) port t (wo_tm w) = (r', tm, l)"
      by (metis prod_cases3)
    with assms(3) Returns auth
    have "r = answer (Some r') (\<lambda>i. msg_exporting '' via the SSH server'' (GetTunnelBoundPort i tm)
        (xp_local_host xp) (xp_local_port xp) i)" "wo_tm w' = tm"
      by (auto simp: export_over_ssh_def)
    moreover have "counted (wo_tm w) tm" using factories_counted(2) c by (metis fst_conv snd_conv)
    ultimately show ?thesis
      using opens_next_answer [OF CreateSshExport_published [OF assms(1,2) c]] by simp
  qed (use assms(3) auth opens_next_nothing [OF assms(1)] in \<open>auto simp: export_over_ssh_def\<close>)
qed (use assms(3) opens_next_nothing [OF assms(1)] in \<open>auto simp: export_over_ssh_def\<close>)

lemma creating_handlers_open:
  assumes "tm_wf (wo_tm w)" and "ids_left (wo_tm w)"
  shows "TunnelCreate pe ia named w = (r, w', acts) \<Longrightarrow> opens_next (wo_tm w) r (wo_tm w')"
    and "TunnelExport pe xa named w = (r, w', acts) \<Longrightarrow> opens_next (wo_tm w) r (wo_tm w')"
  using create_over_mesh_opens [OF assms] create_over_ssh_opens [OF assms]
    export_over_mesh_opens [OF assms] export_over_ssh_opens [OF assms] opens_next_nothing [OF assms(1)]
  by (auto simp: TunnelCreate_def TunnelExport_def Let_def split: outcome.splits if_splits)

text \<open>Closing keeps the registry well-formed and the counter.\<close>

lemma drops_wf:
  assumes "tm_wf tm" and "tm_invariant tm'" and "drops env tm tm' es acts"
  shows "tm_wf tm'" "counted tm tm'"
proof -
  have "mset (tm_tunnels tm') \<subseteq># mset (tm_tunnels tm)" "tm_next_tunnel_id tm' = tm_next_tunnel_id tm"
    using assms(3) by (simp_all add: drops_def)
  moreover from this(1) have "set (tm_tunnels tm') \<subseteq> set (tm_tunnels tm)"
    by (metis set_mset_mono set_mset_mset)
  ultimately show "tm_wf tm'" "counted tm tm'"
    using assms(1,2) by (auto simp: tm_wf_def counted_def)
qed

definition refines_effect :: "TunnelManager \<Rightarrow> effect \<Rightarrow> TunnelManager \<Rightarrow> bool" where
  "refines_effect tm eff tm' \<longleftrightarrow> tm_wf tm' \<and> counted tm tm' \<and>
     open_ids tm' = apply_effect eff (open_ids tm) \<and>
     (\<forall>i. eff = Opens i \<longrightarrow> i = tm_next_tunnel_id tm)"

lemma opens_next_effect:
  assumes "opens_next tm r tm'" and "handler_of cat (ss_name st) \<in> {Some CallsTunnelCreate, Some CallsTunnelExport}"
  shows "\<exists>eff. shows_effect cat pe st r eff \<and> refines_effect tm eff tm'"
proof (cases "\<exists>s. r = Some (Returns s)")
  case True
  with assms show ?thesis
    by (intro exI [of _ "Opens (tm_next_tunnel_id tm)"])
      (auto simp: opens_next_def refines_effect_def intro: shows_effect.opened)
next
  case False
  with assms(1) have "refines_effect tm NoEffect tm'"
    by (auto simp: opens_next_def refines_effect_def split: option.splits outcome.splits)
  moreover have "shows_effect cat pe st r NoEffect" using False by (auto intro: shows_effect.failed)
  ultimately show ?thesis by blast
qed

lemma close_effect:
  assumes "tm_wf tm" and "TunnelClose pe env v tm = (r, tm', acts)"
    and "handler_of cat (ss_name st) = Some CallsTunnelClose" and "ss_values st = v # vs"
  shows "\<exists>eff. shows_effect cat pe st (Some r) eff \<and> refines_effect tm eff tm'"
proof (cases "pe_int pe v")
  case (Returns k)
  have inv: "tm_invariant tm" using assms(1) by (simp add: tm_wf_def)
  obtain found tm1 acts1 where c: "CloseTunnel env (word_of_int k) tm = (found, tm1, acts1)"
    by (metis prod_cases3)
  with assms(2) Returns have r: "r = Returns (msg_close_result k found)" "tm' = tm1"
    by (simp_all add: TunnelClose_def)
  have "tm_invariant tm1" using manager_keeps_invariant(1) [OF inv] c by (metis fst_conv snd_conv)
  note wf = drops_wf [OF assms(1) this CloseTunnel_drops [OF inv c]]
  have "find_tunnel tm1 = (find_tunnel tm)(word_of_int k := None)"
    using c registry.lookup_erase [OF inv, of "word_of_int k"]
    by (auto simp: CloseTunnel_def split: option.splits)
  with wf r have "refines_effect tm (ClosesOne (word_of_int k)) tm'"
    by (auto simp: refines_effect_def open_ids_def)
  moreover have "shows_effect cat pe st (Some r) (ClosesOne (word_of_int k))"
    unfolding r using assms(3,4) Returns by (rule shows_effect.closed)
  ultimately show ?thesis by blast
qed (use assms in \<open>auto simp: TunnelClose_def refines_effect_def counted_def
       intro!: exI [of _ NoEffect] shows_effect.failed\<close>)


lemma close_all_effect:
  assumes "tm_wf tm" and "TunnelCloseAll env tm = (r, tm', acts)"
  shows "\<exists>s. r = Returns s" and "refines_effect tm ClosesAll tm'"
proof -
  have inv: "tm_invariant tm" using assms(1) by (simp add: tm_wf_def)
  have tm': "tm' = fst (CloseAllTunnels env tm)" and "\<exists>s. r = Returns s"
    using assms(2) by (auto simp: TunnelCloseAll_def case_prod_beta)
  then show "\<exists>s. r = Returns s" by simp
  show "refines_effect tm ClosesAll tm'"
    using drops_wf [OF assms(1) manager_keeps_invariant(2) [OF inv] CloseAllTunnels_drops, folded tm']
    by (simp add: refines_effect_def open_ids_def) (simp add: tm' CloseAllTunnels_def find_tunnel_def fun_eq_iff)
qed

lemma refines_nothing: "tm_wf tm \<Longrightarrow> refines_effect tm NoEffect tm"
  by (simp add: refines_effect_def counted_def)

text \<open>One statement: the answer shows an effect, and the registry follows it.\<close>

lemma invoke_effect:
  assumes "tm_wf (wo_tm w)" and "ids_left (wo_tm w)"
    and h: "handler_of cat (ss_name st) = Some h" and "invoke pe h st w = (r, w', acts)"
  shows "\<exists>eff. shows_effect cat pe st r eff \<and> refines_effect (wo_tm w) eff (wo_tm w')"
proof (cases h)
  case CallsTunnelCreate
  with assms(4) have "opens_next (wo_tm w) r (wo_tm w')"
    using creating_handlers_open(1) [OF assms(1,2)] by (simp add: invoke_def)
  then show ?thesis by (rule opens_next_effect) (use h CallsTunnelCreate in simp)
next
  case CallsTunnelExport
  with assms(4) have "opens_next (wo_tm w) r (wo_tm w')"
    using creating_handlers_open(2) [OF assms(1,2)] by (simp add: invoke_def)
  then show ?thesis by (rule opens_next_effect) (use h CallsTunnelExport in simp)
next
  case CallsTunnelClose
  show ?thesis
  proof (cases "ss_values st")
    case Nil
    with CallsTunnelClose assms(4) refines_nothing [OF assms(1)] show ?thesis
      by (intro exI [of _ NoEffect]) (auto simp: invoke_def intro: shows_effect.failed)
  next
    case (Cons v vs)
    obtain r1 tm1 acts1 where c: "TunnelClose pe (pa_close (ss_answers st)) v (wo_tm w) = (r1, tm1, acts1)"
      by (metis prod_cases3)
    with assms(4) CallsTunnelClose Cons have "r = Some r1" "wo_tm w' = tm1" by (auto simp: invoke_def)
    with close_effect [OF assms(1) c h [unfolded CallsTunnelClose] Cons] show ?thesis by simp
  qed
next
  case CallsTunnelCloseAll
  obtain r1 tm1 acts1 where c: "TunnelCloseAll (pa_close (ss_answers st)) (wo_tm w) = (r1, tm1, acts1)"
    by (metis prod_cases3)
  with assms(4) CallsTunnelCloseAll have "r = Some r1" "wo_tm w' = tm1" by (auto simp: invoke_def)
  with close_all_effect [OF assms(1) c] h CallsTunnelCloseAll show ?thesis
    by (intro exI [of _ ClosesAll]) (auto intro: shows_effect.closed_all)
next
  case CallsMeshActivate
  then have "\<exists>r1. r = Some r1" "wo_tm w' = wo_tm w"
    using assms(4) by (auto simp: invoke_def split: prod.splits)
  moreover have "shows_effect cat pe st r NoEffect"
    using h CallsMeshActivate by (cases "\<exists>s. r = Some (Returns s)")
      (auto intro: shows_effect.activated shows_effect.failed)
  ultimately show ?thesis using refines_nothing [OF assms(1)] by auto
qed


lemma counted_sint:
  assumes "tm_wf tm" and "ids_left tm" and "counted tm tm'"
  shows "sint (tm_next_tunnel_id tm) \<le> sint (tm_next_tunnel_id tm')"
    and "sint (tm_next_tunnel_id tm') \<le> sint (tm_next_tunnel_id tm) + 1"
  using assms sint_next [OF assms(2)] by (auto simp: counted_def tm_wf_def)

definition follows :: "catalog \<Rightarrow> 'v pragma_env \<Rightarrow> 'v statement list \<Rightarrow> string outcome option list \<Rightarrow> effect list \<Rightarrow> bool" where
  "follows cat pe sts rs effs \<longleftrightarrow> length rs = length sts \<and>
     list_all2 (\<lambda>(st, r) eff. shows_effect cat pe st r eff) (zip sts rs) effs"

text \<open>The identifiers a session opens lie between the counter at its start and at its end.\<close>

definition session_post ::
  "TunnelManager \<Rightarrow> effect list \<Rightarrow> TunnelManager \<Rightarrow> bool" where
  "session_post tm effs tm' \<longleftrightarrow> tm_wf tm' \<and> open_ids tm' = fold apply_effect effs (open_ids tm) \<and>
     distinct (opened_ids effs) \<and> sint (tm_next_tunnel_id tm) \<le> sint (tm_next_tunnel_id tm') \<and>
     (\<forall>i \<in> set (opened_ids effs). sint (tm_next_tunnel_id tm) \<le> sint i \<and> sint i < sint (tm_next_tunnel_id tm'))"

lemma session_post_step:
  assumes "tm_wf tm" and "ids_left tm" and "refines_effect tm eff tm1" and "session_post tm1 effs tm'"
  shows "session_post tm (eff # effs) tm'"
proof -
  let ?n = "\<lambda>tm. sint (tm_next_tunnel_id tm)"
  have up: "?n tm \<le> ?n tm1" using counted_sint [OF assms(1,2)] assms(3) by (simp add: refines_effect_def)
  have eff: "open_ids tm1 = apply_effect eff (open_ids tm)" using assms(3) by (simp add: refines_effect_def)
  have post: "tm_wf tm'" "open_ids tm' = fold apply_effect effs (open_ids tm1)" "distinct (opened_ids effs)"
    and ids: "?n tm1 \<le> ?n tm'" "\<forall>j \<in> set (opened_ids effs). ?n tm1 \<le> sint j \<and> sint j < ?n tm'"
    using assms(4) by (simp_all add: session_post_def)
  show ?thesis
  proof (cases "\<exists>i. eff = Opens i")
    case True
    then obtain i where i: "eff = Opens i" by blast
    with assms(3) have "i = tm_next_tunnel_id tm" "i \<in> open_ids tm1" "tm_wf tm1"
      by (auto simp: refines_effect_def)
    then have n: "?n tm = sint i" "sint i < ?n tm1" using open_below by simp_all
    then have "i \<notin> set (opened_ids effs)" using ids by auto
    moreover have "\<forall>j \<in> set (opened_ids effs). sint i \<le> sint j \<and> sint j < ?n tm'" using ids n by fastforce
    ultimately show ?thesis using post n ids(1) i
      by (simp add: session_post_def eff)
  next
    case False
    then have "opened_ids (eff # effs) = opened_ids effs" by (cases eff) simp_all
    moreover have "\<forall>j \<in> set (opened_ids effs). ?n tm \<le> sint j \<and> sint j < ?n tm'" using ids up by fastforce
    ultimately show ?thesis using post ids(1) up by (simp add: session_post_def eff)
  qed
qed

lemma session_refines_from:
  assumes "tm_wf (wo_tm w)" and "sint (tm_next_tunnel_id (wo_tm w)) + int (length sts) < 2 ^ 63"
    and "run_session cat pe sts w = (rs, w')"
  shows "\<exists>effs. follows cat pe sts rs effs \<and> session_post (wo_tm w) effs (wo_tm w')"
  using assms
proof (induction sts arbitrary: w rs)
  case Nil
  then show ?case by (auto simp: follows_def session_post_def)
next
  case (Cons st sts)
  have left: "ids_left (wo_tm w)" using Cons.prems(2) by (simp add: ids_left_def)
  show ?case
  proof (cases "handler_of cat (ss_name st)")
    case None
    then obtain rs1 where rs: "run_session cat pe sts w = (rs1, w')" "rs = None # rs1"
      using Cons.prems(3) by (auto split: prod.splits)
    with Cons.IH [of w rs1] Cons.prems obtain effs where
      "follows cat pe sts rs1 effs" "session_post (wo_tm w) effs (wo_tm w')" by auto
    with rs show ?thesis
      by (intro exI [of _ "NoEffect # effs"]) (auto simp: follows_def session_post_def intro: shows_effect.failed)
  next
    case (Some h)
    obtain r w1 acts where inv: "invoke pe h st w = (r, w1, acts)" by (metis prod_cases3)
    with Cons.prems(3) Some obtain rs1 where rs: "run_session cat pe sts w1 = (rs1, w')" "rs = r # rs1"
      by (auto split: prod.splits)
    obtain eff where eff: "shows_effect cat pe st r eff" "refines_effect (wo_tm w) eff (wo_tm w1)"
      using invoke_effect [OF Cons.prems(1) left Some inv] by blast
    then have "tm_wf (wo_tm w1)" "counted (wo_tm w) (wo_tm w1)" by (simp_all add: refines_effect_def)
    with Cons.IH [of w1 rs1] rs(1) Cons.prems(2) counted_sint(2) [OF Cons.prems(1) left] obtain effs where
      "follows cat pe sts rs1 effs" "session_post (wo_tm w1) effs (wo_tm w')" by fastforce
    with session_post_step [OF Cons.prems(1) left eff(2)] eff(1) rs(2) show ?thesis
      by (intro exI [of _ "eff # effs"]) (auto simp: follows_def)
  qed
qed


text \<open>What \<^verbatim>\<open>tunnels()\<close> lists of a well-formed registry.\<close>

lemma tunnels_ids:
  assumes "tm_wf tm" and "length (tm_tunnels tm) \<le> n"
    and "ListTunnelsBind True (Some tm) = (types, names, b)"
  shows "map hd (drain ListTunnelsFunction n b) = map (BigIntCell \<circ> fst) (tm_tunnels tm)"
    and "set (map fst (tm_tunnels tm)) = open_ids tm"
proof -
  have b: "b = make_TunnelsBindData (ListTunnelsWithDetails True tm)"
    using assms(3) by (simp add: ListTunnelsBind_def)
  have "drain ListTunnelsFunction n b = map tunnel_row (ListTunnelsWithDetails True tm)"
    using tunnels_scan.drain_complete [of b n] assms(2)
    by (simp add: b make_TunnelsBindData_def ListTunnelsWithDetails_def)
  then show "map hd (drain ListTunnelsFunction n b) = map (BigIntCell \<circ> fst) (tm_tunnels tm)"
    by (simp add: ListTunnelsWithDetails_def tunnel_row_def Let_def comp_def case_prod_beta)
  show "set (map fst (tm_tunnels tm)) = open_ids tm"
    by (simp add: open_ids_keys)
qed

lemma new_manager_wf: "tm_wf new_TunnelManager" "open_ids new_TunnelManager = {}"
    "sint (tm_next_tunnel_id new_TunnelManager) = 1"
  by (simp_all add: new_TunnelManager_def tm_wf_def tm_invariant_def open_ids_def find_tunnel_fun)

text \<open>The pragmas of the extension, whatever else is in the catalog.\<close>

lemma handlers_of_surface:
  assumes "m = (True :: bool) \<or> n \<noteq> ''tunnel_mesh_activate''"
    and "(n, h) \<in> {(''tunnel_import'', CallsTunnelCreate), (''tunnel_create'', CallsTunnelCreate),
       (''tunnel_export'', CallsTunnelExport), (''tunnel_close'', CallsTunnelClose),
       (''tunnel_close_all'', CallsTunnelCloseAll), (''tunnel_mesh_activate'', CallsMeshActivate)}"
  shows "handler_of (cat ++ surface m) n = Some h"
proof -
  let ?fs = "map (\<lambda>(f, d). PragmaEntry (pragma_info f [d])) (tunnel_pragmas @ (if m then mesh_pragmas else []))"
  have "\<exists>e \<in> set ?fs. entry_key e = (True, n) \<and> (\<exists>info. e = PragmaEntry info \<and> pf_handler (pi_function info) = h)"
    using assms
    by (auto simp: tunnel_pragmas_def mesh_pragmas_def pragma_info_def TunnelDoc_def PragmaCall_def
        CreateTunnelImportPragma_def CreateTunnelCreatePragma_def CreateTunnelExportPragma_def
        CreateTunnelClosePragma_def CreateTunnelCloseAllPragma_def CreateMeshActivatePragma_def
        MakeImportPragma_def MakeExportPragma_def)
  moreover have "set ?fs \<subseteq> set (surface_entries m)"
    unfolding surface_entries_def set_append [of "map (\<lambda>(f, d). PragmaEntry (pragma_info f [d])) _"]
    by (rule Un_upper1)
  ultimately obtain info where "PragmaEntry info \<in> set (surface_entries m)"
      "entry_key (PragmaEntry info) = (True, n)" "pf_handler (pi_function info) = h"
    by blast
  with surface_entry [of "PragmaEntry info" m] show ?thesis
    by (simp add: handler_of_def map_add_def)
qed

end
