(* ===== verification/Ssh_Tunnel_Client.thy ===== *)
theory Ssh_Tunnel_Client
  imports Socket_Compat "HOL-Library.Sublist"
begin

text \<open>
  The stand-alone client of \<^verbatim>\<open>src/src/ssh_tunnel_client.cpp\<close>: the parsing of its command line,
  the start of the tunnel with its error paths, the thread that forwards one client, and the main
  loop with the detached threads beside it as a step relation.

  What the process writes to its two output streams and the set-up and tear-down of the libraries
  are events beside the calls of the resource protocol; \<open>os_log\<close> is the log of the latter. The
  answers of the operating system and of libssh2 are the fields of \<open>client_env\<close>, \<open>client_arrival\<close>
  and \<open>thread_turn\<close>.
\<close>

section \<open>Output and library calls\<close>

datatype client_event =
    SysCall os_event
  | LibInit
  | LibExit
  | WsaStartup
  | WsaCleanup
  | Cout string
  | Cerr string

fun os_log :: "client_event list \<Rightarrow> log" where
  "os_log [] = []"
| "os_log (SysCall e # l) = e # os_log l"
| "os_log (e # l) = os_log l"

section \<open>The command line\<close>

record client_options =
  co_ssh_host :: string
  co_ssh_port :: int
  co_ssh_user :: string
  co_key_file :: string
  co_local_port :: int
  co_remote_host :: string
  co_remote_port :: int

definition default_options :: client_options where
  "default_options = \<lparr>co_ssh_host = ''localhost'', co_ssh_port = 22, co_ssh_user = ''root'',
     co_key_file = [], co_local_port = 9000, co_remote_host = [], co_remote_port = 0\<rparr>"

definition newline :: string where "newline = [CHR 0x0A]"

definition print_usage :: "string \<Rightarrow> string" where
  "print_usage program_name =
     ''Usage: '' @ program_name @ '' [OPTIONS]'' @ newline @
     ''Options:'' @ newline @
     ''  --host HOST       SSH host (default: localhost)'' @ newline @
     ''  --port PORT       SSH port (default: 22)'' @ newline @
     ''  --user USER       SSH username (default: root)'' @ newline @
     ''  --key KEYFILE     SSH private key file'' @ newline @
     ''  --lport PORT      Local port to bind (default: 9000)'' @ newline @
     ''  --rhost HOST      Remote host to forward to'' @ newline @
     ''  --rport PORT      Remote port to forward to'' @ newline @
     ''  --help            Show this help message'' @ newline @ newline @
     ''Example:'' @ newline @
     ''  '' @ program_name @ '' --host 127.0.0.1 --port 2222 --user root --key ./key '' @ [CHR 0x5C] @ newline @
     ''      --lport 9000 --rhost service --rport 8000'' @ newline"

text \<open>The options that take a value, with the assignment each performs.\<close>

definition option_setter ::
  "string \<Rightarrow> (string \<Rightarrow> client_options \<Rightarrow> client_options outcome) option" where
  "option_setter a =
     (if a = ''--host'' then Some (\<lambda>v co. Returns (co\<lparr>co_ssh_host := v\<rparr>))
      else if a = ''--port'' then
        Some (\<lambda>v co. bind_outcome (atoi v) (\<lambda>p. Returns (co\<lparr>co_ssh_port := p\<rparr>)))
      else if a = ''--user'' then Some (\<lambda>v co. Returns (co\<lparr>co_ssh_user := v\<rparr>))
      else if a = ''--key'' then Some (\<lambda>v co. Returns (co\<lparr>co_key_file := v\<rparr>))
      else if a = ''--lport'' then
        Some (\<lambda>v co. bind_outcome (atoi v) (\<lambda>p. Returns (co\<lparr>co_local_port := p\<rparr>)))
      else if a = ''--rhost'' then Some (\<lambda>v co. Returns (co\<lparr>co_remote_host := v\<rparr>))
      else if a = ''--rport'' then
        Some (\<lambda>v co. bind_outcome (atoi v) (\<lambda>p. Returns (co\<lparr>co_remote_port := p\<rparr>)))
      else None)"

text \<open>
  The loop over \<^verbatim>\<open>argv\<close> from index 1. \<open>Inl\<close> is the exit code of a process that ends here, \<open>Inr\<close>
  the options. An option without a value after it is an unknown option.
\<close>

fun parse_args ::
  "string \<Rightarrow> string list \<Rightarrow> client_options \<Rightarrow> (client_event list \<times> (int + client_options)) outcome"
where
  "parse_args program_name [] co = Returns ([], Inr co)"
| "parse_args program_name (a # rest) co =
     (case (option_setter a, rest) of
        (Some assign, v # rest') \<Rightarrow>
          bind_outcome (assign v co) (\<lambda>co'. parse_args program_name rest' co')
      | _ \<Rightarrow>
          if a = ''--help'' then Returns ([Cout (print_usage program_name)], Inl 0)
          else Returns ([Cerr (''Unknown option: '' @ a @ newline), Cout (print_usage program_name)], Inl 1))"

definition check_args :: "client_options \<Rightarrow> string option" where
  "check_args co =
     (if co_key_file co = [] then Some (''Error: --key parameter is required'' @ newline)
      else if co_remote_host co = [] then Some (''Error: --rhost parameter is required'' @ newline)
      else if co_remote_port co = 0 then Some (''Error: --rport parameter is required'' @ newline)
      else None)"

definition show_options :: "client_options \<Rightarrow> string" where
  "show_options co =
     ''SSH Tunnel Client'' @ newline @
     ''  SSH Host: '' @ co_ssh_host co @ '':'' @ to_string (co_ssh_port co) @ newline @
     ''  SSH User: '' @ co_ssh_user co @ newline @
     ''  Key File: '' @ co_key_file co @ newline @
     ''  Local Port: '' @ to_string (co_local_port co) @ newline @
     ''  Remote Host: '' @ co_remote_host co @ '':'' @ to_string (co_remote_port co) @ newline"

section \<open>Starting the tunnel\<close>

text \<open>
  What the calls of the start answer. \<open>ce_inet_addr\<close> is \<^verbatim>\<open>inet_addr\<close>, which reads an address in
  dotted form and answers \<open>INADDR_NONE\<close> for everything else.
\<close>

record client_env =
  ce_wsa :: int
  ce_init :: int
  ce_socket :: int
  ce_inet_addr :: "string \<Rightarrow> 32 word"
  ce_connect :: "32 word \<Rightarrow> 16 word \<Rightarrow> bool"
  ce_session :: bool
  ce_handshake :: int
  ce_userauth :: "string \<Rightarrow> string \<Rightarrow> int"
  ce_listen_socket :: int
  ce_bind :: "16 word \<Rightarrow> bool"
  ce_listen :: bool

definition INADDR_NONE :: "32 word" where "INADDR_NONE = 0xFFFFFFFF"

text \<open>\<^verbatim>\<open>htons\<close> takes a \<^verbatim>\<open>uint16_t\<close>: a port outside its range is reduced.\<close>

definition port16 :: "int \<Rightarrow> 16 word" where
  "port16 p = word_of_int p"

text \<open>
  One error path of the start: the message, the calls that undo what was done so far, exit code 1.
\<close>

definition start_failed :: "string \<Rightarrow> client_event list \<Rightarrow> client_event list \<times> (int + unit)" where
  "start_failed message undo = (Cerr (message @ newline) # undo, Inl 1)"

definition then_start ::
  "client_event list \<Rightarrow> client_event list \<times> (int + unit) \<Rightarrow> client_event list \<times> (int + unit)" where
  "then_start l r = (l @ fst r, snd r)"

definition client_listen :: "client_env \<Rightarrow> client_options \<Rightarrow> client_event list \<times> (int + unit)" where
  "client_listen env co =
     (let sock = ce_socket env; ls = ce_listen_socket env;
          undo = [SysCall SessionFree, SysCall (CloseFd sock), LibExit]
      in if ls = - 1 then start_failed ''Failed to create listening socket'' undo
         else then_start [SysCall (OpenFd ls), SysCall (BindFd ls ''0.0.0.0'' (uint (port16 (co_local_port co))))]
           (if \<not> ce_bind env (port16 (co_local_port co)) then
              start_failed (''Failed to bind to local port '' @ to_string (co_local_port co))
                (SysCall (CloseFd ls) # undo)
            else then_start [SysCall (ListenFd ls)]
              (if \<not> ce_listen env then
                 start_failed (''Failed to listen on local port '' @ to_string (co_local_port co))
                   (SysCall (CloseFd ls) # undo)
               else ([Cout (''Listening on local port '' @ to_string (co_local_port co) @ newline)], Inr ()))))"

definition client_session :: "client_env \<Rightarrow> client_options \<Rightarrow> client_event list \<times> (int + unit)" where
  "client_session env co =
     (let sock = ce_socket env in
      if \<not> ce_session env then
        start_failed ''Failed to create SSH session'' [SysCall (CloseFd sock), LibExit]
      else then_start [SysCall SessionInit, SysCall SessionCall]
        (if ce_handshake env \<noteq> 0 then
           start_failed ''SSH handshake failed'' [SysCall SessionFree, SysCall (CloseFd sock), LibExit]
         else then_start [SysCall SessionCall]
           (if ce_userauth env (co_ssh_user co) (co_key_file co) \<noteq> 0 then
              start_failed ''SSH authentication failed'' [SysCall SessionFree, SysCall (CloseFd sock), LibExit]
            else then_start [Cout (''SSH connection established successfully'' @ newline)]
              (client_listen env co))))"

definition client_start :: "client_env \<Rightarrow> client_options \<Rightarrow> client_event list \<times> (int + unit)" where
  "client_start env co =
     (let sock = ce_socket env in
      if ce_init env \<noteq> 0 then start_failed ''Failed to initialize libssh2'' []
      else then_start [LibInit]
        (if sock = - 1 then start_failed ''Failed to create socket'' [LibExit]
         else then_start [SysCall (OpenFd sock), SysCall (ConnectFd sock)]
           (if \<not> ce_connect env (ce_inet_addr env (co_ssh_host co)) (port16 (co_ssh_port co)) then
              start_failed ''Failed to connect to SSH server'' [SysCall (CloseFd sock), LibExit]
            else client_session env co)))"

text \<open>\<^verbatim>\<open>main\<close> up to its loop. On Windows an early return leaves Winsock started.\<close>

definition client_prepare ::
  "platform \<Rightarrow> client_env \<Rightarrow> string \<Rightarrow> string list \<Rightarrow> (client_event list \<times> (int + client_options)) outcome"
where
  "client_prepare pl env program_name argv =
     (if pl = Windows \<and> ce_wsa env \<noteq> 0 then
        Returns ([Cerr (''Failed to initialize Windows sockets'' @ newline)], Inl 1)
      else bind_outcome (parse_args program_name argv default_options)
        (\<lambda>(l, r). Returns
          (case r of
             Inl code \<Rightarrow> ((if pl = Windows then [WsaStartup] else []) @ l, Inl code)
           | Inr co \<Rightarrow>
               (case check_args co of
                  Some m \<Rightarrow> ((if pl = Windows then [WsaStartup] else []) @ l @ [Cerr m], Inl 1)
                | None \<Rightarrow>
                    (case client_start env co of (l', r') \<Rightarrow>
                      ((if pl = Windows then [WsaStartup] else []) @ l @ Cout (show_options co) # l',
                       map_sum id (\<lambda>_. co) r'))))))"

section \<open>Forwarding one client\<close>

text \<open>
  One pass of the thread's loop: what \<^verbatim>\<open>select\<close> and the reads and writes answer. \<open>tt_read\<close> and
  \<open>tt_channel_read\<close> are at most one buffer long; \<open>tt_write\<close> is the result of
  \<^verbatim>\<open>libssh2_channel_write\<close> and \<open>tt_sent\<close> that of \<^verbatim>\<open>write\<close>, which the code does not look at.
\<close>

record thread_turn =
  tt_select :: int
  tt_read :: recv_result
  tt_write :: int
  tt_channel_read :: recv_result
  tt_sent :: int
  tt_eof :: bool

definition client_to_channel :: "int \<Rightarrow> nat \<Rightarrow> thread_turn \<Rightarrow> bool \<times> log" where
  "client_to_channel s c t =
     (if tt_select t > 0 then
        (case tt_read t of
           Received (b # bs) \<Rightarrow>
             (\<not> tt_write t < 0,
              [SelectRead [s], RecvOn s (b # bs), ChannelWrite c (take (nat (tt_write t)) (b # bs))])
         | _ \<Rightarrow> (False, [SelectRead [s], RecvOn s []]))
      else (True, [SelectRead [s]]))"

definition channel_to_client :: "int \<Rightarrow> nat \<Rightarrow> thread_turn \<Rightarrow> bool \<times> log" where
  "channel_to_client s c t =
     (case tt_channel_read t of
        Received (b # bs) \<Rightarrow>
          (True, [ChannelRead c (b # bs), SendOn s (take (nat (tt_sent t)) (b # bs))])
      | Received [] \<Rightarrow> (\<not> tt_eof t, [ChannelRead c []])
      | RecvFailed err \<Rightarrow> (err = LIBSSH2_ERROR_EAGAIN, [ChannelRead c []]))"

text \<open>The flag tells whether the loop goes on.\<close>

definition thread_pass :: "int \<Rightarrow> nat \<Rightarrow> thread_turn \<Rightarrow> bool \<times> log" where
  "thread_pass s c t =
     (case client_to_channel s c t of
        (False, l) \<Rightarrow> (False, l)
      | (True, l) \<Rightarrow> (case channel_to_client s c t of (goes_on, l') \<Rightarrow> (goes_on, l @ l')))"

fun thread_loop :: "int \<Rightarrow> nat \<Rightarrow> thread_turn list \<Rightarrow> log" where
  "thread_loop s c [] = []"
| "thread_loop s c (t # ts) =
     (case thread_pass s c t of
        (True, l) \<Rightarrow> l @ thread_loop s c ts
      | (False, l) \<Rightarrow> l)"

definition thread_end :: "int \<Rightarrow> nat \<Rightarrow> log" where
  "thread_end s c = [CloseFd s, ChannelFree c]"

section \<open>The main loop and the detached threads\<close>

text \<open>What one \<^verbatim>\<open>accept\<close> and the opening of a channel answer.\<close>

record client_arrival =
  ca_socket :: int
  ca_channel :: "nat option"

datatype arrival_result = AcceptFailed | NoChannel | Serves int nat

definition client_accept :: "client_arrival \<Rightarrow> arrival_result \<times> log" where
  "client_accept a =
     (let s = ca_socket a in
      if s < 0 then (AcceptFailed, [])
      else (case ca_channel a of
          None \<Rightarrow> (NoChannel, [OpenFd s, SessionCall, CloseFd s])
        | Some c \<Rightarrow> (Serves s c, [OpenFd s, ChannelOpen c])))"

definition client_cleanup :: "int \<Rightarrow> int \<Rightarrow> log" where
  "client_cleanup sock ls = [CloseFd ls, SessionCall, SessionFree, CloseFd sock]"

text \<open>The end of \<^verbatim>\<open>main\<close> with its output and the libraries.\<close>

definition client_exit :: "platform \<Rightarrow> int \<Rightarrow> int \<Rightarrow> client_event list" where
  "client_exit pl sock ls =
     Cout (''Shutting down tunnel...'' @ newline) # map SysCall (client_cleanup sock ls) @ [LibExit] @
     (if pl = Windows then [WsaCleanup] else []) @ [Cout (''Tunnel closed'' @ newline)]"

text \<open>
  The state of the running process: \<^verbatim>\<open>g_running\<close>, whether the main thread is in its loop or what
  is left of its clean-up, the detached threads with their socket and channel, how many were
  started, and the calls made since the start. A detached thread is joined by nobody; the event
  \<open>JoinThread\<close> marks the end of its body, from where on it does not touch the session.
\<close>

datatype client_phase = LoopTop | InAccept | Closing log

record client_state =
  cs_running :: bool
  cs_phase :: client_phase
  cs_threads :: "(nat \<times> int \<times> nat) list"
  cs_started :: nat
  cs_calls :: log

definition client_initial :: client_state where
  "client_initial = \<lparr>cs_running = True, cs_phase = LoopTop, cs_threads = [], cs_started = 0,
     cs_calls = []\<rparr>"

definition does :: "log \<Rightarrow> client_state \<Rightarrow> client_state" where
  "does l s = s\<lparr>cs_calls := cs_calls s @ l\<rparr>"

text \<open>
  The steps: a signal; the test of the flag at the top of the loop; what \<^verbatim>\<open>accept\<close> returns, a
  client to serve, one that gets no channel, or a failure that ends the loop; one call of the
  clean-up; a pass of a thread that goes on, one that ends it, and a thread that sees the flag. A
  pass may have begun before the flag was cleared, so it does not depend on it. The descriptors in
  \<open>F\<close> and the two of the tunnel are open throughout the loop; a new descriptor and a new channel
  are fresh.
\<close>

type_synonym client_thread = "nat \<times> int \<times> nat"

definition sockets_of :: "client_thread list \<Rightarrow> int set" where
  "sockets_of ts = (\<lambda>(w, f, c). f) ` set ts"

definition channels_of :: "client_thread list \<Rightarrow> nat set" where
  "channels_of ts = (\<lambda>(w, f, c). c) ` set ts"

definition pumps_of :: "client_thread list \<Rightarrow> thread set" where
  "pumps_of ts = (\<lambda>(w, f, c). PumpThread w) ` set ts"

definition open_fds :: "int set \<Rightarrow> int \<Rightarrow> int \<Rightarrow> client_state \<Rightarrow> int set" where
  "open_fds F sock ls s = F \<union> {sock, ls} \<union> sockets_of (cs_threads s)"

inductive client_step :: "int set \<Rightarrow> int \<Rightarrow> int \<Rightarrow> client_state \<Rightarrow> client_state \<Rightarrow> bool"
  for F sock ls where
  signal_handler: "client_step F sock ls s (s\<lparr>cs_running := False\<rparr>)"
| enter: "client_step F sock ls s (s\<lparr>cs_phase := InAccept\<rparr>)"
  if "cs_phase s = LoopTop" and "cs_running s"
| leave: "client_step F sock ls s (s\<lparr>cs_phase := Closing (client_cleanup sock ls)\<rparr>)"
  if "cs_phase s = LoopTop" and "\<not> cs_running s"
| accept_fails: "client_step F sock ls s (s\<lparr>cs_phase := Closing (client_cleanup sock ls)\<rparr>)"
  if "cs_phase s = InAccept" and "client_accept a = (AcceptFailed, l)"
| serve: "client_step F sock ls s
     (does (l @ [SpawnThread (PumpThread (cs_started s)), NonBlockingFd f])
       (s\<lparr>cs_phase := LoopTop, cs_threads := (cs_started s, f, c) # cs_threads s,
         cs_started := Suc (cs_started s)\<rparr>))"
  if "cs_phase s = InAccept" and "client_accept a = (Serves f c, l)"
    and "f \<notin> open_fds F sock ls s" and "c \<notin> channels_of (cs_threads s)"
| turn_away: "client_step F sock ls s (does l (s\<lparr>cs_phase := LoopTop\<rparr>))"
  if "cs_phase s = InAccept" and "client_accept a = (NoChannel, l)"
    and "ca_socket a \<notin> open_fds F sock ls s"
| clean_up: "client_step F sock ls s (does [e] (s\<lparr>cs_phase := Closing es\<rparr>))"
  if "cs_phase s = Closing (e # es)"
| pass: "client_step F sock ls s (does l s)"
  if "cs_phase s \<noteq> Closing []" and "(w, f, c) \<in> set (cs_threads s)"
    and "thread_pass f c t = (True, l)"
| finish: "client_step F sock ls s
     (does (l @ thread_end f c @ [JoinThread (PumpThread w)])
       (s\<lparr>cs_threads := [x \<leftarrow> cs_threads s. x \<noteq> (w, f, c)]\<rparr>))"
  if "cs_phase s \<noteq> Closing []" and "(w, f, c) \<in> set (cs_threads s)"
    and "\<not> cs_running s \<and> l = [] \<or> thread_pass f c t = (False, l)"

definition client_reachable :: "int set \<Rightarrow> int \<Rightarrow> int \<Rightarrow> client_state \<Rightarrow> bool" where
  "client_reachable F sock ls = (client_step F sock ls)\<^sup>*\<^sup>* client_initial"
section \<open>What the process holds\<close>

definition session_open :: "client_state \<Rightarrow> bool" where
  "session_open s \<longleftrightarrow> (case cs_phase s of Closing es \<Rightarrow> SessionFree \<in> set es | _ \<Rightarrow> True)"

definition listening :: "int \<Rightarrow> client_state \<Rightarrow> bool" where
  "listening ls s \<longleftrightarrow> (case cs_phase s of Closing es \<Rightarrow> CloseFd ls \<in> set es | _ \<Rightarrow> True)"

definition tunnel_resources :: "int set \<Rightarrow> int \<Rightarrow> int \<Rightarrow> resources" where
  "tunnel_resources F sock ls =
     \<lparr>live_fds = F \<union> {sock, ls}, live_session = True, live_listener = False, live_channels = {},
      live_threads = {}\<rparr>"

definition client_resources :: "int set \<Rightarrow> int \<Rightarrow> int \<Rightarrow> client_state \<Rightarrow> resources" where
  "client_resources F sock ls s =
     \<lparr>live_fds = F \<union> {sock} \<union> (if listening ls s then {ls} else {}) \<union> sockets_of (cs_threads s),
      live_session = True, live_listener = False, live_channels = channels_of (cs_threads s),
      live_threads = pumps_of (cs_threads s)\<rparr>"

definition threads_separate :: "int set \<Rightarrow> int \<Rightarrow> int \<Rightarrow> client_state \<Rightarrow> bool" where
  "threads_separate F sock ls s \<longleftrightarrow>
     distinct (map fst (cs_threads s)) \<and> distinct (map (fst \<circ> snd) (cs_threads s)) \<and>
     distinct (map (snd \<circ> snd) (cs_threads s)) \<and>
     (\<forall>(w, f, c) \<in> set (cs_threads s). w < cs_started s \<and> f \<notin> F \<union> {sock, ls})"

definition cleanup_suffix :: "int \<Rightarrow> int \<Rightarrow> client_state \<Rightarrow> bool" where
  "cleanup_suffix sock ls s \<longleftrightarrow>
     (case cs_phase s of Closing es \<Rightarrow> suffix es (client_cleanup sock ls) | _ \<Rightarrow> True)"

definition client_invariant :: "int set \<Rightarrow> int \<Rightarrow> int \<Rightarrow> client_state \<Rightarrow> bool" where
  "client_invariant F sock ls s \<longleftrightarrow>
     threads_separate F sock ls s \<and> cleanup_suffix sock ls s \<and>
     (session_open s \<longrightarrow>
        resource_run (cs_calls s) (tunnel_resources F sock ls) = Some (client_resources F sock ls s))"

section \<open>Lemmas\<close>

lemma os_log_append [simp]: "os_log (xs @ ys) = os_log xs @ os_log ys"
  by (induction xs rule: os_log.induct) simp_all

lemma os_log_client_exit: "os_log (client_exit pl sock ls) = client_cleanup sock ls"
  by (simp add: client_exit_def client_cleanup_def)

lemma then_start_simps [simp]:
  "fst (then_start l r) = l @ fst r" "snd (then_start l r) = snd r"
  by (simp_all add: then_start_def)

lemma start_failed_simps [simp]:
  "fst (start_failed m undo) = Cerr (m @ newline) # undo" "snd (start_failed m undo) = Inl 1"
  by (simp_all add: start_failed_def)

lemma does_simps [simp]:
  "cs_running (does l s) = cs_running s" "cs_phase (does l s) = cs_phase s"
  "cs_threads (does l s) = cs_threads s" "cs_started (does l s) = cs_started s"
  "cs_calls (does l s) = cs_calls s @ l"
  by (simp_all add: does_def)

text \<open>A pass only uses the thread's own descriptor and channel.\<close>

lemma thread_pass_run:
  assumes "s \<in> live_fds r" and "c \<in> live_channels r" and "live_session r"
  shows "resource_run (snd (thread_pass s c t)) r = Some r"
  by (rule resource_run_stutter)
    (use assms in \<open>auto simp: thread_pass_def client_to_channel_def channel_to_client_def
       split: recv_result.splits list.splits bool.splits if_splits prod.splits\<close>)

lemma threads_simps [simp]:
  "sockets_of [] = {}" "channels_of [] = {}" "pumps_of [] = {}"
  "sockets_of ((w, f, c) # ts) = insert f (sockets_of ts)"
  "channels_of ((w, f, c) # ts) = insert c (channels_of ts)"
  "pumps_of ((w, f, c) # ts) = insert (PumpThread w) (pumps_of ts)"
  by (simp_all add: sockets_of_def channels_of_def pumps_of_def)

lemma threads_member:
  assumes "(w, f, c) \<in> set ts"
  shows "f \<in> sockets_of ts" "c \<in> channels_of ts" "PumpThread w \<in> pumps_of ts"
  using assms by (force simp: sockets_of_def channels_of_def pumps_of_def)+

text \<open>Without its thread, a descriptor, a channel and a number are not held any more.\<close>

lemma removed_image:
  assumes "inj_on g (set xs)" and "x \<in> set xs"
  shows "g ` set [y \<leftarrow> xs. y \<noteq> x] = g ` set xs - {g x}"
  using assms by (auto simp: inj_on_def)

lemma threads_remove:
  assumes "(w, f, c) \<in> set ts"
  shows "distinct (map (fst \<circ> snd) ts) \<Longrightarrow> sockets_of [x \<leftarrow> ts. x \<noteq> (w, f, c)] = sockets_of ts - {f}"
    and "distinct (map (snd \<circ> snd) ts) \<Longrightarrow> channels_of [x \<leftarrow> ts. x \<noteq> (w, f, c)] = channels_of ts - {c}"
    and "distinct (map fst ts) \<Longrightarrow> pumps_of [x \<leftarrow> ts. x \<noteq> (w, f, c)] = pumps_of ts - {PumpThread w}"
  unfolding sockets_of_def channels_of_def pumps_of_def
  using removed_image [OF _ assms, of "\<lambda>(w, f, c). f"] removed_image [OF _ assms, of "\<lambda>(w, f, c). c"]
    removed_image [OF _ assms, of "\<lambda>(w, f, c). PumpThread w"]
  by (simp_all add: distinct_map inj_on_def case_prod_beta)

lemma threads_separate_remove:
  assumes "threads_separate F sock ls s"
  shows "threads_separate F sock ls (does l (s\<lparr>cs_threads := filter P (cs_threads s)\<rparr>))"
  using assms by (auto simp: threads_separate_def distinct_map_filter)

lemma thread_end_run:
  assumes "f \<in> live_fds r" and "c \<in> live_channels r" and "PumpThread w \<in> live_threads r"
    and "live_session r"
  shows "resource_run (thread_end f c @ [JoinThread (PumpThread w)]) r =
    Some (r\<lparr>live_fds := live_fds r - {f}, live_channels := live_channels r - {c},
      live_threads := live_threads r - {PumpThread w}\<rparr>)"
  using assms by (simp add: thread_end_def)

lemma client_resources_remove:
  assumes "threads_separate F sock ls s" and "(w, f, c) \<in> set (cs_threads s)"
  shows "resource_run (thread_end f c @ [JoinThread (PumpThread w)]) (client_resources F sock ls s) =
    Some (client_resources F sock ls
      (does l (s\<lparr>cs_threads := [x \<leftarrow> cs_threads s. x \<noteq> (w, f, c)]\<rparr>)))"
proof -
  let ?r = "client_resources F sock ls s" and ?ts = "[x \<leftarrow> cs_threads s. x \<noteq> (w, f, c)]"
  have f: "f \<notin> F \<union> {sock, ls}" using assms by (force simp: threads_separate_def)
  have rm: "sockets_of ?ts = sockets_of (cs_threads s) - {f}"
    "channels_of ?ts = channels_of (cs_threads s) - {c}"
    "pumps_of ?ts = pumps_of (cs_threads s) - {PumpThread w}"
    using assms(1) by (simp_all only: threads_separate_def threads_remove [OF assms(2)])
  have "resource_run (thread_end f c @ [JoinThread (PumpThread w)]) ?r =
      Some (?r\<lparr>live_fds := live_fds ?r - {f}, live_channels := live_channels ?r - {c},
        live_threads := live_threads ?r - {PumpThread w}\<rparr>)"
    by (rule thread_end_run) (simp_all add: client_resources_def threads_member [OF assms(2)])
  also have "F \<union> {sock} \<union> L \<union> X - {f} = F \<union> {sock} \<union> L \<union> (X - {f})" if "L \<subseteq> {ls}" for L X
    using that f by auto
  then have "?r\<lparr>live_fds := live_fds ?r - {f}, live_channels := live_channels ?r - {c},
        live_threads := live_threads ?r - {PumpThread w}\<rparr> =
      client_resources F sock ls (does l (s\<lparr>cs_threads := ?ts\<rparr>))"
    by (simp add: client_resources_def rm listening_def)
  finally show ?thesis .
qed


text \<open>A step of the main thread or of a detached thread keeps the invariant.\<close>

lemma client_run_append:
  assumes "client_invariant F sock ls s" and "session_open s"
  shows "resource_run (cs_calls s @ l) (tunnel_resources F sock ls) =
    resource_run l (client_resources F sock ls s)"
  using assms by (simp add: client_invariant_def resource_run_append)

lemma client_accept_cases:
  "client_accept a = (AcceptFailed, l) \<Longrightarrow> l = []"
  "client_accept a = (NoChannel, l) \<Longrightarrow> l = [OpenFd (ca_socket a), SessionCall, CloseFd (ca_socket a)]"
  "client_accept a = (Serves f c, l) \<Longrightarrow> l = [OpenFd f, ChannelOpen c]"
  by (auto simp: client_accept_def Let_def split: if_splits option.splits)

lemma client_cleanup_suffix:
  "suffix es (client_cleanup sock ls) \<longleftrightarrow>
     es \<in> {[], [CloseFd sock], [SessionFree, CloseFd sock], [SessionCall, SessionFree, CloseFd sock],
       client_cleanup sock ls}"
  by (auto simp: client_cleanup_def suffix_Cons)

lemma client_invariant_clean_up:
  assumes "client_invariant F sock ls s" and "cs_phase s = Closing (e # es)"
    and "ls \<notin> F" and "sock \<noteq> ls"
  shows "client_invariant F sock ls (does [e] (s\<lparr>cs_phase := Closing es\<rparr>))"
proof -
  let ?s = "does [e] (s\<lparr>cs_phase := Closing es\<rparr>)"
  have suf: "suffix (e # es) (client_cleanup sock ls)"
    using assms(1,2) by (simp add: client_invariant_def cleanup_suffix_def)
  have sep: "threads_separate F sock ls s" using assms(1) by (simp add: client_invariant_def)
  then have ls: "ls \<notin> sockets_of (cs_threads s)"
    by (force simp: threads_separate_def sockets_of_def)
  have "resource_run (cs_calls ?s) (tunnel_resources F sock ls) = Some (client_resources F sock ls ?s)"
    if "session_open ?s"
  proof -
    from that have free: "SessionFree \<in> set es" by (simp add: session_open_def)
    then have "session_open s" using assms(2) by (simp add: session_open_def)
    moreover have "e = CloseFd ls \<and> es = [SessionCall, SessionFree, CloseFd sock] \<or>
        e = SessionCall \<and> es = [SessionFree, CloseFd sock]"
      using suf free by (auto simp: client_cleanup_def suffix_Cons)
    ultimately show ?thesis
      using assms ls
      by (auto simp: client_run_append client_resources_def listening_def split: if_splits)
  qed
  moreover have "suffix es (client_cleanup sock ls)" using suf by (metis suffix_ConsD)
  ultimately show ?thesis using sep
    by (simp add: client_invariant_def threads_separate_def cleanup_suffix_def)
qed

lemma client_invariant_serve:
  assumes "client_invariant F sock ls s" and "cs_phase s = InAccept"
    and "f \<notin> open_fds F sock ls s" and "c \<notin> channels_of (cs_threads s)"
  shows "client_invariant F sock ls
    (does ([OpenFd f, ChannelOpen c] @ [SpawnThread (PumpThread (cs_started s)), NonBlockingFd f])
       (s\<lparr>cs_phase := LoopTop, cs_threads := (cs_started s, f, c) # cs_threads s,
         cs_started := Suc (cs_started s)\<rparr>))"
proof -
  have "session_open s" "listening ls s" using assms(2) by (simp_all add: session_open_def listening_def)
  moreover have sep: "threads_separate F sock ls s" using assms(1) by (simp add: client_invariant_def)
  moreover have fresh: "cs_started s \<notin> fst ` set (cs_threads s)"
      "PumpThread (cs_started s) \<notin> pumps_of (cs_threads s)"
    using sep by (force simp: threads_separate_def pumps_of_def)+
  moreover have "f \<notin> (fst \<circ> snd) ` set (cs_threads s)" "c \<notin> (snd \<circ> snd) ` set (cs_threads s)"
    using assms(3,4) by (auto simp: open_fds_def sockets_of_def channels_of_def) force+
  ultimately show ?thesis using assms
    by (auto simp: client_invariant_def resource_run_append client_resources_def listening_def
        session_open_def threads_separate_def cleanup_suffix_def open_fds_def)
qed


lemmas client_invariant_defs = client_invariant_def threads_separate_def cleanup_suffix_def
  session_open_def client_resources_def listening_def

lemma client_invariant_step:
  assumes "client_step F sock ls s s'" and "client_invariant F sock ls s"
    and "ls \<notin> F" and "sock \<noteq> ls"
  shows "client_invariant F sock ls s'"
  using assms
proof (cases rule: client_step.cases)
  case signal_handler
  with assms(2) show ?thesis by (simp add: client_invariant_defs)
next
  case enter
  with assms(2) show ?thesis by (simp add: client_invariant_defs)
next
  case leave
  with assms(2) show ?thesis by (simp add: client_invariant_defs client_cleanup_def)
next
  case (accept_fails a l)
  with assms(2) show ?thesis by (simp add: client_invariant_defs client_cleanup_def)
next
  case (serve a f c l)
  then show ?thesis
    using client_invariant_serve [OF assms(2) serve(2,4,5)] client_accept_cases(3) [OF serve(3)]
    by simp
next
  case (turn_away a l)
  then have "session_open s" "listening ls s" by (simp_all add: session_open_def listening_def)
  then show ?thesis using turn_away assms(2)
    by (auto dest!: client_accept_cases(2)
        simp: client_invariant_defs resource_run_append open_fds_def)
next
  case (clean_up e es)
  then show ?thesis using client_invariant_clean_up [OF assms(2)] assms(3,4) by simp
next
  case (pass w f c t l)
  have "resource_run l (client_resources F sock ls s) = Some (client_resources F sock ls s)"
    using thread_pass_run [of f "client_resources F sock ls s" c t] pass(4) threads_member [OF pass(3)]
    by (simp add: client_resources_def)
  then show ?thesis using pass(1) assms(2)
    by (simp add: client_invariant_defs resource_run_append)
next
  case (finish w f c l t)
  have "resource_run l (client_resources F sock ls s) = Some (client_resources F sock ls s)"
    using thread_pass_run [of f "client_resources F sock ls s" c t] finish(4) threads_member [OF finish(3)]
    by (auto simp: client_resources_def)
  moreover have sep: "threads_separate F sock ls s" using assms(2) by (simp add: client_invariant_def)
  ultimately have "session_open s \<Longrightarrow>
      resource_run (cs_calls s') (tunnel_resources F sock ls) = Some (client_resources F sock ls s')"
    using client_run_append [OF assms(2)] client_resources_remove [OF sep finish(3)] finish(1)
    by (simp add: resource_run_append)
  then show ?thesis using finish(1) threads_separate_remove [OF sep] assms(2)
    by (simp add: client_invariant_def cleanup_suffix_def session_open_def)
qed

lemma client_invariant_reachable:
  assumes "client_reachable F sock ls s" and "ls \<notin> F" and "sock \<noteq> ls"
  shows "client_invariant F sock ls s"
  using assms(1) unfolding client_reachable_def
proof (induction rule: rtranclp_induct)
  case base
  then show ?case
    by (simp add: client_initial_def client_invariant_def threads_separate_def cleanup_suffix_def
        client_resources_def tunnel_resources_def listening_def) blast
next
  case (step s s')
  then show ?case using client_invariant_step assms(2,3) by blast
qed

text \<open>Every way the start can end.\<close>

definition start_post :: "int set \<Rightarrow> client_env \<Rightarrow> client_options \<Rightarrow> client_event list \<times> (int + unit) \<Rightarrow> bool" where
  "start_post F env co r \<longleftrightarrow>
     (case snd r of
        Inl code \<Rightarrow> code = 1 \<and> resource_run (os_log (fst r)) (only_fds F) = Some (only_fds F) \<and>
          count_list (fst r) LibInit = count_list (fst r) LibExit
      | Inr _ \<Rightarrow>
          resource_run (os_log (fst r)) (only_fds F) =
            Some (tunnel_resources F (ce_socket env) (ce_listen_socket env)) \<and>
          binds (os_log (fst r)) = [(''0.0.0.0'', co_local_port co mod 65536)] \<and>
          count_list (fst r) LibInit = 1 \<and> LibExit \<notin> set (fst r) \<and>
          ce_userauth env (co_ssh_user co) (co_key_file co) = 0)"

lemma client_start_post:
  assumes "ce_socket env \<notin> F" and "ce_listen_socket env \<notin> F"
    and "ce_socket env \<noteq> ce_listen_socket env"
  shows "start_post F env co (client_start env co)"
proof -
  have port: "uint (port16 p) = p mod 65536" for p
    by (simp add: port16_def uint_word_of_int)
  have F: "insert a F - {a} = F" if "a \<notin> F" for a using that by simp
  show ?thesis
    using assms
    by (auto simp: start_post_def client_start_def client_session_def client_listen_def Let_def
        only_fds_def no_resources_def tunnel_resources_def port insert_Diff_if insert_commute
        split: sum.splits if_splits)
qed


text \<open>The bytes of one pass; a write is whole when its result covers the buffer.\<close>

definition whole_writes :: "thread_turn \<Rightarrow> bool" where
  "whole_writes t \<longleftrightarrow>
     (case tt_read t of Received bs \<Rightarrow> int (length bs) \<le> tt_write t | _ \<Rightarrow> True) \<and>
     (case tt_channel_read t of Received bs \<Rightarrow> int (length bs) \<le> tt_sent t | _ \<Rightarrow> True)"

lemma subseq_take: "subseq (take n xs) xs"
  by (metis append_take_drop_id list_emb_append2 list_emb_Nil self_append_conv subseq_order.order_refl
      prefix_imp_subseq take_is_prefix)

lemma thread_half_streams:
  "subseq (channel_written c (snd (client_to_channel s c t))) (received_on s (snd (client_to_channel s c t)))"
  "sent_on s (snd (client_to_channel s c t)) = []" "channel_read c (snd (client_to_channel s c t)) = []"
  "subseq (sent_on s (snd (channel_to_client s c t))) (channel_read c (snd (channel_to_client s c t)))"
  "channel_written c (snd (channel_to_client s c t)) = []" "received_on s (snd (channel_to_client s c t)) = []"
  by (auto simp: client_to_channel_def channel_to_client_def simp del: take_Suc_Cons
      split: recv_result.split list.split intro: subseq_take)

lemma thread_half_whole:
  assumes "whole_writes t"
  shows "channel_written c (snd (client_to_channel s c t)) = received_on s (snd (client_to_channel s c t))"
    "sent_on s (snd (channel_to_client s c t)) = channel_read c (snd (channel_to_client s c t))"
  using assms
  by (auto simp: client_to_channel_def channel_to_client_def whole_writes_def simp del: take_Suc_Cons
      split: recv_result.splits list.splits)

lemma thread_pass_streams:
  assumes "thread_pass s c t = (b, l)"
  shows "subseq (channel_written c l) (received_on s l)" "subseq (sent_on s l) (channel_read c l)"
    "whole_writes t \<Longrightarrow> channel_written c l = received_on s l \<and> sent_on s l = channel_read c l"
proof -
  have "l = snd (client_to_channel s c t) \<or>
      l = snd (client_to_channel s c t) @ snd (channel_to_client s c t)"
    using assms by (auto simp: thread_pass_def split: prod.splits bool.splits)
  then show "subseq (channel_written c l) (received_on s l)" "subseq (sent_on s l) (channel_read c l)"
    "whole_writes t \<Longrightarrow> channel_written c l = received_on s l \<and> sent_on s l = channel_read c l"
    using thread_half_streams [where c = c and s = s and t = t]
      thread_half_whole [where c = c and s = s and t = t] by auto
qed

lemma thread_loop_streams:
  "subseq (channel_written c (thread_loop s c ts)) (received_on s (thread_loop s c ts)) \<and>
   subseq (sent_on s (thread_loop s c ts)) (channel_read c (thread_loop s c ts)) \<and>
   (list_all whole_writes ts \<longrightarrow>
      channel_written c (thread_loop s c ts) = received_on s (thread_loop s c ts) \<and>
      sent_on s (thread_loop s c ts) = channel_read c (thread_loop s c ts))"
proof (induction ts)
  case (Cons t ts)
  obtain b l where p: "thread_pass s c t = (b, l)" by fastforce
  note pass = thread_pass_streams [OF p]
  show ?case
  proof (cases b)
    case True
    with pass Cons.IH p show ?thesis by (auto intro: list_emb_append_mono)
  next
    case False
    with pass p show ?thesis by simp
  qed
qed simp

section \<open>The printed form of the options\<close>

definition client_args :: "client_options \<Rightarrow> string list" where
  "client_args co = [''--host'', co_ssh_host co, ''--port'', to_string (co_ssh_port co),
     ''--user'', co_ssh_user co, ''--key'', co_key_file co, ''--lport'', to_string (co_local_port co),
     ''--rhost'', co_remote_host co, ''--rport'', to_string (co_remote_port co)]"

lemma parse_args_client_args:
  assumes "int32_range (co_ssh_port co)" "int32_range (co_local_port co)" "int32_range (co_remote_port co)"
  shows "parse_args p (client_args co @ rest) co0 = parse_args p rest co"
  using assms
  by (cases co; cases co0) (simp add: client_args_def option_setter_def atoi_to_string)

lemma parse_args_codes:
  "parse_args p as co = Returns (l, r) \<Longrightarrow>
     os_log l = [] \<and> set l \<inter> {LibInit, LibExit, WsaCleanup} = {} \<and> (\<forall>code. r = Inl code \<longrightarrow> code \<in> {0, 1})"
proof (induction p as co rule: parse_args.induct)
  case (2 p a rest co)
  show ?case
  proof (cases "option_setter a = None \<or> rest = []")
    case True
    with "2.prems" show ?thesis by (auto split: if_splits option.splits)
  next
    case False
    then obtain assign v rest' where a: "option_setter a = Some assign" "rest = v # rest'"
      by (cases rest) auto
    with "2.prems" obtain co' where "assign v co = Returns co'" "parse_args p rest' co' = Returns (l, r)"
      by (cases "assign v co") auto
    with "2.IH" a show ?thesis by blast
  qed
qed auto

section \<open>Properties\<close>

text \<open>The command line round trip: the options written out as arguments, in front of any further
  arguments and over any earlier settings, are read back; an option that lacks its value ends the
  process with code 1 and the usage text.\<close>

theorem client_args_roundtrip:
  assumes "int32_range (co_ssh_port co)" "int32_range (co_local_port co)" "int32_range (co_remote_port co)"
  shows "parse_args p (client_args co) co0 = Returns ([], Inr co) \<and>
    (a \<noteq> ''--help'' \<longrightarrow> parse_args p (client_args co @ [a]) co0 =
      Returns ([Cerr (''Unknown option: '' @ a @ newline), Cout (print_usage p)], Inl 1))"
  using parse_args_client_args [OF assms, of p "[]" co0] parse_args_client_args [OF assms, of p "[a]" co0]
  by (simp split: option.split)

definition demo_client_options :: client_options where
  "demo_client_options = \<lparr>co_ssh_host = ''127.0.0.1'', co_ssh_port = 2222, co_ssh_user = ''root'',
     co_key_file = ''key'', co_local_port = 9000, co_remote_host = ''service'', co_remote_port = 8000\<rparr>"

theorem client_args_roundtrip_witness:
  "parse_args ''client'' (client_args demo_client_options) default_options = Returns ([], Inr demo_client_options)"
proof -
  have "int32_range (co_ssh_port demo_client_options)" "int32_range (co_local_port demo_client_options)"
    "int32_range (co_remote_port demo_client_options)"
    by (simp_all add: demo_client_options_def int32_range_def INT_MIN_def INT_MAX_def)
  from client_args_roundtrip [OF this] show ?thesis by blast
qed


text \<open>However the start goes: a process that ends before its loop exits with 0 or 1 and holds nothing
  it opened, the library closed as often as it was opened; one that gets to its loop has checked its
  options, is authenticated, and holds exactly the session, its socket and one listener, which is
  bound on every interface at the given port modulo 65536. On Windows no early exit undoes
  \<^verbatim>\<open>WSAStartup\<close>.\<close>

theorem client_prepare_safe:
  assumes "client_prepare pl env p argv = Returns (l, r)"
    and "ce_socket env \<notin> F" and "ce_listen_socket env \<notin> F"
    and "ce_socket env \<noteq> ce_listen_socket env"
  shows "case r of
      Inl code \<Rightarrow> code \<in> {0, 1} \<and> resource_run (os_log l) (only_fds F) = Some (only_fds F) \<and>
        count_list l LibInit = count_list l LibExit \<and> WsaCleanup \<notin> set l
    | Inr co \<Rightarrow> check_args co = None \<and> ce_userauth env (co_ssh_user co) (co_key_file co) = 0 \<and>
        resource_run (os_log l) (only_fds F) =
          Some (tunnel_resources F (ce_socket env) (ce_listen_socket env)) \<and>
        binds (os_log l) = [(''0.0.0.0'', co_local_port co mod 65536)]"
proof -
  have start: "start_post F env co (client_start env co)" for co
    using assms(2-4) by (rule client_start_post)
  have wsa: "WsaCleanup \<notin> set (fst (client_start env co))" for co
    by (simp add: client_start_def client_session_def client_listen_def Let_def)
  show ?thesis
  proof (cases "pl = Windows \<and> ce_wsa env \<noteq> 0")
    case True
    with assms(1) show ?thesis by (auto simp: client_prepare_def)
  next
    case False
    with assms(1) obtain la ra where a: "parse_args p argv default_options = Returns (la, ra)"
      by (cases "parse_args p argv default_options") (auto simp: client_prepare_def)
    have none: "count_list la LibInit = 0" "count_list la LibExit = 0" "os_log la = []"
        "WsaCleanup \<notin> set la" "\<And>code. ra = Inl code \<Longrightarrow> code \<in> {0, 1}"
      using parse_args_codes [OF a] by (auto simp: count_list_0_iff)
    show ?thesis
    proof (cases ra)
      case (Inl code)
      with none a False assms(1) show ?thesis by (auto simp: client_prepare_def)
    next
      case (Inr co)
      with none a False assms(1) start [of co] wsa [of co] show ?thesis
        by (cases "client_start env co"; cases "snd (client_start env co)")
          (auto simp: client_prepare_def start_post_def split: option.splits)
    qed
  qed
qed


definition demo_client_env :: client_env where
  "demo_client_env = \<lparr>ce_wsa = 0, ce_init = 0, ce_socket = 3, ce_inet_addr = (\<lambda>_. 0x0100007F),
     ce_connect = (\<lambda>_ _. True), ce_session = True, ce_handshake = 0, ce_userauth = (\<lambda>_ _. 0),
     ce_listen_socket = 4, ce_bind = (\<lambda>_. True), ce_listen = True\<rparr>"

theorem client_prepare_safe_witness:
  "\<exists>l. client_prepare Linux demo_client_env ''client'' (client_args demo_client_options) =
       Returns (l, Inr demo_client_options) \<and> binds (os_log l) = [(''0.0.0.0'', 9000)]"
proof -
  have "int32_range (co_ssh_port demo_client_options)" "int32_range (co_local_port demo_client_options)"
    "int32_range (co_remote_port demo_client_options)"
    by (simp_all add: demo_client_options_def int32_range_def INT_MIN_def INT_MAX_def)
  from parse_args_client_args [OF this, of _ "[]"]
  have "parse_args ''client'' (client_args demo_client_options) default_options = Returns ([], Inr demo_client_options)"
    by simp
  then obtain l where l:
      "client_prepare Linux demo_client_env ''client'' (client_args demo_client_options) = Returns (l, Inr demo_client_options)"
    by (simp add: client_prepare_def check_args_def demo_client_options_def demo_client_env_def client_start_def
        client_session_def client_listen_def then_start_def)
  from client_prepare_safe [OF this, of "{}"] l show ?thesis
    by (simp add: demo_client_env_def demo_client_options_def)
qed

text \<open>C33: The detached threads. In every state the process can reach, with any interleaving of arrivals,
  passes of the threads, signals and the clean-up, the calls up to the release of the session follow
  the protocol, and a descriptor, channel and number belong to one thread. The release itself is
  right exactly when no thread is left: then the process ends with all it opened released, and
  otherwise a live thread is left with a session that is gone.\<close>

theorem client_shutdown:
  assumes "client_start env co = (l, Inr ())"
    and "ce_socket env \<notin> F" and "ce_listen_socket env \<notin> F"
    and "ce_socket env \<noteq> ce_listen_socket env"
    and "client_reachable F (ce_socket env) (ce_listen_socket env) s"
  shows "(session_open s \<longrightarrow> threads_separate F (ce_socket env) (ce_listen_socket env) s \<and>
      (\<exists>r. resource_run (os_log l @ cs_calls s) (only_fds F) = Some r \<and>
           live_threads r = pumps_of (cs_threads s))) \<and>
    (cs_phase s = Closing [SessionFree, CloseFd (ce_socket env)] \<longrightarrow>
       resource_run (os_log l @ cs_calls s @ [SessionFree, CloseFd (ce_socket env)]) (only_fds F) =
         (if cs_threads s = [] then Some (only_fds F) else None))"
proof -
  let ?so = "ce_socket env" and ?ls = "ce_listen_socket env"
  have inv: "client_invariant F ?so ?ls s" using client_invariant_reachable assms(3-5) by blast
  have start: "resource_run (os_log l) (only_fds F) = Some (tunnel_resources F ?so ?ls)"
    using client_start_post [OF assms(2-4), of co] assms(1) by (simp add: start_post_def)
  have run: "resource_run (os_log l @ cs_calls s @ l') (only_fds F) =
      resource_run l' (client_resources F ?so ?ls s)" if "session_open s" for l'
    using start client_run_append [OF inv that] by (simp add: resource_run_append)
  have "pumps_of (cs_threads s) = {} \<longleftrightarrow> cs_threads s = []" by (simp add: pumps_of_def)
  then show ?thesis
    using inv run [of "[]"] run [of "[SessionFree, CloseFd ?so]"] assms(2,4)
    by (auto simp: client_invariant_def client_resources_def session_open_def listening_def
        only_fds_def no_resources_def)
qed

definition demo_arrival :: client_arrival where
  "demo_arrival = \<lparr>ca_socket = 5, ca_channel = Some 0\<rparr>"

text \<open>A signal while one client is served.\<close>

lemma demo_shutdown_reachable:
  "\<exists>s. client_reachable {} 3 4 s \<and> cs_phase s = Closing [SessionFree, CloseFd 3] \<and> cs_threads s = [(0, 5, 0)]"
proof -
  let ?step = "client_step {} 3 4"
  let ?s1 = "client_initial\<lparr>cs_phase := InAccept\<rparr>"
  let ?s2 = "does ([OpenFd 5, ChannelOpen 0] @ [SpawnThread (PumpThread (cs_started ?s1)), NonBlockingFd 5])
    (?s1\<lparr>cs_phase := LoopTop, cs_threads := (cs_started ?s1, 5, 0) # cs_threads ?s1,
       cs_started := Suc (cs_started ?s1)\<rparr>)"
  let ?s3 = "?s2\<lparr>cs_running := False\<rparr>"
  let ?s4 = "?s3\<lparr>cs_phase := Closing (client_cleanup 3 4)\<rparr>"
  let ?s5 = "does [CloseFd 4] (?s4\<lparr>cs_phase := Closing [SessionCall, SessionFree, CloseFd 3]\<rparr>)"
  let ?s6 = "does [SessionCall] (?s5\<lparr>cs_phase := Closing [SessionFree, CloseFd 3]\<rparr>)"
  have "?step client_initial ?s1" by (rule enter) (simp_all add: client_initial_def)
  moreover have "?step ?s1 ?s2"
    by (rule serve [where a = demo_arrival])
      (simp_all add: demo_arrival_def client_accept_def open_fds_def client_initial_def)
  moreover have "?step ?s2 ?s3" by (rule signal_handler)
  moreover have "?step ?s3 ?s4" by (rule leave) simp_all
  moreover have "?step ?s4 ?s5" by (rule clean_up) (simp add: client_cleanup_def)
  moreover have "?step ?s5 ?s6" by (rule clean_up) simp
  ultimately have "client_reachable {} 3 4 ?s6"
    unfolding client_reachable_def by (meson rtranclp.rtrancl_into_rtrancl rtranclp.rtrancl_refl)
  then show ?thesis by (intro exI [of _ ?s6]) (simp add: client_initial_def)
qed

theorem client_shutdown_witness:
  "\<exists>s l. client_reachable {} 3 4 s \<and>
     resource_run (os_log l @ cs_calls s @ [SessionFree, CloseFd 3]) (only_fds {}) = None"
proof -
  obtain s where s: "client_reachable {} 3 4 s" "cs_phase s = Closing [SessionFree, CloseFd 3]"
      "cs_threads s = [(0, 5, 0)]"
    using demo_shutdown_reachable by blast
  obtain l where l: "client_start demo_client_env demo_client_options = (l, Inr ())"
    by (simp add: demo_client_options_def demo_client_env_def client_start_def client_session_def
        client_listen_def then_start_def)
  have env: "ce_socket demo_client_env = 3" "ce_listen_socket demo_client_env = 4"
    by (simp_all add: demo_client_env_def)
  from client_shutdown [OF l, of "{}" s] s env show ?thesis
    by (intro exI [of _ s] exI [of _ l]) simp
qed

text \<open>What one thread forwards: in each direction the bytes that leave are a subsequence of the bytes
  that came, and all of them when every write takes its whole buffer; a short write loses the rest,
  since its result is only tested for being negative, or not at all.\<close>

theorem client_thread_streams:
  "subseq (channel_written c (thread_loop s c ts)) (received_on s (thread_loop s c ts)) \<and>
   subseq (sent_on s (thread_loop s c ts)) (channel_read c (thread_loop s c ts)) \<and>
   (list_all whole_writes ts \<longrightarrow>
      channel_written c (thread_loop s c ts) = received_on s (thread_loop s c ts) \<and>
      sent_on s (thread_loop s c ts) = channel_read c (thread_loop s c ts))"
  by (rule thread_loop_streams)

definition demo_short_write :: thread_turn where
  "demo_short_write = \<lparr>tt_select = 1, tt_read = Received [1, 2, 3], tt_write = 2,
     tt_channel_read = Received [4, 5], tt_sent = 1, tt_eof = False\<rparr>"

lemma client_thread_loses:
  "channel_written 0 (thread_loop 5 0 [demo_short_write, demo_short_write]) = [1, 2, 1, 2] \<and>
   sent_on 5 (thread_loop 5 0 [demo_short_write, demo_short_write]) = [4, 4]"
  by (simp add: demo_short_write_def thread_pass_def client_to_channel_def channel_to_client_def)

end
