(* ===== verification/Connection_Lifetime.thy ===== *)
theory Connection_Lifetime
  imports Ssh_Connection
begin

text \<open>
  How a \<^verbatim>\<open>TunnelConnection\<close> comes and goes: the once-per-process start of the socket layer and of
  libssh2 that its constructor ensures (\<^verbatim>\<open>EnsureSocketSubsystem\<close> of
  \<^verbatim>\<open>src/src/include/socket_compat.hpp\<close>, \<^verbatim>\<open>EnsureSshSubsystem\<close> of
  \<^verbatim>\<open>src/src/tunnel_connection.cpp\<close>), the move assignment, the destructor, and the blocking mode
  of a socket that the connects of the other components switch.
\<close>

section \<open>Definitions\<close>

subsection \<open>Process-wide initialisation\<close>

text \<open>The two \<^verbatim>\<open>std::once_flag\<close>s, and the calls made under them.\<close>

record subsystems =
  sub_sockets :: bool
  sub_ssh :: bool

datatype init_call = WSAStartup | libssh2_init

definition EnsureSocketSubsystem :: "platform \<Rightarrow> subsystems \<Rightarrow> subsystems \<times> init_call list" where
  "EnsureSocketSubsystem pl sub =
     (if pl = Windows \<and> \<not> sub_sockets sub then (sub\<lparr>sub_sockets := True\<rparr>, [WSAStartup]) else (sub, []))"

text \<open>
  \<open>rc\<close> is what \<^verbatim>\<open>libssh2_init\<close> answers if it is called. A function that throws under
  \<^verbatim>\<open>std::call_once\<close> leaves the flag as it was.
\<close>

definition EnsureSshSubsystem ::
  "platform \<Rightarrow> int \<Rightarrow> subsystems \<Rightarrow> unit outcome \<times> subsystems \<times> init_call list" where
  "EnsureSshSubsystem pl rc sub =
     (if sub_ssh sub then (Returns (), sub, [])
      else
        (let (sub1, l) = EnsureSocketSubsystem pl sub in
         if rc \<noteq> 0 then
           (Throws (IOException ''Failed to initialize the libssh2 library.''), sub1, l @ [libssh2_init])
         else (Returns (), sub1\<lparr>sub_ssh := True\<rparr>, l @ [libssh2_init])))"

definition construct_connection ::
  "platform \<Rightarrow> int \<Rightarrow> subsystems \<Rightarrow> TunnelConnection outcome \<times> subsystems \<times> init_call list" where
  "construct_connection pl rc sub =
     (case EnsureSshSubsystem pl rc sub of
        (r, sub', l) \<Rightarrow> (bind_outcome r (\<lambda>_. Returns new_connection), sub', l))"

definition destroy_connection :: "TunnelConnection \<Rightarrow> log" where
  "destroy_connection conn = snd (TunnelConnection_Close conn)"

text \<open>A history of constructions, each with the answer \<^verbatim>\<open>libssh2_init\<close> would give.\<close>

fun constructions ::
  "platform \<Rightarrow> int list \<Rightarrow> subsystems \<Rightarrow> TunnelConnection outcome list \<times> init_call list" where
  "constructions pl [] sub = ([], [])"
| "constructions pl (rc # rcs) sub =
     (case construct_connection pl rc sub of
        (r, sub', l) \<Rightarrow> (case constructions pl rcs sub' of (rs, l') \<Rightarrow> (r # rs, l @ l')))"

subsection \<open>Move assignment\<close>

text \<open>
  \<open>self\<close> is whether both sides are the same object. The new left side, what is left of the right
  side, and the calls. The forwarding threads stay where they are.
\<close>

definition move_assign ::
  "bool \<Rightarrow> TunnelConnection \<Rightarrow> TunnelConnection \<Rightarrow> (TunnelConnection \<times> TunnelConnection) \<times> log" where
  "move_assign self this other =
     (if self then ((this, other), [])
      else
        (case TunnelConnection_Close this of
           (closed, l) \<Rightarrow>
             ((closed\<lparr>tc_session := tc_session other, tc_ssh_socket := tc_ssh_socket other,
                      tc_is_connected := tc_is_connected other, tc_is_running := tc_is_running other,
                      tc_attributes := tc_attributes other, tc_worker_thread := tc_worker_thread other\<rparr>,
               snd (move_connection other)), l)))"

definition tc_GetStatus :: "TunnelConnection \<Rightarrow> string" where
  "tc_GetStatus conn = at_status (tc_attributes conn)"

definition tc_GetErrorMessage :: "TunnelConnection \<Rightarrow> string" where
  "tc_GetErrorMessage conn = at_error_message (tc_attributes conn)"

definition IsRunning :: "TunnelConnection \<Rightarrow> bool" where
  "IsRunning conn = tc_is_running conn"

subsection \<open>Blocking mode\<close>

text \<open>
  The status flags of the open descriptors. On Windows the mode that \<^verbatim>\<open>ioctlsocket\<close> sets is kept in
  a bit of the same word. \<open>ok\<close> is whether the setting call succeeds.
\<close>

type_synonym fd_flags = "int \<rightharpoonup> 32 word"

definition O_NONBLOCK :: "platform \<Rightarrow> 32 word" where
  "O_NONBLOCK pl = (case pl of Linux \<Rightarrow> 0x800 | MacOS \<Rightarrow> 4 | Windows \<Rightarrow> 1)"

definition set_flags :: "bool \<Rightarrow> int \<Rightarrow> (32 word \<Rightarrow> 32 word) \<Rightarrow> fd_flags \<Rightarrow> bool \<times> fd_flags" where
  "set_flags ok s f flags =
     (case flags s of
        None \<Rightarrow> (False, flags)
      | Some w \<Rightarrow> if ok then (True, flags(s \<mapsto> f w)) else (False, flags))"

definition SetSocketNonBlocking :: "platform \<Rightarrow> bool \<Rightarrow> int \<Rightarrow> fd_flags \<Rightarrow> bool \<times> fd_flags" where
  "SetSocketNonBlocking pl ok s flags = set_flags ok s (\<lambda>w. or w (O_NONBLOCK pl)) flags"

definition SetSocketBlocking :: "platform \<Rightarrow> bool \<Rightarrow> int \<Rightarrow> fd_flags \<Rightarrow> bool \<times> fd_flags" where
  "SetSocketBlocking pl ok s flags = set_flags ok s (\<lambda>w. and w (not (O_NONBLOCK pl))) flags"

definition non_blocking :: "platform \<Rightarrow> int \<Rightarrow> fd_flags \<Rightarrow> bool" where
  "non_blocking pl s flags \<longleftrightarrow> (case flags s of None \<Rightarrow> False | Some w \<Rightarrow> and w (O_NONBLOCK pl) \<noteq> 0)"

section \<open>Lemmas\<close>

lemma count_calls_append: "count_list (xs @ ys) x = count_list xs x + count_list ys x"
  by simp

text \<open>Once libssh2 is started, no construction calls anything and all return.\<close>

lemma constructions_started:
  assumes "sub_ssh sub"
  shows "constructions pl rcs sub = (replicate (length rcs) (Returns new_connection), [])"
  using assms
  by (induction rcs) (simp_all add: construct_connection_def EnsureSshSubsystem_def)

lemma constructions_sockets:
  "count_list (snd (constructions pl rcs sub)) WSAStartup \<le> (if sub_sockets sub \<or> pl \<noteq> Windows then 0 else 1)"
proof (induction rcs arbitrary: sub)
  case (Cons rc rcs)
  obtain r sub' l where c: "construct_connection pl rc sub = (r, sub', l)" by (metis prod_cases3)
  then have "count_list l WSAStartup + (if sub_sockets sub' \<or> pl \<noteq> Windows then 0 else 1) \<le>
      (if sub_sockets sub \<or> pl \<noteq> Windows then 0 else 1)"
    by (auto simp: construct_connection_def EnsureSshSubsystem_def EnsureSocketSubsystem_def Let_def
        split: if_splits)
  moreover have "snd (constructions pl (rc # rcs) sub) = l @ snd (constructions pl rcs sub')"
    by (simp add: c case_prod_beta)
  ultimately show ?case using Cons.IH [of sub'] by simp
qed simp

lemma constructions_init:
  assumes "\<not> sub_ssh sub"
  shows "fst (constructions pl rcs sub) =
      map (\<lambda>_. Throws (IOException ''Failed to initialize the libssh2 library.'')) (takeWhile (\<lambda>rc. rc \<noteq> 0) rcs) @
      map (\<lambda>_. Returns new_connection) (dropWhile (\<lambda>rc. rc \<noteq> 0) rcs) \<and>
    count_list (snd (constructions pl rcs sub)) libssh2_init =
      length (takeWhile (\<lambda>rc. rc \<noteq> 0) rcs) + (if 0 \<in> set rcs then 1 else 0)"
  using assms
proof (induction rcs arbitrary: sub)
  case (Cons rc rcs)
  let ?sub = "fst (EnsureSocketSubsystem pl sub)" and ?l = "snd (EnsureSocketSubsystem pl sub)"
  have sockets: "\<not> sub_ssh ?sub" "count_list ?l libssh2_init = 0"
    using Cons.prems by (simp_all add: EnsureSocketSubsystem_def)
  with Cons.IH [OF sockets(1)] Cons.prems show ?case
    by (simp add: construct_connection_def EnsureSshSubsystem_def case_prod_beta Let_def
        constructions_started map_replicate_const)
qed simp

lemma nonblock_bit: "O_NONBLOCK pl \<noteq> 0"
  by (cases pl) (simp_all add: O_NONBLOCK_def)

lemma or_and_not:
  fixes w m :: "32 word"
  assumes "and w m = 0"
  shows "and (or w m) (not m) = w"
proof (rule bit_word_eqI)
  fix n assume "n < LENGTH(32)"
  have "\<not> (bit w n \<and> bit m n)" using assms by (metis bit_0_eq bit_and_iff bot_apply bot_bool_def)
  with \<open>n < LENGTH(32)\<close> show "bit (and (or w m) (not m)) n = bit w n"
    by (auto simp: bit_simps)
qed


lemma and_not_zero:
  fixes w m :: "32 word"
  shows "and (and w (not m)) m = 0"
  by (rule bit_word_eqI) (simp add: bit_simps)

lemma or_meets:
  fixes w m :: "32 word"
  assumes "m \<noteq> 0"
  shows "and (or w m) m \<noteq> 0"
proof -
  have "and (or w m) m = m" by (rule bit_word_eqI) (auto simp: bit_simps)
  with assms show ?thesis by simp
qed

section \<open>Properties\<close>

text \<open>libssh2 is started once per process and stays started: in any history of constructions from a
  fresh process, those up to the first successful start throw and try again, every later one returns
  a new connection without any call, so at most one start succeeds; Winsock is started at most once,
  and only on Windows.\<close>

theorem subsystems_start_once:
  assumes "\<not> sub_ssh sub" and "\<not> sub_sockets sub"
  shows "case constructions pl rcs sub of (rs, l) \<Rightarrow>
      rs = map (\<lambda>_. Throws (IOException ''Failed to initialize the libssh2 library.'')) (takeWhile (\<lambda>rc. rc \<noteq> 0) rcs) @
        map (\<lambda>_. Returns new_connection) (dropWhile (\<lambda>rc. rc \<noteq> 0) rcs) \<and>
      count_list l libssh2_init = length (takeWhile (\<lambda>rc. rc \<noteq> 0) rcs) + (if 0 \<in> set rcs then 1 else 0) \<and>
      count_list l WSAStartup \<le> (if pl = Windows then 1 else 0)"
  using constructions_init [OF assms(1), of pl rcs] constructions_sockets [of pl rcs sub] assms(2)
  by (simp add: case_prod_beta split: if_splits)

theorem subsystems_start_once_witness:
  "case constructions Windows [1, 0, 0, 5] \<lparr>sub_sockets = False, sub_ssh = False\<rparr> of (rs, l) \<Rightarrow>
     count_list l libssh2_init = 2 \<and> count_list l WSAStartup \<le> 1"
proof -
  have "\<not> sub_ssh \<lparr>sub_sockets = False, sub_ssh = False\<rparr>" "\<not> sub_sockets \<lparr>sub_sockets = False, sub_ssh = False\<rparr>"
    by simp_all
  from subsystems_start_once [OF this, where pl = Windows and rcs = "[1, 0, 0, 5]"] show ?thesis
    by (simp add: case_prod_beta)
qed

text \<open>Move assignment hands over what the right side holds, after the left side released all of its
  own, as long as the right side serves no client; the right side is left with nothing. With clients
  it does not: their threads are not moved, and closing the left side then frees the session under
  them.\<close>

theorem move_assign_transfers:
  assumes "tc_invariant F this" and "tc_session this \<or> C = {}"
    and "tc_invariant G other" and "move_assign False this other = ((this', other'), l)"
  shows "resource_run l (tc_resources F C this) = Some (only_fds F) \<and>
    tc_resources G D this' = (tc_resources G D other)
      \<lparr>live_threads := if tc_worker_thread other then {AcceptThread} else {}\<rparr> \<and>
    tc_resources G {} other' = (only_fds G)
      \<lparr>live_threads := PumpThread ` fst ` set (tc_forward_threads other)\<rparr> \<and>
    (tc_forward_threads other \<noteq> [] \<and> tc_session other \<longrightarrow>
       resource_run (destroy_connection this') (tc_resources G D other) = None)"
proof -
  have l: "l = snd (TunnelConnection_Close this)" and o: "other' = snd (move_connection other)"
    and t: "this' = (fst (TunnelConnection_Close this))\<lparr>tc_session := tc_session other,
        tc_ssh_socket := tc_ssh_socket other, tc_is_connected := tc_is_connected other,
        tc_is_running := tc_is_running other, tc_attributes := tc_attributes other,
        tc_worker_thread := tc_worker_thread other\<rparr>"
    using assms(4) by (auto simp: move_assign_def case_prod_beta)
  have threads: "tc_forward_threads this' = []"
    by (simp add: t TunnelConnection_Close_def set_defs)
  have "resource_run (destroy_connection this') (tc_resources G D other) = None"
    if "tc_forward_threads other \<noteq> []" "tc_session other"
  proof -
    have "PumpThread ` X \<noteq> {}" "PumpThread ` X \<noteq> {AcceptThread}" if "X \<noteq> {}" for X using that by auto
    with that threads show ?thesis
      by (simp add: destroy_connection_def TunnelConnection_Close_def tc_resources_def t join_pumps_def
          resource_run_append split: option.splits)
  qed
  with TunnelConnection_Close_resources [OF assms(1,2)] threads show ?thesis
    by (auto simp: l o t tc_resources_def move_connection_def only_fds_def no_resources_def)
qed

text \<open>The mode of a socket: switching it to non-blocking and back leaves the flags of every descriptor
  as they were, and each switch has the effect it names.\<close>

theorem blocking_mode_roundtrip:
  assumes "flags s = Some w" and "and w (O_NONBLOCK pl) = 0"
    and "SetSocketNonBlocking pl True s flags = (ok, flags1)"
    and "SetSocketBlocking pl True s flags1 = (ok', flags2)"
  shows "ok \<and> ok' \<and> non_blocking pl s flags1 \<and> \<not> non_blocking pl s flags2 \<and> flags2 = flags"
  using assms or_and_not [OF assms(2)] or_meets [OF nonblock_bit, of w pl]
  by (auto simp: SetSocketNonBlocking_def SetSocketBlocking_def set_flags_def non_blocking_def map_upd_triv)

theorem blocking_mode_roundtrip_witness:
  "snd (SetSocketBlocking Linux True 3 (snd (SetSocketNonBlocking Linux True 3 [3 \<mapsto> 2]))) = [3 \<mapsto> 2]"
proof -
  have "and (2 :: 32 word) (O_NONBLOCK Linux) = 0" by (simp add: O_NONBLOCK_def)
  with blocking_mode_roundtrip [of "[3 \<mapsto> 2]" 3 2 Linux] show ?thesis
    by (metis fun_upd_same prod.collapse)
qed

end
