(* ===== verification/Thread_Systems.thy ===== *)
theory Thread_Systems
  imports Resource_Protocol
begin

text \<open>
  What the interleaved models of the tunnel objects share. A tunnel object has one thread that
  accepts connections, one thread for each of them, and a thread that closes it: \<open>close_pc\<close> is where
  the close stands. A \<open>resource_system\<close> is a step relation whose steps extend a log that follows the
  resource protocol; a \<open>closing_system\<close> also has a cost that every step lowers once the close has
  begun, and no state without steps but the closed ones. The objects interpret the two locales.
\<close>

text \<open>\<open>Close\<close>: not called, waiting for the accepting thread, waiting for the other threads that are
  left, returned.\<close>

datatype close_pc = ClOpen | ClJoin | ClSweep "nat list" | ClClosed

text \<open>The accepting thread of the exports and of the mesh imports: before the test of its flag, inside a
  turn of its loop, at its end.\<close>

datatype accept_pc = AcTest | AcBody | AcDone

text \<open>The threads still to be joined, of the threads \<open>W\<close> in the vector, and the steps of the close
  itself.\<close>

fun left_to_join :: "nat set \<Rightarrow> close_pc \<Rightarrow> nat set" where
  "left_to_join W (ClSweep ws) = set ws"
| "left_to_join W ClClosed = {}"
| "left_to_join W _ = W"

fun join_cost :: "nat \<Rightarrow> close_pc \<Rightarrow> nat" where
  "join_cost n ClOpen = n + 3"
| "join_cost n ClJoin = n + 2"
| "join_cost n (ClSweep ws) = length ws + 1"
| "join_cost n ClClosed = 0"

locale resource_system =
  fixes step :: "'s \<Rightarrow> 's \<Rightarrow> bool" and inv :: "'s \<Rightarrow> bool" and res :: "'s \<Rightarrow> resources"
    and lg :: "'s \<Rightarrow> log"
  assumes step_keeps: "step s s' \<Longrightarrow> inv s \<Longrightarrow>
    inv s' \<and> (\<exists>l. lg s' = lg s @ l \<and> resource_run l (res s) = Some (res s'))"
begin

lemma reachable:
  assumes "step\<^sup>*\<^sup>* s0 s" and "inv s0" and "resource_run (lg s0) r = Some (res s0)"
  shows "inv s \<and> resource_run (lg s) r = Some (res s)"
  using assms(1)
proof (induction rule: rtranclp_induct)
  case base
  then show ?case using assms by simp
next
  case (step s s')
  then show ?case using step_keeps [of s s'] by (auto simp: resource_run_append)
qed

end

locale closing_system = resource_system +
  fixes closing closed :: "'s \<Rightarrow> bool" and cost :: "'s \<Rightarrow> nat"
  assumes closing_step: "step s s' \<Longrightarrow> inv s \<Longrightarrow> closing s \<Longrightarrow> closing s' \<and> cost s' < cost s"
    and closed_iff: "inv s \<Longrightarrow> (\<nexists>s'. step s s') \<longleftrightarrow> closed s"
begin

lemma closing_run:
  assumes "(step ^^ n) s s'" and "inv s" and "closing s"
  shows "n + cost s' \<le> cost s \<and> inv s' \<and> closing s'"
  using assms(1)
proof (induction n arbitrary: s')
  case 0
  then show ?case using assms by simp
next
  case (Suc n)
  then obtain s1 where run: "(step ^^ n) s s1" and last: "step s1 s'" by auto
  note IH = Suc.IH [OF run]
  show ?case using IH closing_step [OF last] step_keeps [OF last] by auto
qed

lemma closing_terminates:
  assumes "(step ^^ n) s s'" and "inv s" and "closing s"
  shows "n + cost s' \<le> cost s \<and> ((\<nexists>s''. step s' s'') \<longleftrightarrow> closed s')"
  using closing_run [OF assms] closed_iff by blast

end

end
