(* ===== verification/Import_Lifecycle.thy ===== *)
theory Import_Lifecycle
  imports Ssh_Connection Thread_Systems
begin

text \<open>
  An established SSH import with its threads interleaved: the worker that accepts clients
  (\<^verbatim>\<open>TunnelConnection::WorkerFunction\<close>), one forwarding thread for each accepted client
  (\<^verbatim>\<open>TunnelConnection::ForwardData\<close>) and the thread that calls \<^verbatim>\<open>TunnelConnection::Close\<close>, all of
  \<^verbatim>\<open>src/src/tunnel_connection.cpp\<close>. The state says where each thread stands, a step is one stretch
  of one thread between two reads of \<^verbatim>\<open>is_running_\<close> (or up to a join), and the stretches are the
  operations of \<open>Ssh_Connection\<close>, one turn at a time. A descriptor that a forwarding thread has
  closed may be given out again by the next \<^verbatim>\<open>accept\<close>. Two properties of all interleavings follow
  by rule induction: the log follows the resource protocol, up to a closed tunnel that holds
  nothing, and a \<^verbatim>\<open>Close\<close> that has begun always returns.
\<close>

section \<open>Definitions\<close>

text \<open>Where a thread stands: before its first statement, before a test of the flag, inside a turn
  of its loop, or at its end.\<close>

datatype worker_pc = WkStart | WkTest int | WkBody int | WkDone

datatype forward_pc = FwStart | FwTest | FwBody

record forwarding =
  ft_id :: nat
  ft_client :: int
  ft_channel :: nat
  ft_pc :: forward_pc

record import_state =
  im_conn :: TunnelConnection
  im_worker :: worker_pc
  im_forwarders :: "forwarding list"
  im_close :: close_pc
  im_log :: log

definition import_init :: "TunnelConnection \<Rightarrow> import_state" where
  "import_init conn =
     \<lparr>im_conn = fst (StartWorker conn), im_worker = WkStart, im_forwarders = [], im_close = ClOpen,
      im_log = snd (StartWorker conn)\<rparr>"

definition log_calls :: "log \<Rightarrow> import_state \<Rightarrow> import_state" where
  "log_calls l st = st\<lparr>im_log := im_log st @ l\<rparr>"

subsection \<open>The worker\<close>

text \<open>Up to the loop: a worker with no turns either ends in an error or has its listener.\<close>

definition worker_begin :: "platform \<Rightarrow> worker_answers \<Rightarrow> import_state \<Rightarrow> import_state" where
  "worker_begin pl a st =
     (let (fin, conn, l) = WorkerFunction pl (a\<lparr>wk_turns := []\<rparr>) (im_conn st) in
      log_calls l (st\<lparr>im_conn := conn, im_worker := (if fin then WkDone else WkTest (wk_socket a))\<rparr>))"

definition worker_end :: "int \<Rightarrow> import_state \<Rightarrow> import_state" where
  "worker_end ls st =
     log_calls (CloseSocket ls)
       (st\<lparr>im_conn := set_status ''Tunnel stopped'' (im_conn st), im_worker := WkDone\<rparr>)"

definition worker_test :: "int \<Rightarrow> import_state \<Rightarrow> import_state" where
  "worker_test ls st =
     (if tc_is_running (im_conn st) then st\<lparr>im_worker := WkBody ls\<rparr> else worker_end ls st)"

text \<open>One turn of the accept loop. A client it has handed over is the last thread it has spawned.\<close>

definition new_forwarders :: "TunnelConnection \<Rightarrow> TunnelConnection \<Rightarrow> forwarding list" where
  "new_forwarders conn conn' =
     map (\<lambda>(w, client, c). \<lparr>ft_id = w, ft_client = client, ft_channel = c, ft_pc = FwStart\<rparr>)
       (drop (length (tc_forward_threads conn)) (tc_forward_threads conn'))"

definition worker_pass :: "platform \<Rightarrow> int \<Rightarrow> worker_turn \<Rightarrow> import_state \<Rightarrow> import_state" where
  "worker_pass pl ls t st =
     (let (fin, conn, l) = worker_loop pl ls [t] (im_conn st);
          st' = log_calls l (st\<lparr>im_conn := conn, im_worker := WkTest ls,
            im_forwarders := im_forwarders st @ new_forwarders (im_conn st) conn\<rparr>)
      in if fin then worker_end ls st' else st')"

subsection \<open>A forwarding thread\<close>

text \<open>The threads are \<open>xs @ f # ys\<close>, and \<open>f\<close> moves.\<close>

definition forward_end_of :: "forwarding list \<Rightarrow> forwarding \<Rightarrow> forwarding list \<Rightarrow> import_state \<Rightarrow> import_state" where
  "forward_end_of xs f ys st =
     log_calls (CloseSocket (ft_client f) @ [ChannelFree (ft_channel f)]) (st\<lparr>im_forwarders := xs @ ys\<rparr>)"

definition forward_goto ::
  "forward_pc \<Rightarrow> forwarding list \<Rightarrow> forwarding \<Rightarrow> forwarding list \<Rightarrow> import_state \<Rightarrow> import_state" where
  "forward_goto pc xs f ys st = st\<lparr>im_forwarders := xs @ f\<lparr>ft_pc := pc\<rparr> # ys\<rparr>"

definition forward_begin :: "forwarding list \<Rightarrow> forwarding \<Rightarrow> forwarding list \<Rightarrow> import_state \<Rightarrow> import_state" where
  "forward_begin xs f ys st = log_calls [NonBlockingFd (ft_client f)] (forward_goto FwTest xs f ys st)"

definition forward_test :: "forwarding list \<Rightarrow> forwarding \<Rightarrow> forwarding list \<Rightarrow> import_state \<Rightarrow> import_state" where
  "forward_test xs f ys st =
     (if tc_is_running (im_conn st) then forward_goto FwBody xs f ys st else forward_end_of xs f ys st)"

definition forward_pass ::
  "forward_turn \<Rightarrow> forwarding list \<Rightarrow> forwarding \<Rightarrow> forwarding list \<Rightarrow> import_state \<Rightarrow> import_state" where
  "forward_pass t xs f ys st =
     (let (e, l) = forward_loop (ft_client f) (ft_channel f) [t] in
      if e = FwPending then log_calls l (forward_goto FwTest xs f ys st)
      else forward_end_of xs f ys (log_calls l st))"

text \<open>The turn comes to an end: the answers for its writes and sends are all there.\<close>

definition fw_complete :: "int \<Rightarrow> nat \<Rightarrow> forward_turn \<Rightarrow> bool" where
  "fw_complete s c t \<longleftrightarrow>
     fst (forward_up s c t) \<noteq> FwWait \<and>
     (fst (forward_up s c t) = FwContinue \<longrightarrow> fst (forward_down s c t) \<noteq> FwWait)"

subsection \<open>Close\<close>

definition close_begin :: "import_state \<Rightarrow> import_state" where
  "close_begin st =
     log_calls (if tc_ssh_socket (im_conn st) \<ge> 0 then [ShutdownWr (tc_ssh_socket (im_conn st))] else [])
       (st\<lparr>im_conn := (im_conn st)\<lparr>tc_is_running := False\<rparr>, im_close := ClJoin\<rparr>)"

definition close_join_worker :: "import_state \<Rightarrow> import_state" where
  "close_join_worker st =
     log_calls (if tc_worker_thread (im_conn st) then [JoinThread AcceptThread] else [])
       (st\<lparr>im_conn := (im_conn st)\<lparr>tc_worker_thread := False\<rparr>,
           im_close := ClSweep (map fst (tc_forward_threads (im_conn st)))\<rparr>)"

definition close_join_forward :: "nat \<Rightarrow> nat list \<Rightarrow> import_state \<Rightarrow> import_state" where
  "close_join_forward w ws st = log_calls [JoinThread (PumpThread w)] (st\<lparr>im_close := ClSweep ws\<rparr>)"

definition close_finish :: "import_state \<Rightarrow> import_state" where
  "close_finish st =
     (let conn = im_conn st in
      log_calls
        ((if tc_session conn then [SessionCall, SessionCall, SessionFree] else []) @
         CloseSocket (tc_ssh_socket conn))
        (st\<lparr>im_conn := set_status kStatusClosed
              (conn\<lparr>tc_is_running := False, tc_worker_thread := False, tc_forward_threads := [],
                    tc_session := False,
                    tc_ssh_socket := (if tc_ssh_socket conn \<ge> 0 then - 1 else tc_ssh_socket conn),
                    tc_is_connected := False\<rparr>),
            im_close := ClClosed\<rparr>))"

subsection \<open>The steps\<close>

fun worker_fds :: "worker_pc \<Rightarrow> int set" where
  "worker_fds (WkTest ls) = {ls}"
| "worker_fds (WkBody ls) = {ls}"
| "worker_fds _ = {}"

definition im_fds :: "int set \<Rightarrow> import_state \<Rightarrow> int set" where
  "im_fds F st =
     F \<union> (if tc_ssh_socket (im_conn st) \<ge> 0 then {tc_ssh_socket (im_conn st)} else {}) \<union>
     worker_fds (im_worker st) \<union> ft_client ` set (im_forwarders st)"

definition im_channels :: "import_state \<Rightarrow> nat set" where
  "im_channels st = ft_channel ` set (im_forwarders st)"

text \<open>
  \<open>F\<close> are the descriptors other code has open. The operating system gives out descriptors that
  are not open, libssh2 channels that are new; a join returns once its thread has ended.
\<close>

inductive import_step :: "platform \<Rightarrow> int set \<Rightarrow> import_state \<Rightarrow> import_state \<Rightarrow> bool"
  for pl F where
  WorkerBegin: "im_worker st = WkStart \<Longrightarrow> (wk_socket a \<ge> 0 \<longrightarrow> wk_socket a \<notin> im_fds F st) \<Longrightarrow>
    import_step pl F st (worker_begin pl a st)"
| WorkerTest: "im_worker st = WkTest ls \<Longrightarrow> import_step pl F st (worker_test ls st)"
| WorkerBody: "im_worker st = WkBody ls \<Longrightarrow> wt_running t \<Longrightarrow>
    (wt_accept t \<ge> 0 \<longrightarrow> wt_accept t \<notin> im_fds F st) \<Longrightarrow>
    (\<forall>c. wt_channel t = Some c \<longrightarrow> c \<notin> im_channels st) \<Longrightarrow>
    import_step pl F st (worker_pass pl ls t st)"
| ForwardBegin: "im_forwarders st = xs @ f # ys \<Longrightarrow> ft_pc f = FwStart \<Longrightarrow>
    import_step pl F st (forward_begin xs f ys st)"
| ForwardTest: "im_forwarders st = xs @ f # ys \<Longrightarrow> ft_pc f = FwTest \<Longrightarrow>
    import_step pl F st (forward_test xs f ys st)"
| ForwardBody: "im_forwarders st = xs @ f # ys \<Longrightarrow> ft_pc f = FwBody \<Longrightarrow> fw_running t \<Longrightarrow>
    fw_complete (ft_client f) (ft_channel f) t \<Longrightarrow>
    import_step pl F st (forward_pass t xs f ys st)"
| CloseBegin: "im_close st = ClOpen \<Longrightarrow> import_step pl F st (close_begin st)"
| CloseJoinWorker: "im_close st = ClJoin \<Longrightarrow> im_worker st = WkDone \<Longrightarrow>
    import_step pl F st (close_join_worker st)"
| CloseJoinForward: "im_close st = ClSweep (w # ws) \<Longrightarrow> w \<notin> ft_id ` set (im_forwarders st) \<Longrightarrow>
    import_step pl F st (close_join_forward w ws st)"
| CloseFinish: "im_close st = ClSweep [] \<Longrightarrow> import_step pl F st (close_finish st)"

text \<open>The threads not joined, and what the tunnel holds.\<close>

definition im_unjoined :: "import_state \<Rightarrow> nat set" where
  "im_unjoined st = left_to_join (fst ` set (tc_forward_threads (im_conn st))) (im_close st)"

definition im_resources :: "int set \<Rightarrow> import_state \<Rightarrow> resources" where
  "im_resources F st =
     \<lparr>live_fds = im_fds F st, live_session = tc_session (im_conn st), live_listener = False,
      live_channels = im_channels st,
      live_threads = (if tc_worker_thread (im_conn st) then {AcceptThread} else {}) \<union>
        PumpThread ` im_unjoined st\<rparr>"

text \<open>The steps a \<open>Close\<close> that has begun can still take.\<close>

fun worker_cost :: "worker_pc \<Rightarrow> nat" where
  "worker_cost WkStart = 2"
| "worker_cost (WkTest ls) = 1"
| "worker_cost (WkBody ls) = 5"
| "worker_cost WkDone = 0"

fun forward_cost :: "forward_pc \<Rightarrow> nat" where
  "forward_cost FwTest = 1"
| "forward_cost _ = 2"

definition close_bound :: "import_state \<Rightarrow> nat" where
  "close_bound st =
     worker_cost (im_worker st) + sum_list (map (forward_cost \<circ> ft_pc) (im_forwarders st)) +
     join_cost (length (tc_forward_threads (im_conn st))) (im_close st)"

section \<open>The pieces are the operations\<close>

text \<open>
  Taking a loop one turn at a time, and \<open>Close\<close> one wait at a time, is the same as the operations
  of \<open>Ssh_Connection\<close> when no other thread comes between.
\<close>

lemma worker_loop_turn:
  "worker_loop pl ls (t # ts) conn =
     (let (fin, conn1, l1) = worker_loop pl ls [t] conn in
      if fin then (True, conn1, l1)
      else (let (fin2, conn2, l2) = worker_loop pl ls ts conn1 in (fin2, conn2, l1 @ l2)))"
  by (auto simp: Let_def split: option.split prod.split)

lemma forward_writes_goto: "fst (forward_writes c buf n ws) \<noteq> FwGoto FwPending"
proof (induction ws arbitrary: n)
  case Nil
  show ?case by (subst forward_writes.simps) simp
next
  case (Cons w ws)
  then show ?case
    by (subst forward_writes.simps) (auto simp: Let_def case_prod_beta)
qed

lemma forward_sends_goto: "fst (forward_sends s buf n ws) \<noteq> FwGoto FwPending"
proof (induction ws arbitrary: n)
  case Nil
  show ?case by (subst forward_sends.simps) simp
next
  case (Cons w ws)
  then show ?case
    by (subst forward_sends.simps) (auto simp: Let_def case_prod_beta)
qed

lemma forward_up_goto: "fst (forward_up s c t) \<noteq> FwGoto FwPending"
  using forward_writes_goto
  by (auto simp: forward_up_def Let_def case_prod_beta split: recv_result.split list.split)

lemma forward_down_goto: "fst (forward_down s c t) \<noteq> FwGoto FwPending"
  using forward_sends_goto
  by (auto simp: forward_down_def Let_def case_prod_beta split: recv_result.split list.split)

lemma forward_loop_turn:
  assumes "fw_running t \<longrightarrow> fw_complete s c t"
  shows "forward_loop s c (t # ts) =
     (let (e, l) = forward_loop s c [t] in
      if e \<noteq> FwPending then (e, l)
      else (let (e2, l2) = forward_loop s c ts in (e2, l @ l2)))"
  using assms forward_up_goto [of s c t] forward_down_goto [of s c t]
  by (auto simp: Let_def fw_complete_def split: prod.split forward_step.split)

lemma close_pieces:
  assumes "im_close st = ClOpen"
  defines "ws \<equiv> map fst (tc_forward_threads (im_conn st))"
  shows "im_log (close_finish (fold (\<lambda>w. close_join_forward w []) ws (close_join_worker (close_begin st)))) =
      im_log st @ snd (TunnelConnection_Close (im_conn st))"
    and "im_conn (close_finish (fold (\<lambda>w. close_join_forward w []) ws (close_join_worker (close_begin st)))) =
      fst (TunnelConnection_Close (im_conn st))"
proof -
  have fold_log: "im_log (fold (\<lambda>w. close_join_forward w []) xs s) = im_log s @ join_pumps xs"
    and fold_conn: "im_conn (fold (\<lambda>w. close_join_forward w []) xs s) = im_conn s" for xs s
    by (induction xs arbitrary: s) (simp_all add: close_join_forward_def log_calls_def join_pumps_def)
  show "im_log (close_finish (fold (\<lambda>w. close_join_forward w []) ws (close_join_worker (close_begin st)))) =
      im_log st @ snd (TunnelConnection_Close (im_conn st))"
    by (simp add: close_finish_def Let_def log_calls_def fold_log fold_conn close_join_worker_def
        close_begin_def TunnelConnection_Close_def ws_def)
  show "im_conn (close_finish (fold (\<lambda>w. close_join_forward w []) ws (close_join_worker (close_begin st)))) =
      fst (TunnelConnection_Close (im_conn st))"
    by (simp add: close_finish_def Let_def log_calls_def fold_log fold_conn close_join_worker_def
        close_begin_def TunnelConnection_Close_def)
qed

section \<open>What every interleaving keeps\<close>

definition inv_fds :: "int set \<Rightarrow> import_state \<Rightarrow> bool" where
  "inv_fds F st \<longleftrightarrow>
     (tc_ssh_socket (im_conn st) \<ge> 0 \<longrightarrow> tc_ssh_socket (im_conn st) \<notin> F) \<and>
     (\<forall>ls \<in> worker_fds (im_worker st). ls \<ge> 0 \<and> ls \<notin> insert (tc_ssh_socket (im_conn st)) F) \<and>
     distinct (map ft_client (im_forwarders st)) \<and> distinct (map ft_channel (im_forwarders st)) \<and>
     (\<forall>f \<in> set (im_forwarders st). ft_client f \<ge> 0 \<and>
        ft_client f \<notin> insert (tc_ssh_socket (im_conn st)) F \<union> worker_fds (im_worker st))"

definition inv_ids :: "import_state \<Rightarrow> bool" where
  "inv_ids st \<longleftrightarrow>
     ft_id ` set (im_forwarders st) \<subseteq> im_unjoined st \<and>
     distinct (map fst (tc_forward_threads (im_conn st))) \<and>
     (\<forall>w \<in> set (tc_forward_threads (im_conn st)). fst w < tc_spawned (im_conn st)) \<and>
     (\<forall>ws. im_close st = ClSweep ws \<longrightarrow> distinct ws)"

definition inv_phase :: "import_state \<Rightarrow> bool" where
  "inv_phase st \<longleftrightarrow>
     (tc_session (im_conn st) \<longleftrightarrow> im_close st \<noteq> ClClosed) \<and>
     (im_close st \<noteq> ClClosed \<longrightarrow> tc_ssh_socket (im_conn st) \<ge> 0) \<and>
     (im_close st = ClClosed \<longrightarrow> tc_ssh_socket (im_conn st) = - 1 \<and> im_forwarders st = []) \<and>
     (tc_worker_thread (im_conn st) \<longleftrightarrow> im_close st \<in> {ClOpen, ClJoin}) \<and>
     (im_close st \<notin> {ClOpen, ClJoin} \<longrightarrow> im_worker st = WkDone) \<and>
     (im_close st \<noteq> ClOpen \<longrightarrow> \<not> tc_is_running (im_conn st))"

definition import_inv :: "int set \<Rightarrow> import_state \<Rightarrow> bool" where
  "import_inv F st \<longleftrightarrow> inv_fds F st \<and> inv_ids st \<and> inv_phase st"

definition import_keeps :: "int set \<Rightarrow> import_state \<Rightarrow> import_state \<Rightarrow> bool" where
  "import_keeps F st st' \<longleftrightarrow>
     import_inv F st' \<and>
     (\<exists>l. im_log st' = im_log st @ l \<and>
          resource_run l (im_resources F st) = Some (im_resources F st'))"

lemmas inv_defs = import_inv_def inv_fds_def inv_ids_def inv_phase_def

lemma log_calls_simps [simp]:
  "im_conn (log_calls l st) = im_conn st" "im_worker (log_calls l st) = im_worker st"
  "im_forwarders (log_calls l st) = im_forwarders st" "im_close (log_calls l st) = im_close st"
  "im_log (log_calls l st) = im_log st @ l"
  by (simp_all add: log_calls_def)

lemma log_calls_holds [simp]:
  "im_fds F (log_calls l st) = im_fds F st" "im_channels (log_calls l st) = im_channels st"
  "im_unjoined (log_calls l st) = im_unjoined st"
  "im_resources F (log_calls l st) = im_resources F st"
  "import_inv F (log_calls l st) = import_inv F st"
  by (simp_all add: im_fds_def im_channels_def im_unjoined_def im_resources_def inv_defs)

text \<open>A step that changes nothing the tunnel holds, and a step composed of two.\<close>

lemma import_keeps_trans:
  "import_keeps F st st' \<Longrightarrow> import_keeps F st' st'' \<Longrightarrow> import_keeps F st st''"
  unfolding import_keeps_def by (metis append.assoc resource_run_appendI)

lemma import_keeps_calls:
  assumes "import_inv F st'" and "im_log st' = im_log st"
    and "resource_run l (im_resources F st) = Some (im_resources F st')"
  shows "import_keeps F st (log_calls l st')"
  using assms by (simp add: import_keeps_def)

lemma import_keeps_same:
  assumes "import_inv F st'" and "im_log st' = im_log st" and "im_resources F st' = im_resources F st"
  shows "import_keeps F st st'"
  using assms by (simp add: import_keeps_def exI [of _ "[]"])

subsection \<open>Forwarding threads\<close>

lemma forward_goto_keeps:
  assumes "import_inv F st" and "im_forwarders st = xs @ f # ys"
  shows "import_inv F (forward_goto pc xs f ys st)"
    and "im_resources F (forward_goto pc xs f ys st) = im_resources F st"
    and "im_log (forward_goto pc xs f ys st) = im_log st"
  using assms
  by (simp_all add: forward_goto_def inv_defs im_resources_def im_fds_def im_channels_def im_unjoined_def)

lemma forwarder_live:
  assumes "import_inv F st" and "f \<in> set (im_forwarders st)"
  shows "ft_client f \<in> live_fds (im_resources F st)" "live_session (im_resources F st)"
    "ft_channel f \<in> live_channels (im_resources F st)" "ft_client f \<ge> 0"
  using assms by (auto simp: im_resources_def im_fds_def im_channels_def inv_defs)

lemma forward_end_keeps:
  assumes inv: "import_inv F st" and fs: "im_forwarders st = xs @ f # ys"
  shows "import_keeps F st (forward_end_of xs f ys st)"
proof -
  let ?st = "st\<lparr>im_forwarders := xs @ ys\<rparr>" and ?r = "im_resources F st"
  have live: "ft_client f \<in> live_fds ?r" "live_session ?r" "ft_channel f \<in> live_channels ?r"
      "ft_client f \<ge> 0"
    using forwarder_live [OF inv, of f] fs by simp_all
  have "resource_run (CloseSocket (ft_client f) @ [ChannelFree (ft_channel f)]) ?r =
      Some (?r\<lparr>live_fds := live_fds ?r - {ft_client f}, live_channels := live_channels ?r - {ft_channel f}\<rparr>)"
    using live by (simp add: CloseSocket_def resource_run_append)
  moreover have "ft_client f \<notin> insert (tc_ssh_socket (im_conn st)) F \<union> worker_fds (im_worker st)"
      "ft_client f \<notin> ft_client ` set (xs @ ys)" "ft_channel f \<notin> ft_channel ` set (xs @ ys)"
    using inv fs by (simp_all add: inv_defs image_Un)
  then have "im_fds F st - {ft_client f} = im_fds F ?st"
      "im_channels st - {ft_channel f} = im_channels ?st"
    by (auto simp: im_fds_def im_channels_def fs)
  then have "?r\<lparr>live_fds := live_fds ?r - {ft_client f}, live_channels := live_channels ?r - {ft_channel f}\<rparr> =
      im_resources F ?st"
    by (simp add: im_resources_def im_unjoined_def)
  moreover have "import_inv F ?st"
    using inv fs by (simp add: inv_defs im_unjoined_def)
  ultimately show ?thesis
    unfolding forward_end_of_def by (intro import_keeps_calls) simp_all
qed

lemma forward_pass_keeps:
  assumes inv: "import_inv F st" and fs: "im_forwarders st = xs @ f # ys"
  shows "import_keeps F st (forward_pass t xs f ys st)"
proof -
  obtain e l where el: "forward_loop (ft_client f) (ft_channel f) [t] = (e, l)" by fastforce
  have run: "resource_run l (im_resources F st) = Some (im_resources F st)"
    using forward_loop_resources [OF forwarder_live(1-3) [OF inv, of f], of "[t]"] fs el by simp
  show ?thesis
  proof (cases "e = FwPending")
    case True
    then show ?thesis
      using run forward_goto_keeps [OF inv fs] el
      by (simp add: forward_pass_def import_keeps_calls)
  next
    case False
    have "import_keeps F st (log_calls l st)" using inv run by (simp add: import_keeps_calls)
    moreover have "import_keeps F (log_calls l st) (forward_end_of xs f ys (log_calls l st))"
      using inv fs by (intro forward_end_keeps) simp_all
    ultimately show ?thesis using False el by (simp add: forward_pass_def import_keeps_trans)
  qed
qed

subsection \<open>The worker\<close>

lemma attributes_hold [simp]:
  "import_inv F (st\<lparr>im_conn := set_attributes f (im_conn st), im_worker := pc\<rparr>) =
     import_inv F (st\<lparr>im_worker := pc\<rparr>)"
  "im_resources F (st\<lparr>im_conn := set_attributes f (im_conn st), im_worker := pc\<rparr>) =
     im_resources F (st\<lparr>im_worker := pc\<rparr>)"
  by (simp_all add: inv_defs im_resources_def im_fds_def im_channels_def im_unjoined_def)

lemma worker_moves:
  assumes "import_inv F st" and "worker_fds pc = worker_fds (im_worker st)"
    and "im_close st \<notin> {ClOpen, ClJoin} \<longrightarrow> pc = WkDone"
  shows "import_inv F (st\<lparr>im_worker := pc\<rparr>)"
    and "im_resources F (st\<lparr>im_worker := pc\<rparr>) = im_resources F st"
  using assms
  by (simp_all add: inv_defs im_resources_def im_fds_def im_channels_def im_unjoined_def)

text \<open>A new descriptor becomes the listener, and the listener is closed.\<close>

lemma worker_opens:
  assumes inv: "import_inv F st" and w: "im_worker st = WkStart" and ls: "ls \<ge> 0" "ls \<notin> im_fds F st"
  shows "import_inv F (st\<lparr>im_worker := WkTest ls\<rparr>)"
    and "resource_run (worker_open conn ls @ [ListenFd ls]) (im_resources F st) =
      Some (im_resources F (st\<lparr>im_worker := WkTest ls\<rparr>))"
    and "resource_run (worker_open conn ls @ CloseSocket ls) (im_resources F st) =
      Some (im_resources F st)"
    and "resource_run (worker_open conn ls @ [ListenFd ls] @ CloseSocket ls) (im_resources F st) =
      Some (im_resources F st)"
proof -
  have ssh: "tc_ssh_socket (im_conn st) \<ge> 0" using inv w by (auto simp: inv_defs)
  show "import_inv F (st\<lparr>im_worker := WkTest ls\<rparr>)"
    using inv w ls ssh by (auto simp: inv_defs im_unjoined_def im_fds_def)
  have "im_fds F (st\<lparr>im_worker := WkTest ls\<rparr>) = insert ls (im_fds F st)"
    using w by (auto simp: im_fds_def)
  then have "im_resources F (st\<lparr>im_worker := WkTest ls\<rparr>) =
      (im_resources F st)\<lparr>live_fds := insert ls (live_fds (im_resources F st))\<rparr>"
    by (simp add: im_resources_def im_channels_def im_unjoined_def)
  moreover have "ls \<notin> live_fds (im_resources F st)" using ls by (simp add: im_resources_def)
  ultimately show "resource_run (worker_open conn ls @ [ListenFd ls]) (im_resources F st) =
      Some (im_resources F (st\<lparr>im_worker := WkTest ls\<rparr>))"
    and "resource_run (worker_open conn ls @ CloseSocket ls) (im_resources F st) =
      Some (im_resources F st)"
    and "resource_run (worker_open conn ls @ [ListenFd ls] @ CloseSocket ls) (im_resources F st) =
      Some (im_resources F st)"
    using ls by (simp_all add: worker_open_def CloseSocket_def)
qed

lemma worker_end_keeps:
  assumes inv: "import_inv F st" and w: "worker_fds (im_worker st) = {ls}"
  shows "import_keeps F st (worker_end ls st)"
proof -
  let ?st = "st\<lparr>im_worker := WkDone\<rparr>"
  have "ls \<ge> 0" "ls \<in> live_fds (im_resources F st)"
    using inv w by (simp_all add: inv_defs im_resources_def im_fds_def)
  then have "resource_run (CloseSocket ls) (im_resources F st) =
      Some ((im_resources F st)\<lparr>live_fds := live_fds (im_resources F st) - {ls}\<rparr>)"
    by (rule CloseSocket_run)
  moreover have "im_fds F st - {ls} = im_fds F ?st"
    using inv w by (auto simp: im_fds_def inv_defs)
  then have "(im_resources F st)\<lparr>live_fds := live_fds (im_resources F st) - {ls}\<rparr> = im_resources F ?st"
    by (simp add: im_resources_def im_channels_def im_unjoined_def)
  moreover have "import_inv F ?st"
    using inv by (simp add: inv_defs im_unjoined_def)
  ultimately show ?thesis
    unfolding worker_end_def set_defs by (intro import_keeps_calls) simp_all
qed

lemma worker_test_keeps:
  assumes "import_inv F st" and "im_worker st = WkTest ls"
  shows "import_keeps F st (worker_test ls st)"
proof (cases "tc_is_running (im_conn st)")
  case True
  then have "im_close st = ClOpen" using assms by (auto simp: inv_defs)
  then show ?thesis
    using True assms worker_moves [OF assms(1), of "WkBody ls"]
    by (simp add: worker_test_def import_keeps_same)
next
  case False
  then show ?thesis using worker_end_keeps [of F st ls] assms by (simp add: worker_test_def)
qed

text \<open>The start of the worker, by what came of it.\<close>

lemma WorkerFunction_begin_cases:
  assumes "WorkerFunction pl (a\<lparr>wk_turns := []\<rparr>) conn = (fin, conn', l)"
  obtains (failed) f where "fin" "conn' = set_attributes f conn" "l = []"
    | (refused) f conn1 where "fin" "conn' = set_attributes f conn" "wk_socket a \<ge> 0"
        "l = worker_open conn1 (wk_socket a) @ CloseSocket (wk_socket a) \<or>
         l = worker_open conn1 (wk_socket a) @ [ListenFd (wk_socket a)] @ CloseSocket (wk_socket a)"
    | (listening) f conn1 where "\<not> fin" "conn' = set_attributes f conn" "wk_socket a \<ge> 0"
        "l = worker_open conn1 (wk_socket a) @ [ListenFd (wk_socket a)]"
proof -
  have twice: "set_attributes g (set_attributes h c) = set_attributes (g \<circ> h) c" for g h c
    by (simp add: set_attributes_def)
  consider "wk_socket a < 0" | "wk_socket a \<ge> 0" "wk_bind a \<noteq> 0"
    | "wk_socket a \<ge> 0" "wk_bind a = 0" "wk_listen a \<noteq> 0"
    | "wk_socket a \<ge> 0" "wk_bind a = 0" "wk_listen a = 0" by linarith
  then show thesis
    using assms failed refused listening
    by cases (force simp: WorkerFunction_def Let_def set_defs twice)+
qed

lemma worker_begin_keeps:
  assumes inv: "import_inv F st" and w: "im_worker st = WkStart"
    and fresh: "wk_socket a \<ge> 0 \<longrightarrow> wk_socket a \<notin> im_fds F st"
  shows "import_keeps F st (worker_begin pl a st)"
proof -
  obtain fin conn l where call: "WorkerFunction pl (a\<lparr>wk_turns := []\<rparr>) (im_conn st) = (fin, conn, l)"
    by (metis prod_cases3)
  have stopped: "import_inv F (st\<lparr>im_conn := set_attributes f (im_conn st), im_worker := WkDone\<rparr>)"
    "im_resources F (st\<lparr>im_conn := set_attributes f (im_conn st), im_worker := WkDone\<rparr>) =
      im_resources F st" for f
    using worker_moves [OF inv, of WkDone] w by simp_all
  from call show ?thesis
  proof (cases rule: WorkerFunction_begin_cases)
    case failed
    then show ?thesis using call stopped by (simp add: worker_begin_def import_keeps_calls)
  next
    case refused
    then show ?thesis using call stopped fresh worker_opens(3,4) [OF inv w]
      by (auto simp: worker_begin_def intro!: import_keeps_calls)
  next
    case (listening f conn1)
    let ?st = "st\<lparr>im_worker := WkTest (wk_socket a)\<rparr>"
    have "import_inv F ?st" and "resource_run l (im_resources F st) = Some (im_resources F ?st)"
      using worker_opens(1,2) [OF inv w] listening fresh by simp_all
    then show ?thesis
      using listening call by (simp add: worker_begin_def import_keeps_calls)
  qed
qed

text \<open>One turn of the accept loop, by what came of it.\<close>

lemma worker_loop_turn_cases:
  assumes "worker_loop pl ls [t] conn = (fin, conn', l)"
  obtains (kept) f where "conn' = set_attributes f conn"
      "\<And>r. ls \<in> live_fds r \<Longrightarrow> live_session r \<Longrightarrow> (wt_accept t \<ge> 0 \<longrightarrow> wt_accept t \<notin> live_fds r) \<Longrightarrow>
         resource_run l r = Some r"
    | (spawned) c where "\<not> fin" "conn' = spawn_forward (wt_accept t) c conn" "wt_channel t = Some c"
        "wt_accept t \<ge> 0" "l = [SelectRead [ls], OpenFd (wt_accept t), ChannelOpen c,
           SpawnThread (PumpThread (tc_spawned conn))]"
proof -
  have same: "\<exists>f. conn = set_attributes f conn" using set_attributes_id [of conn] by metis
  have quiet: thesis if "conn' = conn \<or> conn' = set_error m conn"
      "l \<in> {[], [SelectRead [ls]]} \<or> wt_accept t \<ge> 0 \<and>
       l \<in> {[SelectRead [ls], OpenFd (wt_accept t), CloseFd (wt_accept t)],
            [SelectRead [ls], OpenFd (wt_accept t), SessionCall, CloseFd (wt_accept t)]}" for m
  proof -
    from that(1) same obtain f where "conn' = set_attributes f conn" by (auto simp: set_error_def)
    then show thesis by (rule kept) (use that(2) in auto)
  qed
  consider (short) "\<not> wt_running t \<or> wt_select t \<le> 0 \<or> wt_accept t < 0"
    | (late) "wt_running t" "wt_select t > 0" "wt_accept t \<ge> 0" "\<not> wt_running_after t"
    | (nochan) "wt_running t" "wt_select t > 0" "wt_accept t \<ge> 0" "wt_running_after t" "wt_channel t = None"
    | (chan) c where "wt_running t" "wt_select t > 0" "wt_accept t \<ge> 0" "wt_running_after t"
        "wt_channel t = Some c"
    by (cases "wt_channel t") (linarith | force)+
  then show thesis
  proof cases
    case short
    then show thesis using assms by (intro quiet) (auto split: if_splits)
  next
    case late
    then show thesis using assms by (intro quiet) (auto simp: CloseSocket_def)
  next
    case nochan
    then show thesis using assms by (intro quiet) (auto simp: CloseSocket_def)
  next
    case chan
    then show thesis using assms by (intro spawned) auto
  qed
qed

lemma new_forwarders_same [simp]: "new_forwarders conn (set_attributes f conn) = []"
  by (simp add: new_forwarders_def)

lemma new_forwarders_spawn [simp]:
  "new_forwarders conn (spawn_forward client c conn) =
     [\<lparr>ft_id = tc_spawned conn, ft_client = client, ft_channel = c, ft_pc = FwStart\<rparr>]"
  by (simp add: new_forwarders_def spawn_forward_def)

lemma spawn_keeps:
  assumes inv: "import_inv F st" and cl: "im_close st \<in> {ClOpen, ClJoin}"
    and fresh: "client \<ge> 0" "client \<notin> im_fds F st" "c \<notin> im_channels st"
  defines "st' \<equiv> st\<lparr>im_conn := spawn_forward client c (im_conn st), im_forwarders := im_forwarders st @
      [\<lparr>ft_id = tc_spawned (im_conn st), ft_client = client, ft_channel = c, ft_pc = FwStart\<rparr>]\<rparr>"
  shows "import_inv F st'"
    and "resource_run [OpenFd client, ChannelOpen c, SpawnThread (PumpThread (tc_spawned (im_conn st)))]
      (im_resources F st) = Some (im_resources F st')"
proof -
  let ?n = "tc_spawned (im_conn st)"
  have sp: "tc_forward_threads (spawn_forward client c (im_conn st)) =
      tc_forward_threads (im_conn st) @ [(?n, client, c)]"
    "tc_spawned (spawn_forward client c (im_conn st)) = Suc ?n"
    "tc_session (spawn_forward client c (im_conn st)) = tc_session (im_conn st)"
    "tc_ssh_socket (spawn_forward client c (im_conn st)) = tc_ssh_socket (im_conn st)"
    "tc_worker_thread (spawn_forward client c (im_conn st)) = tc_worker_thread (im_conn st)"
    "tc_is_running (spawn_forward client c (im_conn st)) = tc_is_running (im_conn st)"
    by (simp_all add: spawn_forward_def)
  have W: "left_to_join W (im_close st) = W" for W using cl by auto
  have new: "?n \<notin> fst ` set (tc_forward_threads (im_conn st))" using inv by (auto simp: inv_defs)
  have ssh: "tc_ssh_socket (im_conn st) \<ge> 0" "tc_session (im_conn st)" using inv cl by (auto simp: inv_defs)
  have out: "client \<notin> insert (tc_ssh_socket (im_conn st)) F \<union> worker_fds (im_worker st)"
      "client \<notin> ft_client ` set (im_forwarders st)"
    using fresh(2) ssh by (auto simp: im_fds_def)
  have fds: "inv_fds F st'"
    using inv fresh(1,3) out by (simp add: st'_def inv_defs sp im_channels_def)
  moreover have "inv_ids st'"
    using inv new by (auto simp: st'_def inv_defs sp im_unjoined_def W less_Suc_eq)
  moreover have "inv_phase st'"
    using inv cl by (auto simp: st'_def inv_defs sp)
  ultimately show "import_inv F st'" by (simp add: import_inv_def)
  have live: "live_fds (im_resources F st') = insert client (live_fds (im_resources F st))"
    "live_channels (im_resources F st') = insert c (live_channels (im_resources F st))"
    "live_threads (im_resources F st') = insert (PumpThread ?n) (live_threads (im_resources F st))"
    by (auto simp: st'_def im_resources_def im_fds_def im_channels_def im_unjoined_def sp W)
  have "PumpThread ?n \<notin> live_threads (im_resources F st)"
    using new by (auto simp: im_resources_def im_unjoined_def W)
  with fresh ssh show "resource_run [OpenFd client, ChannelOpen c, SpawnThread (PumpThread ?n)]
      (im_resources F st) = Some (im_resources F st')"
    by (auto simp: live im_resources_def [of F st] intro!: resources_eqI)
      (simp_all add: st'_def im_resources_def sp)
qed

lemma worker_pass_keeps:
  assumes inv: "import_inv F st" and w: "im_worker st = WkBody ls"
    and fresh: "wt_accept t \<ge> 0 \<longrightarrow> wt_accept t \<notin> im_fds F st"
      "\<forall>c. wt_channel t = Some c \<longrightarrow> c \<notin> im_channels st"
  shows "import_keeps F st (worker_pass pl ls t st)"
proof -
  let ?st = "st\<lparr>im_worker := WkTest ls\<rparr>"
  obtain fin conn l where call: "worker_loop pl ls [t] (im_conn st) = (fin, conn, l)"
    by (metis prod_cases3)
  have cl: "im_close st \<in> {ClOpen, ClJoin}" using inv w by (auto simp: inv_defs)
  have st: "import_inv F ?st" "im_resources F ?st = im_resources F st"
    using worker_moves [OF inv, of "WkTest ls"] w cl by simp_all
  have live: "ls \<in> live_fds (im_resources F st)" "live_session (im_resources F st)"
    using inv w cl by (auto simp: im_resources_def im_fds_def inv_defs)
  from call show ?thesis
  proof (cases rule: worker_loop_turn_cases)
    case (kept f)
    let ?st1 = "log_calls l (st\<lparr>im_conn := conn, im_worker := WkTest ls\<rparr>)"
    have "resource_run l (im_resources F st) = Some (im_resources F st)"
      using kept(2) live fresh(1) by (simp add: im_resources_def)
    then have st1: "import_keeps F st ?st1" using st kept(1) by (simp add: import_keeps_calls)
    then have "import_keeps F ?st1 (worker_end ls ?st1)"
      by (intro worker_end_keeps) (simp_all add: import_keeps_def)
    with st1 have "import_keeps F st (worker_end ls ?st1)" by (rule import_keeps_trans)
    then show ?thesis using call kept(1) st1 by (simp add: worker_pass_def Let_def del: worker_loop.simps)
  next
    case (spawned c)
    have "wt_accept t \<notin> im_fds F ?st" "c \<notin> im_channels ?st"
      using fresh spawned(3,4) w by (auto simp: im_fds_def im_channels_def)
    note sp = spawn_keeps [OF st(1) _ spawned(4) this]
    have "resource_run [SelectRead [ls]] (im_resources F st) = Some (im_resources F st)"
      using live by simp
    with sp(2) cl st(2) have "resource_run ([SelectRead [ls]] @ [OpenFd (wt_accept t), ChannelOpen c,
        SpawnThread (PumpThread (tc_spawned (im_conn st)))]) (im_resources F st) =
      Some (im_resources F (?st\<lparr>im_conn := conn, im_forwarders := im_forwarders st @
        new_forwarders (im_conn st) conn\<rparr>))"
      unfolding spawned(2) new_forwarders_spawn resource_run_append by simp
    then have "import_keeps F st (log_calls l (?st\<lparr>im_conn := conn, im_forwarders :=
        im_forwarders st @ new_forwarders (im_conn st) conn\<rparr>))"
      using sp(1) cl spawned by (intro import_keeps_calls) simp_all
    moreover have "?st\<lparr>im_conn := conn, im_forwarders := fs\<rparr> =
        st\<lparr>im_conn := conn, im_worker := WkTest ls, im_forwarders := fs\<rparr>" for fs
      by simp
    ultimately show ?thesis using call spawned(1)
      by (simp add: worker_pass_def Let_def del: worker_loop.simps)
  qed
qed

subsection \<open>Close\<close>

lemma close_begin_keeps:
  assumes "import_inv F st" and "im_close st = ClOpen"
  shows "import_keeps F st (close_begin st)"
proof -
  let ?st = "st\<lparr>im_conn := (im_conn st)\<lparr>tc_is_running := False\<rparr>, im_close := ClJoin\<rparr>"
  have "import_inv F ?st" "im_resources F ?st = im_resources F st"
      "tc_ssh_socket (im_conn st) \<in> live_fds (im_resources F st)" "tc_ssh_socket (im_conn st) \<ge> 0"
    using assms by (simp_all add: inv_defs im_resources_def im_fds_def im_channels_def im_unjoined_def)
  then show ?thesis unfolding close_begin_def by (intro import_keeps_calls) simp_all
qed

lemma close_join_worker_keeps:
  assumes "import_inv F st" and "im_close st = ClJoin" and "im_worker st = WkDone"
  shows "import_keeps F st (close_join_worker st)"
proof -
  let ?ws = "map fst (tc_forward_threads (im_conn st))"
  let ?st = "st\<lparr>im_conn := (im_conn st)\<lparr>tc_worker_thread := False\<rparr>, im_close := ClSweep ?ws\<rparr>"
  have "import_inv F ?st" "tc_worker_thread (im_conn st)"
    using assms by (simp_all add: inv_defs im_unjoined_def)
  moreover from this(2) have
    "resource_run [JoinThread AcceptThread] (im_resources F st) = Some (im_resources F ?st)"
    using assms by (auto simp: im_resources_def im_fds_def im_channels_def im_unjoined_def)
  ultimately show ?thesis unfolding close_join_worker_def by (intro import_keeps_calls) simp_all
qed

lemma close_join_forward_keeps:
  assumes "import_inv F st" and "im_close st = ClSweep (w # ws)"
    and "w \<notin> ft_id ` set (im_forwarders st)"
  shows "import_keeps F st (close_join_forward w ws st)"
proof -
  let ?st = "st\<lparr>im_close := ClSweep ws\<rparr>"
  have "import_inv F ?st" "w \<notin> set ws" "\<not> tc_worker_thread (im_conn st)"
    using assms by (auto simp: inv_defs im_unjoined_def)
  moreover from this(2,3) have
    "resource_run [JoinThread (PumpThread w)] (im_resources F st) = Some (im_resources F ?st)"
    using assms(2) by (auto simp: im_resources_def im_fds_def im_channels_def im_unjoined_def)
  ultimately show ?thesis unfolding close_join_forward_def by (intro import_keeps_calls) simp_all
qed

lemma close_finish_keeps:
  assumes "import_inv F st" and "im_close st = ClSweep []"
  shows "import_keeps F st (close_finish st)"
    and "im_resources F (close_finish st) = only_fds F"
proof -
  have st: "im_forwarders st = []" "im_worker st = WkDone" "tc_session (im_conn st)"
      "\<not> tc_worker_thread (im_conn st)" "tc_ssh_socket (im_conn st) \<ge> 0" "tc_ssh_socket (im_conn st) \<notin> F"
    using assms by (simp_all add: inv_defs im_unjoined_def)
  show left: "im_resources F (close_finish st) = only_fds F"
    using st by (auto simp: close_finish_def Let_def im_resources_def im_fds_def im_channels_def
        im_unjoined_def set_defs intro!: resources_eqI)
  have "resource_run ([SessionCall, SessionCall, SessionFree] @ CloseSocket (tc_ssh_socket (im_conn st)))
      (im_resources F st) = Some (only_fds F)"
    using st assms(2)
    by (auto simp: CloseSocket_def im_resources_def im_fds_def im_channels_def im_unjoined_def
        intro!: resources_eqI)
  moreover have "import_inv F (close_finish st)"
    using st assms by (auto simp: close_finish_def Let_def inv_defs set_defs im_unjoined_def)
  ultimately show "import_keeps F st (close_finish st)"
    using st left by (simp add: import_keeps_def close_finish_def Let_def)
qed

subsection \<open>Every step\<close>

lemma import_step_keeps:
  assumes "import_step pl F st st'" and "import_inv F st"
  shows "import_keeps F st st'"
  using assms(1)
proof cases
  case (ForwardBegin xs f ys)
  have "resource_run [NonBlockingFd (ft_client f)] (im_resources F st) = Some (im_resources F st)"
    using forwarder_live(1) [OF assms(2), of f] ForwardBegin by simp
  then show ?thesis using ForwardBegin forward_goto_keeps [OF assms(2)]
    by (simp add: forward_begin_def import_keeps_calls del: resource_run.simps)
next
  case (ForwardTest xs f ys)
  then show ?thesis using assms(2) forward_goto_keeps [OF assms(2)]
    by (simp add: forward_test_def forward_end_keeps import_keeps_same)
qed (use assms(2) in \<open>simp_all add: worker_begin_keeps worker_test_keeps worker_pass_keeps forward_pass_keeps
   close_begin_keeps close_join_worker_keeps close_join_forward_keeps close_finish_keeps(1)\<close>)

lemma import_init_inv:
  assumes "tc_invariant F conn" and "tc_session conn" and "tc_forward_threads conn = []"
    and "\<not> tc_worker_thread conn"
  shows "import_inv F (import_init conn)"
    and "resource_run (im_log (import_init conn)) (tc_resources F {} conn) =
      Some (im_resources F (import_init conn))"
  using assms
  by (auto simp: import_init_def StartWorker_def inv_defs im_unjoined_def tc_invariant_def
      im_resources_def tc_resources_def im_fds_def im_channels_def intro!: resources_eqI)

lemma import_closed:
  assumes "import_inv F st" and "im_close st = ClClosed"
  shows "im_resources F st = only_fds F"
  using assms
  by (auto simp: inv_defs im_resources_def im_fds_def im_channels_def im_unjoined_def intro!: resources_eqI)

section \<open>A close that has begun returns\<close>

lemma worker_end_cost:
  "close_bound (worker_end ls st) + worker_cost (im_worker st) = close_bound st"
  by (simp add: worker_end_def close_bound_def set_defs)

lemma forward_end_cost:
  assumes "im_forwarders st = xs @ f # ys"
  shows "close_bound (forward_end_of xs f ys st) + forward_cost (ft_pc f) = close_bound st"
  using assms by (simp add: forward_end_of_def close_bound_def)

lemma forward_goto_cost:
  assumes "im_forwarders st = xs @ f # ys"
  shows "close_bound (forward_goto pc xs f ys st) + forward_cost (ft_pc f) =
    close_bound st + forward_cost pc"
  using assms by (simp add: forward_goto_def close_bound_def)

lemma log_calls_cost [simp]: "close_bound (log_calls l st) = close_bound st"
  by (simp add: close_bound_def)

lemma forward_cost_pos: "0 < forward_cost pc"
  by (cases pc) simp_all

lemma worker_begin_cost:
  assumes "im_worker st = WkStart"
  shows "close_bound (worker_begin pl a st) < close_bound st" "im_close (worker_begin pl a st) = im_close st"
proof -
  obtain fin conn l where call: "WorkerFunction pl (a\<lparr>wk_turns := []\<rparr>) (im_conn st) = (fin, conn, l)"
    by (metis prod_cases3)
  then have "tc_forward_threads conn = tc_forward_threads (im_conn st)"
    by (cases rule: WorkerFunction_begin_cases) auto
  with assms call show "close_bound (worker_begin pl a st) < close_bound st"
      "im_close (worker_begin pl a st) = im_close st"
    by (simp_all add: worker_begin_def close_bound_def)
qed

lemma worker_pass_cost:
  assumes "im_worker st = WkBody ls" and "im_close st = ClJoin"
  shows "close_bound (worker_pass pl ls t st) < close_bound st" "im_close (worker_pass pl ls t st) = ClJoin"
proof -
  obtain fin conn l where call: "worker_loop pl ls [t] (im_conn st) = (fin, conn, l)"
    by (metis prod_cases3)
  let ?st = "log_calls l (st\<lparr>im_conn := conn, im_worker := WkTest ls,
    im_forwarders := im_forwarders st @ new_forwarders (im_conn st) conn\<rparr>)"
  have "close_bound ?st + 1 \<le> close_bound st"
    using call
  proof (cases rule: worker_loop_turn_cases)
    case (kept f)
    then show ?thesis using assms by (simp add: close_bound_def)
  next
    case (spawned c)
    have "length (tc_forward_threads conn) = Suc (length (tc_forward_threads (im_conn st)))"
      by (simp add: spawned(2) spawn_forward_def)
    then show ?thesis using assms by (simp add: close_bound_def spawned(2))
  qed
  with worker_end_cost [of ls ?st] assms call
  show "close_bound (worker_pass pl ls t st) < close_bound st" "im_close (worker_pass pl ls t st) = ClJoin"
    by (auto simp: worker_pass_def Let_def worker_end_def simp del: worker_loop.simps)
qed

lemma import_step_cost:
  assumes "import_step pl F st st'" and inv: "import_inv F st" and cl: "im_close st \<noteq> ClOpen"
  shows "close_bound st' < close_bound st \<and> im_close st' \<noteq> ClOpen"
proof -
  have stop: "\<not> tc_is_running (im_conn st)" using inv cl by (simp add: inv_defs)
  from assms(1) show ?thesis
  proof cases
    case (WorkerBegin a)
    then show ?thesis using worker_begin_cost cl by simp
  next
    case (WorkerTest ls)
    then show ?thesis using worker_end_cost [of ls st] stop cl by (simp add: worker_test_def worker_end_def)
  next
    case (WorkerBody ls t)
    then have "im_close st = ClJoin" using inv cl by (auto simp: inv_defs)
    then show ?thesis using WorkerBody worker_pass_cost by simp
  next
    case (ForwardBegin xs f ys)
    then show ?thesis using forward_goto_cost [of st xs f ys FwTest] cl
      by (simp add: forward_begin_def forward_goto_def)
  next
    case (ForwardTest xs f ys)
    then show ?thesis using forward_end_cost [of st xs f ys] stop cl
      by (simp add: forward_test_def forward_end_of_def)
  next
    case (ForwardBody xs f ys t)
    obtain e l where el: "forward_loop (ft_client f) (ft_channel f) [t] = (e, l)" by fastforce
    from ForwardBody show ?thesis
      using forward_goto_cost [of st xs f ys FwTest] forward_end_cost [of "log_calls l st" xs f ys] cl el
      by (auto simp: forward_pass_def forward_goto_def forward_end_of_def simp del: forward_loop.simps)
  next
    case CloseBegin
    then show ?thesis using cl by simp
  qed (auto simp: close_bound_def close_join_worker_def close_join_forward_def close_finish_def Let_def)
qed

text \<open>A thread that has not ended can move, so no wait is for ever.\<close>

lemma forwarder_moves:
  assumes "im_forwarders st = f # ys"
  shows "\<exists>st'. import_step pl F st st'"
proof (cases "ft_pc f")
  case FwBody
  let ?t = "\<lparr>fw_running = True, fw_select = 0, fw_recv = Received [], fw_writes = [],
    fw_read = Received [], fw_eof = True, fw_sends = []\<rparr>"
  have "fw_complete (ft_client f) (ft_channel f) ?t"
    by (simp add: fw_complete_def forward_up_def forward_down_def)
  with FwBody assms show ?thesis using ForwardBody [of st "[]" f ys ?t pl F] by auto
qed (use assms ForwardBegin [of st "[]" f ys] ForwardTest [of st "[]" f ys] in auto)

lemma worker_moves_on:
  assumes "im_worker st \<noteq> WkDone"
  shows "\<exists>st'. import_step pl F st st'"
proof (cases "im_worker st")
  case WkStart
  then show ?thesis
    using WorkerBegin [of st "\<lparr>wk_socket = - 1, wk_bind = 0, wk_listen = 0, wk_turns = []\<rparr>" F pl] by auto
next
  case (WkBody ls)
  then show ?thesis
    using WorkerBody [of st ls "\<lparr>wt_running = True, wt_select = 0, wt_accept = - 1, wt_errno = 0,
      wt_running_after = True, wt_channel = None\<rparr>" F pl] by auto
qed (use assms WorkerTest in blast)+

lemma import_progress:
  assumes "import_inv F st"
  shows "(\<nexists>st'. import_step pl F st st') \<longleftrightarrow> im_close st = ClClosed"
proof
  assume closed: "im_close st = ClClosed"
  then have "im_worker st = WkDone" "im_forwarders st = []" using assms by (auto simp: inv_defs)
  with closed show "\<nexists>st'. import_step pl F st st'" by (auto elim: import_step.cases)
next
  assume stuck: "\<nexists>st'. import_step pl F st st'"
  then have "im_worker st = WkDone" "im_forwarders st = []"
    using worker_moves_on [of st pl F] forwarder_moves [of st _ _ pl F]
    by (blast, cases "im_forwarders st") auto
  then have "im_close st \<noteq> ClOpen" "im_close st \<noteq> ClJoin" "\<And>ws. im_close st \<noteq> ClSweep ws"
    using stuck import_step.intros(7-8) [of st] import_step.intros(9) [of st]
      CloseFinish [of st] by (blast, blast, metis empty_iff image_empty list.exhaust list.set(1))
  then show "im_close st = ClClosed" by (cases "im_close st") auto
qed

interpretation im_sys: closing_system "import_step pl F" "import_inv F" "im_resources F" im_log
    "\<lambda>st. im_close st \<noteq> ClOpen" "\<lambda>st. im_close st = ClClosed" close_bound for pl F
proof unfold_locales
  fix s s'
  assume step: "import_step pl F s s'" and inv: "import_inv F s"
  show "import_inv F s' \<and>
      (\<exists>l. im_log s' = im_log s @ l \<and> resource_run l (im_resources F s) = Some (im_resources F s'))"
    using import_step_keeps [OF step inv] by (simp add: import_keeps_def)
  show "im_close s' \<noteq> ClOpen \<and> close_bound s' < close_bound s" if "im_close s \<noteq> ClOpen"
    using import_step_cost [OF step inv that] by simp
qed (rule import_progress)

section \<open>From the connect on\<close>

lemma Connect_no_threads:
  assumes "TunnelConnection_Connect a sh sp su rh rp lp new_connection = (r, conn, l)"
  shows "tc_forward_threads conn = [] \<and> \<not> tc_worker_thread conn"
  using assms
  by (auto simp: TunnelConnection_Connect_def connect_session_def Let_def set_defs new_connection_def
      split: outcome.splits if_splits prod.splits)

lemma AuthParams_Connect_no_threads:
  assumes "AuthParams_Connect a b auth rh rp lp = (Returns conn, l)"
  shows "tc_forward_threads conn = [] \<and> \<not> tc_worker_thread conn"
proof -
  obtain r conn1 l1 where c: "TunnelConnection_Connect a (au_ssh_host auth) (au_ssh_port auth)
      (au_ssh_user auth) rh rp lp new_connection = (r, conn1, l1)" by (metis prod_cases3)
  obtain ok conn2 l2 where au: "authenticate b auth conn1 = (ok, conn2, l2)" by (metis prod_cases3)
  have "conn2 = conn"
    using assms by (auto simp: AuthParams_Connect_def c au split: outcome.splits if_splits)
  then have "conn\<lparr>tc_attributes := tc_attributes conn1\<rparr> = conn1"
    using authenticate_changes(1) [OF au] by simp
  from arg_cong [OF this, of tc_forward_threads] arg_cong [OF this, of tc_worker_thread]
  show ?thesis using Connect_no_threads [OF c] by simp
qed

text \<open>What an import that was connected and started can come to. \<open>g\<close> is what is done to the
  attributes in between (\<^verbatim>\<open>SetBindAll\<close>).\<close>

lemma import_life:
  assumes no: "- 1 \<notin> F" "\<forall>t \<in> set (cn_tries a). ct_socket t \<notin> F"
    and conn: "AuthParams_Connect a b auth rh rp lp = (Returns conn, l)"
    and run: "(import_step pl F)\<^sup>*\<^sup>* (import_init (set_attributes g conn)) st"
  shows "import_inv F st" and "resource_run (l @ im_log st) (only_fds F) = Some (im_resources F st)"
proof -
  from AuthParams_Connect_resources [OF no conn]
  have c: "resource_run l (only_fds F) = Some (tc_resources F {} conn)" "tc_invariant F conn"
    "tc_session conn" by simp_all
  then have "import_inv F (import_init (set_attributes g conn))"
      "resource_run (im_log (import_init (set_attributes g conn))) (tc_resources F {} (set_attributes g conn)) =
        Some (im_resources F (import_init (set_attributes g conn)))"
    using AuthParams_Connect_no_threads [OF conn] by (intro import_init_inv; simp)+
  from im_sys.reachable [OF run this]
  have "import_inv F st \<and>
      resource_run (im_log st) (tc_resources F {} (set_attributes g conn)) = Some (im_resources F st)" .
  with c show "import_inv F st" and "resource_run (l @ im_log st) (only_fds F) = Some (im_resources F st)"
    by (simp_all add: resource_run_append)
qed

section \<open>Properties\<close>

text \<open>C11: An SSH import is safe in every interleaving of its threads, from the connect to the end of
  \<open>Close\<close>: whatever the worker, the forwarding threads and the closing thread have done and in
  whatever order, no descriptor, channel or session was used before it was acquired or after it was
  released, the session is freed only after every thread was joined, and what is live is exactly
  what the state shows. Once \<open>Close\<close> has returned no thread is left and nothing is held.\<close>

theorem import_lifecycle_safe:
  assumes "- 1 \<notin> F" and "\<forall>t \<in> set (cn_tries a). ct_socket t \<notin> F"
    and "AuthParams_Connect a b auth remote_host remote_port local_port = (Returns conn, l)"
    and "(import_step pl F)\<^sup>*\<^sup>* (import_init (SetBindAll bind_all conn)) st"
  shows "resource_run (l @ im_log st) (only_fds F) = Some (im_resources F st) \<and>
    (im_close st = ClClosed \<longrightarrow>
       im_resources F st = only_fds F \<and> im_forwarders st = [] \<and> im_worker st = WkDone)"
  using import_life [OF assms(1-3) assms(4) [unfolded SetBindAll_def]] import_closed [of F st]
  by (auto simp: inv_defs)

definition demo_conn :: TunnelConnection where
  "demo_conn = (case fst (demo_import 0 0) of Returns conn \<Rightarrow> conn | _ \<Rightarrow> new_connection)"

text \<open>A client is accepted and its thread begins, then the tunnel is closed.\<close>

definition demo_accept :: worker_turn where
  "demo_accept =
     \<lparr>wt_running = True, wt_select = 1, wt_accept = 6, wt_errno = 0, wt_running_after = True,
      wt_channel = Some 0\<rparr>"

definition demo_client :: "forward_pc \<Rightarrow> forwarding" where
  "demo_client pc = \<lparr>ft_id = 0, ft_client = 6, ft_channel = 0, ft_pc = pc\<rparr>"

definition demo_closing :: import_state where
  "demo_closing =
     close_begin (forward_begin [] (demo_client FwStart) []
       (worker_pass Linux 5 demo_accept (worker_test 5
         (worker_begin Linux \<lparr>wk_socket = 5, wk_bind = 0, wk_listen = 0, wk_turns = []\<rparr>
           (import_init (SetBindAll False demo_conn))))))"

definition demo_closed :: import_state where
  "demo_closed =
     close_finish (close_join_forward 0 [] (close_join_worker (worker_test 5
       (forward_test [] (demo_client FwTest) [] demo_closing))))"

lemma demo_conn_connects:
  "AuthParams_Connect (demo_connect 0) (demo_auth_answers 0) demo_params ''db'' 5432 6432 =
     (Returns demo_conn, snd (demo_import 0 0))"
  "tc_ssh_socket demo_conn = 4" "tc_forward_threads demo_conn = []" "tc_spawned demo_conn = 0"
proof -
  have ret: "\<exists>conn. fst (demo_import 0 0) = Returns conn"
    by (simp add: demo_import_eval new_connection_def set_defs)
  then have "fst (demo_import 0 0) = Returns demo_conn" by (auto simp: demo_conn_def)
  then show "AuthParams_Connect (demo_connect 0) (demo_auth_answers 0) demo_params ''db'' 5432 6432 =
     (Returns demo_conn, snd (demo_import 0 0))"
    by (simp add: demo_import_def [symmetric] prod_eq_iff)
  show "tc_ssh_socket demo_conn = 4" "tc_forward_threads demo_conn = []" "tc_spawned demo_conn = 0"
    by (simp_all add: demo_conn_def demo_import_eval new_connection_def set_defs)
qed

lemmas demo_steps = demo_accept_def demo_client_def worker_begin_def worker_test_def worker_end_def
  worker_pass_def forward_begin_def forward_test_def forward_goto_def forward_end_of_def
  close_begin_def close_join_worker_def close_join_forward_def close_finish_def WorkerFunction_def
  import_init_def StartWorker_def SetBindAll_def set_defs Let_def im_fds_def im_channels_def
  new_forwarders_def spawn_forward_def demo_conn_connects

lemmas import_runs = import_step.intros 
  [THEN rtranclp.rtrancl_into_rtrancl [where r = "import_step pl F" for pl F, rotated]]

lemma demo_closing_reached:
  "(import_step Linux {3})\<^sup>*\<^sup>* (import_init (SetBindAll False demo_conn)) demo_closing"
  unfolding demo_closing_def
  by (intro import_runs rtranclp.rtrancl_refl) (simp_all add: demo_steps)

lemma demo_closed_reached:
  "(import_step Linux {3})\<^sup>*\<^sup>* demo_closing demo_closed"
  unfolding demo_closed_def demo_closing_def
  by (intro import_runs rtranclp.rtrancl_refl) (simp_all add: demo_steps)

theorem import_lifecycle_safe_witness:
  "im_close demo_closed = ClClosed \<and>
   resource_run (snd (demo_import 0 0) @ im_log demo_closed) (only_fds {3}) = Some (only_fds {3})"
proof -
  have pre: "- 1 \<notin> {3 :: int}" "\<forall>t \<in> set (cn_tries (demo_connect 0)). ct_socket t \<notin> {3}"
    by (simp_all add: demo_connect_def)
  have "im_close demo_closed = ClClosed" by (simp add: demo_closed_def demo_steps)
  with import_lifecycle_safe [OF pre demo_conn_connects(1)
      rtranclp_trans [OF demo_closing_reached demo_closed_reached]]
  show ?thesis by simp
qed

text \<open>C12: A \<open>Close\<close> of an SSH import that has begun returns, provided that the calls of the turn each
  thread is in return: however the threads are scheduled, at most \<open>close_bound\<close> more steps can be
  taken, and the only state in which no thread can move is the closed one, so no join waits for
  ever.\<close>

theorem import_close_terminates:
  assumes "- 1 \<notin> F" and "\<forall>t \<in> set (cn_tries a). ct_socket t \<notin> F"
    and "AuthParams_Connect a b auth remote_host remote_port local_port = (Returns conn, l)"
    and "(import_step pl F)\<^sup>*\<^sup>* (import_init (SetBindAll bind_all conn)) st"
    and "im_close st \<noteq> ClOpen" and "(import_step pl F ^^ n) st st'"
  shows "n + close_bound st' \<le> close_bound st \<and>
    ((\<nexists>st''. import_step pl F st' st'') \<longleftrightarrow> im_close st' = ClClosed)"
proof -
  have "import_inv F st" using import_life(1) [OF assms(1-3) assms(4) [unfolded SetBindAll_def]] .
  from im_sys.closing_terminates [OF assms(6) this assms(5)] show ?thesis .
qed

text \<open>Two threads and the joins: five steps end the example.\<close>

lemmas import_steps = import_step.intros
  [THEN relpowp_Suc_I [where P = "import_step pl F" for pl F, rotated]]

lemma demo_closed_steps: 
  "(import_step Linux {3} ^^ Suc (Suc (Suc (Suc (Suc 0))))) demo_closing demo_closed"
  unfolding demo_closed_def demo_closing_def
  by (intro import_steps relpowp_0_I) (simp_all add: demo_steps)

theorem import_close_terminates_witness:
  "close_bound demo_closing = 5 \<and> close_bound demo_closed = 0 \<and>
   (\<nexists>st. import_step Linux {3} demo_closed st)"
proof -
  have pre: "- 1 \<notin> {3 :: int}" "\<forall>t \<in> set (cn_tries (demo_connect 0)). ct_socket t \<notin> {3}"
    by (simp_all add: demo_connect_def)
  have "im_close demo_closing \<noteq> ClOpen" "close_bound demo_closing = 5" "im_close demo_closed = ClClosed"
    by (simp_all add: demo_closed_def demo_closing_def demo_steps close_bound_def)
  with import_close_terminates [OF pre demo_conn_connects(1) demo_closing_reached _ demo_closed_steps]
  show ?thesis by simp
qed

text \<open>
  The session of an import is used by two threads at once: a state is reached in which the worker is
  about to open a channel on it and a forwarding thread to read from one, with nothing between them.
  The export puts a mutex around each of these calls.
\<close>

definition demo_both :: import_state where
  "demo_both =
     forward_test [] (demo_client FwTest) [] (worker_test 5 (forward_begin [] (demo_client FwStart) []
       (worker_pass Linux 5 demo_accept (worker_test 5
         (worker_begin Linux \<lparr>wk_socket = 5, wk_bind = 0, wk_listen = 0, wk_turns = []\<rparr>
           (import_init (SetBindAll False demo_conn)))))))"

definition demo_idle_turn :: forward_turn where
  "demo_idle_turn = \<lparr>fw_running = True, fw_select = 0, fw_recv = Received [], fw_writes = [],
     fw_read = Received [], fw_eof = True, fw_sends = []\<rparr>"

lemma demo_both_reached:
  "(import_step Linux {3})\<^sup>*\<^sup>* (import_init (SetBindAll False demo_conn)) demo_both"
  unfolding demo_both_def
  by (intro import_runs rtranclp.rtrancl_refl) (simp_all add: demo_steps)

theorem import_session_shared:
  "(import_step Linux {3})\<^sup>*\<^sup>* (import_init (SetBindAll False demo_conn)) demo_both \<and>
   im_worker demo_both = WkBody 5 \<and> im_forwarders demo_both = [demo_client FwBody] \<and>
   ChannelOpen 1 \<in> set (snd (snd (worker_loop Linux 5 [demo_accept\<lparr>wt_accept := 7, wt_channel := Some 1\<rparr>]
     (im_conn demo_both)))) \<and>
   ChannelRead 0 [] \<in> set (snd (forward_loop 6 0 [demo_idle_turn]))"
  using demo_both_reached
  by (simp add: demo_both_def demo_steps) (simp add: demo_idle_turn_def forward_up_def forward_down_def)

end
