(* ===== verification/Export_Lifecycle.thy ===== *)
theory Export_Lifecycle
  imports Ssh_Pump Thread_Systems
begin

text \<open>
  A started SSH export with its threads interleaved: the accepting thread
  (\<^verbatim>\<open>SshExporter::AcceptLoop\<close>), one pump for each inbound connection (\<^verbatim>\<open>SshExporter::Pump\<close>) and the
  thread that calls \<^verbatim>\<open>SshExporter::Close\<close>, all of \<^verbatim>\<open>src/src/ssh_exporter.cpp\<close>. A step is one stretch
  of one thread between two tests of \<^verbatim>\<open>running_\<close> at the head of its loop (or up to a join), made of
  the operations of \<open>Ssh_Exporter\<close> and \<open>Ssh_Pump\<close> with one turn each. The accepting thread reaps
  the pumps that have ended while others run, so a pump is joined by one of two threads. Two
  properties of all interleavings follow: the log follows the resource protocol up to a closed
  export that holds nothing, and a \<^verbatim>\<open>Close\<close> that has begun always returns.
\<close>

section \<open>Definitions\<close>

text \<open>A pump dials the local service first; after that it owns the descriptor.\<close>

datatype pump_pc = PuDial | PuTest int | PuBody int

record pump_thread =
  pm_id :: nat
  pm_channel :: nat
  pm_pc :: pump_pc

record export_state =
  xp_exporter :: SshExporter
  xp_accept :: accept_pc
  xp_pumps :: "pump_thread list"
  xp_close :: close_pc
  xp_log :: log

definition export_init :: "SshExporter \<Rightarrow> export_state" where
  "export_init ex =
     \<lparr>xp_exporter = ex, xp_accept = AcTest, xp_pumps = [], xp_close = ClOpen, xp_log = []\<rparr>"

definition xp_calls :: "log \<Rightarrow> export_state \<Rightarrow> export_state" where
  "xp_calls l st = st\<lparr>xp_log := xp_log st @ l\<rparr>"

subsection \<open>The accepting thread\<close>

definition accept_test :: "export_state \<Rightarrow> export_state" where
  "accept_test st = st\<lparr>xp_accept := (if ex_running (xp_exporter st) then AcBody else AcDone)\<rparr>"

text \<open>The pumps that one turn has spawned: one, with the accepted channel, or none.\<close>

definition new_pumps :: "accept_turn \<Rightarrow> SshExporter \<Rightarrow> SshExporter \<Rightarrow> pump_thread list" where
  "new_pumps t ex ex' =
     (case ac_channel t of
        None \<Rightarrow> []
      | Some c \<Rightarrow> map (\<lambda>w. \<lparr>pm_id = w, pm_channel = c, pm_pc = PuDial\<rparr>)
          [ex_spawned ex ..< ex_spawned ex'])"

definition accept_pass :: "accept_turn \<Rightarrow> export_state \<Rightarrow> export_state" where
  "accept_pass t st =
     (let (fin, ex, l) = AcceptLoop [t] (xp_exporter st) in
      xp_calls l (st\<lparr>xp_exporter := ex, xp_accept := (if fin then AcDone else AcTest),
        xp_pumps := xp_pumps st @ new_pumps t (xp_exporter st) ex\<rparr>))"

subsection \<open>A pump\<close>

text \<open>The pumps are \<open>xs @ p # ys\<close>, and \<open>p\<close> moves or ends.\<close>

definition pump_goto ::
  "pump_pc \<Rightarrow> pump_thread list \<Rightarrow> pump_thread \<Rightarrow> pump_thread list \<Rightarrow> export_state \<Rightarrow> export_state" where
  "pump_goto pc xs p ys st = st\<lparr>xp_pumps := xs @ p\<lparr>pm_pc := pc\<rparr> # ys\<rparr>"

definition pump_leave ::
  "log \<Rightarrow> pump_thread list \<Rightarrow> pump_thread \<Rightarrow> pump_thread list \<Rightarrow> export_state \<Rightarrow> export_state" where
  "pump_leave l xs p ys st = xp_calls (l @ free_channel (pm_channel p)) (st\<lparr>xp_pumps := xs @ ys\<rparr>)"

definition pump_dial ::
  "platform \<Rightarrow> dial_answers \<Rightarrow> pump_thread list \<Rightarrow> pump_thread \<Rightarrow> pump_thread list \<Rightarrow> export_state \<Rightarrow>
   export_state" where
  "pump_dial pl dial xs p ys st =
     (let (local, ex, l) = DialLocalService pl dial (xp_exporter st) in
      if \<not> SocketValid pl local then pump_leave l xs p ys (st\<lparr>xp_exporter := ex\<rparr>)
      else if \<not> SocketFitsInFdSet pl local then
        pump_leave (l @ CloseSocketHandle pl local) xs p ys
          (st\<lparr>xp_exporter := RecordError msg_connection_refused_files ex\<rparr>)
      else
        xp_calls (l @ [NonBlockingFd local]) (pump_goto (PuTest local) xs p ys (st\<lparr>xp_exporter := ex\<rparr>)))"

definition pump_test ::
  "platform \<Rightarrow> int \<Rightarrow> pump_thread list \<Rightarrow> pump_thread \<Rightarrow> pump_thread list \<Rightarrow> export_state \<Rightarrow> export_state" where
  "pump_test pl local xs p ys st =
     (if ex_running (xp_exporter st) then pump_goto (PuBody local) xs p ys st
      else pump_leave (CloseSocketHandle pl local) xs p ys st)"

definition pump_pass ::
  "platform \<Rightarrow> int \<Rightarrow> pump_turn \<Rightarrow> pump_thread list \<Rightarrow> pump_thread \<Rightarrow> pump_thread list \<Rightarrow> export_state \<Rightarrow>
   export_state" where
  "pump_pass pl local t xs p ys st =
     (let (e, l) = Pump_loop pl local (pm_channel p) [t] in
      if e = PumpPending then xp_calls l (pump_goto (PuTest local) xs p ys st)
      else pump_leave (l @ CloseSocketHandle pl local) xs p ys st)"

text \<open>The turn comes to an end: the answers for its writes and sends are all there.\<close>

definition pt_complete :: "platform \<Rightarrow> int \<Rightarrow> nat \<Rightarrow> pump_turn \<Rightarrow> bool" where
  "pt_complete pl local c t \<longleftrightarrow>
     fst (local_to_channel pl local c t) \<noteq> Some PumpPending \<and>
     (fst (local_to_channel pl local c t) = None \<longrightarrow>
        fst (channel_to_local pl local c t) \<noteq> Some PumpPending)"

subsection \<open>Close\<close>

definition export_close_begin :: "export_state \<Rightarrow> export_state" where
  "export_close_begin st =
     st\<lparr>xp_exporter := (xp_exporter st)\<lparr>ex_running := False\<rparr>, xp_close := ClJoin\<rparr>"

text \<open>The join of the accepting thread, and the swap of the workers out of their vector.\<close>

definition export_join_accept :: "export_state \<Rightarrow> export_state" where
  "export_join_accept st =
     xp_calls (if ex_accept_thread (xp_exporter st) then [JoinThread AcceptThread] else [])
       (st\<lparr>xp_exporter := (xp_exporter st)\<lparr>ex_accept_thread := False, ex_workers := []\<rparr>,
           xp_close := ClSweep (ex_workers (xp_exporter st))\<rparr>)"

definition export_join_pump :: "nat \<Rightarrow> nat list \<Rightarrow> export_state \<Rightarrow> export_state" where
  "export_join_pump w ws st = xp_calls [JoinThread (PumpThread w)] (st\<lparr>xp_close := ClSweep ws\<rparr>)"

definition export_close_finish :: "platform \<Rightarrow> close_answers \<Rightarrow> export_state \<Rightarrow> export_state" where
  "export_close_finish pl ca st =
     (let ex = xp_exporter st in
      xp_calls
        ((if ex_listener ex then cancel_log ca else []) @
         (if ex_session ex then [SessionCall, SessionCall, SessionCall, SessionFree] else []) @
         CloseSocketHandle pl (ex_ssh_socket ex))
        (st\<lparr>xp_exporter := ex\<lparr>ex_listener := False, ex_session := False,
              ex_ssh_socket := kInvalidSocket pl, ex_attrs := (ex_attrs ex)\<lparr>at_status := ''Closed''\<rparr>\<rparr>,
            xp_close := ClClosed\<rparr>))"

subsection \<open>The steps\<close>

fun pump_fd :: "pump_pc \<Rightarrow> int list" where
  "pump_fd PuDial = []"
| "pump_fd (PuTest s) = [s]"
| "pump_fd (PuBody s) = [s]"

definition pump_sockets :: "pump_thread list \<Rightarrow> int list" where
  "pump_sockets ps = concat (map (pump_fd \<circ> pm_pc) ps)"

definition xp_fds :: "platform \<Rightarrow> int set \<Rightarrow> export_state \<Rightarrow> int set" where
  "xp_fds pl F st =
     F \<union> (if SocketValid pl (ex_ssh_socket (xp_exporter st)) then {ex_ssh_socket (xp_exporter st)} else {}) \<union>
     set (pump_sockets (xp_pumps st))"

definition xp_channels :: "export_state \<Rightarrow> nat set" where
  "xp_channels st = pm_channel ` set (xp_pumps st)"

text \<open>
  \<open>F\<close> are the descriptors other code has open. The operating system gives out descriptors that are
  not open, libssh2 channels that are new, the done flag of a pump is set by its end, and a join
  returns once its thread has ended.
\<close>

inductive export_step :: "platform \<Rightarrow> int set \<Rightarrow> export_state \<Rightarrow> export_state \<Rightarrow> bool"
  for pl F where
  AcceptTest: "xp_accept st = AcTest \<Longrightarrow> export_step pl F st (accept_test st)"
| AcceptBody: "xp_accept st = AcBody \<Longrightarrow> ac_running_before t \<Longrightarrow>
    (\<forall>c. ac_channel t = Some c \<longrightarrow> c \<notin> xp_channels st) \<Longrightarrow>
    set (ac_done t) \<inter> pm_id ` set (xp_pumps st) = {} \<Longrightarrow>
    export_step pl F st (accept_pass t st)"
| PumpDial: "xp_pumps st = xs @ p # ys \<Longrightarrow> pm_pc p = PuDial \<Longrightarrow>
    (\<forall>t \<in> set (da_tries dial). dt_socket t \<notin> xp_fds pl F st) \<Longrightarrow>
    export_step pl F st (pump_dial pl dial xs p ys st)"
| PumpTest: "xp_pumps st = xs @ p # ys \<Longrightarrow> pm_pc p = PuTest local \<Longrightarrow>
    export_step pl F st (pump_test pl local xs p ys st)"
| PumpBody: "xp_pumps st = xs @ p # ys \<Longrightarrow> pm_pc p = PuBody local \<Longrightarrow> pt_running t \<Longrightarrow>
    pt_complete pl local (pm_channel p) t \<Longrightarrow>
    export_step pl F st (pump_pass pl local t xs p ys st)"
| ExportCloseBegin: "xp_close st = ClOpen \<Longrightarrow> export_step pl F st (export_close_begin st)"
| ExportJoinAccept: "xp_close st = ClJoin \<Longrightarrow> xp_accept st = AcDone \<Longrightarrow>
    export_step pl F st (export_join_accept st)"
| ExportJoinPump: "xp_close st = ClSweep (w # ws) \<Longrightarrow> w \<notin> pm_id ` set (xp_pumps st) \<Longrightarrow>
    export_step pl F st (export_join_pump w ws st)"
| ExportCloseFinish: "xp_close st = ClSweep [] \<Longrightarrow> export_step pl F st (export_close_finish pl ca st)"

text \<open>The threads not joined, and what the export holds.\<close>

definition xp_unjoined :: "export_state \<Rightarrow> nat set" where
  "xp_unjoined st = left_to_join (set (ex_workers (xp_exporter st))) (xp_close st)"

definition xp_resources :: "platform \<Rightarrow> int set \<Rightarrow> export_state \<Rightarrow> resources" where
  "xp_resources pl F st =
     \<lparr>live_fds = xp_fds pl F st, live_session = ex_session (xp_exporter st),
      live_listener = ex_listener (xp_exporter st), live_channels = xp_channels st,
      live_threads = (if ex_accept_thread (xp_exporter st) then {AcceptThread} else {}) \<union>
        PumpThread ` xp_unjoined st\<rparr>"

text \<open>The steps a \<open>Close\<close> that has begun can still take.\<close>

fun accept_cost :: "accept_pc \<Rightarrow> nat" where
  "accept_cost AcTest = 1"
| "accept_cost AcBody = 5"
| "accept_cost AcDone = 0"

fun pump_cost :: "pump_pc \<Rightarrow> nat" where
  "pump_cost (PuTest s) = 1"
| "pump_cost _ = 2"

definition export_bound :: "export_state \<Rightarrow> nat" where
  "export_bound st =
     accept_cost (xp_accept st) + sum_list (map (pump_cost \<circ> pm_pc) (xp_pumps st)) +
     join_cost (length (ex_workers (xp_exporter st))) (xp_close st)"

section \<open>The pieces are the operations\<close>

lemma AcceptLoop_turn:
  "AcceptLoop (t # ts) ex =
     (let (fin, ex1, l1) = AcceptLoop [t] ex in
      if fin then (True, ex1, l1)
      else (let (fin2, ex2, l2) = AcceptLoop ts ex1 in (fin2, ex2, l1 @ l2)))"
  by (auto simp: Let_def split: option.split prod.split)

lemma Pump_loop_turn:
  assumes "pt_running t \<longrightarrow> pt_complete pl local c t"
  shows "Pump_loop pl local c (t # ts) =
     (let (e, l) = Pump_loop pl local c [t] in
      if e \<noteq> PumpPending then (e, l)
      else (let (e2, l2) = Pump_loop pl local c ts in (e2, l @ l2)))"
  using assms by (auto simp: Let_def pt_complete_def split: prod.split option.split)

lemma export_close_pieces:
  fixes pl ca
  assumes "xp_close st = ClOpen"
  defines "ws \<equiv> ex_workers (xp_exporter st)"
  defines "st1 \<equiv> export_close_finish pl ca
    (fold (\<lambda>w. export_join_pump w []) ws (export_join_accept (export_close_begin st)))"
  shows "xp_log st1 = xp_log st @ snd (SshExporter_Close pl ca (xp_exporter st))"
    and "xp_exporter st1 = fst (SshExporter_Close pl ca (xp_exporter st))"
proof -
  have fold_log: "xp_log (fold (\<lambda>w. export_join_pump w []) xs s) = xp_log s @ join_pumps xs"
    and fold_ex: "xp_exporter (fold (\<lambda>w. export_join_pump w []) xs s) = xp_exporter s" for xs s
    by (induction xs arbitrary: s) (simp_all add: export_join_pump_def xp_calls_def join_pumps_def)
  show "xp_log st1 = xp_log st @ snd (SshExporter_Close pl ca (xp_exporter st))"
    and "xp_exporter st1 = fst (SshExporter_Close pl ca (xp_exporter st))"
    unfolding st1_def ws_def
    by (simp_all add: export_close_finish_def xp_calls_def Let_def fold_log fold_ex
        export_join_accept_def export_close_begin_def SshExporter_Close_def)
qed

section \<open>The invariant\<close>

definition xp_inv_fds :: "platform \<Rightarrow> int set \<Rightarrow> export_state \<Rightarrow> bool" where
  "xp_inv_fds pl F st \<longleftrightarrow>
     ex_ssh_socket (xp_exporter st) \<notin> F \<and>
     distinct (pump_sockets (xp_pumps st)) \<and> distinct (map pm_channel (xp_pumps st)) \<and>
     (\<forall>s \<in> set (pump_sockets (xp_pumps st)).
        SocketValid pl s \<and> s \<notin> insert (ex_ssh_socket (xp_exporter st)) F)"

definition xp_inv_ids :: "export_state \<Rightarrow> bool" where
  "xp_inv_ids st \<longleftrightarrow>
     distinct (map pm_id (xp_pumps st)) \<and> pm_id ` set (xp_pumps st) \<subseteq> xp_unjoined st \<and>
     distinct (ex_workers (xp_exporter st)) \<and>
     (\<forall>w \<in> set (ex_workers (xp_exporter st)). w < ex_spawned (xp_exporter st)) \<and>
     (\<forall>ws. xp_close st = ClSweep ws \<longrightarrow> distinct ws)"

definition xp_inv_phase :: "platform \<Rightarrow> export_state \<Rightarrow> bool" where
  "xp_inv_phase pl st \<longleftrightarrow>
     (ex_session (xp_exporter st) \<longleftrightarrow> xp_close st \<noteq> ClClosed) \<and>
     (ex_listener (xp_exporter st) \<longleftrightarrow> xp_close st \<noteq> ClClosed) \<and>
     (SocketValid pl (ex_ssh_socket (xp_exporter st)) \<longleftrightarrow> xp_close st \<noteq> ClClosed) \<and>
     (xp_close st = ClClosed \<longrightarrow> xp_pumps st = []) \<and>
     (ex_accept_thread (xp_exporter st) \<longleftrightarrow> xp_close st \<in> {ClOpen, ClJoin}) \<and>
     (xp_close st \<notin> {ClOpen, ClJoin} \<longrightarrow> xp_accept st = AcDone \<and> ex_workers (xp_exporter st) = []) \<and>
     (xp_close st \<noteq> ClOpen \<longrightarrow> \<not> ex_running (xp_exporter st))"

definition export_inv :: "platform \<Rightarrow> int set \<Rightarrow> export_state \<Rightarrow> bool" where
  "export_inv pl F st \<longleftrightarrow>
     kInvalidSocket pl \<notin> F \<and> xp_inv_fds pl F st \<and> xp_inv_ids st \<and> xp_inv_phase pl st"

definition export_keeps :: "platform \<Rightarrow> int set \<Rightarrow> export_state \<Rightarrow> export_state \<Rightarrow> bool" where
  "export_keeps pl F st st' \<longleftrightarrow>
     export_inv pl F st' \<and>
     (\<exists>l. xp_log st' = xp_log st @ l \<and>
          resource_run l (xp_resources pl F st) = Some (xp_resources pl F st'))"

lemmas xp_inv_defs = export_inv_def xp_inv_fds_def xp_inv_ids_def xp_inv_phase_def

lemmas xp_holds = xp_resources_def xp_fds_def xp_channels_def xp_unjoined_def

lemma xp_calls_simps [simp]:
  "xp_exporter (xp_calls l st) = xp_exporter st" "xp_accept (xp_calls l st) = xp_accept st"
  "xp_pumps (xp_calls l st) = xp_pumps st" "xp_close (xp_calls l st) = xp_close st"
  "xp_log (xp_calls l st) = xp_log st @ l"
  by (simp_all add: xp_calls_def)

lemma xp_calls_holds [simp]:
  "xp_resources pl F (xp_calls l st) = xp_resources pl F st"
  "export_inv pl F (xp_calls l st) = export_inv pl F st"
  by (simp_all add: xp_holds xp_inv_defs)

lemma export_keeps_calls:
  assumes "export_inv pl F st'" and "xp_log st' = xp_log st"
    and "resource_run l (xp_resources pl F st) = Some (xp_resources pl F st')"
  shows "export_keeps pl F st (xp_calls l st')"
  using assms by (simp add: export_keeps_def)

lemma export_keeps_same:
  assumes "export_inv pl F st'" and "xp_log st' = xp_log st"
    and "xp_resources pl F st' = xp_resources pl F st"
  shows "export_keeps pl F st st'"
  using assms by (simp add: export_keeps_def exI [of _ "[]"])

lemma pump_sockets_simps [simp]:
  "pump_sockets [] = []" "pump_sockets (p # ps) = pump_fd (pm_pc p) @ pump_sockets ps"
  "pump_sockets (ps @ qs) = pump_sockets ps @ pump_sockets qs"
  by (simp_all add: pump_sockets_def)

text \<open>What is recorded in the attributes holds nothing.\<close>

lemma attrs_hold [simp]:
  "export_inv pl F (st\<lparr>xp_exporter := (xp_exporter st)\<lparr>ex_attrs := at\<rparr>\<rparr>) = export_inv pl F st"
  "xp_resources pl F (st\<lparr>xp_exporter := (xp_exporter st)\<lparr>ex_attrs := at\<rparr>\<rparr>) = xp_resources pl F st"
  by (simp_all add: xp_holds xp_inv_defs)

subsection \<open>Pumps\<close>

text \<open>A pump that has dialled is pumping on what is live.\<close>

lemma pump_live:
  assumes "export_inv pl F st" and "p \<in> set (xp_pumps st)"
  shows "live_session (xp_resources pl F st)" "pm_channel p \<in> live_channels (xp_resources pl F st)"
  using assms by (auto simp: xp_holds xp_inv_defs)

lemma pump_pumping:
  assumes "export_inv pl F st" and "xp_pumps st = xs @ p # ys" and "pump_fd (pm_pc p) = [local]"
  shows "pumping local (pm_channel p) (xp_resources pl F st)" "SocketValid pl local"
  using assms pump_live [of pl F st p] by (auto simp: pumping_def xp_holds xp_inv_defs)

text \<open>Moving on with the descriptor it has.\<close>

lemma pump_goto_keeps:
  assumes "export_inv pl F st" and "xp_pumps st = xs @ p # ys" and "pump_fd pc = pump_fd (pm_pc p)"
  shows "export_inv pl F (pump_goto pc xs p ys st)"
    and "xp_resources pl F (pump_goto pc xs p ys st) = xp_resources pl F st"
    and "xp_log (pump_goto pc xs p ys st) = xp_log st"
  using assms by (simp_all add: pump_goto_def xp_holds xp_inv_defs)

text \<open>Its end, after which neither its descriptor nor its channel is left.\<close>

lemma pump_gone:
  assumes inv: "export_inv pl F st" and ps: "xp_pumps st = xs @ p # ys"
  defines "st' \<equiv> st\<lparr>xp_pumps := xs @ ys\<rparr>" and "r \<equiv> xp_resources pl F st"
  shows "export_inv pl F st'"
    and "xp_resources pl F st' =
      r\<lparr>live_fds := live_fds r - set (pump_fd (pm_pc p)), live_channels := live_channels r - {pm_channel p}\<rparr>"
proof -
  have out: "set (pump_fd (pm_pc p)) \<inter> insert (ex_ssh_socket (xp_exporter st)) F = {}"
      "set (pump_fd (pm_pc p)) \<inter> set (pump_sockets (xs @ ys)) = {}"
      "pm_channel p \<notin> pm_channel ` set (xs @ ys)"
    using inv ps by (auto simp: xp_inv_defs)
  show "export_inv pl F st'"
    using inv ps by (auto simp: st'_def xp_inv_defs xp_unjoined_def)
  from out show "xp_resources pl F st' =
      r\<lparr>live_fds := live_fds r - set (pump_fd (pm_pc p)), live_channels := live_channels r - {pm_channel p}\<rparr>"
    by (auto simp: st'_def r_def xp_holds ps intro!: resources_eqI)
qed

lemma pump_leave_keeps:
  assumes inv: "export_inv pl F st" and ps: "xp_pumps st = xs @ p # ys"
    and run: "resource_run l (xp_resources pl F st) = Some ((xp_resources pl F st)
      \<lparr>live_fds := live_fds (xp_resources pl F st) - set (pump_fd (pm_pc p))\<rparr>)"
  shows "export_keeps pl F st (pump_leave l xs p ys st)"
proof -
  let ?r = "xp_resources pl F st"
  have "live_session ?r" "pm_channel p \<in> live_channels ?r" using pump_live [OF inv, of p] ps by simp_all
  then have "resource_run (l @ free_channel (pm_channel p)) ?r =
      Some (xp_resources pl F (st\<lparr>xp_pumps := xs @ ys\<rparr>))"
    using run pump_gone(2) [OF inv ps] by (simp add: resource_run_append free_channel_run)
  then show ?thesis
    unfolding pump_leave_def using pump_gone(1) [OF inv ps] by (intro export_keeps_calls) simp_all
qed

lemma pump_stop_keeps:
  assumes inv: "export_inv pl F st" and ps: "xp_pumps st = xs @ p # ys" and fd: "pump_fd (pm_pc p) = [local]"
    and run: "resource_run l (xp_resources pl F st) = Some (xp_resources pl F st)"
  shows "export_keeps pl F st (pump_leave (l @ CloseSocketHandle pl local) xs p ys st)"
  using pump_pumping [OF inv ps fd] run fd
  by (intro pump_leave_keeps inv ps) (simp add: resource_run_append CloseSocketHandle_run pumping_def)

lemma pump_pass_keeps:
  assumes inv: "export_inv pl F st" and ps: "xp_pumps st = xs @ p # ys" and pc: "pm_pc p = PuBody local"
  shows "export_keeps pl F st (pump_pass pl local t xs p ys st)"
proof -
  obtain e l where el: "Pump_loop pl local (pm_channel p) [t] = (e, l)" by fastforce
  have fd: "pump_fd (pm_pc p) = [local]" using pc by simp
  have run: "resource_run l (xp_resources pl F st) = Some (xp_resources pl F st)"
    using Pump_loop_resources [OF pump_pumping(1) [OF inv ps fd], of pl "[t]"] el by simp
  then show ?thesis
    using el pump_goto_keeps [OF inv ps, of "PuTest local"] pump_stop_keeps [OF inv ps fd run] fd
    by (simp add: pump_pass_def export_keeps_calls del: Pump_loop.simps)
qed

text \<open>The descriptor of the local service is new, and becomes the pump's.\<close>

lemma pump_dialled:
  assumes inv: "export_inv pl F st" and ps: "xp_pumps st = xs @ p # ys" and pc: "pm_pc p = PuDial"
    and new: "SocketValid pl local" "local \<notin> xp_fds pl F st"
  shows "export_inv pl F (pump_goto (PuTest local) xs p ys st)"
    and "xp_resources pl F (pump_goto (PuTest local) xs p ys st) = (xp_resources pl F st)
      \<lparr>live_fds := insert local (live_fds (xp_resources pl F st))\<rparr>"
proof -
  have "SocketValid pl (ex_ssh_socket (xp_exporter st))" using inv ps by (auto simp: xp_inv_defs)
  with new have "local \<notin> insert (ex_ssh_socket (xp_exporter st)) F"
      "local \<notin> set (pump_sockets (xs @ ys))"
    by (auto simp: xp_fds_def ps pc)
  then show "export_inv pl F (pump_goto (PuTest local) xs p ys st)"
    using inv ps pc new(1) by (auto simp: pump_goto_def xp_inv_defs xp_unjoined_def)
  show "xp_resources pl F (pump_goto (PuTest local) xs p ys st) = (xp_resources pl F st)
      \<lparr>live_fds := insert local (live_fds (xp_resources pl F st))\<rparr>"
    by (auto simp: pump_goto_def xp_holds ps pc intro!: resources_eqI)
qed

lemma DialLocalService_attrs:
  "DialLocalService pl ans ex = (s, ex', l) \<Longrightarrow> \<exists>at. ex' = ex\<lparr>ex_attrs := at\<rparr>"
  by (auto simp: DialLocalService_def Let_def RecordError_def split: prod.splits if_splits)
    (metis SshExporter.surjective SshExporter.update_convs(7))

lemma pump_dial_keeps:
  assumes inv: "export_inv pl F st" and ps: "xp_pumps st = xs @ p # ys" and pc: "pm_pc p = PuDial"
    and fresh: "\<forall>t \<in> set (da_tries dial). dt_socket t \<notin> xp_fds pl F st"
  shows "export_keeps pl F st (pump_dial pl dial xs p ys st)"
proof -
  let ?r = "xp_resources pl F st"
  obtain local ex l where call: "DialLocalService pl dial (xp_exporter st) = (local, ex, l)"
    by (metis prod_cases3)
  obtain at where ex: "ex = (xp_exporter st)\<lparr>ex_attrs := at\<rparr>" using DialLocalService_attrs [OF call] by blast
  obtain err where dial: "DialTcp pl (at_local_host (ex_attrs (xp_exporter st)))
      (at_local_port (ex_attrs (xp_exporter st))) 5000 dial = (local, err, l)"
    using DialLocalService_dial [OF call] by blast
  have "\<forall>t \<in> set (da_tries dial). dt_socket t \<notin> live_fds ?r" using fresh by (simp add: xp_resources_def)
  note d = DialTcp_resources [OF this dial]
  have leave: "export_keeps pl F st (pump_leave k xs p ys (st\<lparr>xp_exporter := (xp_exporter st)\<lparr>ex_attrs := at'\<rparr>\<rparr>))"
    if "resource_run k ?r = Some ?r" for k at'
  proof -
    let ?st = "st\<lparr>xp_exporter := (xp_exporter st)\<lparr>ex_attrs := at'\<rparr>\<rparr>"
    have "export_keeps pl F ?st (pump_leave k xs p ys ?st)"
      by (rule pump_leave_keeps) (use inv ps pc that in simp_all)
    then show ?thesis by (simp add: export_keeps_def)
  qed
  consider "\<not> SocketValid pl local" | "SocketValid pl local" "\<not> SocketFitsInFdSet pl local"
    | "SocketValid pl local" "SocketFitsInFdSet pl local" by blast
  then show ?thesis
  proof cases
    case 1
    then show ?thesis using call d(1) leave [of l at] by (simp add: pump_dial_def ex)
  next
    case 2
    then have "resource_run (l @ CloseSocketHandle pl local) ?r = Some ?r"
      using d by (simp add: resource_run_append CloseSocketHandle_run)
    with 2 call leave show ?thesis by (simp add: pump_dial_def ex RecordError_def)
  next
    case 3
    let ?st = "st\<lparr>xp_exporter := (xp_exporter st)\<lparr>ex_attrs := at\<rparr>\<rparr>"
    have new: "local \<notin> xp_fds pl F ?st" using d(2) 3 by (auto simp: xp_holds)
    note go = pump_dialled [of pl F ?st xs p ys local, OF _ _ pc 3(1) new]
    have "resource_run (l @ [NonBlockingFd local]) ?r =
        Some (xp_resources pl F (pump_goto (PuTest local) xs p ys ?st))"
      using d(1) 3(1) inv ps by (simp add: resource_run_append go(2))
    then show ?thesis
      using 3 call go(1) inv ps
      by (simp add: pump_dial_def ex export_keeps_calls pump_goto_def)
  qed
qed

subsection \<open>The accepting thread\<close>

text \<open>While the accepting thread is not joined, the export holds what the exporter object shows, in a
  process where the descriptors of the pumps are open too.\<close>

definition with_pumps :: "int set \<Rightarrow> export_state \<Rightarrow> int set" where
  "with_pumps F st = F \<union> set (pump_sockets (xp_pumps st))"

lemma export_accepting:
  assumes "export_inv pl F st" and "xp_close st \<in> {ClOpen, ClJoin}"
  shows "accepting pl (with_pumps F st) (xp_exporter st)"
    and "ex_resources pl (with_pumps F st) (xp_channels st) (xp_exporter st) = xp_resources pl F st"
proof -
  show "accepting pl (with_pumps F st) (xp_exporter st)"
    using assms by (auto simp: accepting_def ex_invariant_def with_pumps_def xp_inv_defs)
  show "ex_resources pl (with_pumps F st) (xp_channels st) (xp_exporter st) = xp_resources pl F st"
    using assms(2) by (auto simp: ex_resources_def xp_holds with_pumps_def intro!: resources_eqI)
qed

lemma accept_moves:
  assumes "export_inv pl F st" and "xp_close st \<notin> {ClOpen, ClJoin} \<longrightarrow> pc = AcDone"
  shows "export_inv pl F (st\<lparr>xp_accept := pc\<rparr>)"
    and "xp_resources pl F (st\<lparr>xp_accept := pc\<rparr>) = xp_resources pl F st"
  using assms by (simp_all add: xp_holds xp_inv_defs)

lemma accept_test_keeps:
  assumes "export_inv pl F st" and "xp_accept st = AcTest"
  shows "export_keeps pl F st (accept_test st)"
proof -
  have "xp_close st \<in> {ClOpen, ClJoin}" using assms by (auto simp: xp_inv_defs)
  then show ?thesis
    unfolding accept_test_def using accept_moves [OF assms(1)] by (intro export_keeps_same) simp_all
qed

text \<open>One turn of the loop, by what came of it: nothing that is held changes, or a pump was spawned
  after the ended ones were reaped.\<close>

lemma AcceptLoop_turn_cases:
  assumes "AcceptLoop [t] ex = (fin, ex', l)" and "ac_running_before t" and "ex_listener ex"
  obtains (kept) at b where "ex' = ex\<lparr>ex_attrs := at, ex_running := b\<rparr>" "b \<longrightarrow> ex_running ex"
      "\<And>r. ex_ssh_socket ex \<in> live_fds r \<Longrightarrow> live_session r \<Longrightarrow> live_listener r \<Longrightarrow>
         resource_run l r = Some r"
    | (spawned) c ex1 joins where "\<not> fin" "ac_channel t = Some c"
        "ReapFinishedWorkers (ac_done t) ex = (ex1, joins)" "ex' = spawn_worker ex1"
        "l = [SelectRead [ex_ssh_socket ex], ForwardAccept, ChannelOpen c, SessionCall] @
           (joins @ [SpawnThread (PumpThread (ex_spawned ex))])"
proof (cases "ac_running_after t")
  case False
  then show thesis using assms by (intro kept [of "ex_running ex" "ex_attrs ex"]) auto
next
  case True
  obtain ex1 joins where reap: "ReapFinishedWorkers (ac_done t) ex = (ex1, joins)" by fastforce
  show thesis
  proof (cases "ac_channel t")
    case None
    show thesis
    proof (cases "transport_dead (ac_errno t)")
      case dead: True
      then show thesis using assms True None
        by (intro kept [of False "(ex_attrs ex)\<lparr>at_error_message :=
            msg_session_dropped (au_ssh_host (ex_auth ex))\<rparr>"]) (auto simp: RecordError_def)
    next
      case False
      then show thesis using assms True None by (intro kept [of "ex_running ex" "ex_attrs ex"]) auto
    qed
  next
    case (Some c)
    then show thesis using assms True reap spawned [of c ex1 joins] by simp
  qed
qed

lemma new_pumps_kept [simp]: "new_pumps t ex (ex\<lparr>ex_attrs := at, ex_running := b\<rparr>) = []"
  by (simp add: new_pumps_def split: option.split)

lemma new_pumps_spawn:
  assumes "ReapFinishedWorkers d ex = (ex1, joins)" and "ac_channel t = Some c"
  shows "new_pumps t ex (spawn_worker ex1) = [\<lparr>pm_id = ex_spawned ex, pm_channel = c, pm_pc = PuDial\<rparr>]"
  using assms by (auto simp: new_pumps_def ReapFinishedWorkers_def spawn_worker_def)

lemma accept_spawn_keeps:
  assumes inv: "export_inv pl F st" and cl: "xp_close st \<in> {ClOpen, ClJoin}"
    and reap: "ReapFinishedWorkers d (xp_exporter st) = (ex1, joins)" and c: "c \<notin> xp_channels st"
    and ended: "set d \<inter> pm_id ` set (xp_pumps st) = {}"
  defines "n \<equiv> ex_spawned (xp_exporter st)"
  defines "st' \<equiv> st\<lparr>xp_exporter := spawn_worker ex1, xp_accept := AcTest,
    xp_pumps := xp_pumps st @ [\<lparr>pm_id = n, pm_channel = c, pm_pc = PuDial\<rparr>]\<rparr>"
  shows "export_inv pl F st'"
    and "resource_run ([SelectRead [ex_ssh_socket (xp_exporter st)], ForwardAccept, ChannelOpen c, SessionCall] @
        (joins @ [SpawnThread (PumpThread n)])) (xp_resources pl F st) = Some (xp_resources pl F st')"
proof -
  let ?ex = "xp_exporter st" and ?F = "with_pumps F st" and ?r = "xp_resources pl F st"
  note acc = export_accepting [OF inv cl]
  note step = reap_spawn_ok(1) [OF acc(1) reap, of "insert c (xp_channels st)", folded n_def]
  have ex': "ex_workers (spawn_worker ex1) = filter (\<lambda>w. w \<notin> set d) (ex_workers ?ex) @ [n]"
    "ex_spawned (spawn_worker ex1) = Suc n" "ex_ssh_socket (spawn_worker ex1) = ex_ssh_socket ?ex"
    "ex_session (spawn_worker ex1) = ex_session ?ex" "ex_listener (spawn_worker ex1) = ex_listener ?ex"
    "ex_accept_thread (spawn_worker ex1) = ex_accept_thread ?ex" "ex_running (spawn_worker ex1) = ex_running ?ex"
    using reap by (auto simp: n_def ReapFinishedWorkers_def spawn_worker_def)
  have W: "left_to_join W (xp_close st) = W" for W using cl by auto
  have "n \<notin> set (ex_workers ?ex)" using inv by (auto simp: n_def xp_inv_defs)
  moreover have "pm_id ` set (xp_pumps st) \<subseteq> set (ex_workers ?ex)"
    using inv by (simp add: xp_inv_defs xp_unjoined_def W)
  ultimately have "xp_inv_ids st'"
    using inv ended by (auto simp: st'_def ex' xp_inv_defs xp_unjoined_def W less_Suc_eq n_def)
  moreover have "xp_inv_fds pl F st'" using inv c by (auto simp: st'_def ex' xp_inv_defs xp_channels_def)
  moreover have "xp_inv_phase pl st'" using inv cl by (auto simp: st'_def ex' xp_inv_defs)
  ultimately show inv': "export_inv pl F st'" using inv by (simp add: export_inv_def)
  have "xp_close st' \<in> {ClOpen, ClJoin}" "with_pumps F st' = ?F" "xp_channels st' = insert c (xp_channels st)"
    using cl by (auto simp: st'_def with_pumps_def xp_channels_def)
  then have r': "xp_resources pl F st' = ex_resources pl ?F (insert c (xp_channels st)) (spawn_worker ex1)"
    using export_accepting(2) [OF inv'] by (simp add: st'_def)
  have "ex_session ?ex" "ex_listener ?ex" "SocketValid pl (ex_ssh_socket ?ex)"
    using inv cl by (auto simp: xp_inv_defs)
  then have "resource_run [SelectRead [ex_ssh_socket ?ex], ForwardAccept, ChannelOpen c, SessionCall] ?r =
      Some (ex_resources pl ?F (insert c (xp_channels st)) ?ex)"
    unfolding acc(2) [symmetric] using c by (simp add: ex_resources_def)
  from resource_run_appendI [OF this step]
  show "resource_run ([SelectRead [ex_ssh_socket ?ex], ForwardAccept, ChannelOpen c, SessionCall] @
        (joins @ [SpawnThread (PumpThread n)])) ?r = Some (xp_resources pl F st')"
    by (simp only: r')
qed

lemma accept_pass_keeps:
  assumes inv: "export_inv pl F st" and pc: "xp_accept st = AcBody" and t: "ac_running_before t"
    and fresh: "\<forall>c. ac_channel t = Some c \<longrightarrow> c \<notin> xp_channels st"
    and ended: "set (ac_done t) \<inter> pm_id ` set (xp_pumps st) = {}"
  shows "export_keeps pl F st (accept_pass t st)"
proof -
  let ?ex = "xp_exporter st"
  obtain fin ex l where call: "AcceptLoop [t] ?ex = (fin, ex, l)" by (metis prod_cases3)
  have cl: "xp_close st \<in> {ClOpen, ClJoin}" and lis: "ex_listener ?ex" "ex_session ?ex"
      "SocketValid pl (ex_ssh_socket ?ex)"
    using inv pc by (auto simp: xp_inv_defs)
  from call t lis(1) show ?thesis
  proof (cases rule: AcceptLoop_turn_cases)
    case (kept at b)
    let ?st = "st\<lparr>xp_exporter := ex, xp_accept := (if fin then AcDone else AcTest)\<rparr>"
    have "resource_run l (xp_resources pl F st) = Some (xp_resources pl F st)"
      using kept(3) lis by (simp add: xp_holds)
    moreover have "export_inv pl F ?st" "xp_resources pl F ?st = xp_resources pl F st"
      using inv cl kept(1,2) by (auto simp: xp_inv_defs xp_holds)
    ultimately show ?thesis
      using call kept(1) by (simp add: accept_pass_def export_keeps_calls del: AcceptLoop.simps)
  next
    case (spawned c ex1 joins)
    have c: "c \<notin> xp_channels st" using fresh spawned(2) by blast
    note sp = accept_spawn_keeps [OF inv cl spawned(3) c ended]
    show ?thesis
      unfolding accept_pass_def call spawned(4) prod.case Let_def
      using sp spawned(1,5) new_pumps_spawn [OF spawned(3,2)]
      by (simp add: export_keeps_calls del: resource_run.simps append.simps)
  qed
qed

subsection \<open>Closing\<close>

lemma export_close_begin_keeps:
  assumes "export_inv pl F st" and "xp_close st = ClOpen"
  shows "export_keeps pl F st (export_close_begin st)"
  using assms unfolding export_close_begin_def
  by (intro export_keeps_same) (simp_all add: xp_inv_defs xp_holds)

lemma export_join_accept_keeps:
  assumes "export_inv pl F st" and "xp_close st = ClJoin" and "xp_accept st = AcDone"
  shows "export_keeps pl F st (export_join_accept st)"
proof -
  let ?st = "st\<lparr>xp_exporter := (xp_exporter st)\<lparr>ex_accept_thread := False, ex_workers := []\<rparr>,
    xp_close := ClSweep (ex_workers (xp_exporter st))\<rparr>"
  have "export_inv pl F ?st" "ex_accept_thread (xp_exporter st)"
    using assms by (simp_all add: xp_inv_defs xp_unjoined_def)
  moreover from this(2) have
    "resource_run [JoinThread AcceptThread] (xp_resources pl F st) = Some (xp_resources pl F ?st)"
    using assms by (auto simp: xp_holds)
  ultimately show ?thesis unfolding export_join_accept_def by (intro export_keeps_calls) simp_all
qed

lemma export_join_pump_keeps:
  assumes "export_inv pl F st" and "xp_close st = ClSweep (w # ws)" and "w \<notin> pm_id ` set (xp_pumps st)"
  shows "export_keeps pl F st (export_join_pump w ws st)"
proof -
  let ?st = "st\<lparr>xp_close := ClSweep ws\<rparr>"
  have "export_inv pl F ?st" "w \<notin> set ws" "\<not> ex_accept_thread (xp_exporter st)"
    using assms by (auto simp: xp_inv_defs xp_unjoined_def)
  moreover from this(2,3) have
    "resource_run [JoinThread (PumpThread w)] (xp_resources pl F st) = Some (xp_resources pl F ?st)"
    using assms(2) by (auto simp: xp_holds)
  ultimately show ?thesis unfolding export_join_pump_def by (intro export_keeps_calls) simp_all
qed

lemma export_close_finish_keeps:
  assumes "export_inv pl F st" and "xp_close st = ClSweep []"
  shows "export_keeps pl F st (export_close_finish pl ca st)"
proof -
  let ?ex = "xp_exporter st" and ?r = "xp_resources pl F st"
  have st: "xp_pumps st = []" "ex_session ?ex" "ex_listener ?ex" "\<not> ex_accept_thread ?ex"
      "SocketValid pl (ex_ssh_socket ?ex)" "ex_ssh_socket ?ex \<notin> F" "kInvalidSocket pl \<notin> F"
    using assms by (simp_all add: xp_inv_defs xp_unjoined_def)
  have "resource_run (cancel_log ca) ?r = Some (?r\<lparr>live_listener := cancel_left_again ca\<rparr>)"
    using st by (intro cancel_log_resources) (simp_all add: xp_holds)
  then have "resource_run (cancel_log ca @ [SessionCall, SessionCall, SessionCall, SessionFree] @
      CloseSocketHandle pl (ex_ssh_socket ?ex)) ?r = Some (only_fds F)"
    using st assms(2)
    by (auto simp: resource_run_append CloseSocketHandle_def xp_holds intro!: resources_eqI)
  moreover have "xp_resources pl F (export_close_finish pl ca st) = only_fds F"
    using st by (auto simp: export_close_finish_def Let_def xp_holds intro!: resources_eqI)
  moreover have "export_inv pl F (export_close_finish pl ca st)"
    using st assms by (simp add: export_close_finish_def Let_def xp_inv_defs xp_unjoined_def)
  ultimately show ?thesis
    using st by (simp add: export_keeps_def export_close_finish_def Let_def)
qed

subsection \<open>Every step\<close>

lemma export_step_keeps:
  assumes "export_step pl F st st'" and "export_inv pl F st"
  shows "export_keeps pl F st st'"
  using assms(1)
proof cases
  case (PumpTest xs p ys local)
  then show ?thesis
    using pump_goto_keeps [OF assms(2), of xs p ys "PuBody local"]
      pump_stop_keeps [OF assms(2), of xs p ys local "[]"]
    by (simp add: pump_test_def export_keeps_same)
qed (use assms(2) in \<open>simp_all add: accept_test_keeps accept_pass_keeps pump_dial_keeps pump_pass_keeps
   export_close_begin_keeps export_join_accept_keeps export_join_pump_keeps export_close_finish_keeps\<close>)

lemma export_closed:
  assumes "export_inv pl F st" and "xp_close st = ClClosed"
  shows "xp_resources pl F st = only_fds F"
  using assms by (auto simp: xp_inv_defs xp_holds intro!: resources_eqI)

section \<open>A close that has begun returns\<close>

lemma xp_calls_cost [simp]: "export_bound (xp_calls l st) = export_bound st"
  by (simp add: export_bound_def)

lemma pump_cost_pos: "0 < pump_cost pc"
  by (cases pc) simp_all

lemma pump_leave_cost:
  assumes "xp_pumps st = xs @ p # ys"
  shows "export_bound (pump_leave l xs p ys st) < export_bound st"
  using assms pump_cost_pos [of "pm_pc p"] by (simp add: pump_leave_def export_bound_def)

lemma pump_goto_cost:
  assumes "xp_pumps st = xs @ p # ys" and "pump_cost pc < pump_cost (pm_pc p)"
  shows "export_bound (pump_goto pc xs p ys st) < export_bound st"
  using assms by (simp add: pump_goto_def export_bound_def)

lemma attrs_cost [simp]:
  "export_bound (st\<lparr>xp_exporter := (xp_exporter st)\<lparr>ex_attrs := at\<rparr>\<rparr>) = export_bound st"
  by (simp add: export_bound_def)

lemma pump_close [simp]:
  "xp_close (pump_leave l xs p ys st) = xp_close st" "xp_close (pump_goto pc xs p ys st) = xp_close st"
  by (simp_all add: pump_leave_def pump_goto_def)

lemma pump_dial_cost:
  assumes ps: "xp_pumps st = xs @ p # ys" and pc: "pm_pc p = PuDial"
  shows "export_bound (pump_dial pl dial xs p ys st) < export_bound st"
    and "xp_close (pump_dial pl dial xs p ys st) = xp_close st"
proof -
  obtain local ex l where call: "DialLocalService pl dial (xp_exporter st) = (local, ex, l)"
    by (metis prod_cases3)
  obtain at where ex: "ex = (xp_exporter st)\<lparr>ex_attrs := at\<rparr>" using DialLocalService_attrs [OF call] by blast
  have less: "export_bound (pump_leave k xs p ys (st\<lparr>xp_exporter := (xp_exporter st)\<lparr>ex_attrs := at'\<rparr>\<rparr>)) <
      export_bound st"
    "export_bound (pump_goto (PuTest local) xs p ys (st\<lparr>xp_exporter := (xp_exporter st)\<lparr>ex_attrs := at'\<rparr>\<rparr>)) <
      export_bound st" for k at'
    using pump_leave_cost [of "st\<lparr>xp_exporter := (xp_exporter st)\<lparr>ex_attrs := at'\<rparr>\<rparr>" xs p ys k]
      pump_goto_cost [of "st\<lparr>xp_exporter := (xp_exporter st)\<lparr>ex_attrs := at'\<rparr>\<rparr>" xs p ys "PuTest local"] ps pc
    by simp_all
  show "export_bound (pump_dial pl dial xs p ys st) < export_bound st"
    and "xp_close (pump_dial pl dial xs p ys st) = xp_close st"
    using less by (simp_all add: pump_dial_def call ex RecordError_def Let_def)
qed

lemma pump_pass_cost:
  assumes ps: "xp_pumps st = xs @ p # ys" and pc: "pm_pc p = PuBody local"
  shows "export_bound (pump_pass pl local t xs p ys st) < export_bound st"
    and "xp_close (pump_pass pl local t xs p ys st) = xp_close st"
  using pump_goto_cost [OF ps, of "PuTest local"] pump_leave_cost [OF ps] pc
  by (simp_all add: pump_pass_def case_prod_beta del: Pump_loop.simps)

lemma accept_pass_cost:
  assumes pc: "xp_accept st = AcBody" and cl: "xp_close st = ClJoin" and t: "ac_running_before t"
    and lis: "ex_listener (xp_exporter st)"
  shows "export_bound (accept_pass t st) < export_bound st" "xp_close (accept_pass t st) = ClJoin"
proof -
  let ?ex = "xp_exporter st"
  obtain fin ex l where call: "AcceptLoop [t] ?ex = (fin, ex, l)" by (metis prod_cases3)
  from call t lis show "export_bound (accept_pass t st) < export_bound st"
  proof (cases rule: AcceptLoop_turn_cases)
    case (kept at b)
    then show ?thesis using call pc by (simp add: accept_pass_def export_bound_def del: AcceptLoop.simps)
  next
    case (spawned c ex1 joins)
    have "length (ex_workers ex) \<le> Suc (length (ex_workers ?ex))"
      using spawned(3,4) by (auto simp: ReapFinishedWorkers_def spawn_worker_def)
    then show ?thesis
      using call pc cl spawned(1) new_pumps_spawn [OF spawned(3,2)]
      by (simp add: accept_pass_def export_bound_def spawned(4) del: AcceptLoop.simps)
  qed
  show "xp_close (accept_pass t st) = ClJoin"
    using cl by (simp add: accept_pass_def call del: AcceptLoop.simps)
qed

lemma export_step_cost:
  assumes "export_step pl F st st'" and inv: "export_inv pl F st" and cl: "xp_close st \<noteq> ClOpen"
  shows "xp_close st' \<noteq> ClOpen \<and> export_bound st' < export_bound st"
proof -
  have stop: "\<not> ex_running (xp_exporter st)" using inv cl by (simp add: xp_inv_defs)
  from assms(1) show ?thesis
  proof cases
    case AcceptTest
    then show ?thesis using stop cl by (simp add: accept_test_def export_bound_def)
  next
    case (AcceptBody t)
    then have "xp_close st = ClJoin" "ex_listener (xp_exporter st)" using inv cl by (auto simp: xp_inv_defs)
    then show ?thesis using AcceptBody accept_pass_cost [of st t] by simp
  next
    case (PumpDial xs p ys dial)
    then show ?thesis using pump_dial_cost cl by simp
  next
    case (PumpTest xs p ys local)
    then show ?thesis using stop cl pump_leave_cost by (simp add: pump_test_def)
  next
    case (PumpBody xs p ys local t)
    then show ?thesis using pump_pass_cost cl by simp
  next
    case ExportCloseBegin
    then show ?thesis using cl by simp
  qed (auto simp: export_bound_def export_join_accept_def export_join_pump_def export_close_finish_def Let_def)
qed

text \<open>A thread that has not ended can move, so no wait is for ever.\<close>

lemma pump_moves:
  assumes "xp_pumps st = p # ys"
  shows "\<exists>st'. export_step pl F st st'"
proof (cases "pm_pc p")
  case PuDial
  then show ?thesis
    using assms export_step.PumpDial [of st "[]" p ys "\<lparr>da_gai = 1, da_tries = []\<rparr>" pl F] by auto
next
  case (PuBody local)
  let ?t = "\<lparr>pt_running = True, pt_select = 0, pt_recv = Received [], pt_writes = [],
    pt_read = Received [], pt_eof = True, pt_sends = []\<rparr>"
  have "pt_complete pl local (pm_channel p) ?t"
    by (simp add: pt_complete_def local_to_channel_def channel_to_local_def)
  with PuBody assms show ?thesis using PumpBody [of st "[]" p ys local ?t pl F] by auto
qed (use assms PumpTest [of st "[]" p ys] in auto)

lemma accept_moves_on:
  assumes "xp_accept st \<noteq> AcDone"
  shows "\<exists>st'. export_step pl F st st'"
proof (cases "xp_accept st")
  case AcBody
  then show ?thesis
    using AcceptBody [of st "\<lparr>ac_running_before = True, ac_running_after = False, ac_channel = None,
      ac_errno = 0, ac_done = []\<rparr>" pl F] by auto
qed (use assms AcceptTest in blast)+

lemma export_progress:
  assumes "export_inv pl F st"
  shows "(\<nexists>st'. export_step pl F st st') \<longleftrightarrow> xp_close st = ClClosed"
proof
  assume closed: "xp_close st = ClClosed"
  then have "xp_accept st = AcDone" "xp_pumps st = []" using assms by (auto simp: xp_inv_defs)
  with closed show "\<nexists>st'. export_step pl F st st'" by (auto elim: export_step.cases)
next
  assume stuck: "\<nexists>st'. export_step pl F st st'"
  then have ended: "xp_accept st = AcDone" "xp_pumps st = []"
    using accept_moves_on [of st pl F] pump_moves [of st _ _ pl F]
    by (blast, cases "xp_pumps st") auto
  show "xp_close st = ClClosed"
  proof (cases "xp_close st")
    case (ClSweep ws)
    then show ?thesis
      using stuck ended ExportJoinPump [of st _ _ pl F] ExportCloseFinish [of st pl F]
      by (cases ws) (simp_all)
  qed (use stuck ended ExportCloseBegin [of st] ExportJoinAccept [of st] in blast)+
qed

interpretation xp_sys: closing_system "export_step pl F" "export_inv pl F" "xp_resources pl F" xp_log
    "\<lambda>st. xp_close st \<noteq> ClOpen" "\<lambda>st. xp_close st = ClClosed" export_bound for pl F
proof unfold_locales
  fix s s'
  assume step: "export_step pl F s s'" and inv: "export_inv pl F s"
  show "export_inv pl F s' \<and> (\<exists>l. xp_log s' = xp_log s @ l \<and>
      resource_run l (xp_resources pl F s) = Some (xp_resources pl F s'))"
    using export_step_keeps [OF step inv] by (simp add: export_keeps_def)
  show "xp_close s' \<noteq> ClOpen \<and> export_bound s' < export_bound s" if "xp_close s \<noteq> ClOpen"
    using export_step_cost [OF step inv that] .
qed (rule export_progress)

section \<open>From the start on\<close>

lemma export_init_inv:
  assumes "ex_invariant pl F ex" and "kInvalidSocket pl \<notin> F" and "ex_running ex" and "ex_workers ex = []"
  shows "export_inv pl F (export_init ex)" and "xp_resources pl F (export_init ex) = ex_resources pl F {} ex"
  using assms
  by (auto simp: export_init_def ex_invariant_def xp_inv_defs xp_holds ex_resources_def intro!: resources_eqI)

lemma export_life:
  assumes no: "kInvalidSocket pl \<notin> F"
    and fresh: "\<forall>t \<in> set (da_tries (sa_probe a)) \<union> set (da_tries (sa_dial a)). dt_socket t \<notin> F"
    and tmo: "connect_timeout timeout = Returns ms"
    and start: "SshExporter_Start pl timeout a (make_SshExporter pl auth lh lp rbh rp) = (Returns (), ex, l)"
    and run: "(export_step pl F)\<^sup>*\<^sup>* (export_init ex) st"
  shows "export_inv pl F st" and "resource_run (l @ xp_log st) (only_fds F) = Some (xp_resources pl F st)"
proof -
  from SshExporter_Start_ok [OF no fresh tmo, of auth lh lp rbh rp] start
  have s: "resource_run l (only_fds F) = Some (ex_resources pl F {} ex)" "ex_invariant pl F ex"
      "ex_running ex" "ex_workers ex = []"
    by (simp_all add: start_ok_def)
  note init = export_init_inv [OF s(2) no s(3,4)]
  have "resource_run (xp_log (export_init ex)) (xp_resources pl F (export_init ex)) =
      Some (xp_resources pl F (export_init ex))"
    by (simp add: export_init_def)
  from xp_sys.reachable [OF run init(1) this]
  show "export_inv pl F st" and "resource_run (l @ xp_log st) (only_fds F) = Some (xp_resources pl F st)"
    using s(1) init(2) by (simp_all add: resource_run_append)
qed

section \<open>Properties\<close>

text \<open>C13: An SSH export is safe in every interleaving of its threads, from the start to the end of
  \<open>Close\<close>: whatever the accepting thread, the pumps and the closing thread have done and in whatever
  order, no descriptor, channel, listener or session was used before it was acquired or after it was
  released, no thread was joined twice (by the reaping and by the close), the session is freed only
  after every thread was joined, and what is live is exactly what the state shows. Once \<open>Close\<close> has
  returned no thread is left and nothing is held.\<close>

theorem export_lifecycle_safe:
  assumes "kInvalidSocket pl \<notin> F"
    and "\<forall>t \<in> set (da_tries (sa_probe a)) \<union> set (da_tries (sa_dial a)). dt_socket t \<notin> F"
    and "connect_timeout timeout = Returns ms"
    and "SshExporter_Start pl timeout a (make_SshExporter pl auth lh lp rbh rp) = (Returns (), ex, l)"
    and "(export_step pl F)\<^sup>*\<^sup>* (export_init ex) st"
  shows "resource_run (l @ xp_log st) (only_fds F) = Some (xp_resources pl F st) \<and>
    (xp_close st = ClClosed \<longrightarrow>
       xp_resources pl F st = only_fds F \<and> xp_pumps st = [] \<and> xp_accept st = AcDone)"
  using export_life [OF assms] export_closed [of pl F st] by (auto simp: xp_inv_defs)

text \<open>A connection is accepted and dials the local service, then the export is closed.\<close>

definition demo_ssh_export :: SshExporter where
  "demo_ssh_export = fst (snd demo_started)"

definition demo_inbound :: accept_turn where
  "demo_inbound = \<lparr>ac_running_before = True, ac_running_after = True, ac_channel = Some 0, ac_errno = 0,
     ac_done = []\<rparr>"

definition demo_pump :: "pump_pc \<Rightarrow> pump_thread" where
  "demo_pump pc = \<lparr>pm_id = 0, pm_channel = 0, pm_pc = pc\<rparr>"

definition demo_export_closing :: export_state where
  "demo_export_closing =
     export_close_begin (pump_dial Linux (demo_dial 5) [] (demo_pump PuDial) []
       (accept_pass demo_inbound (accept_test (export_init demo_ssh_export))))"

definition demo_export_closed :: export_state where
  "demo_export_closed =
     export_close_finish Linux (sa_close demo_start) (export_join_pump 0 [] (export_join_accept (accept_test
       (pump_test Linux 5 [] (demo_pump (PuTest 5)) [] demo_export_closing))))"

lemma demo_export_started:
  "SshExporter_Start Linux 5 demo_start_ok (make_SshExporter Linux demo_auth ''localhost'' 5432
     ''localhost'' 0) = (Returns (), demo_ssh_export, snd (snd demo_started))"
  "ex_ssh_socket demo_ssh_export = 4" "ex_workers demo_ssh_export = []" "ex_spawned demo_ssh_export = 0"
  "ex_running demo_ssh_export" "ex_listener demo_ssh_export" "ex_session demo_ssh_export" "ex_accept_thread demo_ssh_export"
proof -
  have eval: "fst demo_started = Returns () \<and> ex_ssh_socket demo_ssh_export = 4 \<and> ex_workers demo_ssh_export = [] \<and>
      ex_spawned demo_ssh_export = 0 \<and> ex_running demo_ssh_export \<and> ex_listener demo_ssh_export \<and>
      ex_session demo_ssh_export \<and> ex_accept_thread demo_ssh_export"
    by (simp add: demo_ssh_export_def demo_started_def SshExporter_Start_def start_dial_def start_session_def
        start_auth_def export_authed_def start_listen_def DialTcp_def Let_def connect_timeout_bounds
        demo_start_ok_def demo_start_def demo_try_def demo_auth_def default_auth_params_def
        SocketValid_def kInvalidSocket_def SocketFitsInFdSet_def FD_SETSIZE_def kAuthMethodAgent_def
        make_SshExporter_def)
  then show "SshExporter_Start Linux 5 demo_start_ok (make_SshExporter Linux demo_auth ''localhost'' 5432
     ''localhost'' 0) = (Returns (), demo_ssh_export, snd (snd demo_started))"
    unfolding demo_started_def [symmetric] demo_ssh_export_def by (metis prod.collapse)
  from eval show "ex_ssh_socket demo_ssh_export = 4" "ex_workers demo_ssh_export = []" "ex_spawned demo_ssh_export = 0"
    "ex_running demo_ssh_export" "ex_listener demo_ssh_export" "ex_session demo_ssh_export" "ex_accept_thread demo_ssh_export"
    by simp_all
qed

lemma demo_export_pre:
  "kInvalidSocket Linux \<notin> {3}"
  "\<forall>t \<in> set (da_tries (sa_probe demo_start_ok)) \<union> set (da_tries (sa_dial demo_start_ok)). dt_socket t \<notin> {3}"
  "connect_timeout 5 = Returns 5000"
  by (simp_all add: kInvalidSocket_def connect_timeout_bounds demo_start_ok_def demo_start_def demo_try_def)

lemmas demo_export_steps = demo_inbound_def demo_pump_def demo_dial_def export_init_def accept_test_def
  accept_pass_def pump_dial_def pump_test_def pump_goto_def pump_leave_def export_close_begin_def
  export_join_accept_def export_join_pump_def export_close_finish_def DialLocalService_def DialTcp_def
  new_pumps_def ReapFinishedWorkers_def spawn_worker_def xp_fds_def xp_channels_def Let_def
  SocketValid_def kInvalidSocket_def SocketFitsInFdSet_def FD_SETSIZE_def demo_export_started(2-)

lemmas export_runs = export_step.intros
  [THEN rtranclp.rtrancl_into_rtrancl [where r = "export_step pl F" for pl F, rotated]]

lemma demo_export_closing_reached:
  "(export_step Linux {3})\<^sup>*\<^sup>* (export_init demo_ssh_export) demo_export_closing"
  unfolding demo_export_closing_def
  by (intro export_runs rtranclp.rtrancl_refl) (simp_all add: demo_export_steps)

lemma demo_export_closed_reached:
  "(export_step Linux {3})\<^sup>*\<^sup>* demo_export_closing demo_export_closed"
  unfolding demo_export_closed_def demo_export_closing_def
  by (intro export_runs rtranclp.rtrancl_refl) (simp_all add: demo_export_steps)

theorem export_lifecycle_safe_witness:
  "xp_close demo_export_closed = ClClosed \<and>
   resource_run (snd (snd demo_started) @ xp_log demo_export_closed) (only_fds {3}) = Some (only_fds {3})"
proof -
  have "xp_close demo_export_closed = ClClosed" by (simp add: demo_export_closed_def demo_export_steps)
  with export_lifecycle_safe [OF demo_export_pre demo_export_started(1)
      rtranclp_trans [OF demo_export_closing_reached demo_export_closed_reached]]
  show ?thesis by simp
qed

text \<open>C14: A \<open>Close\<close> of an SSH export that has begun returns, provided that the calls of the turn each
  thread is in return: however the threads are scheduled, at most \<open>export_bound\<close> more steps can be
  taken, and the only state in which no thread can move is the closed one, so no join waits for
  ever.\<close>

theorem export_close_terminates:
  assumes "kInvalidSocket pl \<notin> F"
    and "\<forall>t \<in> set (da_tries (sa_probe a)) \<union> set (da_tries (sa_dial a)). dt_socket t \<notin> F"
    and "connect_timeout timeout = Returns ms"
    and "SshExporter_Start pl timeout a (make_SshExporter pl auth lh lp rbh rp) = (Returns (), ex, l)"
    and "(export_step pl F)\<^sup>*\<^sup>* (export_init ex) st"
    and "xp_close st \<noteq> ClOpen" and "(export_step pl F ^^ n) st st'"
  shows "n + export_bound st' \<le> export_bound st \<and>
    ((\<nexists>st''. export_step pl F st' st'') \<longleftrightarrow> xp_close st' = ClClosed)"
  using xp_sys.closing_terminates [OF assms(7) export_life(1) [OF assms(1-5)] assms(6)] .

lemmas export_steps = export_step.intros
  [THEN relpowp_Suc_I [where P = "export_step pl F" for pl F, rotated]]

lemma demo_export_closed_steps:
  "(export_step Linux {3} ^^ Suc (Suc (Suc (Suc (Suc 0))))) demo_export_closing demo_export_closed"
  unfolding demo_export_closed_def demo_export_closing_def
  by (intro export_steps relpowp_0_I) (simp_all add: demo_export_steps)

theorem export_close_terminates_witness:
  "export_bound demo_export_closing = 5 \<and> export_bound demo_export_closed = 0 \<and>
   (\<nexists>st. export_step Linux {3} demo_export_closed st)"
proof -
  have "xp_close demo_export_closing \<noteq> ClOpen" "export_bound demo_export_closing = 5"
      "xp_close demo_export_closed = ClClosed"
    by (simp_all add: demo_export_closed_def demo_export_closing_def demo_export_steps export_bound_def)
  with export_close_terminates [OF demo_export_pre demo_export_started(1) demo_export_closing_reached _
      demo_export_closed_steps]
  show ?thesis by simp
qed

end
