(* ===== verification/Mesh_Lifecycle.thy ===== *)
theory Mesh_Lifecycle
  imports Mesh_Forwarder Thread_Systems
begin

text \<open>
  A mesh import with its threads interleaved, all of \<^verbatim>\<open>src/src/mesh_forwarder.cpp\<close>: the thread that
  is still probing the listener inside \<^verbatim>\<open>MeshForwarder::Start\<close> and later calls
  \<^verbatim>\<open>MeshForwarder::Close\<close>, the accepting thread (\<^verbatim>\<open>AcceptLoop\<close>), which runs from before the probe on and
  also accepts the probe's own connection, and one pump for each client (\<^verbatim>\<open>Pump\<close>). The mesh node and
  the loader are shared with other tunnels, so each turn of the accepting thread may find them in any
  state. A step is one stretch of one thread, made of the operations of \<open>Mesh_Forwarder\<close> with one
  turn each.
\<close>

section \<open>Definitions\<close>

text \<open>The probe: before its clock is read, with its socket open (and whether it has connected), over.\<close>

datatype probe_pc = PrTest | PrClose int bool | PrDone

datatype relay_pc = RlTest | RlBody

record relay_thread =
  rl_id :: nat
  rl_client :: int
  rl_mesh :: int
  rl_pc :: relay_pc

record mesh_import_state =
  mi_forwarder :: MeshForwarder
  mi_probe :: probe_pc
  mi_accept :: accept_pc
  mi_relays :: "relay_thread list"
  mi_close :: close_pc
  mi_log :: log

text \<open>The moment the accepting thread has been spawned.\<close>

definition mesh_import_init :: "MeshForwarder \<Rightarrow> mesh_import_state" where
  "mesh_import_init fo =
     \<lparr>mi_forwarder = fo, mi_probe = PrTest, mi_accept = AcTest, mi_relays = [], mi_close = ClOpen,
      mi_log = []\<rparr>"

definition mi_calls :: "log \<Rightarrow> mesh_import_state \<Rightarrow> mesh_import_state" where
  "mi_calls l st = st\<lparr>mi_log := mi_log st @ l\<rparr>"

subsection \<open>The probe\<close>

definition probe_try :: "platform \<Rightarrow> probe_turn \<Rightarrow> mesh_import_state \<Rightarrow> mesh_import_state" where
  "probe_try pl t st =
     (if \<not> pr_before_deadline t then st\<lparr>mi_probe := PrDone\<rparr>
      else if \<not> SocketValid pl (pr_socket t) then st
      else mi_calls [OpenFd (pr_socket t), ConnectFd (pr_socket t)]
        (st\<lparr>mi_probe := PrClose (pr_socket t) (pr_connect t = 0)\<rparr>))"

definition probe_close :: "platform \<Rightarrow> int \<Rightarrow> bool \<Rightarrow> mesh_import_state \<Rightarrow> mesh_import_state" where
  "probe_close pl s ok st =
     mi_calls (CloseSocketHandle pl s) (st\<lparr>mi_probe := (if ok then PrDone else PrTest)\<rparr>)"

subsection \<open>The accepting thread\<close>

definition mesh_accept_test :: "mesh_import_state \<Rightarrow> mesh_import_state" where
  "mesh_accept_test st = st\<lparr>mi_accept := (if fo_running (mi_forwarder st) then AcBody else AcDone)\<rparr>"

definition new_relays :: "MeshForwarder \<Rightarrow> MeshForwarder \<Rightarrow> relay_thread list" where
  "new_relays fo fo' =
     map (\<lambda>(w, client, mesh). \<lparr>rl_id = w, rl_client = client, rl_mesh = mesh, rl_pc = RlTest\<rparr>)
       (drop (length (fo_workers fo)) (fo_workers fo'))"

definition mesh_accept_pass ::
  "platform \<Rightarrow> mesh_build \<Rightarrow> MeshLoader \<Rightarrow> MeshBackend \<Rightarrow> forwarder_turn \<Rightarrow> mesh_import_state \<Rightarrow>
   mesh_import_state" where
  "mesh_accept_pass pl mb ml be t st =
     (let (fin, fo, ml', be', l) = MeshForwarder_AcceptLoop pl mb [t] ml be (mi_forwarder st) in
      mi_calls l (st\<lparr>mi_forwarder := fo, mi_accept := (if fin then AcDone else AcTest),
        mi_relays := mi_relays st @ new_relays (mi_forwarder st) fo\<rparr>))"

subsection \<open>A pump\<close>

text \<open>The pumps are \<open>xs @ p # ys\<close>, and \<open>p\<close> moves or ends.\<close>

definition relay_goto ::
  "relay_pc \<Rightarrow> relay_thread list \<Rightarrow> relay_thread \<Rightarrow> relay_thread list \<Rightarrow> mesh_import_state \<Rightarrow>
   mesh_import_state" where
  "relay_goto pc xs p ys st = st\<lparr>mi_relays := xs @ p\<lparr>rl_pc := pc\<rparr> # ys\<rparr>"

definition relay_leave ::
  "platform \<Rightarrow> log \<Rightarrow> relay_thread list \<Rightarrow> relay_thread \<Rightarrow> relay_thread list \<Rightarrow> mesh_import_state \<Rightarrow>
   mesh_import_state" where
  "relay_leave pl l xs p ys st =
     mi_calls (l @ CloseSocketHandle pl (rl_client p) @ CloseSocketHandle pl (rl_mesh p))
       (st\<lparr>mi_relays := xs @ ys\<rparr>)"

definition relay_test ::
  "platform \<Rightarrow> relay_thread list \<Rightarrow> relay_thread \<Rightarrow> relay_thread list \<Rightarrow> mesh_import_state \<Rightarrow>
   mesh_import_state" where
  "relay_test pl xs p ys st =
     (if fo_running (mi_forwarder st) then relay_goto RlBody xs p ys st else relay_leave pl [] xs p ys st)"

definition relay_pass ::
  "platform \<Rightarrow> relay_turn \<Rightarrow> relay_thread list \<Rightarrow> relay_thread \<Rightarrow> relay_thread list \<Rightarrow> mesh_import_state \<Rightarrow>
   mesh_import_state" where
  "relay_pass pl t xs p ys st =
     (let (e, l) = relay_loop pl (rl_client p) (rl_mesh p) [t] in
      if e = RelayPending then mi_calls l (relay_goto RlTest xs p ys st)
      else relay_leave pl l xs p ys st)"

text \<open>The turn comes to an end: the answers for its sends are all there.\<close>

definition rt_complete :: "platform \<Rightarrow> int \<Rightarrow> int \<Rightarrow> relay_turn \<Rightarrow> bool" where
  "rt_complete pl client mesh t \<longleftrightarrow>
     (rt_select t > 0 \<longrightarrow>
        (let up = relay_half pl client mesh (rt_client_ready t) (rt_client_recv t) (rt_mesh_sends t);
             down = relay_half pl mesh client (rt_mesh_ready t) (rt_mesh_recv t) (rt_client_sends t)
         in fst up \<noteq> Some RelayPending \<and> (fst up = None \<longrightarrow> fst down \<noteq> Some RelayPending)))"

subsection \<open>Close\<close>

definition mesh_close_begin :: "mesh_import_state \<Rightarrow> mesh_import_state" where
  "mesh_close_begin st =
     st\<lparr>mi_forwarder := (mi_forwarder st)\<lparr>fo_running := False\<rparr>, mi_close := ClJoin\<rparr>"

definition mesh_join_accept :: "mesh_import_state \<Rightarrow> mesh_import_state" where
  "mesh_join_accept st =
     mi_calls (if fo_accept_thread (mi_forwarder st) then [JoinThread AcceptThread] else [])
       (st\<lparr>mi_forwarder := (mi_forwarder st)\<lparr>fo_accept_thread := False\<rparr>,
           mi_close := ClSweep (map fst (fo_workers (mi_forwarder st)))\<rparr>)"

definition mesh_join_relay :: "nat \<Rightarrow> nat list \<Rightarrow> mesh_import_state \<Rightarrow> mesh_import_state" where
  "mesh_join_relay w ws st = mi_calls [JoinThread (PumpThread w)] (st\<lparr>mi_close := ClSweep ws\<rparr>)"

definition mesh_close_finish :: "platform \<Rightarrow> mesh_import_state \<Rightarrow> mesh_import_state" where
  "mesh_close_finish pl st =
     (let fo = mi_forwarder st in
      mi_calls (CloseSocketHandle pl (fo_listen_sock fo))
        (st\<lparr>mi_forwarder := fo\<lparr>fo_workers := [], fo_listen_sock := kInvalidSocket pl,
              fo_attrs := (fo_attrs fo)\<lparr>at_status := ''Closed''\<rparr>\<rparr>,
            mi_close := ClClosed\<rparr>))"

subsection \<open>The steps\<close>

fun probe_fd :: "probe_pc \<Rightarrow> int list" where
  "probe_fd (PrClose s ok) = [s]"
| "probe_fd _ = []"

definition relay_fds :: "relay_thread list \<Rightarrow> int list" where
  "relay_fds ps = concat (map (\<lambda>p. [rl_client p, rl_mesh p]) ps)"

definition mi_sockets :: "mesh_import_state \<Rightarrow> int list" where
  "mi_sockets st = probe_fd (mi_probe st) @ relay_fds (mi_relays st)"

definition mi_fds :: "platform \<Rightarrow> int set \<Rightarrow> mesh_import_state \<Rightarrow> int set" where
  "mi_fds pl F st =
     F \<union> (if SocketValid pl (fo_listen_sock (mi_forwarder st)) then {fo_listen_sock (mi_forwarder st)} else {}) \<union>
     set (mi_sockets st)"

text \<open>
  \<open>F\<close> are the descriptors other code has open. Sockets that are created or accepted, and the
  streams a shim hands out, are descriptors that are not open; a join returns once its thread has
  ended. The object is closed by the thread that started it, after the probe.
\<close>

definition mesh_stream_ok :: "platform \<Rightarrow> int set \<Rightarrow> forwarder_turn \<Rightarrow> bool" where
  "mesh_stream_ok pl used t \<longleftrightarrow>
     (SocketValid pl (ft_accept t) \<longrightarrow> ft_accept t \<notin> used) \<and>
     (dr_rc (ft_dial t) = 0 \<and> dr_stream (ft_dial t) \<noteq> kMeshStreamInvalid \<longrightarrow>
        SocketValid pl (dr_stream (ft_dial t)) \<and> dr_stream (ft_dial t) \<notin> insert (ft_accept t) used)"

inductive mesh_step :: "platform \<Rightarrow> mesh_build \<Rightarrow> int set \<Rightarrow> mesh_import_state \<Rightarrow> mesh_import_state \<Rightarrow> bool"
  for pl mb F where
  ProbeTry: "mi_probe st = PrTest \<Longrightarrow> pr_socket t \<notin> mi_fds pl F st \<Longrightarrow>
    mesh_step pl mb F st (probe_try pl t st)"
| ProbeClose: "mi_probe st = PrClose s ok \<Longrightarrow> mesh_step pl mb F st (probe_close pl s ok st)"
| MeshAcceptTest: "mi_accept st = AcTest \<Longrightarrow> mesh_step pl mb F st (mesh_accept_test st)"
| MeshAcceptBody: "mi_accept st = AcBody \<Longrightarrow> ft_running t \<Longrightarrow> mesh_stream_ok pl (mi_fds pl F st) t \<Longrightarrow>
    mesh_step pl mb F st (mesh_accept_pass pl mb ml be t st)"
| RelayTest: "mi_relays st = xs @ p # ys \<Longrightarrow> rl_pc p = RlTest \<Longrightarrow>
    mesh_step pl mb F st (relay_test pl xs p ys st)"
| RelayBody: "mi_relays st = xs @ p # ys \<Longrightarrow> rl_pc p = RlBody \<Longrightarrow> rt_running t \<Longrightarrow>
    rt_complete pl (rl_client p) (rl_mesh p) t \<Longrightarrow>
    mesh_step pl mb F st (relay_pass pl t xs p ys st)"
| MeshCloseBegin: "mi_close st = ClOpen \<Longrightarrow> mi_probe st = PrDone \<Longrightarrow>
    mesh_step pl mb F st (mesh_close_begin st)"
| MeshJoinAccept: "mi_close st = ClJoin \<Longrightarrow> mi_accept st = AcDone \<Longrightarrow>
    mesh_step pl mb F st (mesh_join_accept st)"
| MeshJoinRelay: "mi_close st = ClSweep (w # ws) \<Longrightarrow> w \<notin> rl_id ` set (mi_relays st) \<Longrightarrow>
    mesh_step pl mb F st (mesh_join_relay w ws st)"
| MeshCloseFinish: "mi_close st = ClSweep [] \<Longrightarrow> mesh_step pl mb F st (mesh_close_finish pl st)"

text \<open>The threads not joined, what the import holds, and the steps a close can still take.\<close>

definition mi_unjoined :: "mesh_import_state \<Rightarrow> nat set" where
  "mi_unjoined st = left_to_join (fst ` set (fo_workers (mi_forwarder st))) (mi_close st)"

definition mi_resources :: "platform \<Rightarrow> int set \<Rightarrow> mesh_import_state \<Rightarrow> resources" where
  "mi_resources pl F st =
     \<lparr>live_fds = mi_fds pl F st, live_session = False, live_listener = False, live_channels = {},
      live_threads = (if fo_accept_thread (mi_forwarder st) then {AcceptThread} else {}) \<union>
        PumpThread ` mi_unjoined st\<rparr>"

fun relay_cost :: "relay_pc \<Rightarrow> nat" where
  "relay_cost RlTest = 1"
| "relay_cost RlBody = 2"

fun mesh_accept_cost :: "accept_pc \<Rightarrow> nat" where
  "mesh_accept_cost AcTest = 1"
| "mesh_accept_cost AcBody = 4"
| "mesh_accept_cost AcDone = 0"

definition mesh_bound :: "mesh_import_state \<Rightarrow> nat" where
  "mesh_bound st =
     mesh_accept_cost (mi_accept st) + sum_list (map (relay_cost \<circ> rl_pc) (mi_relays st)) +
     join_cost (length (fo_workers (mi_forwarder st))) (mi_close st)"

section \<open>The pieces are the operations\<close>

lemma MeshForwarder_AcceptLoop_turn:
  "MeshForwarder_AcceptLoop pl mb (t # ts) ml be fo =
     (let (fin, fo1, ml1, be1, l1) = MeshForwarder_AcceptLoop pl mb [t] ml be fo in
      if fin then (True, fo1, ml1, be1, l1)
      else (let (fin2, fo2, ml2, be2, l2) = MeshForwarder_AcceptLoop pl mb ts ml1 be1 fo1
            in (fin2, fo2, ml2, be2, l1 @ l2)))"
  by (auto simp: Let_def split: outcome.split prod.split)

lemma relay_loop_turn:
  assumes "rt_running t \<longrightarrow> rt_complete pl client mesh t"
  shows "relay_loop pl client mesh (t # ts) =
     (let (e, l) = relay_loop pl client mesh [t] in
      if e \<noteq> RelayPending then (e, l)
      else (let (e2, l2) = relay_loop pl client mesh ts in (e2, l @ l2)))"
  using assms by (auto simp: Let_def rt_complete_def split: prod.split option.split)

text \<open>Starting is what comes before the probe, followed by the probe.\<close>

lemma forwarder_listen_probe:
  assumes "forwarder_listen pl timeout (a\<lparr>fs_probes := []\<rparr>) fo = (None, fo', l)"
  shows "forwarder_listen pl timeout a fo =
    (case fst (probe_loop pl (fs_probes a)) of
       None \<Rightarrow> None
     | Some True \<Rightarrow> Some (Returns ())
     | Some False \<Rightarrow> Some (Throws (IOException (msg_not_connectable (at_local_port (fo_attrs fo)) timeout))),
     fo', l @ snd (probe_loop pl (fs_probes a)))"
  using assms by (auto simp: forwarder_listen_def Let_def forwarder_open_def split: if_splits prod.split)

lemma mesh_close_pieces:
  fixes pl
  assumes "mi_close st = ClOpen"
  defines "ws \<equiv> map fst (fo_workers (mi_forwarder st))"
  defines "st1 \<equiv> mesh_close_finish pl
    (fold (\<lambda>w. mesh_join_relay w []) ws (mesh_join_accept (mesh_close_begin st)))"
  shows "mi_log st1 = mi_log st @ snd (MeshForwarder_Close pl (mi_forwarder st))"
    and "mi_forwarder st1 = fst (MeshForwarder_Close pl (mi_forwarder st))"
proof -
  have fold_log: "mi_log (fold (\<lambda>w. mesh_join_relay w []) xs s) = mi_log s @ join_pumps xs"
    and fold_fo: "mi_forwarder (fold (\<lambda>w. mesh_join_relay w []) xs s) = mi_forwarder s" for xs s
    by (induction xs arbitrary: s) (simp_all add: mesh_join_relay_def mi_calls_def join_pumps_def)
  show "mi_log st1 = mi_log st @ snd (MeshForwarder_Close pl (mi_forwarder st))"
    and "mi_forwarder st1 = fst (MeshForwarder_Close pl (mi_forwarder st))"
    unfolding st1_def ws_def
    by (simp_all add: mesh_close_finish_def mi_calls_def Let_def fold_log fold_fo
        mesh_join_accept_def mesh_close_begin_def MeshForwarder_Close_def)
qed

section \<open>The invariant\<close>

definition mi_inv_fds :: "platform \<Rightarrow> int set \<Rightarrow> mesh_import_state \<Rightarrow> bool" where
  "mi_inv_fds pl F st \<longleftrightarrow>
     kInvalidSocket pl \<notin> F \<and> fo_listen_sock (mi_forwarder st) \<notin> F \<and> distinct (mi_sockets st) \<and>
     (\<forall>s \<in> set (mi_sockets st). SocketValid pl s \<and> s \<notin> insert (fo_listen_sock (mi_forwarder st)) F)"

definition mi_inv_ids :: "mesh_import_state \<Rightarrow> bool" where
  "mi_inv_ids st \<longleftrightarrow>
     distinct (map rl_id (mi_relays st)) \<and> rl_id ` set (mi_relays st) \<subseteq> mi_unjoined st \<and>
     distinct (map fst (fo_workers (mi_forwarder st))) \<and>
     (\<forall>w \<in> set (fo_workers (mi_forwarder st)). fst w < fo_spawned (mi_forwarder st)) \<and>
     (\<forall>ws. mi_close st = ClSweep ws \<longrightarrow> distinct ws)"

definition mi_inv_phase :: "platform \<Rightarrow> mesh_import_state \<Rightarrow> bool" where
  "mi_inv_phase pl st \<longleftrightarrow>
     (SocketValid pl (fo_listen_sock (mi_forwarder st)) \<longleftrightarrow> mi_close st \<noteq> ClClosed) \<and>
     (mi_close st = ClClosed \<longrightarrow> mi_relays st = []) \<and>
     (fo_accept_thread (mi_forwarder st) \<longleftrightarrow> mi_close st \<in> {ClOpen, ClJoin}) \<and>
     (mi_close st \<notin> {ClOpen, ClJoin} \<longrightarrow> mi_accept st = AcDone) \<and>
     (mi_close st \<noteq> ClOpen \<longrightarrow> mi_probe st = PrDone \<and> \<not> fo_running (mi_forwarder st))"

definition mesh_inv :: "platform \<Rightarrow> int set \<Rightarrow> mesh_import_state \<Rightarrow> bool" where
  "mesh_inv pl F st \<longleftrightarrow> mi_inv_fds pl F st \<and> mi_inv_ids st \<and> mi_inv_phase pl st"

definition mesh_keeps :: "platform \<Rightarrow> int set \<Rightarrow> mesh_import_state \<Rightarrow> mesh_import_state \<Rightarrow> bool" where
  "mesh_keeps pl F st st' \<longleftrightarrow>
     mesh_inv pl F st' \<and>
     (\<exists>l. mi_log st' = mi_log st @ l \<and>
          resource_run l (mi_resources pl F st) = Some (mi_resources pl F st'))"

lemmas mi_inv_defs = mesh_inv_def mi_inv_fds_def mi_inv_ids_def mi_inv_phase_def

lemmas mi_holds = mi_resources_def mi_fds_def mi_unjoined_def mi_sockets_def

lemma mi_calls_simps [simp]:
  "mi_forwarder (mi_calls l st) = mi_forwarder st" "mi_accept (mi_calls l st) = mi_accept st"
  "mi_probe (mi_calls l st) = mi_probe st" "mi_relays (mi_calls l st) = mi_relays st"
  "mi_close (mi_calls l st) = mi_close st" "mi_log (mi_calls l st) = mi_log st @ l"
  by (simp_all add: mi_calls_def)

lemma mi_calls_holds [simp]:
  "mi_resources pl F (mi_calls l st) = mi_resources pl F st"
  "mesh_inv pl F (mi_calls l st) = mesh_inv pl F st"
  by (simp_all add: mi_holds mi_inv_defs)

lemma mesh_keeps_calls:
  assumes "mesh_inv pl F st'" and "mi_log st' = mi_log st"
    and "resource_run l (mi_resources pl F st) = Some (mi_resources pl F st')"
  shows "mesh_keeps pl F st (mi_calls l st')"
  using assms by (simp add: mesh_keeps_def)

lemma mesh_keeps_same:
  assumes "mesh_inv pl F st'" and "mi_log st' = mi_log st"
    and "mi_resources pl F st' = mi_resources pl F st"
  shows "mesh_keeps pl F st st'"
  using assms by (simp add: mesh_keeps_def exI [of _ "[]"])

lemma relay_fds_simps [simp]:
  "relay_fds [] = []" "relay_fds (p # ps) = rl_client p # rl_mesh p # relay_fds ps"
  "relay_fds (ps @ qs) = relay_fds ps @ relay_fds qs"
  by (simp_all add: relay_fds_def)

lemma live_fds_update [simp]:
  "live_fds (mi_resources pl F st) = mi_fds pl F st"
  by (simp add: mi_resources_def)

text \<open>States that differ in their descriptors alone.\<close>

lemma mi_resources_fds:
  assumes "mi_forwarder st' = mi_forwarder st" and "mi_close st' = mi_close st"
  shows "mi_resources pl F st' = (mi_resources pl F st)\<lparr>live_fds := mi_fds pl F st'\<rparr>"
  using assms by (auto simp: mi_holds intro!: resources_eqI)

subsection \<open>The probe\<close>

lemma probe_try_keeps:
  assumes inv: "mesh_inv pl F st" and pc: "mi_probe st = PrTest" and new: "pr_socket t \<notin> mi_fds pl F st"
  shows "mesh_keeps pl F st (probe_try pl t st)"
proof -
  have cl: "mi_close st = ClOpen" and ls: "SocketValid pl (fo_listen_sock (mi_forwarder st))"
    using inv pc by (auto simp: mi_inv_defs)
  consider "\<not> pr_before_deadline t" | "pr_before_deadline t" "\<not> SocketValid pl (pr_socket t)"
    | (opened) "pr_before_deadline t" "SocketValid pl (pr_socket t)" by blast
  then show ?thesis
  proof cases
    case 1
    then show ?thesis unfolding probe_try_def
      using inv pc by (auto simp: mi_inv_defs mi_holds intro!: mesh_keeps_same)
  next
    case 2
    then show ?thesis using inv by (simp add: probe_try_def mesh_keeps_same)
  next
    case opened
    let ?st = "st\<lparr>mi_probe := PrClose (pr_socket t) (pr_connect t = 0)\<rparr>"
    have fds: "mi_fds pl F ?st = insert (pr_socket t) (mi_fds pl F st)"
      using pc by (auto simp: mi_fds_def mi_sockets_def)
    have "mesh_inv pl F ?st"
      using inv pc cl new ls opened(2) by (auto simp: mi_inv_defs mi_fds_def mi_sockets_def mi_unjoined_def)
    moreover have "resource_run [OpenFd (pr_socket t), ConnectFd (pr_socket t)] (mi_resources pl F st) =
        Some (mi_resources pl F ?st)"
      using new by (simp add: mi_resources_fds [of ?st st] fds)
    ultimately show ?thesis using opened by (simp add: probe_try_def mesh_keeps_calls)
  qed
qed

lemma probe_close_keeps:
  assumes inv: "mesh_inv pl F st" and pc: "mi_probe st = PrClose s ok"
  shows "mesh_keeps pl F st (probe_close pl s ok st)"
proof -
  let ?st = "st\<lparr>mi_probe := (if ok then PrDone else PrTest)\<rparr>"
  have s: "SocketValid pl s" "s \<notin> insert (fo_listen_sock (mi_forwarder st)) F" "s \<notin> set (relay_fds (mi_relays st))"
    using inv pc by (auto simp: mi_inv_defs mi_sockets_def)
  then have fds: "mi_fds pl F ?st = mi_fds pl F st - {s}" "s \<in> mi_fds pl F st"
    using pc by (auto simp: mi_fds_def mi_sockets_def)
  have "mesh_inv pl F ?st"
    using inv pc by (auto simp: mi_inv_defs mi_sockets_def mi_unjoined_def)
  moreover have "resource_run (CloseSocketHandle pl s) (mi_resources pl F st) = Some (mi_resources pl F ?st)"
    using s(1) fds by (simp add: CloseSocketHandle_run mi_resources_fds [of ?st st])
  ultimately show ?thesis by (simp add: probe_close_def mesh_keeps_calls)
qed

subsection \<open>Pumps\<close>

lemma relay_goto_keeps:
  assumes "mesh_inv pl F st" and "mi_relays st = xs @ p # ys"
  shows "mesh_inv pl F (relay_goto pc xs p ys st)"
    and "mi_resources pl F (relay_goto pc xs p ys st) = mi_resources pl F st"
    and "mi_log (relay_goto pc xs p ys st) = mi_log st"
  using assms by (simp_all add: relay_goto_def mi_holds mi_inv_defs)

lemma relay_live:
  assumes "mesh_inv pl F st" and "mi_relays st = xs @ p # ys"
  shows "rl_client p \<in> mi_fds pl F st" "rl_mesh p \<in> mi_fds pl F st" "rl_client p \<noteq> rl_mesh p"
    "SocketValid pl (rl_client p)" "SocketValid pl (rl_mesh p)"
  using assms by (auto simp: mi_fds_def mi_inv_defs mi_sockets_def)

lemma relay_leave_keeps:
  assumes inv: "mesh_inv pl F st" and ps: "mi_relays st = xs @ p # ys"
    and run: "resource_run l (mi_resources pl F st) = Some (mi_resources pl F st)"
  shows "mesh_keeps pl F st (relay_leave pl l xs p ys st)"
proof -
  let ?st = "st\<lparr>mi_relays := xs @ ys\<rparr>" and ?r = "mi_resources pl F st"
  have "{rl_client p, rl_mesh p} \<inter> (insert (fo_listen_sock (mi_forwarder st)) F \<union> set (probe_fd (mi_probe st)) \<union>
      set (relay_fds (xs @ ys))) = {}"
    using inv ps by (auto simp: mi_inv_defs mi_sockets_def)
  then have "mi_fds pl F ?st = mi_fds pl F st - {rl_client p} - {rl_mesh p}"
    by (auto simp: mi_fds_def mi_sockets_def ps)
  then have "resource_run (l @ CloseSocketHandle pl (rl_client p) @ CloseSocketHandle pl (rl_mesh p)) ?r =
      Some (mi_resources pl F ?st)"
    using run relay_live [OF inv ps]
    by (simp add: resource_run_append CloseSocketHandle_def mi_resources_fds [of ?st st])
  moreover have "mesh_inv pl F ?st"
    using inv ps by (auto simp: mi_inv_defs mi_sockets_def mi_unjoined_def)
  ultimately show ?thesis unfolding relay_leave_def by (intro mesh_keeps_calls) simp_all
qed

lemma relay_pass_keeps:
  assumes inv: "mesh_inv pl F st" and ps: "mi_relays st = xs @ p # ys"
  shows "mesh_keeps pl F st (relay_pass pl t xs p ys st)"
proof -
  obtain e l where el: "relay_loop pl (rl_client p) (rl_mesh p) [t] = (e, l)" by fastforce
  have run: "resource_run l (mi_resources pl F st) = Some (mi_resources pl F st)"
    using relay_loop_resources [of "rl_client p" "mi_resources pl F st" "rl_mesh p" pl "[t]"]
      relay_live [OF inv ps] el by simp
  then show ?thesis
    using el relay_goto_keeps [OF inv ps] relay_leave_keeps [OF inv ps run]
    by (simp add: relay_pass_def mesh_keeps_calls del: relay_loop.simps)
qed

subsection \<open>The accepting thread\<close>

lemma mesh_accept_moves:
  assumes "mesh_inv pl F st" and "mi_close st \<in> {ClOpen, ClJoin}"
  shows "mesh_inv pl F (st\<lparr>mi_forwarder := (mi_forwarder st)\<lparr>fo_attrs := at\<rparr>, mi_accept := pc\<rparr>)"
    and "mi_resources pl F (st\<lparr>mi_forwarder := (mi_forwarder st)\<lparr>fo_attrs := at\<rparr>, mi_accept := pc\<rparr>) =
      mi_resources pl F st"
  using assms by (simp_all add: mi_holds mi_inv_defs)

lemma mesh_accept_test_keeps:
  assumes "mesh_inv pl F st" and "mi_accept st = AcTest"
  shows "mesh_keeps pl F st (mesh_accept_test st)"
proof -
  have "mi_close st \<in> {ClOpen, ClJoin}" using assms by (auto simp: mi_inv_defs)
  then show ?thesis
    unfolding mesh_accept_test_def using mesh_accept_moves [OF assms(1), of _ "fo_attrs (mi_forwarder st)"]
    by (intro mesh_keeps_same) simp_all
qed

text \<open>One turn, by what came of it.\<close>

lemma mesh_turn_cases:
  assumes "MeshForwarder_AcceptLoop pl mb [t] ml be fo = (fin, fo', ml', be', l)"
  obtains (kept) at where "fo' = fo\<lparr>fo_attrs := at\<rparr>"
      "\<And>r. fo_listen_sock fo \<in> live_fds r \<Longrightarrow> (SocketValid pl (ft_accept t) \<longrightarrow> ft_accept t \<notin> live_fds r) \<Longrightarrow>
         resource_run l r = Some r"
    | (spawned) mesh where "\<not> fin" "fo' = spawn_mesh_worker (ft_accept t) mesh fo"
        "SocketValid pl (ft_accept t)" "mesh = dr_stream (ft_dial t)" "dr_rc (ft_dial t) = 0"
        "mesh \<noteq> kMeshStreamInvalid"
        "l = [SelectRead [fo_listen_sock fo], OpenFd (ft_accept t), OpenFd mesh,
           SpawnThread (PumpThread (fo_spawned fo))]"
proof -
  let ?c = "ft_accept t"
  obtain d ml1 be1 calls where dial: "Dial pl mb (ft_up t) (ft_dial t) (at_remote_host (fo_attrs fo))
      (at_remote_port (fo_attrs fo)) ml be = (d, ml1, be1, calls)" by (metis prod_cases4)
  have closed: "resource_run (CloseSocketHandle pl ?c) (r\<lparr>live_fds := insert ?c (live_fds r)\<rparr>) = Some r"
    if "SocketValid pl ?c" "?c \<notin> live_fds r" for r
    using that by (simp add: CloseSocketHandle_def)
  consider (short) "\<not> ft_running t \<or> ft_select t \<le> 0 \<or> \<not> SocketValid pl ?c"
    | (late) "ft_running t" "ft_select t > 0" "SocketValid pl ?c" "\<not> ft_running_after t"
    | (dialled) m where "ft_running t" "ft_select t > 0" "SocketValid pl ?c" "ft_running_after t" "d = Returns m"
    | (refused) e where "ft_running t" "ft_select t > 0" "SocketValid pl ?c" "ft_running_after t" "d = Throws e"
    using Dial_cases(1) [OF dial] by (cases d) (linarith | force)+
  then show thesis
  proof cases
    case short
    then show thesis using assms by (intro kept [of "fo_attrs fo"]) (auto simp: Let_def split: if_splits)
  next
    case late
    then show thesis using assms closed by (intro kept [of "fo_attrs fo"]) (auto simp: Let_def)
  next
    case dialled
    then show thesis using assms dial Dial_cases(2) [OF dial dialled(5)]
      by (intro spawned [of m]) (auto simp: Let_def)
  next
    case refused
    then show thesis using assms dial closed
      by (intro kept [of "(fo_attrs fo)\<lparr>at_error_message := exn_message e\<rparr>"]) (auto simp: Let_def)
  qed
qed

lemma new_relays_kept [simp]: "new_relays fo (fo\<lparr>fo_attrs := at\<rparr>) = []"
  by (simp add: new_relays_def)

lemma new_relays_spawn [simp]:
  "new_relays fo (spawn_mesh_worker client mesh fo) =
     [\<lparr>rl_id = fo_spawned fo, rl_client = client, rl_mesh = mesh, rl_pc = RlTest\<rparr>]"
  by (simp add: new_relays_def spawn_mesh_worker_def)

lemma mesh_spawn_keeps:
  assumes inv: "mesh_inv pl F st" and cl: "mi_close st \<in> {ClOpen, ClJoin}"
    and c: "SocketValid pl client" "client \<notin> mi_fds pl F st"
    and m: "SocketValid pl mesh" "mesh \<notin> insert client (mi_fds pl F st)"
  defines "fo \<equiv> mi_forwarder st"
  defines "st' \<equiv> st\<lparr>mi_forwarder := spawn_mesh_worker client mesh fo, mi_accept := AcTest,
    mi_relays := mi_relays st @ new_relays fo (spawn_mesh_worker client mesh fo)\<rparr>"
  shows "mesh_inv pl F st'"
    and "resource_run [SelectRead [fo_listen_sock fo], OpenFd client, OpenFd mesh,
      SpawnThread (PumpThread (fo_spawned fo))] (mi_resources pl F st) = Some (mi_resources pl F st')"
proof -
  have sp: "fo_workers (spawn_mesh_worker client mesh fo) = fo_workers fo @ [(fo_spawned fo, client, mesh)]"
    "fo_spawned (spawn_mesh_worker client mesh fo) = Suc (fo_spawned fo)"
    "fo_listen_sock (spawn_mesh_worker client mesh fo) = fo_listen_sock fo"
    "fo_running (spawn_mesh_worker client mesh fo) = fo_running fo"
    "fo_accept_thread (spawn_mesh_worker client mesh fo) = fo_accept_thread fo"
    by (simp_all add: spawn_mesh_worker_def)
  have W: "left_to_join W (mi_close st) = W" for W using cl by auto
  have ls: "SocketValid pl (fo_listen_sock fo)" using inv cl by (auto simp: mi_inv_defs fo_def)
  have new: "fo_spawned fo \<notin> fst ` set (fo_workers fo)" using inv by (auto simp: mi_inv_defs fo_def)
  have socks: "mi_sockets st' = mi_sockets st @ [client, mesh]" by (simp add: st'_def mi_sockets_def)
  have ls': "fo_listen_sock (mi_forwarder st') = fo_listen_sock (mi_forwarder st)"
    by (simp add: st'_def fo_def spawn_mesh_worker_def)
  have "{client, mesh} \<inter> (insert (fo_listen_sock fo) F \<union> set (mi_sockets st)) = {}" "client \<noteq> mesh"
    using c m ls by (auto simp: mi_fds_def fo_def)
  then have "mi_inv_fds pl F st'"
    using inv c(1) m(1) by (simp add: mesh_inv_def mi_inv_fds_def socks ls' fo_def)
  moreover have "mi_inv_ids st'"
  proof -
    have "mi_inv_ids st" using inv by (simp add: mesh_inv_def)
    moreover have "mi_close st' = mi_close st" "mi_relays st' = mi_relays st @
        [\<lparr>rl_id = fo_spawned fo, rl_client = client, rl_mesh = mesh, rl_pc = RlTest\<rparr>]"
        "mi_forwarder st' = spawn_mesh_worker client mesh fo"
      by (simp_all add: st'_def)
    ultimately show ?thesis
      using new by (auto simp: mi_inv_ids_def mi_unjoined_def W sp less_Suc_eq fo_def [symmetric])
  qed
  moreover have "mi_inv_phase pl st'" using inv cl
    by (simp add: st'_def mesh_inv_def mi_inv_phase_def sp fo_def [symmetric]) auto
  ultimately show "mesh_inv pl F st'" by (simp add: mesh_inv_def)
  have fds: "mi_fds pl F st' = insert mesh (insert client (mi_fds pl F st))"
    by (auto simp: mi_fds_def socks ls')
  have thr: "PumpThread (fo_spawned fo) \<notin> live_threads (mi_resources pl F st)"
      "live_threads (mi_resources pl F st') = insert (PumpThread (fo_spawned fo)) (live_threads (mi_resources pl F st))"
    using new by (auto simp: mi_resources_def mi_unjoined_def W st'_def sp fo_def [symmetric])
  have "mi_resources pl F st' = (mi_resources pl F st)
      \<lparr>live_fds := insert mesh (insert client (mi_fds pl F st)),
       live_threads := insert (PumpThread (fo_spawned fo)) (live_threads (mi_resources pl F st))\<rparr>"
    unfolding fds [symmetric] thr(2) [symmetric] by (simp add: mi_resources_def)
  moreover have "fo_listen_sock fo \<in> mi_fds pl F st" using ls by (simp add: mi_fds_def fo_def)
  ultimately show "resource_run [SelectRead [fo_listen_sock fo], OpenFd client, OpenFd mesh,
      SpawnThread (PumpThread (fo_spawned fo))] (mi_resources pl F st) = Some (mi_resources pl F st')"
    using c m thr(1) by simp
qed

lemma mesh_accept_pass_keeps:
  assumes inv: "mesh_inv pl F st" and pc: "mi_accept st = AcBody" and t: "mesh_stream_ok pl (mi_fds pl F st) t"
  shows "mesh_keeps pl F st (mesh_accept_pass pl mb ml be t st)"
proof -
  let ?fo = "mi_forwarder st"
  obtain fin fo ml' be' l where
    call: "MeshForwarder_AcceptLoop pl mb [t] ml be ?fo = (fin, fo, ml', be', l)" by (metis prod_cases5)
  have cl: "mi_close st \<in> {ClOpen, ClJoin}" using inv pc by (auto simp: mi_inv_defs)
  have ls: "fo_listen_sock ?fo \<in> mi_fds pl F st" using inv cl by (auto simp: mi_inv_defs mi_fds_def)
  from call show ?thesis
  proof (cases rule: mesh_turn_cases)
    case (kept at)
    have "resource_run l (mi_resources pl F st) = Some (mi_resources pl F st)"
      using kept(2) ls t by (simp add: mesh_stream_ok_def)
    then show ?thesis
      using call kept(1) mesh_accept_moves [OF inv cl]
      by (simp add: mesh_accept_pass_def mesh_keeps_calls del: MeshForwarder_AcceptLoop.simps)
  next
    case (spawned mesh)
    have "ft_accept t \<notin> mi_fds pl F st" "SocketValid pl mesh" "mesh \<notin> insert (ft_accept t) (mi_fds pl F st)"
      using t spawned(3-6) by (auto simp: mesh_stream_ok_def)
    note sp = mesh_spawn_keeps [OF inv cl spawned(3) this]
    show ?thesis
      unfolding mesh_accept_pass_def call spawned(2) prod.case Let_def
      using sp spawned(1,7) by (simp add: mesh_keeps_calls del: resource_run.simps new_relays_spawn)
  qed
qed

subsection \<open>Closing\<close>

lemma mesh_close_begin_keeps:
  assumes "mesh_inv pl F st" and "mi_close st = ClOpen" and "mi_probe st = PrDone"
  shows "mesh_keeps pl F st (mesh_close_begin st)"
  using assms unfolding mesh_close_begin_def
  by (intro mesh_keeps_same) (simp_all add: mi_inv_defs mi_holds)

lemma mesh_join_accept_keeps:
  assumes "mesh_inv pl F st" and "mi_close st = ClJoin" and "mi_accept st = AcDone"
  shows "mesh_keeps pl F st (mesh_join_accept st)"
proof -
  let ?st = "st\<lparr>mi_forwarder := (mi_forwarder st)\<lparr>fo_accept_thread := False\<rparr>,
    mi_close := ClSweep (map fst (fo_workers (mi_forwarder st)))\<rparr>"
  have "mesh_inv pl F ?st" "fo_accept_thread (mi_forwarder st)"
    using assms by (simp_all add: mi_inv_defs mi_unjoined_def mi_sockets_def)
  moreover from this(2) have
    "resource_run [JoinThread AcceptThread] (mi_resources pl F st) = Some (mi_resources pl F ?st)"
    using assms by (auto simp: mi_holds)
  ultimately show ?thesis unfolding mesh_join_accept_def by (intro mesh_keeps_calls) simp_all
qed

lemma mesh_join_relay_keeps:
  assumes "mesh_inv pl F st" and "mi_close st = ClSweep (w # ws)" and "w \<notin> rl_id ` set (mi_relays st)"
  shows "mesh_keeps pl F st (mesh_join_relay w ws st)"
proof -
  let ?st = "st\<lparr>mi_close := ClSweep ws\<rparr>"
  have "mesh_inv pl F ?st" "w \<notin> set ws" "\<not> fo_accept_thread (mi_forwarder st)"
    using assms by (auto simp: mi_inv_defs mi_unjoined_def mi_sockets_def)
  moreover from this(2,3) have
    "resource_run [JoinThread (PumpThread w)] (mi_resources pl F st) = Some (mi_resources pl F ?st)"
    using assms(2) by (auto simp: mi_holds)
  ultimately show ?thesis unfolding mesh_join_relay_def by (intro mesh_keeps_calls) simp_all
qed

lemma mesh_close_finish_keeps:
  assumes "mesh_inv pl F st" and "mi_close st = ClSweep []"
  shows "mesh_keeps pl F st (mesh_close_finish pl st)"
proof -
  let ?fo = "mi_forwarder st"
  have st: "mi_relays st = []" "mi_probe st = PrDone" "\<not> fo_accept_thread ?fo" "mi_accept st = AcDone"
      "\<not> fo_running ?fo" "SocketValid pl (fo_listen_sock ?fo)" "fo_listen_sock ?fo \<notin> F" "kInvalidSocket pl \<notin> F"
    using assms by (simp_all add: mi_inv_defs mi_unjoined_def)
  have "resource_run (CloseSocketHandle pl (fo_listen_sock ?fo)) (mi_resources pl F st) =
      Some (mi_resources pl F (mesh_close_finish pl st))"
    using st assms(2)
    by (auto simp: CloseSocketHandle_def mesh_close_finish_def Let_def mi_holds intro!: resources_eqI)
  moreover have "mesh_inv pl F (mesh_close_finish pl st)"
    using st by (simp add: mesh_close_finish_def Let_def mi_inv_defs mi_unjoined_def mi_sockets_def)
  ultimately show ?thesis by (simp add: mesh_keeps_def mesh_close_finish_def Let_def)
qed

subsection \<open>Every step\<close>

lemma mesh_step_keeps:
  assumes "mesh_step pl mb F st st'" and "mesh_inv pl F st"
  shows "mesh_keeps pl F st st'"
  using assms(1)
proof cases
  case (RelayTest xs p ys)
  then show ?thesis
    using relay_goto_keeps [OF assms(2), of xs p ys RlBody] relay_leave_keeps [OF assms(2), of xs p ys "[]"]
    by (simp add: relay_test_def mesh_keeps_same)
qed (use assms(2) in \<open>simp_all add: probe_try_keeps probe_close_keeps mesh_accept_test_keeps
   mesh_accept_pass_keeps relay_pass_keeps mesh_close_begin_keeps mesh_join_accept_keeps
   mesh_join_relay_keeps mesh_close_finish_keeps\<close>)

lemma mesh_closed:
  assumes "mesh_inv pl F st" and "mi_close st = ClClosed"
  shows "mi_resources pl F st = only_fds F"
  using assms by (auto simp: mi_inv_defs mi_holds intro!: resources_eqI)

section \<open>A close that has begun returns\<close>

lemma mi_calls_cost [simp]: "mesh_bound (mi_calls l st) = mesh_bound st"
  by (simp add: mesh_bound_def)

lemma relay_cost_pos: "0 < relay_cost pc"
  by (cases pc) simp_all

lemma relay_leave_cost:
  assumes "mi_relays st = xs @ p # ys"
  shows "mesh_bound (relay_leave pl l xs p ys st) < mesh_bound st"
  using assms relay_cost_pos [of "rl_pc p"] by (simp add: relay_leave_def mesh_bound_def)

lemma relay_goto_cost:
  assumes "mi_relays st = xs @ p # ys" and "relay_cost pc < relay_cost (rl_pc p)"
  shows "mesh_bound (relay_goto pc xs p ys st) < mesh_bound st"
  using assms by (simp add: relay_goto_def mesh_bound_def)

lemma relay_close [simp]:
  "mi_close (relay_leave pl l xs p ys st) = mi_close st" "mi_close (relay_goto pc xs p ys st) = mi_close st"
  by (simp_all add: relay_leave_def relay_goto_def)

lemma mesh_accept_pass_cost:
  assumes pc: "mi_accept st = AcBody" and cl: "mi_close st = ClJoin"
  shows "mesh_bound (mesh_accept_pass pl mb ml be t st) < mesh_bound st"
    and "mi_close (mesh_accept_pass pl mb ml be t st) = ClJoin"
proof -
  let ?fo = "mi_forwarder st"
  obtain fin fo ml' be' l where
    call: "MeshForwarder_AcceptLoop pl mb [t] ml be ?fo = (fin, fo, ml', be', l)" by (metis prod_cases5)
  from call show "mesh_bound (mesh_accept_pass pl mb ml be t st) < mesh_bound st"
  proof (cases rule: mesh_turn_cases)
    case (kept at)
    then show ?thesis
      using call pc by (simp add: mesh_accept_pass_def mesh_bound_def del: MeshForwarder_AcceptLoop.simps)
  next
    case (spawned mesh)
    then have "length (fo_workers fo) = Suc (length (fo_workers ?fo))" by (simp add: spawn_mesh_worker_def)
    then show ?thesis
      using call pc cl spawned(1,2)
      by (simp add: mesh_accept_pass_def mesh_bound_def del: MeshForwarder_AcceptLoop.simps)
  qed
  show "mi_close (mesh_accept_pass pl mb ml be t st) = ClJoin"
    using cl by (simp add: mesh_accept_pass_def call del: MeshForwarder_AcceptLoop.simps)
qed

lemma mesh_step_cost:
  assumes "mesh_step pl mb F st st'" and inv: "mesh_inv pl F st" and cl: "mi_close st \<noteq> ClOpen"
  shows "mi_close st' \<noteq> ClOpen \<and> mesh_bound st' < mesh_bound st"
proof -
  have stop: "\<not> fo_running (mi_forwarder st)" "mi_probe st = PrDone" using inv cl by (simp_all add: mi_inv_defs)
  from assms(1) show ?thesis
  proof cases
    case MeshAcceptTest
    then show ?thesis using stop cl by (simp add: mesh_accept_test_def mesh_bound_def)
  next
    case (MeshAcceptBody t ml be)
    then have "mi_close st = ClJoin" using inv cl by (auto simp: mi_inv_defs)
    then show ?thesis using MeshAcceptBody mesh_accept_pass_cost [of st] by simp
  next
    case (RelayTest xs p ys)
    then show ?thesis using stop cl relay_leave_cost by (simp add: relay_test_def)
  next
    case (RelayBody xs p ys t)
    then show ?thesis using relay_goto_cost [of st xs p ys RlTest] relay_leave_cost [of st xs p ys] cl
      by (simp add: relay_pass_def case_prod_beta del: relay_loop.simps)
  qed (use stop cl in \<open>auto simp: mesh_bound_def mesh_join_accept_def mesh_join_relay_def
    mesh_close_finish_def Let_def\<close>)
qed

text \<open>A thread that has not ended can move, so no wait is for ever.\<close>

lemma relay_moves:
  assumes "mi_relays st = p # ys"
  shows "\<exists>st'. mesh_step pl mb F st st'"
proof (cases "rl_pc p")
  case RlBody
  let ?t = "\<lparr>rt_running = True, rt_select = 0, rt_client_ready = False, rt_client_recv = Received [],
    rt_client_sends = [], rt_mesh_ready = False, rt_mesh_recv = Received [], rt_mesh_sends = []\<rparr>"
  have "rt_complete pl (rl_client p) (rl_mesh p) ?t" by (simp add: rt_complete_def)
  with RlBody assms show ?thesis using RelayBody [of st "[]" p ys ?t pl mb F] by auto
qed (use assms RelayTest [of st "[]" p ys] in auto)

lemma mesh_accept_moves_on:
  assumes "mi_accept st \<noteq> AcDone"
  shows "\<exists>st'. mesh_step pl mb F st st'"
proof (cases "mi_accept st")
  case AcBody
  let ?t = "\<lparr>ft_running = True, ft_select = 0, ft_accept = kInvalidSocket pl, ft_running_after = False,
    ft_up = undefined, ft_dial = \<lparr>dr_rc = 1, dr_stream = 0, dr_errmsg = []\<rparr>\<rparr>"
  have "mesh_stream_ok pl (mi_fds pl F st) ?t" by (simp add: mesh_stream_ok_def)
  then show ?thesis using AcBody MeshAcceptBody [of st ?t pl F mb] by auto
qed (use assms MeshAcceptTest in blast)+

lemma probe_moves:
  assumes "mi_probe st \<noteq> PrDone" and "mesh_inv pl F st"
  shows "\<exists>st'. mesh_step pl mb F st st'"
proof (cases "mi_probe st")
  case PrTest
  have "\<forall>s \<in> set (mi_sockets st). SocketValid pl s" "kInvalidSocket pl \<notin> F"
    using assms(2) by (simp_all add: mesh_inv_def mi_inv_fds_def)
  then have "kInvalidSocket pl \<notin> mi_fds pl F st" by (auto simp: mi_fds_def SocketValid_def)
  then show ?thesis
    using PrTest ProbeTry [of st "\<lparr>pr_before_deadline = False, pr_socket = kInvalidSocket pl, pr_connect = 0\<rparr>" pl F mb]
    by auto
qed (use assms ProbeClose in blast)+

lemma mesh_progress:
  assumes "mesh_inv pl F st"
  shows "(\<nexists>st'. mesh_step pl mb F st st') \<longleftrightarrow> mi_close st = ClClosed"
proof
  assume closed: "mi_close st = ClClosed"
  then have "mi_accept st = AcDone" "mi_relays st = []" "mi_probe st = PrDone"
    using assms by (auto simp: mi_inv_defs)
  with closed show "\<nexists>st'. mesh_step pl mb F st st'" by (auto elim: mesh_step.cases)
next
  assume stuck: "\<nexists>st'. mesh_step pl mb F st st'"
  then have ended: "mi_accept st = AcDone" "mi_relays st = []" "mi_probe st = PrDone"
    using mesh_accept_moves_on [of st pl mb F] relay_moves [of st _ _ pl mb F] probe_moves [OF _ assms, of mb]
    by (blast, cases "mi_relays st", auto)
  show "mi_close st = ClClosed"
  proof (cases "mi_close st")
    case (ClSweep ws)
    then show ?thesis
      using stuck ended MeshJoinRelay [of st _ _ pl mb F] MeshCloseFinish [of st pl mb F]
      by (cases ws) (simp_all)
  qed (use stuck ended MeshCloseBegin [of st] MeshJoinAccept [of st] in blast)+
qed

interpretation mi_sys: closing_system "mesh_step pl mb F" "mesh_inv pl F" "mi_resources pl F" mi_log
    "\<lambda>st. mi_close st \<noteq> ClOpen" "\<lambda>st. mi_close st = ClClosed" mesh_bound for pl mb F
proof unfold_locales
  fix s s'
  assume step: "mesh_step pl mb F s s'" and inv: "mesh_inv pl F s"
  show "mesh_inv pl F s' \<and> (\<exists>l. mi_log s' = mi_log s @ l \<and>
      resource_run l (mi_resources pl F s) = Some (mi_resources pl F s'))"
    using mesh_step_keeps [OF step inv] by (simp add: mesh_keeps_def)
  show "mi_close s' \<noteq> ClOpen \<and> mesh_bound s' < mesh_bound s" if "mi_close s \<noteq> ClOpen"
    using mesh_step_cost [OF step inv that] .
qed (rule mesh_progress)

section \<open>From the listener on\<close>

lemma forwarder_listen_probing:
  assumes "forwarder_listen pl timeout (a\<lparr>fs_probes := []\<rparr>) (make_MeshForwarder pl kind rh rp lp ba) = (None, fo, l)"
  shows "SocketValid pl (fo_listen_sock fo) \<and> fo_accept_thread fo \<and> fo_workers fo = []"
  using assms by (auto simp: forwarder_listen_def Let_def make_MeshForwarder_def split: if_splits)

lemma mesh_life:
  assumes no: "kInvalidSocket pl \<notin> F" "fs_socket a \<notin> F"
    and listen: "forwarder_listen pl timeout (a\<lparr>fs_probes := []\<rparr>) (make_MeshForwarder pl kind rh rp lp ba) =
      (None, fo, l)"
    and run: "(mesh_step pl mb F)\<^sup>*\<^sup>* (mesh_import_init fo) st"
  shows "mesh_inv pl F st" and "resource_run (l @ mi_log st) (only_fds F) = Some (mi_resources pl F st)"
proof -
  have s: "resource_run l (only_fds F) = Some (fo_resources pl F fo)" "fo_invariant pl F fo"
    using forwarder_listen_resources [OF refl no(1) _ _ listen] no(2) by simp_all
  note fo = forwarder_listen_probing [OF listen]
  have inv: "mesh_inv pl F (mesh_import_init fo)"
    using s(2) fo no by (simp add: mesh_import_init_def mi_inv_defs mi_sockets_def mi_unjoined_def fo_invariant_def)
  have res: "mi_resources pl F (mesh_import_init fo) = fo_resources pl F fo"
    using fo by (simp add: mesh_import_init_def mi_holds fo_resources_def)
  have "resource_run (mi_log (mesh_import_init fo)) (mi_resources pl F (mesh_import_init fo)) =
      Some (mi_resources pl F (mesh_import_init fo))"
    by (simp add: mesh_import_init_def)
  from mi_sys.reachable [OF run inv this]
  show "mesh_inv pl F st" and "resource_run (l @ mi_log st) (only_fds F) = Some (mi_resources pl F st)"
    using s(1) res by (simp_all add: resource_run_append)
qed

section \<open>Properties\<close>

text \<open>C15: A mesh import is safe in every interleaving of its threads, from the moment its accepting
  thread runs: whatever the probe of \<open>Start\<close>, the accepting thread, the pumps and the closing thread
  have done, in whatever order and whatever state the shared mesh node was in, no descriptor was used
  before it was acquired or after it was closed, none was closed twice, no thread was joined twice, and
  what is live is exactly what the state shows. Once \<open>Close\<close> has returned nothing is left.\<close>

theorem mesh_lifecycle_safe:
  assumes "kInvalidSocket pl \<notin> F" and "fs_socket a \<notin> F"
    and "forwarder_listen pl timeout (a\<lparr>fs_probes := []\<rparr>)
      (make_MeshForwarder pl kind remote_host remote_port local_port bind_all) = (None, fo, l)"
    and "(mesh_step pl mb F)\<^sup>*\<^sup>* (mesh_import_init fo) st"
  shows "resource_run (l @ mi_log st) (only_fds F) = Some (mi_resources pl F st) \<and>
    (mi_close st = ClClosed \<longrightarrow>
       mi_resources pl F st = only_fds F \<and> mi_relays st = [] \<and> mi_accept st = AcDone)"
  using mesh_life [OF assms] mesh_closed [of pl F st] by (auto simp: mi_inv_defs)

text \<open>The probe connects, its connection is accepted and dialled into the mesh, the import is closed.\<close>

definition demo_mesh_fo :: MeshForwarder where
  "demo_mesh_fo = fst (snd (forwarder_listen Linux 60 ((demo_listen 0)\<lparr>fs_probes := []\<rparr>) demo_forwarder))"

definition demo_relay_thread :: "relay_pc \<Rightarrow> relay_thread" where
  "demo_relay_thread pc = \<lparr>rl_id = 0, rl_client = 7, rl_mesh = 8, rl_pc = pc\<rparr>"

definition demo_mesh_accept :: "mesh_import_state \<Rightarrow> mesh_import_state" where
  "demo_mesh_accept =
     mesh_accept_pass Linux demo_build demo_loader (demo_node\<lparr>mk_up := True\<rparr>) (hd demo_mesh_turns)"

definition demo_mesh_closing :: mesh_import_state where
  "demo_mesh_closing =
     mesh_close_begin (probe_close Linux 6 True (demo_mesh_accept (mesh_accept_test
       (probe_try Linux \<lparr>pr_before_deadline = True, pr_socket = 6, pr_connect = 0\<rparr>
         (mesh_import_init demo_mesh_fo)))))"

definition demo_mesh_closed :: mesh_import_state where
  "demo_mesh_closed =
     mesh_close_finish Linux (mesh_join_relay 0 [] (mesh_join_accept (mesh_accept_test
       (relay_test Linux [] (demo_relay_thread RlTest) [] demo_mesh_closing))))"

lemma demo_mesh_listen:
  "forwarder_listen Linux 60 ((demo_listen 0)\<lparr>fs_probes := []\<rparr>)
     (make_MeshForwarder Linux NetBird ''db'' 5432 6432 False) =
   (None, demo_mesh_fo, snd (snd (forwarder_listen Linux 60 ((demo_listen 0)\<lparr>fs_probes := []\<rparr>) demo_forwarder)))"
  "kInvalidSocket Linux \<notin> {3}" "fs_socket (demo_listen 0) \<notin> {3}"
  "fo_listen_sock demo_mesh_fo = 5" "fo_workers demo_mesh_fo = []" "fo_spawned demo_mesh_fo = 0"
  "fo_running demo_mesh_fo" "fo_accept_thread demo_mesh_fo"
  by (simp_all add: demo_mesh_fo_def demo_forwarder_def forwarder_listen_def demo_listen_def Let_def
      SocketValid_def kInvalidSocket_def make_MeshForwarder_def)

lemma demo_mesh_turn:
  "MeshForwarder_AcceptLoop Linux demo_build [hd demo_mesh_turns] demo_loader (demo_node\<lparr>mk_up := True\<rparr>)
     demo_mesh_fo =
   (False, spawn_mesh_worker 7 8 demo_mesh_fo, demo_loader, demo_node\<lparr>mk_up := True\<rparr>,
    [SelectRead [5], OpenFd 7, OpenFd 8, SpawnThread (PumpThread 0)])"
  by (simp add: demo_mesh_turns_def Let_def Dial_def with_node_up demo_mesh_listen SocketValid_def
      kInvalidSocket_def kMeshStreamInvalid_def)

lemmas demo_mesh_steps = demo_relay_thread_def demo_mesh_accept_def mesh_import_init_def probe_try_def
  probe_close_def mesh_accept_test_def mesh_accept_pass_def relay_test_def relay_goto_def relay_leave_def
  mesh_close_begin_def mesh_join_accept_def mesh_join_relay_def mesh_close_finish_def demo_mesh_turn
  spawn_mesh_worker_def new_relays_def mi_fds_def mi_sockets_def Let_def SocketValid_def
  kInvalidSocket_def mesh_stream_ok_def demo_mesh_listen(4-)

lemmas mesh_runs = mesh_step.intros
  [THEN rtranclp.rtrancl_into_rtrancl [where r = "mesh_step pl mb F" for pl mb F, rotated]]

lemma demo_mesh_closing_reached:
  "(mesh_step Linux demo_build {3})\<^sup>*\<^sup>* (mesh_import_init demo_mesh_fo) demo_mesh_closing"
  unfolding demo_mesh_closing_def demo_mesh_accept_def
  by (intro mesh_runs rtranclp.rtrancl_refl)
    (simp_all add: demo_mesh_steps del: MeshForwarder_AcceptLoop.simps, simp_all add: demo_mesh_turns_def)

lemma demo_mesh_closed_reached:
  "(mesh_step Linux demo_build {3})\<^sup>*\<^sup>* demo_mesh_closing demo_mesh_closed"
  unfolding demo_mesh_closed_def demo_mesh_closing_def
  by (intro mesh_runs rtranclp.rtrancl_refl)
    (simp_all add: demo_mesh_steps del: MeshForwarder_AcceptLoop.simps)

theorem mesh_lifecycle_safe_witness:
  "mi_close demo_mesh_closed = ClClosed \<and>
   resource_run (snd (snd (forwarder_listen Linux 60 ((demo_listen 0)\<lparr>fs_probes := []\<rparr>) demo_forwarder)) @
     mi_log demo_mesh_closed) (only_fds {3}) = Some (only_fds {3})"
proof -
  have "mi_close demo_mesh_closed = ClClosed" by (simp add: demo_mesh_closed_def mesh_close_finish_def Let_def)
  with mesh_lifecycle_safe [OF demo_mesh_listen(2,3,1)
      rtranclp_trans [OF demo_mesh_closing_reached demo_mesh_closed_reached]]
  show ?thesis by simp
qed

text \<open>A \<open>Close\<close> of a mesh import that has begun returns, provided that the calls of the turn each
  thread is in return: however the threads are scheduled, at most \<open>mesh_bound\<close> more steps can be
  taken, and the only state in which no thread can move is the closed one.\<close>

theorem mesh_close_terminates:
  assumes "kInvalidSocket pl \<notin> F" and "fs_socket a \<notin> F"
    and "forwarder_listen pl timeout (a\<lparr>fs_probes := []\<rparr>)
      (make_MeshForwarder pl kind remote_host remote_port local_port bind_all) = (None, fo, l)"
    and "(mesh_step pl mb F)\<^sup>*\<^sup>* (mesh_import_init fo) st"
    and "mi_close st \<noteq> ClOpen" and "(mesh_step pl mb F ^^ n) st st'"
  shows "n + mesh_bound st' \<le> mesh_bound st \<and>
    ((\<nexists>st''. mesh_step pl mb F st' st'') \<longleftrightarrow> mi_close st' = ClClosed)"
  using mi_sys.closing_terminates [OF assms(6) mesh_life(1) [OF assms(1-4)] assms(5)] .

lemmas mesh_steps = mesh_step.intros
  [THEN relpowp_Suc_I [where P = "mesh_step pl mb F" for pl mb F, rotated]]

lemma demo_mesh_closed_steps:
  "(mesh_step Linux demo_build {3} ^^ Suc (Suc (Suc (Suc (Suc 0))))) demo_mesh_closing demo_mesh_closed"
  unfolding demo_mesh_closed_def demo_mesh_closing_def
  by (intro mesh_steps relpowp_0_I) (simp_all add: demo_mesh_steps del: MeshForwarder_AcceptLoop.simps)

theorem mesh_close_terminates_witness:
  "mesh_bound demo_mesh_closing = 5 \<and> mesh_bound demo_mesh_closed = 0 \<and>
   (\<nexists>st. mesh_step Linux demo_build {3} demo_mesh_closed st)"
proof -
  have "mi_close demo_mesh_closing \<noteq> ClOpen" "mesh_bound demo_mesh_closing = 5"
      "mi_close demo_mesh_closed = ClClosed"
    by (simp_all add: demo_mesh_closed_def demo_mesh_closing_def demo_mesh_steps mesh_bound_def
        del: MeshForwarder_AcceptLoop.simps)
  with mesh_close_terminates [OF demo_mesh_listen(2,3,1) demo_mesh_closing_reached _ demo_mesh_closed_steps]
  show ?thesis by simp
qed

end
