(* ===== verification/Lock_Order.thy ===== *)
theory Lock_Order
  imports Tunnel_Prelude
begin

text \<open>
  Threads that wait for mutexes and for each other. A thread is the list of its synchronisation
  actions: it acquires and releases mutexes, tries a mutex without waiting, starts threads, waits
  for the end of threads, and accesses shared variables. A state gives every started thread the rest of its actions and every mutex
  its owner. The locale states the discipline under which no state is a deadlock and no two threads
  access a variable at once: mutexes and threads have levels, a thread only ever waits for what is
  below it and below every mutex it holds, and it accesses a variable only while it holds the mutex
  that guards it.
\<close>

section \<open>Threads and mutexes\<close>

datatype ('m, 't, 'v) sync =
    Acquire 'm
  | TryAcquire 'm
  | Release 'm
  | Await 't
  | Spawn 't
  | Touch 'v

type_synonym ('m, 't, 'v) script = "('m, 't, 'v) sync list"

record ('m, 't, 'v) sync_state =
  ss_running :: "'t \<Rightarrow> ('m, 't, 'v) script option"
  ss_owner :: "'m \<Rightarrow> 't option"

text \<open>What follows the section of a mutex that could not be had.\<close>

definition after_release :: "'m \<Rightarrow> ('m, 't, 'v) script \<Rightarrow> ('m, 't, 'v) script" where
  "after_release m p = drop 1 (dropWhile (\<lambda>a. a \<noteq> Release m) p)"

definition finished :: "('m, 't, 'v) sync_state \<Rightarrow> 't \<Rightarrow> bool" where
  "finished s t \<longleftrightarrow> ss_running s t = None \<or> ss_running s t = Some []"

definition go_on :: "'t \<Rightarrow> ('m, 't, 'v) script \<Rightarrow> ('m, 't, 'v) sync_state \<Rightarrow> ('m, 't, 'v) sync_state" where
  "go_on t p s = s\<lparr>ss_running := (ss_running s)(t \<mapsto> p)\<rparr>"

text \<open>\<open>body\<close> gives a thread its actions. A thread that was never started is not waited for, and
  the name of a thread is used once.\<close>

inductive sync_step ::
  "('t \<Rightarrow> ('m, 't, 'v) script) \<Rightarrow> ('m, 't, 'v) sync_state \<Rightarrow> ('m, 't, 'v) sync_state \<Rightarrow> bool"
  for body where
  StepAcquire: "ss_running s t = Some (Acquire m # p) \<Longrightarrow> ss_owner s m = None \<Longrightarrow>
    sync_step body s (go_on t p (s\<lparr>ss_owner := (ss_owner s)(m \<mapsto> t)\<rparr>))"
| StepTry: "ss_running s t = Some (TryAcquire m # p) \<Longrightarrow> ss_owner s m = None \<Longrightarrow>
    sync_step body s (go_on t p (s\<lparr>ss_owner := (ss_owner s)(m \<mapsto> t)\<rparr>))"
| StepGiveUp: "ss_running s t = Some (TryAcquire m # p) \<Longrightarrow> ss_owner s m \<noteq> None \<Longrightarrow>
    sync_step body s (go_on t (after_release m p) s)"
| StepRelease: "ss_running s t = Some (Release m # p) \<Longrightarrow>
    sync_step body s (go_on t p (s\<lparr>ss_owner := (ss_owner s)(m := None)\<rparr>))"
| StepAwait: "ss_running s t = Some (Await u # p) \<Longrightarrow> finished s u \<Longrightarrow>
    sync_step body s (go_on t p s)"
| StepSpawn: "ss_running s t = Some (Spawn u # p) \<Longrightarrow> ss_running s u = None \<Longrightarrow>
    sync_step body s (go_on u (body u) (go_on t p s))"
| StepSpawned: "ss_running s t = Some (Spawn u # p) \<Longrightarrow> ss_running s u \<noteq> None \<Longrightarrow>
    sync_step body s (go_on t p s)"
| StepTouch: "ss_running s t = Some (Touch v # p) \<Longrightarrow> sync_step body s (go_on t p s)"

definition sync_init :: "'t set \<Rightarrow> ('t \<Rightarrow> ('m, 't, 'v) script) \<Rightarrow> ('m, 't, 'v) sync_state" where
  "sync_init T body =
     \<lparr>ss_running = (\<lambda>t. if t \<in> T then Some (body t) else None), ss_owner = (\<lambda>m. None)\<rparr>"

section \<open>The discipline\<close>

lemma after_release_length [termination_simp]:
  "length (after_release m p) < Suc (length p)"
  using length_dropWhile_le [of "\<lambda>a. a \<noteq> Release m" p] by (simp add: after_release_def)

text \<open>\<open>H\<close> are the mutexes that thread \<open>t\<close> holds before its actions.\<close>

fun ordered ::
  "('m \<Rightarrow> nat) \<Rightarrow> ('t \<Rightarrow> nat) \<Rightarrow> ('v \<Rightarrow> 'm) \<Rightarrow> 't \<Rightarrow> 'm set \<Rightarrow> ('m, 't, 'v) script \<Rightarrow> bool" where
  "ordered mlv tlv gd t H [] \<longleftrightarrow> H = {}"
| "ordered mlv tlv gd t H (Acquire m # p) \<longleftrightarrow>
     mlv m < tlv t \<and> (\<forall>m' \<in> H. mlv m < mlv m') \<and> ordered mlv tlv gd t (insert m H) p"
| "ordered mlv tlv gd t H (TryAcquire m # p) \<longleftrightarrow>
     m \<notin> H \<and> ordered mlv tlv gd t (insert m H) p \<and> ordered mlv tlv gd t H (after_release m p)"
| "ordered mlv tlv gd t H (Release m # p) \<longleftrightarrow> m \<in> H \<and> ordered mlv tlv gd t (H - {m}) p"
| "ordered mlv tlv gd t H (Await u # p) \<longleftrightarrow>
     tlv u < tlv t \<and> (\<forall>m' \<in> H. tlv u < mlv m') \<and> ordered mlv tlv gd t H p"
| "ordered mlv tlv gd t H (Spawn u # p) \<longleftrightarrow> ordered mlv tlv gd t H p"
| "ordered mlv tlv gd t H (Touch v # p) \<longleftrightarrow> gd v \<in> H \<and> ordered mlv tlv gd t H p"

definition held :: "('m, 't, 'v) sync_state \<Rightarrow> 't \<Rightarrow> 'm set" where
  "held s t = {m. ss_owner s m = Some t}"

text \<open>Sections and their order, for building scripts.\<close>

definition locked :: "'m \<Rightarrow> ('m, 't, 'v) script \<Rightarrow> ('m, 't, 'v) script" where
  "locked m p = Acquire m # p @ [Release m]"

definition try_locked :: "'m \<Rightarrow> ('m, 't, 'v) script \<Rightarrow> ('m, 't, 'v) script" where
  "try_locked m p = TryAcquire m # p @ [Release m]"

text \<open>A piece of a script that may stand wherever \<open>H\<close> is held, and leaves \<open>H\<close> held.\<close>

definition within ::
  "('m \<Rightarrow> nat) \<Rightarrow> ('t \<Rightarrow> nat) \<Rightarrow> ('v \<Rightarrow> 'm) \<Rightarrow> 't \<Rightarrow> 'm set \<Rightarrow> ('m, 't, 'v) script \<Rightarrow> bool" where
  "within mlv tlv gd t H p \<longleftrightarrow>
     (\<forall>q. ordered mlv tlv gd t H q \<longrightarrow> ordered mlv tlv gd t H (p @ q))"

named_theorems within_rules

lemma within_ordered: "within mlv tlv gd t {} p \<Longrightarrow> ordered mlv tlv gd t {} p"
  unfolding within_def by (metis append_Nil2 ordered.simps(1))

lemma within_Nil [within_rules]: "within mlv tlv gd t H []"
  by (simp add: within_def)

lemma within_append [within_rules]:
  "within mlv tlv gd t H p \<Longrightarrow> within mlv tlv gd t H q \<Longrightarrow> within mlv tlv gd t H (p @ q)"
  by (simp add: within_def)

lemma within_concat [within_rules]:
  "(\<And>p. p \<in> set ps \<Longrightarrow> within mlv tlv gd t H p) \<Longrightarrow> within mlv tlv gd t H (concat ps)"
  by (induction ps) (simp_all add: within_Nil within_append)

lemma within_if [within_rules]:
  "(b \<Longrightarrow> within mlv tlv gd t H p) \<Longrightarrow> (\<not> b \<Longrightarrow> within mlv tlv gd t H q) \<Longrightarrow>
   within mlv tlv gd t H (if b then p else q)"
  by simp

lemma within_Await [within_rules]:
  "tlv u < tlv t \<Longrightarrow> (\<And>m. m \<in> H \<Longrightarrow> tlv u < mlv m) \<Longrightarrow> within mlv tlv gd t H [Await u]"
  by (simp add: within_def)

lemma within_awaits [within_rules]:
  "(\<And>w. w \<in> set ws \<Longrightarrow> tlv (f w) < tlv t) \<Longrightarrow>
   (\<And>w m. w \<in> set ws \<Longrightarrow> m \<in> H \<Longrightarrow> tlv (f w) < mlv m) \<Longrightarrow>
   within mlv tlv gd t H (map (\<lambda>w. Await (f w)) ws)"
  by (induction ws) (simp_all add: within_def)

lemma within_Spawn [within_rules]: "within mlv tlv gd t H [Spawn u]"
  by (simp add: within_def)

lemma within_Touch [within_rules]: "gd v \<in> H \<Longrightarrow> within mlv tlv gd t H [Touch v]"
  by (simp add: within_def)

lemma within_locked [within_rules]:
  assumes "mlv m < tlv t" and "\<And>m'. m' \<in> H \<Longrightarrow> mlv m < mlv m'"
    and "within mlv tlv gd t (insert m H) p"
  shows "within mlv tlv gd t H (locked m p)"
proof -
  have "m \<notin> H" using assms(2) by blast
  then have "ordered mlv tlv gd t (insert m H) (Release m # q)" if "ordered mlv tlv gd t H q" for q
    using that by simp
  with assms show ?thesis by (simp add: within_def locked_def)
qed

lemma after_release_section:
  "Release m \<notin> set p \<Longrightarrow> after_release m (p @ Release m # q) = q"
  by (induction p) (auto simp: after_release_def)

lemma within_try_locked [within_rules]:
  assumes "m \<notin> H" and "Release m \<notin> set p" and "within mlv tlv gd t (insert m H) p"
  shows "within mlv tlv gd t H (try_locked m p)"
proof -
  have "ordered mlv tlv gd t (insert m H) (Release m # q)" if "ordered mlv tlv gd t H q" for q
    using that assms(1) by simp
  with assms show ?thesis by (simp add: within_def try_locked_def after_release_section)
qed

locale lock_order =
  fixes body :: "'t \<Rightarrow> ('m, 't, 'v) script" and mlv :: "'m \<Rightarrow> nat" and tlv :: "'t \<Rightarrow> nat"
    and gd :: "'v \<Rightarrow> 'm"
  assumes disciplined: "ordered mlv tlv gd t {} (body t)"
begin

definition sync_inv :: "('m, 't, 'v) sync_state \<Rightarrow> bool" where
  "sync_inv s \<longleftrightarrow>
     (\<forall>t p. ss_running s t = Some p \<longrightarrow> ordered mlv tlv gd t (held s t) p) \<and>
     (\<forall>m t. ss_owner s m = Some t \<longrightarrow> ss_running s t \<noteq> None)"

lemma inv_init: "sync_inv (sync_init T body)"
  by (simp add: sync_inv_def sync_init_def held_def disciplined)

lemma inv_ordered:
  assumes "sync_inv s" and "ss_running s t = Some p"
  shows "ordered mlv tlv gd t (held s t) p"
  using assms by (simp add: sync_inv_def)

text \<open>A step of one thread that leaves it a disciplined rest keeps the invariant.\<close>

lemma inv_go_on:
  assumes inv: "sync_inv s" and t: "ss_running s t \<noteq> None"
    and rest: "ordered mlv tlv gd t {m. ow m = Some t} p"
    and others: "\<And>u m. u \<noteq> t \<Longrightarrow> ow m = Some u \<longleftrightarrow> ss_owner s m = Some u"
  shows "sync_inv (go_on t p (s\<lparr>ss_owner := ow\<rparr>))"
proof -
  let ?s = "go_on t p (s\<lparr>ss_owner := ow\<rparr>)"
  have "held ?s u = held s u" if "u \<noteq> t" for u
    using others that by (simp add: held_def go_on_def)
  moreover have "held ?s t = {m. ow m = Some t}" by (simp add: held_def go_on_def)
  ultimately have "ordered mlv tlv gd u (held ?s u) q" if "ss_running ?s u = Some q" for u q
    using that inv rest by (cases "u = t") (auto simp: go_on_def sync_inv_def)
  moreover have "ss_running ?s u \<noteq> None" if "ss_owner ?s m = Some u" for m u
    using that inv t others by (cases "u = t") (auto simp: go_on_def sync_inv_def)
  ultimately show ?thesis by (simp add: sync_inv_def)
qed

lemma inv_go_on_same:
  assumes "sync_inv s" and "ss_running s t \<noteq> None" and "ordered mlv tlv gd t (held s t) p"
  shows "sync_inv (go_on t p s)"
  using inv_go_on [of s t "ss_owner s" p] assms by (simp add: held_def)

lemma inv_takes:
  assumes inv: "sync_inv s" and "ss_running s t = Some q" and "ss_owner s m = None"
    and "ordered mlv tlv gd t (insert m (held s t)) p"
  shows "sync_inv (go_on t p (s\<lparr>ss_owner := (ss_owner s)(m \<mapsto> t)\<rparr>))"
proof (rule inv_go_on [OF inv])
  have "{m'. ((ss_owner s)(m \<mapsto> t)) m' = Some t} = insert m (held s t)" by (auto simp: held_def)
  with assms(4) show "ordered mlv tlv gd t {m'. ((ss_owner s)(m \<mapsto> t)) m' = Some t} p" by simp
qed (use assms in \<open>auto split: if_splits\<close>)

lemma inv_owner_runs:
  assumes "sync_inv s" and "ss_owner s m = Some t"
  obtains q where "ss_running s t = Some q" and "m \<in> held s t"
proof -
  from assms have "ss_running s t \<noteq> None" "m \<in> held s t" by (auto simp: sync_inv_def held_def)
  with that show thesis by blast
qed

lemma inv_idle:
  assumes "sync_inv s" and "ss_running s t = None"
  shows "held s t = {}"
  using inv_owner_runs [OF assms(1)] assms(2) by (fastforce simp: held_def)

lemma inv_step:
  assumes "sync_step body s s'" and inv: "sync_inv s"
  shows "sync_inv s'"
  using assms(1)
proof cases
  case (StepAcquire t m p)
  then show ?thesis
    using inv_ordered [OF inv StepAcquire(2)] inv_takes [OF inv StepAcquire(2,3)] by simp
next
  case (StepTry t m p)
  then show ?thesis
    using inv_ordered [OF inv StepTry(2)] inv_takes [OF inv StepTry(2,3)] by simp
next
  case (StepGiveUp t m p)
  then show ?thesis
    using inv_ordered [OF inv StepGiveUp(2)] by (auto intro!: inv_go_on_same [OF inv])
next
  case (StepRelease t m p)
  have own: "ss_owner s m = Some t" and rest: "ordered mlv tlv gd t (held s t - {m}) p"
    using inv_ordered [OF inv StepRelease(2)] by (simp_all add: held_def)
  have "{m'. ((ss_owner s)(m := None)) m' = Some t} = held s t - {m}" by (auto simp: held_def)
  then show ?thesis unfolding StepRelease(1)
    by (intro inv_go_on [OF inv]) (use StepRelease(2) own rest in \<open>auto split: if_splits\<close>)
next
  case (StepAwait t u p)
  then show ?thesis
    using inv_ordered [OF inv StepAwait(2)] by (auto intro!: inv_go_on_same [OF inv])
next
  case (StepSpawn t u p)
  let ?s = "go_on t p s"
  have "sync_inv ?s"
    using StepSpawn inv_ordered [OF inv StepSpawn(2)] by (auto intro!: inv_go_on_same [OF inv])
  moreover
  have "held ?s u = {}" using inv_idle [OF inv StepSpawn(3)] by (simp add: held_def go_on_def)
  ultimately have "ordered mlv tlv gd v (held (go_on u (body u) ?s) v) q"
    if "ss_running (go_on u (body u) ?s) v = Some q" for v q
    using that disciplined [of u] by (cases "v = u") (auto simp: sync_inv_def held_def go_on_def)
  moreover have "ss_running (go_on u (body u) ?s) v \<noteq> None"
    if "ss_owner (go_on u (body u) ?s) m = Some v" for m v
    using that \<open>sync_inv ?s\<close> by (auto simp: sync_inv_def go_on_def)
  ultimately show ?thesis unfolding StepSpawn(1) by (simp add: sync_inv_def)
next
  case (StepSpawned t u p)
  then show ?thesis
    using inv_ordered [OF inv StepSpawned(2)] by (auto intro!: inv_go_on_same [OF inv])
next
  case (StepTouch t v p)
  then show ?thesis
    using inv_ordered [OF inv StepTouch(2)] by (auto intro!: inv_go_on_same [OF inv])
qed

lemma inv_reachable: "(sync_step body)\<^sup>*\<^sup>* (sync_init T body) s \<Longrightarrow> sync_inv s"
  by (induction rule: rtranclp_induct) (auto intro: inv_init inv_step)

text \<open>What a thread that cannot move waits for, by its level.\<close>

definition waits_at :: "('m, 't, 'v) sync_state \<Rightarrow> 't \<Rightarrow> nat \<Rightarrow> bool" where
  "waits_at s t n \<longleftrightarrow>
     (\<exists>m p. ss_running s t = Some (Acquire m # p) \<and> n = mlv m) \<or>
     (\<exists>u p. ss_running s t = Some (Await u # p) \<and> n = tlv u)"

lemma stuck_waits:
  assumes stuck: "\<nexists>s'. sync_step body s s'" and "\<not> finished s t"
  shows "\<exists>n. waits_at s t n"
proof -
  from assms(2) obtain a p where run: "ss_running s t = Some (a # p)"
    by (auto simp: finished_def neq_Nil_conv)
  show ?thesis
  proof (cases a)
    case (TryAcquire m)
    with run stuck StepTry [of s t m p] StepGiveUp [of s t m p] show ?thesis by blast
  next
    case (Release m)
    with run stuck StepRelease [of s t m p] show ?thesis by blast
  next
    case (Spawn u)
    with run stuck StepSpawn [of s t u p] StepSpawned [of s t u p] show ?thesis by blast
  next
    case (Touch v)
    with run stuck StepTouch [of s t v p] show ?thesis by blast
  qed (use run in \<open>auto simp: waits_at_def\<close>)
qed

text \<open>Who is waited for waits for something lower.\<close>

lemma stuck_descends:
  assumes inv: "sync_inv s" and stuck: "\<nexists>s'. sync_step body s s'" and "waits_at s t n"
  shows "\<exists>u k. waits_at s u k \<and> k < n"
  using assms(3) [unfolded waits_at_def]
proof (elim disjE exE conjE)
  fix m p assume run: "ss_running s t = Some (Acquire m # p)" and n: "n = mlv m"
  with stuck StepAcquire [of s t m p] obtain u where own: "ss_owner s m = Some u" by blast
  from inv_owner_runs [OF inv own] obtain q where q: "ss_running s u = Some q" and "m \<in> held s u" .
  then have ord: "ordered mlv tlv gd u (held s u) q" "q \<noteq> []"
    using inv_ordered [OF inv q] by auto
  with q have "\<not> finished s u" by (simp add: finished_def)
  from stuck_waits [OF stuck this] obtain k where k: "waits_at s u k" ..
  with q ord(1) \<open>m \<in> held s u\<close> have "k < mlv m" by (auto simp: waits_at_def)
  with k n show ?thesis by blast
next
  fix u p assume run: "ss_running s t = Some (Await u # p)" and n: "n = tlv u"
  with stuck StepAwait [of s t u p] have "\<not> finished s u" by blast
  from stuck_waits [OF stuck this] obtain k where k: "waits_at s u k" ..
  moreover have "k < tlv u"
    using k inv_ordered [OF inv] by (fastforce simp: waits_at_def)
  ultimately show ?thesis using n by blast
qed

lemma never_stuck:
  assumes inv: "sync_inv s" and "\<not> finished s t"
  shows "\<exists>s'. sync_step body s s'"
proof (rule ccontr)
  assume stuck: "\<nexists>s'. sync_step body s s'"
  have "False" if "waits_at s u n" for u n
    using that
  proof (induction n arbitrary: u rule: less_induct)
    case (less n)
    from stuck_descends [OF inv stuck less.prems] less.IH show ?case by blast
  qed
  with stuck_waits [OF stuck assms(2)] show False by blast
qed

text \<open>Only the owner of the guard of a variable is at an access to it, so no two threads are.\<close>

lemma race_free:
  assumes "(sync_step body)\<^sup>*\<^sup>* (sync_init T body) s"
    and "ss_running s t = Some (Touch v # p)" and "ss_running s u = Some (Touch v # q)"
  shows "t = u"
  using inv_ordered [OF inv_reachable [OF assms(1)] assms(2)]
    inv_ordered [OF inv_reachable [OF assms(1)] assms(3)]
  by (simp add: held_def)

text \<open>In a state without steps every thread is done and no mutex is held.\<close>

lemma deadlock_free:
  assumes "(sync_step body)\<^sup>*\<^sup>* (sync_init T body) s"
  shows "(\<exists>s'. sync_step body s s') \<or> (\<forall>t. finished s t \<and> held s t = {})"
proof (cases "\<exists>s'. sync_step body s s'")
  case False
  have inv: "sync_inv s" by (rule inv_reachable [OF assms])
  with False never_stuck have fin: "finished s t" for t by blast
  have "held s t = {}" for t
  proof (cases "ss_running s t")
    case None
    then show ?thesis by (rule inv_idle [OF inv])
  next
    case (Some q)
    then show ?thesis using fin [of t] inv_ordered [OF inv Some] by (simp add: finished_def)
  qed
  with fin show ?thesis by simp
qed simp

end

end
