(* ===== verification/Tunnel_Locks.thy ===== *)
theory Tunnel_Locks
  imports Lock_Order Tunnel_Handle
begin

text \<open>
  The mutexes and threads of the whole extension. For every operation that takes a mutex, starts a
  thread or waits for one, its synchronisation script: which mutex it takes around which accesses to
  shared state, and what it starts and joins, in the order of the code. What decides between branches
  is an argument. Objects of a class are numbered; the callers are the threads of DuckDB that run
  pragmas and table functions, any number of them, each with any list of calls.

  The shared state followed here is the state the code guards: the map of the manager, the
  attributes, the session and the vector of workers of an SSH export, the state of a mesh export, the
  vectors of threads of the imports, a mesh node, the latch of the loader and the cache of nodes. The
  attributes of the two imports are not among them: the worker of an SSH import and the accept loop
  of a mesh import write them without a mutex.
\<close>

section \<open>Definitions\<close>

datatype tunnel_mutex =
    TunnelsMutex
  | ExportSessionMu nat
  | ExportMu nat
  | ExportWorkersMu nat
  | ForwarderMu nat
  | MeshExporterMu nat
  | ForwardThreadsMutex nat
  | BackendMu nat
  | LoaderMutex
  | CacheMu

datatype tunnel_thread =
    Caller nat
  | ImportWorker nat
  | ImportForward nat nat
  | ExportAccept nat
  | ExportPump nat nat
  | MeshAccept nat
  | MeshPump nat nat

datatype shared =
    Tunnels
  | ExportSession nat
  | ExportAttrs nat
  | ExportWorkers nat
  | ForwarderWorkers nat
  | MeshExport nat
  | ForwardThreads nat
  | MeshNode nat
  | Latch
  | NodeCache

type_synonym tscript = "(tunnel_mutex, tunnel_thread, shared) script"

fun guard :: "shared \<Rightarrow> tunnel_mutex" where
  "guard Tunnels = TunnelsMutex"
| "guard (ExportSession i) = ExportSessionMu i"
| "guard (ExportAttrs i) = ExportMu i"
| "guard (ExportWorkers i) = ExportWorkersMu i"
| "guard (ForwarderWorkers i) = ForwarderMu i"
| "guard (MeshExport i) = MeshExporterMu i"
| "guard (ForwardThreads i) = ForwardThreadsMutex i"
| "guard (MeshNode b) = BackendMu b"
| "guard Latch = LoaderMutex"
| "guard NodeCache = CacheMu"

text \<open>A section that only accesses the variable its mutex guards.\<close>

definition access :: "shared \<Rightarrow> tscript" where
  "access v = locked (guard v) [Touch v]"

subsection \<open>Mesh library and nodes\<close>

definition Activate_sync :: tscript where
  "Activate_sync = access Latch"

definition MeshBackendFromSecret_sync :: tscript where
  "MeshBackendFromSecret_sync = access NodeCache"

text \<open>\<open>up\<close>: the node is up already.\<close>

definition EnsureUp_sync :: "nat \<Rightarrow> bool \<Rightarrow> tscript" where
  "EnsureUp_sync b up =
     locked (BackendMu b) ([Touch (MeshNode b)] @ (if up then [] else Activate_sync @ [Touch (MeshNode b)]))"

text \<open>\<^verbatim>\<open>Dial\<close>, \<^verbatim>\<open>Export\<close>, \<^verbatim>\<open>PeersJson\<close> and \<^verbatim>\<open>SelfJson\<close>: the node is brought up, and unless that
  throws it is called.\<close>

definition node_call_sync :: "nat \<Rightarrow> bool \<Rightarrow> bool \<Rightarrow> tscript" where
  "node_call_sync b up throws = EnsureUp_sync b up @ (if throws then [] else access (MeshNode b))"

definition Unexport_sync :: "nat \<Rightarrow> tscript" where
  "Unexport_sync b = access (MeshNode b)"

subsection \<open>SSH import\<close>

text \<open>The worker: every client that gets a channel is given to a thread, under the mutex.\<close>

fun worker_sync :: "platform \<Rightarrow> nat \<Rightarrow> worker_turn list \<Rightarrow> nat \<Rightarrow> tscript" where
  "worker_sync pl i [] n = []"
| "worker_sync pl i (t # ts) n =
     (if \<not> wt_running t \<or> wt_select t < 0 then []
      else if wt_select t = 0 then worker_sync pl i ts n
      else if wt_accept t < 0 then
        (if SocketWouldBlock pl (wt_errno t) then worker_sync pl i ts n else [])
      else if \<not> wt_running_after t then []
      else (case wt_channel t of
          None \<Rightarrow> worker_sync pl i ts n
        | Some c \<Rightarrow>
            locked (ForwardThreadsMutex i) [Spawn (ImportForward i n), Touch (ForwardThreads i)] @
            worker_sync pl i ts (Suc n)))"

text \<open>\<^verbatim>\<open>Close\<close> joins the forwarding threads while it holds their mutex.\<close>

definition import_close_sync :: "nat \<Rightarrow> TunnelConnection \<Rightarrow> tscript" where
  "import_close_sync i conn =
     (if tc_worker_thread conn then [Await (ImportWorker i)] else []) @
     locked (ForwardThreadsMutex i)
       ([Touch (ForwardThreads i)] @ map (\<lambda>w. Await (ImportForward i w)) (map fst (tc_forward_threads conn)) @
        [Touch (ForwardThreads i)])"

subsection \<open>SSH export\<close>

definition RecordError_sync :: "nat \<Rightarrow> tscript" where
  "RecordError_sync i = access (ExportAttrs i)"

definition DialLocalService_sync :: "nat \<Rightarrow> bool \<Rightarrow> tscript" where
  "DialLocalService_sync i valid =
     access (ExportAttrs i) @ (if valid then [] else RecordError_sync i)"

text \<open>\<open>n\<close> counts the calls of libssh2 that the loop makes, each in a section of its own.\<close>

definition pump_sync :: "nat \<Rightarrow> bool \<Rightarrow> bool \<Rightarrow> nat \<Rightarrow> tscript" where
  "pump_sync i valid fits n =
     DialLocalService_sync i valid @
     (if \<not> valid then access (ExportSession i)
      else if \<not> fits then RecordError_sync i @ access (ExportSession i)
      else concat (replicate n (access (ExportSession i))) @ access (ExportSession i))"

definition ReapFinishedWorkers_sync :: "nat \<Rightarrow> nat list \<Rightarrow> SshExporter \<Rightarrow> tscript" where
  "ReapFinishedWorkers_sync i done ex =
     access (ExportWorkers i) @
     map (\<lambda>w. Await (ExportPump i w)) (filter (\<lambda>w. w \<in> set done) (ex_workers ex))"

fun accept_sync :: "nat \<Rightarrow> accept_turn list \<Rightarrow> SshExporter \<Rightarrow> tscript" where
  "accept_sync i [] ex = []"
| "accept_sync i (t # ts) ex =
     (if \<not> ac_running_before t \<or> \<not> ac_running_after t then []
      else access (ExportSession i) @
        (if \<not> ex_listener ex then []
         else (case ac_channel t of
             Some c \<Rightarrow>
               ReapFinishedWorkers_sync i (ac_done t) ex @
               [Spawn (ExportPump i (ex_spawned ex))] @ access (ExportWorkers i) @
               accept_sync i ts (spawn_worker (fst (ReapFinishedWorkers (ac_done t) ex)))
           | None \<Rightarrow>
               if transport_dead (ac_errno t) then RecordError_sync i else accept_sync i ts ex)))"

definition export_close_sync :: "nat \<Rightarrow> SshExporter \<Rightarrow> tscript" where
  "export_close_sync i ex =
     (if ex_accept_thread ex then [Await (ExportAccept i)] else []) @
     access (ExportWorkers i) @
     map (\<lambda>w. Await (ExportPump i w)) (ex_workers ex) @
     access (ExportSession i) @ access (ExportAttrs i)"

text \<open>A start that spawns the accept thread, or one that throws, after a \<^verbatim>\<open>Close\<close> or before it.\<close>

definition export_start_sync :: "nat \<Rightarrow> bool \<Rightarrow> bool \<Rightarrow> SshExporter \<Rightarrow> tscript" where
  "export_start_sync i started closes ex =
     (if started then access (ExportAttrs i) @ [Spawn (ExportAccept i)]
      else if closes then export_close_sync i ex else [])"

subsection \<open>Mesh import and export\<close>

text \<open>A turn of the accept loop that dials: whether the node is up, and whether the dial throws.\<close>

fun mesh_accept_sync :: "nat \<Rightarrow> nat \<Rightarrow> (bool \<times> bool \<times> bool) list \<Rightarrow> nat \<Rightarrow> tscript" where
  "mesh_accept_sync f b [] n = []"
| "mesh_accept_sync f b ((up, ensure_throws, dial_throws) # ts) n =
     node_call_sync b up ensure_throws @
     (if ensure_throws \<or> dial_throws then mesh_accept_sync f b ts n
      else locked (ForwarderMu f) [Spawn (MeshPump f n), Touch (ForwarderWorkers f)] @
        mesh_accept_sync f b ts (Suc n))"

definition forwarder_close_sync :: "nat \<Rightarrow> MeshForwarder \<Rightarrow> tscript" where
  "forwarder_close_sync f fo =
     (if fo_accept_thread fo then [Await (MeshAccept f)] else []) @
     locked (ForwarderMu f)
       ([Touch (ForwarderWorkers f)] @ map (\<lambda>w. Await (MeshPump f w)) (map fst (fo_workers fo)) @
        [Touch (ForwarderWorkers f)])"

definition forwarder_start_sync :: "nat \<Rightarrow> nat \<Rightarrow> bool \<Rightarrow> bool \<Rightarrow> tscript" where
  "forwarder_start_sync f b up listens =
     EnsureUp_sync b up @ (if listens then [Spawn (MeshAccept f)] else [])"

text \<open>\<open>selfs\<close> are the reads of the node's own address, each with whether it throws.\<close>

definition mesh_export_start_sync :: "nat \<Rightarrow> nat \<Rightarrow> bool \<Rightarrow> bool \<Rightarrow> bool \<Rightarrow> bool list \<Rightarrow> tscript" where
  "mesh_export_start_sync e b up up_throws export_throws selfs =
     EnsureUp_sync b up @
     (if up_throws then []
      else node_call_sync b True False @
        (if export_throws then []
         else access (MeshExport e) @
           concat (map (\<lambda>throws. node_call_sync b True throws) selfs) @ access (MeshExport e)))"

definition mesh_export_close_sync :: "nat \<Rightarrow> nat \<Rightarrow> bool \<Rightarrow> bool \<Rightarrow> tscript" where
  "mesh_export_close_sync e b listening has_handle =
     access (MeshExport e) @
     (if \<not> listening then []
      else (if has_handle then Unexport_sync b else []) @ access (MeshExport e))"

subsection \<open>Handles and the manager\<close>

text \<open>A handle by its class, with what its \<^verbatim>\<open>Close\<close> finds.\<close>

datatype handle_ref =
    ImportRef nat TunnelConnection
  | ExportRef nat SshExporter
  | MeshImportRef nat MeshForwarder
  | MeshExportRef nat nat bool bool

fun Close_sync :: "handle_ref \<Rightarrow> tscript" where
  "Close_sync (ImportRef i conn) = import_close_sync i conn"
| "Close_sync (ExportRef i ex) = export_close_sync i ex"
| "Close_sync (MeshImportRef f fo) = forwarder_close_sync f fo"
| "Close_sync (MeshExportRef e b listening has_handle) = mesh_export_close_sync e b listening has_handle"

fun GetAttributes_sync :: "handle_ref \<Rightarrow> tscript" where
  "GetAttributes_sync (ImportRef i conn) = []"
| "GetAttributes_sync (ExportRef i ex) = access (ExportAttrs i)"
| "GetAttributes_sync (MeshImportRef f fo) = locked (ForwarderMu f) []"
| "GetAttributes_sync (MeshExportRef e b listening has_handle) = access (MeshExport e)"

fun IsActive_sync :: "handle_ref \<Rightarrow> tscript" where
  "IsActive_sync (MeshExportRef e b listening has_handle) = access (MeshExport e)"
| "IsActive_sync _ = []"

text \<open>The calls of the program's surface.\<close>

datatype call =
    CallCreateTunnel nat bool bool TunnelConnection
  | CallCreateSshExport nat bool bool SshExporter
  | CallCreateMeshTunnel nat nat bool bool bool MeshForwarder
  | CallCreateMeshExport nat nat bool bool bool "bool list"
  | CallLookup "handle_ref option"
  | CallIsActive "handle_ref option"
  | CallCloseTunnel "handle_ref option"
  | CallListTunnels "handle_ref list"
  | CallCloseAllTunnels "handle_ref list"
  | CallCleanup "handle_ref list" "handle_ref list"
  | CallMeshBackendFromSecret
  | CallMeshActivate
  | CallNode nat bool bool

definition publish_sync :: tscript where
  "publish_sync = access Tunnels"

text \<open>
  A creation that fails destroys its object, which closes it, the import and the export for the
  second time when they have closed themselves before they threw. The objects are the ones a
  \<^verbatim>\<open>Close\<close> finds, \<open>unthreaded\<close> those it leaves.
\<close>

definition unthreaded_import :: "TunnelConnection \<Rightarrow> TunnelConnection" where
  "unthreaded_import conn = conn\<lparr>tc_worker_thread := False, tc_forward_threads := []\<rparr>"

definition unthreaded_export :: "SshExporter \<Rightarrow> SshExporter" where
  "unthreaded_export ex = ex\<lparr>ex_accept_thread := False, ex_workers := []\<rparr>"

definition create_tunnel_sync :: "nat \<Rightarrow> bool \<Rightarrow> bool \<Rightarrow> TunnelConnection \<Rightarrow> tscript" where
  "create_tunnel_sync i started tested conn =
     (if \<not> started then import_close_sync i (unthreaded_import conn)
      else [Spawn (ImportWorker i)] @
        (if tested then publish_sync
         else import_close_sync i conn @ import_close_sync i (unthreaded_import conn)))"

definition create_export_sync :: "nat \<Rightarrow> bool \<Rightarrow> bool \<Rightarrow> SshExporter \<Rightarrow> tscript" where
  "create_export_sync i started closes ex =
     export_start_sync i started closes ex @
     (if started then publish_sync else export_close_sync i (unthreaded_export ex))"

definition create_mesh_tunnel_sync :: "nat \<Rightarrow> nat \<Rightarrow> bool \<Rightarrow> bool \<Rightarrow> bool \<Rightarrow> MeshForwarder \<Rightarrow> tscript" where
  "create_mesh_tunnel_sync f b up listens probed fo =
     forwarder_start_sync f b up listens @
     (if listens \<and> probed then publish_sync else forwarder_close_sync f fo)"

definition create_mesh_export_sync ::
  "nat \<Rightarrow> nat \<Rightarrow> bool \<Rightarrow> bool \<Rightarrow> bool \<Rightarrow> bool list \<Rightarrow> tscript" where
  "create_mesh_export_sync e b up up_throws export_throws selfs =
     mesh_export_start_sync e b up up_throws export_throws selfs @
     (if up_throws \<or> export_throws then mesh_export_close_sync e b False False else publish_sync)"

definition lookup_sync :: "handle_ref option \<Rightarrow> tscript" where
  "lookup_sync h =
     locked TunnelsMutex
       ([Touch Tunnels] @ (case h of None \<Rightarrow> [] | Some h \<Rightarrow> GetAttributes_sync h))"

definition is_active_sync :: "handle_ref option \<Rightarrow> tscript" where
  "is_active_sync h =
     locked TunnelsMutex ([Touch Tunnels] @ (case h of None \<Rightarrow> [] | Some h \<Rightarrow> IsActive_sync h))"

definition close_tunnel_sync :: "handle_ref option \<Rightarrow> tscript" where
  "close_tunnel_sync h = access Tunnels @ (case h of None \<Rightarrow> [] | Some h \<Rightarrow> Close_sync h)"

text \<open>A list that cannot have the mutex at once is empty.\<close>

definition list_tunnels_sync :: "handle_ref list \<Rightarrow> tscript" where
  "list_tunnels_sync hs = try_locked TunnelsMutex ([Touch Tunnels] @ concat (map GetAttributes_sync hs))"

definition close_all_sync :: "handle_ref list \<Rightarrow> tscript" where
  "close_all_sync hs = access Tunnels @ concat (map Close_sync hs)"

definition cleanup_sync :: "handle_ref list \<Rightarrow> handle_ref list \<Rightarrow> tscript" where
  "cleanup_sync hs inactive =
     locked TunnelsMutex ([Touch Tunnels] @ concat (map IsActive_sync hs)) @
     concat (map Close_sync inactive)"

fun call_sync :: "call \<Rightarrow> tscript" where
  "call_sync (CallCreateTunnel i started tested conn) = create_tunnel_sync i started tested conn"
| "call_sync (CallCreateSshExport i started closes ex) = create_export_sync i started closes ex"
| "call_sync (CallCreateMeshTunnel f b up listens probed fo) =
     create_mesh_tunnel_sync f b up listens probed fo"
| "call_sync (CallCreateMeshExport e b up up_throws export_throws selfs) =
     create_mesh_export_sync e b up up_throws export_throws selfs"
| "call_sync (CallLookup h) = lookup_sync h"
| "call_sync (CallIsActive h) = is_active_sync h"
| "call_sync (CallCloseTunnel h) = close_tunnel_sync h"
| "call_sync (CallListTunnels hs) = list_tunnels_sync hs"
| "call_sync (CallCloseAllTunnels hs) = close_all_sync hs"
| "call_sync (CallCleanup hs inactive) = cleanup_sync hs inactive"
| "call_sync CallMeshBackendFromSecret = MeshBackendFromSecret_sync"
| "call_sync CallMeshActivate = Activate_sync"
| "call_sync (CallNode b up throws) = node_call_sync b up throws"

subsection \<open>The whole program\<close>

text \<open>What decides the scripts of the threads: the calls of each caller, the turns of each loop.\<close>

record lock_env =
  lk_platform :: platform
  lk_calls :: "nat \<Rightarrow> call list"
  lk_worker :: "nat \<Rightarrow> worker_turn list"
  lk_accept :: "nat \<Rightarrow> accept_turn list \<times> SshExporter"
  lk_pump :: "nat \<Rightarrow> nat \<Rightarrow> bool \<times> bool \<times> nat"
  lk_mesh :: "nat \<Rightarrow> nat \<times> (bool \<times> bool \<times> bool) list"

fun thread_body :: "lock_env \<Rightarrow> tunnel_thread \<Rightarrow> tscript" where
  "thread_body E (Caller k) = concat (map call_sync (lk_calls E k))"
| "thread_body E (ImportWorker i) = worker_sync (lk_platform E) i (lk_worker E i) 0"
| "thread_body E (ImportForward i w) = []"
| "thread_body E (ExportAccept i) = (case lk_accept E i of (ts, ex) \<Rightarrow> accept_sync i ts ex)"
| "thread_body E (ExportPump i w) = (case lk_pump E i w of (valid, fits, n) \<Rightarrow> pump_sync i valid fits n)"
| "thread_body E (MeshAccept f) = (case lk_mesh E f of (b, ts) \<Rightarrow> mesh_accept_sync f b ts 0)"
| "thread_body E (MeshPump f w) = []"

definition callers :: "tunnel_thread set" where
  "callers = range Caller"

text \<open>The order in which the program waits.\<close>

fun mutex_level :: "tunnel_mutex \<Rightarrow> nat" where
  "mutex_level TunnelsMutex = 6"
| "mutex_level (BackendMu b) = 3"
| "mutex_level (ForwarderMu f) = 2"
| "mutex_level (ForwardThreadsMutex i) = 2"
| "mutex_level _ = 1"

fun thread_level :: "tunnel_thread \<Rightarrow> nat" where
  "thread_level (Caller k) = 7"
| "thread_level (MeshAccept f) = 4"
| "thread_level (ExportAccept i) = 3"
| "thread_level (ImportWorker i) = 3"
| "thread_level (ExportPump i w) = 2"
| "thread_level _ = 1"

text \<open>The threads a script or a log waits for and starts, and what an object calls them.\<close>

definition script_awaits :: "tscript \<Rightarrow> tunnel_thread list" where
  "script_awaits p = concat (map (\<lambda>a. case a of Await u \<Rightarrow> [u] | _ \<Rightarrow> []) p)"

definition script_spawns :: "tscript \<Rightarrow> tunnel_thread list" where
  "script_spawns p = concat (map (\<lambda>a. case a of Spawn u \<Rightarrow> [u] | _ \<Rightarrow> []) p)"

definition log_joins :: "log \<Rightarrow> thread list" where
  "log_joins l = concat (map (\<lambda>e. case e of JoinThread u \<Rightarrow> [u] | _ \<Rightarrow> []) l)"

definition log_spawns :: "log \<Rightarrow> thread list" where
  "log_spawns l = concat (map (\<lambda>e. case e of SpawnThread u \<Rightarrow> [u] | _ \<Rightarrow> []) l)"

fun import_name :: "nat \<Rightarrow> thread \<Rightarrow> tunnel_thread" where
  "import_name i AcceptThread = ImportWorker i"
| "import_name i (PumpThread w) = ImportForward i w"

fun export_name :: "nat \<Rightarrow> thread \<Rightarrow> tunnel_thread" where
  "export_name i AcceptThread = ExportAccept i"
| "export_name i (PumpThread w) = ExportPump i w"

fun mesh_name :: "nat \<Rightarrow> thread \<Rightarrow> tunnel_thread" where
  "mesh_name f AcceptThread = MeshAccept f"
| "mesh_name f (PumpThread w) = MeshPump f w"

text \<open>The turns of the accept loop of a mesh import that dial, as \<open>mesh_accept_sync\<close> takes them.\<close>

fun mesh_dials ::
  "platform \<Rightarrow> mesh_build \<Rightarrow> forwarder_turn list \<Rightarrow> MeshLoader \<Rightarrow> MeshBackend \<Rightarrow> MeshForwarder \<Rightarrow>
   (bool \<times> bool \<times> bool) list" where
  "mesh_dials pl mb [] ml be fo = []"
| "mesh_dials pl mb (t # ts) ml be fo =
     (if \<not> ft_running t then []
      else if ft_select t \<le> 0 \<or> \<not> SocketValid pl (ft_accept t) then mesh_dials pl mb ts ml be fo
      else if \<not> ft_running_after t then []
      else
        (let (r, ml1, be1, calls) = Dial pl mb (ft_up t) (ft_dial t)
               (at_remote_host (fo_attrs fo)) (at_remote_port (fo_attrs fo)) ml be in
         case r of
           Returns mesh \<Rightarrow>
             (mk_up be, False, False) # mesh_dials pl mb ts ml1 be1 (spawn_mesh_worker (ft_accept t) mesh fo)
         | Throws e \<Rightarrow>
             (mk_up be, threw (fst (EnsureUp pl mb (ft_up t) ml be)), True) #
             mesh_dials pl mb ts ml1 be1 (fo\<lparr>fo_attrs := (fo_attrs fo)\<lparr>at_error_message := exn_message e\<rparr>\<rparr>)
         | Undefined \<Rightarrow> []))"

section \<open>Lemmas\<close>

abbreviation within_tunnels :: "tunnel_thread \<Rightarrow> tunnel_mutex set \<Rightarrow> tscript \<Rightarrow> bool" where
  "within_tunnels \<equiv> within mutex_level thread_level guard"

text \<open>A section on a variable may stand in a thread above its guard, under mutexes above it.\<close>

lemma within_access [within_rules]:
  assumes "mutex_level (guard v) < thread_level t"
    and "\<And>m. m \<in> H \<Longrightarrow> mutex_level (guard v) < mutex_level m"
  shows "within_tunnels t H (access v)"
  unfolding access_def using assms by (intro within_rules) simp_all

lemma within_node [within_rules]:
  assumes "3 < thread_level t" and "\<And>m. m \<in> H \<Longrightarrow> 3 < mutex_level m"
  shows "within_tunnels t H (EnsureUp_sync b up)" "within_tunnels t H (node_call_sync b up throws)"
    "within_tunnels t H (Unexport_sync b)"
proof -
  have lower: "1 < mutex_level m" if "m \<in> insert (BackendMu b) H" for m
    using that assms(2) [of m] by auto
  show up: "within_tunnels t H (EnsureUp_sync b up)"
    unfolding EnsureUp_sync_def Activate_sync_def
    by (intro within_rules) (use assms lower in auto)
  show "within_tunnels t H (Unexport_sync b)"
    unfolding Unexport_sync_def by (intro within_rules) (use assms in auto)
  show "within_tunnels t H (node_call_sync b up throws)"
    unfolding node_call_sync_def by (intro within_rules up) (use assms in auto)
qed

lemma within_worker: "within_tunnels (ImportWorker i) {} (worker_sync pl i ts n)"
proof (induction ts arbitrary: n)
  case (Cons t ts)
  have "within_tunnels (ImportWorker i) {}
      (locked (ForwardThreadsMutex i) ([Spawn (ImportForward i n)] @ [Touch (ForwardThreads i)]))"
    by (intro within_rules) simp_all
  with Cons show ?case by (auto intro: within_rules split: option.split)
qed (simp add: within_Nil)

lemma within_pump: "within_tunnels (ExportPump i w) {} (pump_sync i valid fits n)"
  unfolding pump_sync_def DialLocalService_sync_def RecordError_sync_def
  by (intro within_rules) (auto intro: within_rules)

lemma within_accept: "within_tunnels (ExportAccept i) {} (accept_sync i ts ex)"
proof (induction ts arbitrary: ex)
  case (Cons t ts)
  have "within_tunnels (ExportAccept i) {} (ReapFinishedWorkers_sync i done ex)" for "done"
    unfolding ReapFinishedWorkers_sync_def by (intro within_rules) auto
  moreover have "within_tunnels (ExportAccept i) {} (access (ExportWorkers i))"
      "within_tunnels (ExportAccept i) {} (access (ExportSession i))"
      "within_tunnels (ExportAccept i) {} (RecordError_sync i)"
    unfolding RecordError_sync_def by (intro within_rules; simp)+
  ultimately show ?case using Cons
    by (auto intro!: within_append within_Nil within_Spawn split: option.split simp del: append.simps)
qed (simp add: within_Nil)

lemma within_mesh_accept: "within_tunnels (MeshAccept f) {} (mesh_accept_sync f b ts n)"
proof (induction ts arbitrary: n)
  case (Cons t ts)
  obtain up e d where t: "t = (up, e, d)" by (metis prod_cases3)
  have "within_tunnels (MeshAccept f) {} (node_call_sync b up e)" by (intro within_rules) auto
  moreover have "within_tunnels (MeshAccept f) {}
      (locked (ForwarderMu f) ([Spawn (MeshPump f n)] @ [Touch (ForwarderWorkers f)]))"
    by (intro within_rules) simp_all
  ultimately show ?case using Cons t by (auto intro!: within_append)
qed (simp add: within_Nil)

lemma within_closes:
  "within_tunnels (Caller k) {} (import_close_sync i conn)"
  "within_tunnels (Caller k) {} (export_close_sync i ex)"
  "within_tunnels (Caller k) {} (forwarder_close_sync f fo)"
  "within_tunnels (Caller k) {} (mesh_export_close_sync e b listening has_handle)"
  unfolding import_close_sync_def export_close_sync_def forwarder_close_sync_def
    mesh_export_close_sync_def
  by (intro within_rules; auto)+

lemma within_Close: "within_tunnels (Caller k) {} (Close_sync h)"
  by (cases h) (simp_all add: within_closes)

lemma within_reads:
  "within_tunnels (Caller k) {TunnelsMutex} (GetAttributes_sync h)"
  "within_tunnels (Caller k) {TunnelsMutex} (IsActive_sync h)"
  by (cases h; auto intro!: within_rules)+

lemma reads_release: "Release TunnelsMutex \<notin> set (GetAttributes_sync h)"
  by (cases h) (auto simp: access_def locked_def)

lemma within_creates:
  "within_tunnels (Caller k) {} (create_tunnel_sync i started tested conn)"
  "within_tunnels (Caller k) {} (create_export_sync i started closes ex)"
  "within_tunnels (Caller k) {} (create_mesh_tunnel_sync f b up listens probed fo)"
  "within_tunnels (Caller k) {} (create_mesh_export_sync e b up up_throws export_throws selfs)"
  unfolding create_tunnel_sync_def create_export_sync_def create_mesh_tunnel_sync_def
    create_mesh_export_sync_def publish_sync_def export_start_sync_def forwarder_start_sync_def
    mesh_export_start_sync_def
  by (intro within_rules within_closes; auto intro: within_rules)+

lemma within_manager:
  "within_tunnels (Caller k) {} (lookup_sync h)"
  "within_tunnels (Caller k) {} (is_active_sync h)"
  "within_tunnels (Caller k) {} (close_tunnel_sync h)"
  "within_tunnels (Caller k) {} (list_tunnels_sync hs)"
  "within_tunnels (Caller k) {} (close_all_sync hs)"
  "within_tunnels (Caller k) {} (cleanup_sync hs inactive)"
  unfolding lookup_sync_def is_active_sync_def close_tunnel_sync_def list_tunnels_sync_def
    close_all_sync_def cleanup_sync_def
  by (intro within_rules;
      auto intro: within_rules within_reads within_Close simp: reads_release split: option.split)+

lemma within_call: "within_tunnels (Caller k) {} (call_sync c)"
  by (cases c)
    (auto simp: within_creates within_manager MeshBackendFromSecret_sync_def Activate_sync_def
      intro!: within_rules)

lemma thread_body_ordered: "ordered mutex_level thread_level guard t {} (thread_body E t)"
proof (rule within_ordered, cases t)
  case (Caller k)
  then show "within_tunnels t {} (thread_body E t)" by (auto intro!: within_concat within_call)
next
  case (MeshAccept f)
  then show "within_tunnels t {} (thread_body E t)" by (simp add: within_mesh_accept split: prod.split)
qed (simp_all add: within_Nil within_worker within_accept within_pump split: prod.split)

interpretation tunnel_locks: lock_order "thread_body E" mutex_level thread_level guard for E
  by unfold_locales (rule thread_body_ordered)

section \<open>The scripts and the operations\<close>

lemma script_awaits_simps [simp]:
  "script_awaits [] = []" "script_awaits (p @ q) = script_awaits p @ script_awaits q"
  "script_awaits (Await u # p) = u # script_awaits p" "script_awaits (Spawn u # p) = script_awaits p"
  "script_awaits (Touch v # p) = script_awaits p" "script_awaits (access v) = []"
  "script_awaits (locked m p) = script_awaits p"
  "script_awaits (map (\<lambda>w. Await (f w)) ws) = map f ws"
  by (simp_all add: script_awaits_def access_def locked_def map_concat [symmetric])
    (induction ws; simp)

lemma script_spawns_simps [simp]:
  "script_spawns [] = []" "script_spawns (p @ q) = script_spawns p @ script_spawns q"
  "script_spawns (Await u # p) = script_spawns p" "script_spawns (Spawn u # p) = u # script_spawns p"
  "script_spawns (Touch v # p) = script_spawns p" "script_spawns (access v) = []"
  "script_spawns (locked m p) = script_spawns p"
  "script_spawns (map (\<lambda>w. Await (f w)) ws) = []"
  by (simp_all add: script_spawns_def access_def locked_def)

lemma log_threads_append [simp]:
  "log_joins (l @ l') = log_joins l @ log_joins l'" "log_spawns (l @ l') = log_spawns l @ log_spawns l'"
  by (simp_all add: log_joins_def log_spawns_def)

lemma log_threads_Nil [simp]: "log_joins [] = []" "log_spawns [] = []"
  by (simp_all add: log_joins_def log_spawns_def)

lemma log_threads_Cons [simp]:
  "log_joins (e # l) = (case e of JoinThread u \<Rightarrow> [u] | _ \<Rightarrow> []) @ log_joins l"
  "log_spawns (e # l) = (case e of SpawnThread u \<Rightarrow> [u] | _ \<Rightarrow> []) @ log_spawns l"
  by (simp_all add: log_joins_def log_spawns_def)

lemma log_threads_pumps [simp]:
  "log_joins (join_pumps ws) = map PumpThread ws" "log_spawns (join_pumps ws) = []"
  by (induction ws) (simp_all add: join_pumps_def)

lemma log_threads_close [simp]:
  "log_joins (CloseSocket s) = []" "log_joins (CloseSocketHandle pl s) = []"
  "log_spawns (CloseSocket s) = []" "log_spawns (CloseSocketHandle pl s) = []"
  by (simp_all add: CloseSocket_def CloseSocketHandle_def)

lemma log_joins_cancel [simp]: "log_joins (cancel_log ca) = []"
  by (simp add: cancel_log_def log_joins_def)

lemma import_close_script:
  "script_awaits (import_close_sync i conn) =
     map (import_name i) (log_joins (snd (TunnelConnection_Close conn)))"
  by (simp add: import_close_sync_def TunnelConnection_Close_def del: map_map) simp

lemma export_close_script:
  "script_awaits (export_close_sync i ex) =
     map (export_name i) (log_joins (snd (SshExporter_Close pl ca ex)))"
  by (simp add: export_close_sync_def SshExporter_Close_def comp_def)

lemma forwarder_close_script:
  "script_awaits (forwarder_close_sync f fo) =
     map (mesh_name f) (log_joins (snd (MeshForwarder_Close pl fo)))"
  by (simp add: forwarder_close_sync_def MeshForwarder_Close_def del: map_map) simp

lemma worker_script:
  "script_spawns (worker_sync pl i ts (tc_spawned conn)) =
     map (import_name i) (log_spawns (snd (snd (worker_loop pl ls ts conn))))"
proof (induction ts arbitrary: conn)
  case (Cons t ts)
  have "tc_spawned (set_error m conn) = tc_spawned conn" for m by (simp add: set_error_def)
  moreover have "tc_spawned (spawn_forward s c conn) = Suc (tc_spawned conn)" for s c
    by (simp add: spawn_forward_def)
  ultimately show ?case
    using Cons.IH [of conn] Cons.IH [of "set_error _ conn"] Cons.IH [of "spawn_forward _ _ conn"]
    by (auto simp: Let_def case_prod_beta split: option.split)
qed simp

lemma accept_script:
  "script_awaits (accept_sync i ts ex) =
     map (export_name i) (log_joins (snd (snd (AcceptLoop ts ex))))"
  "script_spawns (accept_sync i ts ex) =
     map (export_name i) (log_spawns (snd (snd (AcceptLoop ts ex))))"
  by (induction ts arbitrary: ex)
    (auto simp: Let_def case_prod_beta ReapFinishedWorkers_sync_def ReapFinishedWorkers_def
      RecordError_sync_def comp_def split: option.split)

lemma script_spawns_node [simp]: "script_spawns (node_call_sync b up throws) = []"
  by (simp add: node_call_sync_def EnsureUp_sync_def Activate_sync_def)

lemma mesh_accept_script:
  "script_spawns (mesh_accept_sync f b (mesh_dials pl mb ts ml be fo) (fo_spawned fo)) =
     map (mesh_name f) (log_spawns (snd (snd (snd (snd (MeshForwarder_AcceptLoop pl mb ts ml be fo))))))"
proof (induction ts arbitrary: ml be fo)
  case (Cons t ts)
  have "fo_spawned (spawn_mesh_worker c m fo) = Suc (fo_spawned fo)" for c m
    by (simp add: spawn_mesh_worker_def)
  with Cons.IH [of ml be fo] Cons.IH [of _ _ "spawn_mesh_worker _ _ fo"]
    Cons.IH [of _ _ "fo\<lparr>fo_attrs := (fo_attrs fo)\<lparr>at_error_message := exn_message _\<rparr>\<rparr>"]
  show ?case by (auto simp: Let_def case_prod_beta split: outcome.split)
qed simp

section \<open>Properties\<close>

text \<open>C5: The program does not deadlock. For any number of threads that run pragmas and table functions,
  each with any list of calls, and whatever the loops of the tunnels meet, in every reachable state
  some thread can go on, unless all have ended and no mutex is held: no cycle of waiting for mutexes
  and joins is possible, even where a close joins threads while it holds a mutex.\<close>

theorem tunnels_never_deadlock:
  assumes "(sync_step (thread_body E))\<^sup>*\<^sup>* (sync_init callers (thread_body E)) s"
  shows "(\<exists>s'. sync_step (thread_body E) s s') \<or> (\<forall>t. finished s t \<and> held s t = {})"
  using assms by (rule tunnel_locks.deadlock_free)

text \<open>One caller closes a tunnel that does not exist while another asks for one.\<close>

definition demo_locks :: lock_env where
  "demo_locks =
     \<lparr>lk_platform = Linux,
      lk_calls = (\<lambda>k. if k = 0 then [CallCloseTunnel None]
        else if k = 1 then [CallLookup None] else []),
      lk_worker = (\<lambda>i. []), lk_accept = (\<lambda>i. ([], make_SshExporter Linux default_auth_params [] 1 [] 1)),
      lk_pump = (\<lambda>i w. (True, True, 1)), lk_mesh = (\<lambda>f. (0, []))\<rparr>"

definition demo_held :: "(tunnel_mutex, tunnel_thread, shared) sync_state" where
  "demo_held =
     go_on (Caller 0) [Touch Tunnels, Release TunnelsMutex]
       ((sync_init callers (thread_body demo_locks))
          \<lparr>ss_owner := (\<lambda>m. None)(TunnelsMutex \<mapsto> Caller 0)\<rparr>)"

lemma demo_held_reached:
  "sync_step (thread_body demo_locks) (sync_init callers (thread_body demo_locks)) demo_held"
proof -
  have "ss_running (sync_init callers (thread_body demo_locks)) (Caller 0) =
      Some (Acquire TunnelsMutex # [Touch Tunnels, Release TunnelsMutex])"
    by (simp add: sync_init_def callers_def demo_locks_def close_tunnel_sync_def access_def locked_def)
  from StepAcquire [OF this] show ?thesis by (simp add: demo_held_def sync_init_def)
qed

theorem tunnels_never_deadlock_witness:
  "ss_running demo_held (Caller 1) = Some [Acquire TunnelsMutex, Touch Tunnels, Release TunnelsMutex] \<and>
   ss_owner demo_held TunnelsMutex = Some (Caller 0) \<and>
   (\<exists>s'. sync_step (thread_body demo_locks) demo_held s')"
proof -
  have "(sync_step (thread_body demo_locks))\<^sup>*\<^sup>* (sync_init callers (thread_body demo_locks)) demo_held"
    using demo_held_reached by (rule r_into_rtranclp)
  note free = tunnels_never_deadlock [OF this]
  have "ss_running demo_held (Caller 1) = Some [Acquire TunnelsMutex, Touch Tunnels, Release TunnelsMutex]"
    by (simp add: demo_held_def go_on_def sync_init_def callers_def demo_locks_def lookup_sync_def
        locked_def)
  moreover have "TunnelsMutex \<in> held demo_held (Caller 0)" "ss_owner demo_held TunnelsMutex = Some (Caller 0)"
    by (simp_all add: demo_held_def held_def go_on_def)
  ultimately show ?thesis using free by auto
qed



end
