(* ===== verification/Shim_Spikes.thy ===== *)
theory Shim_Spikes
  imports Mesh_Loader
begin

text \<open>
  The two programs that check a mesh shim before anything is built on it, \<^verbatim>\<open>src/shim/spike_dlopen.c\<close>
  and its Windows sibling \<^verbatim>\<open>src/shim/spike_loadlibrary.c\<close>: load the library, resolve the symbols of the
  C ABI (\<^verbatim>\<open>src/shim/mesh_shim.h\<close>), run Go code through it and end with an exit code. The library is a
  parameter, a record of what it exports and answers. The properties say exactly when a spike
  succeeds, and compare what it resolves with what the loader of the extension needs.
\<close>

section \<open>Definitions\<close>

subsection \<open>The library\<close>

text \<open>\<open>sh_missing\<close> are the symbols it does not export; \<open>sh_errmsg\<close> gives, for the size of the buffer,
  the text left in it and the value returned.\<close>

record shim =
  sh_loads :: "string \<Rightarrow> bool"
  sh_missing :: "string list"
  sh_kind :: int
  sh_new :: int
  sh_up :: int
  sh_errmsg :: "nat \<Rightarrow> string \<times> int"

datatype spike_call = SpikeKind | SpikeNew | SpikeSetStr int string string | SpikeUp int
  | SpikeErrmsg int nat | SpikeClose int

text \<open>A run: the exit code, the lines written on the standard output and on the standard error, and
  the calls into the library.\<close>

record spike_run =
  sp_exit :: int
  sp_out :: "string list"
  sp_err :: "string list"
  sp_calls :: "spike_call list"

definition spike_fails :: "string list \<Rightarrow> string \<Rightarrow> spike_call list \<Rightarrow> spike_run" where
  "spike_fails out message calls = \<lparr>sp_exit = 1, sp_out = out, sp_err = [message], sp_calls = calls\<rparr>"

text \<open>\<^verbatim>\<open>strstr\<close>.\<close>

fun strstr :: "string \<Rightarrow> string \<Rightarrow> bool" where
  "strstr [] needle \<longleftrightarrow> needle = []"
| "strstr (c # cs) needle \<longleftrightarrow> take (length needle) (c # cs) = needle \<or> strstr cs needle"

definition spike_symbols :: "string list" where
  "spike_symbols =
     [''mesh_kind'', ''mesh_new'', ''mesh_set_str'', ''mesh_set_bool'', ''mesh_up'', ''mesh_dial'',
      ''mesh_peers_json'', ''mesh_self_json'', ''mesh_errmsg'', ''mesh_close'']"

text \<open>The first name that does not resolve, if any.\<close>

fun first_missing :: "string list \<Rightarrow> string list \<Rightarrow> string option" where
  "first_missing missing [] = None"
| "first_missing missing (name # names) =
     (if name \<in> set missing then Some name else first_missing missing names)"

subsection \<open>The spike of the Unix systems\<close>

definition pass_dlopen :: "string \<Rightarrow> string" where
  "pass_dlopen path = ''PASS dlopen: '' @ path"

definition pass_dlsym :: string where
  "pass_dlsym = ''PASS dlsym: all 10 mesh_* symbols resolved''"

definition pass_kind :: string where
  "pass_kind = ''PASS mesh_kind == 1 (tailscale) '' @ em_dash @ '' Go code executed under dlopen''"

definition pass_new :: "int \<Rightarrow> string" where
  "pass_new n = ''PASS mesh_new -> handle '' @ to_string n"

text \<open>After the node is allocated: it must refuse to come up without a key, with a message about it.\<close>

definition spike_node :: "shim \<Rightarrow> string list \<Rightarrow> int \<Rightarrow> spike_run" where
  "spike_node sh out n =
     (let calls = [SpikeKind, SpikeNew, SpikeSetStr n ''hostname'' ''spike-node'', SpikeUp n];
          err = fst (sh_errmsg sh 512) in
      if sh_up sh = 0 then
        spike_fails out ''FAIL mesh_up: expected error (no auth key), got success'' calls
      else if \<not> strstr err ''auth key'' then
        spike_fails out (''FAIL mesh_errmsg: expected '' @ sq @ ''auth key'' @ sq @ '', got '' @ sq @ err @ sq)
          (calls @ [SpikeErrmsg n 512])
      else
        \<lparr>sp_exit = 0,
         sp_out = out @ [''PASS mesh_up error path: '' @ sq @ err @ sq, ''PASS mesh_close'', [],
           ''SPIKE OK '' @ em_dash @ '' Go runtime loaded & executed via dlopen; C ABI callable.''],
         sp_err = [], sp_calls = calls @ [SpikeErrmsg n 512, SpikeClose n]\<rparr>)"

definition spike_path :: "string list \<Rightarrow> string" where
  "spike_path args = (if args \<noteq> [] then hd args else ''./ts/ts_shim.so'')"

text \<open>\<open>args\<close> are the arguments after the name of the program, \<open>dlerr\<close> is the text of \<^verbatim>\<open>dlerror\<close>. A wrong
  kind is read a second time for the message.\<close>

definition spike_dlopen_main :: "shim \<Rightarrow> string \<Rightarrow> string list \<Rightarrow> spike_run" where
  "spike_dlopen_main sh dlerr args =
     (let path = spike_path args;
          out1 = [pass_dlopen path]; out2 = out1 @ [pass_dlsym]; out3 = out2 @ [pass_kind] in
      if \<not> sh_loads sh path then spike_fails [] (''FAIL dlopen: '' @ dlerr) []
      else (case first_missing (sh_missing sh) spike_symbols of
          Some name \<Rightarrow> spike_fails out1 (''FAIL dlsym: '' @ name @ '' missing'') []
        | None \<Rightarrow>
            if sh_kind sh \<noteq> 1 then
              spike_fails out2 (''FAIL mesh_kind: expected 1, got '' @ to_string (sh_kind sh))
                [SpikeKind, SpikeKind]
            else if sh_new sh \<le> 0 then
              spike_fails out3 (''FAIL mesh_new: got '' @ to_string (sh_new sh)) [SpikeKind, SpikeNew]
            else spike_node sh (out3 @ [pass_new (sh_new sh)]) (sh_new sh)))"

subsection \<open>The spike of Windows\<close>

text \<open>The text of \<^verbatim>\<open>FormatMessageA\<close> is printed as it is; the program ends with code 1.\<close>

definition die_message :: "win32_error \<Rightarrow> string \<Rightarrow> string" where
  "die_message e what =
     ''FAIL: '' @ what @ '' (error '' @ to_string (int (we_code e)) @ '': '' @
     (case we_text e of Some msg \<Rightarrow> msg | None \<Rightarrow> ''?'') @ '')''"

definition die :: "win32_error \<Rightarrow> string list \<Rightarrow> string \<Rightarrow> spike_run" where
  "die e out what = spike_fails out (die_message e what) []"

text \<open>The name goes through a buffer of 256 bytes, which \<^verbatim>\<open>_snprintf_s\<close> truncates.\<close>

definition resolve_label :: "string \<Rightarrow> string" where
  "resolve_label name = take 255 (''GetProcAddress('' @ name @ '')'')"

definition msg_load_library :: string where
  "msg_load_library =
     ''LoadLibraryExA '' @ em_dash @ '' if this is ERROR_MOD_NOT_FOUND the shim has a '' @
     ''dependent DLL it should not (rebuild with -static-libgcc)''"

definition ok_kind :: "int \<Rightarrow> string" where
  "ok_kind k = ''ok: mesh_kind() = '' @ to_string k"

definition win_node :: "shim \<Rightarrow> string list \<Rightarrow> int \<Rightarrow> spike_run" where
  "win_node sh out n =
     (let calls = [SpikeKind, SpikeNew, SpikeUp n]; (buf, wrote) = sh_errmsg sh 512 in
      if sh_up sh = 0 then
        spike_fails out ''FAIL: mesh_up() succeeded with no auth/setup key'' calls
      else if wrote \<le> 0 \<or> length buf = 0 then
        spike_fails out
          (''FAIL: mesh_errmsg() returned nothing '' @ em_dash @ '' Go string marshalling broken'')
          (calls @ [SpikeErrmsg n 512])
      else if \<not> strstr buf ''key'' then
        spike_fails out (''FAIL: mesh_errmsg() = '' @ [CHR 0x22] @ buf @ [CHR 0x22] @
          '', expected it to mention a key'') (calls @ [SpikeErrmsg n 512])
      else
        \<lparr>sp_exit = 0,
         sp_out = out @ [''ok: mesh_up() refused without a key: '' @ [CHR 0x22] @ buf @ [CHR 0x22],
           ''ok: mesh_close()'',
           ''SPIKE-LOADLIBRARY OK '' @ em_dash @ '' Go runs inside an MSVC host on Windows.''],
         sp_err = [], sp_calls = calls @ [SpikeErrmsg n 512, SpikeClose n]\<rparr>)"

text \<open>\<open>prog\<close> is the name of the program and \<open>e\<close> the error \<^verbatim>\<open>GetLastError\<close> reads.\<close>

definition spike_loadlibrary_main ::
  "shim \<Rightarrow> win32_error \<Rightarrow> string \<Rightarrow> string list \<Rightarrow> spike_run outcome" where
  "spike_loadlibrary_main sh e prog args =
     (case args of
        lib # kind # _ \<Rightarrow>
          (case atoi kind of
             Returns want_kind \<Rightarrow> Returns
               (let out1 = [''ok: LoadLibraryEx('' @ lib @ '')''];
                    out2 = out1 @ [''ok: all 10 mesh_* symbols resolved''];
                    out3 = out2 @ [ok_kind (sh_kind sh)];
                    n = sh_new sh in
                if \<not> sh_loads sh lib then die e [] msg_load_library
                else (case first_missing (sh_missing sh) spike_symbols of
                    Some name \<Rightarrow> die e out1 (resolve_label name)
                  | None \<Rightarrow>
                      if sh_kind sh \<noteq> want_kind then
                        spike_fails out2 (''FAIL: mesh_kind() = '' @ to_string (sh_kind sh) @ '', want '' @
                          to_string want_kind) [SpikeKind]
                      else if n \<le> 0 then
                        spike_fails out3 (''FAIL: mesh_new() = '' @ to_string n @ '' '' @ em_dash @
                          '' Go package init did not run (golang/go#75949; needs Go >= 1.26)'')
                          [SpikeKind, SpikeNew]
                      else win_node sh
                        (out3 @ [''ok: mesh_new() = '' @ to_string n @ '' (Go package init ran)'']) n))
           | Throws x \<Rightarrow> Throws x
           | Undefined \<Rightarrow> Undefined)
      | _ \<Rightarrow> Returns \<lparr>sp_exit = 2, sp_out = [], sp_err = [''usage: '' @ prog @ '' <shim.dll> <expected-kind 1|2>''],
               sp_calls = []\<rparr>)"

section \<open>Lemmas\<close>

lemma strstr_iff: "strstr hay needle \<longleftrightarrow> (\<exists>a b. hay = a @ needle @ b)"
proof (induction hay)
  case (Cons c cs)
  show ?case
  proof
    assume "strstr (c # cs) needle"
    then consider "take (length needle) (c # cs) = needle" | "strstr cs needle" by auto
    then show "\<exists>a b. c # cs = a @ needle @ b"
    proof cases
      case 1
      then show ?thesis by (metis append_Nil append_take_drop_id)
    next
      case 2
      with Cons.IH obtain a b where "cs = a @ needle @ b" by blast
      then show ?thesis by (metis append_Cons)
    qed
  next
    assume "\<exists>a b. c # cs = a @ needle @ b"
    then obtain a b where ab: "c # cs = a @ needle @ b" by blast
    show "strstr (c # cs) needle"
    proof (cases a)
      case Nil
      then have "take (length needle) (c # cs) = needle" using ab by simp
      then show ?thesis by simp
    next
      case (Cons d a')
      then show ?thesis using ab Cons.IH by auto
    qed
  qed
qed simp

lemma first_missing_None [simp]: "first_missing missing names = None \<longleftrightarrow> set missing \<inter> set names = {}"
  by (induction names) auto

lemma first_missing_Some:
  "first_missing missing names = Some name \<Longrightarrow> name \<in> set names \<and> name \<in> set missing"
  by (induction names) (auto split: if_split_asm)

lemma ResolveSymbols_iff: "ResolveSymbols missing names = Returns () \<longleftrightarrow> set missing \<inter> set names = {}"
  by (induction names) auto

lemma spike_exit [simp]: "sp_exit (spike_fails out m calls) = 1" "sp_exit (die e out what) = 1"
  "sp_err (spike_fails out m calls) = [m]" "sp_calls (spike_fails out m calls) = calls"
  by (simp_all add: spike_fails_def die_def)

text \<open>The symbols the spikes check are those of the loader but two.\<close>

lemma spike_symbols_loader: "set mesh_symbols = set spike_symbols \<union> {''mesh_export'', ''mesh_unexport''}"
  by (auto simp: mesh_symbols_def spike_symbols_def)

text \<open>A run that succeeded: no message, and the node was closed last.\<close>

definition spike_succeeds :: "int \<Rightarrow> spike_run \<Rightarrow> bool" where
  "spike_succeeds n r \<longleftrightarrow> sp_exit r = 0 \<and> sp_err r = [] \<and> last (sp_calls r) = SpikeClose n"

definition spike_refuses :: "spike_run \<Rightarrow> bool" where
  "spike_refuses r \<longleftrightarrow> sp_exit r = 1 \<and> (\<exists>m. sp_err r = [m])"

lemma spike_refusesI [simp]: "spike_refuses (spike_fails out m calls)" "spike_refuses (die e out what)"
  by (simp_all add: spike_refuses_def spike_fails_def die_def)

lemma spike_node_exact:
  "if sh_up sh \<noteq> 0 \<and> strstr (fst (sh_errmsg sh 512)) ''auth key'' then spike_succeeds n (spike_node sh out n)
   else spike_refuses (spike_node sh out n)"
  by (simp add: spike_node_def Let_def spike_succeeds_def)

lemma win_node_exact:
  "if sh_up sh \<noteq> 0 \<and> snd (sh_errmsg sh 512) > 0 \<and> strstr (fst (sh_errmsg sh 512)) ''key''
   then spike_succeeds n (win_node sh out n) else spike_refuses (win_node sh out n)"
  by (auto simp: win_node_def Let_def case_prod_beta spike_succeeds_def)

text \<open>What both spikes ask of the library before they use a node.\<close>

definition spike_usable :: "shim \<Rightarrow> string \<Rightarrow> int \<Rightarrow> bool" where
  "spike_usable sh path kind \<longleftrightarrow>
     sh_loads sh path \<and> set (sh_missing sh) \<inter> set spike_symbols = {} \<and> sh_kind sh = kind \<and> 0 < sh_new sh"

lemma spike_dlopen_cases:
  "if spike_usable sh (spike_path args) 1
   then \<exists>out. spike_dlopen_main sh dlerr args = spike_node sh out (sh_new sh)
   else spike_refuses (spike_dlopen_main sh dlerr args)"
  by (auto simp: spike_dlopen_main_def spike_usable_def Let_def dest!: first_missing_Some
      split: option.split)

lemma spike_loadlibrary_cases:
  assumes "atoi kind = Returns k"
  shows "\<exists>r. spike_loadlibrary_main sh e prog (lib # kind # args) = Returns r \<and>
    (if spike_usable sh lib k then \<exists>out. r = win_node sh out (sh_new sh) else spike_refuses r)"
  using assms by (auto simp: spike_loadlibrary_main_def spike_usable_def Let_def dest!: first_missing_Some
      split: option.split)

section \<open>Properties\<close>


text \<open>A shim without the two symbols of the export is good for both spikes, but the loader of the
  extension refuses it.\<close>

definition demo_shim :: shim where
  "demo_shim = \<lparr>sh_loads = (\<lambda>_. True), sh_missing = [''mesh_export'', ''mesh_unexport''], sh_kind = 1,
     sh_new = 1, sh_up = 1, sh_errmsg = (\<lambda>_. (''no auth key'', 11))\<rparr>"

theorem spikes_miss_export:
  "sp_exit (spike_dlopen_main demo_shim [] []) = 0 \<and>
   (\<exists>e. ResolveSymbols (sh_missing demo_shim) mesh_symbols = Throws e)"
  by (simp add: demo_shim_def spike_dlopen_main_def spike_node_def spike_symbols_def mesh_symbols_def Let_def)

text \<open>Conversely, the symbols the loader resolves are enough for the spikes.\<close>

lemma loader_symbols_suffice:
  "ResolveSymbols (sh_missing sh) mesh_symbols = Returns () \<Longrightarrow> set (sh_missing sh) \<inter> set spike_symbols = {}"
  by (auto simp: ResolveSymbols_iff spike_symbols_loader)

end
