(* ===== verification/Mesh_Pair.thy ===== *)
theory Mesh_Pair
  imports Socket_Compat
begin

text \<open>
  The stream pair of the shims, from the Go package \<^verbatim>\<open>src/shim/meshpair\<close> (\<^verbatim>\<open>pair.go\<close>,
  \<^verbatim>\<open>pair_unix.go\<close>, \<^verbatim>\<open>pair_windows.go\<close>): two connected sockets, one a raw handle for C and one a
  connection of the Go runtime. A connection of Go is its descriptor. The answers of the operating
  system are arguments, an error of Go is its text, and the calls are the log of
  \<open>Resource_Protocol\<close>.
\<close>

section \<open>Definitions\<close>

type_synonym go_error = string

type_synonym pair_result = "go_error + int \<times> int"

subsection \<open>Unix\<close>

record unix_pair_answers =
  pu_socketpair :: "go_error + int \<times> int"
  pu_file_conn :: "go_error + int"

text \<open>\<^verbatim>\<open>net.FileConn\<close> duplicates the descriptor, and the file is closed whatever it answered.\<close>

definition newPair_unix :: "unix_pair_answers \<Rightarrow> pair_result \<times> log" where
  "newPair_unix a =
     (case pu_socketpair a of
        Inl err \<Rightarrow> (Inl (''socketpair failed: '' @ err), [])
      | Inr (fd0, fd1) \<Rightarrow>
          (case pu_file_conn a of
             Inl err \<Rightarrow>
               (Inl (''FileConn failed: '' @ err), [OpenFd fd0, OpenFd fd1, CloseFd fd1, CloseFd fd0])
           | Inr goConn \<Rightarrow>
               (Inr (fd0, goConn), [OpenFd fd0, OpenFd fd1, OpenFd goConn, CloseFd fd1])))"

definition closeRaw :: "int \<Rightarrow> log" where
  "closeRaw raw = [CloseFd raw]"

subsection \<open>Windows\<close>

datatype ip_addr = IPv4 nat nat nat nat | IPv6 "nat list"

fun IsLoopback :: "ip_addr \<Rightarrow> bool" where
  "IsLoopback (IPv4 a b c d) \<longleftrightarrow> a = 127"
| "IsLoopback (IPv6 g) \<longleftrightarrow> g = replicate 15 0 @ [1]"

record tcp_addr =
  ta_ip :: ip_addr
  ta_port :: int

text \<open>One answer of \<^verbatim>\<open>Accept\<close>, with the address of the peer when it is a TCP address.\<close>

datatype accept_answer = AcceptFails go_error | Accepted int "tcp_addr option"

text \<open>The name of a type that is not the expected one is an answer too.\<close>

record win_pair_answers =
  pw_listen :: "go_error + int"
  pw_listener_type :: "string option"
  pw_socket :: "go_error + int"
  pw_connect :: "go_error option"
  pw_nodelay :: "go_error option"
  pw_sockname :: "go_error + (string + int)"
  pw_deadline :: "go_error option"
  pw_accepts :: "accept_answer list"

text \<open>The gate: the peer is our own socket.\<close>

definition own_connection :: "int \<Rightarrow> tcp_addr option \<Rightarrow> bool" where
  "own_connection mine ra \<longleftrightarrow>
     (case ra of Some addr \<Rightarrow> IsLoopback (ta_ip addr) \<and> ta_port addr = mine | None \<Rightarrow> False)"

text \<open>The result is \<open>None\<close> while the loop still waits in \<^verbatim>\<open>Accept\<close>.\<close>

fun accept_own :: "int \<Rightarrow> int \<Rightarrow> accept_answer list \<Rightarrow> pair_result option \<times> log" where
  "accept_own s mine [] = (None, [])"
| "accept_own s mine (AcceptFails err # as) =
     (Some (Inl (''loopback accept failed: '' @ err)), [CloseFd s])"
| "accept_own s mine (Accepted c ra # as) =
     (if own_connection mine ra then (Some (Inr (s, c)), [OpenFd c])
      else (let (r, l) = accept_own s mine as in (r, [OpenFd c, CloseFd c] @ l)))"

text \<open>After the socket is there; \<^verbatim>\<open>fail\<close> closes it.\<close>

definition pair_fail :: "int \<Rightarrow> string \<Rightarrow> pair_result option \<times> log" where
  "pair_fail s msg = (Some (Inl msg), [CloseFd s])"

definition connect_own :: "win_pair_answers \<Rightarrow> int \<Rightarrow> pair_result option \<times> log" where
  "connect_own a s =
     (case pw_connect a of
        Some err \<Rightarrow> pair_fail s (''loopback connect failed: '' @ err)
      | None \<Rightarrow>
          (case pw_nodelay a of
             Some err \<Rightarrow> pair_fail s (''set TCP_NODELAY on raw end failed: '' @ err)
           | None \<Rightarrow>
               (case pw_sockname a of
                  Inl err \<Rightarrow> pair_fail s (''getsockname failed: '' @ err)
                | Inr (Inl typ) \<Rightarrow> pair_fail s (''unexpected local address type '' @ typ)
                | Inr (Inr mine) \<Rightarrow>
                    (case pw_deadline a of
                       Some err \<Rightarrow> pair_fail s (''set accept deadline failed: '' @ err)
                     | None \<Rightarrow> accept_own s mine (pw_accepts a)))))"

text \<open>The listener is closed by a deferred call, once there is a result.\<close>

definition newPair_windows :: "win_pair_answers \<Rightarrow> pair_result option \<times> log" where
  "newPair_windows a =
     (case pw_listen a of
        Inl err \<Rightarrow> (Some (Inl (''loopback listen failed: '' @ err)), [])
      | Inr ln \<Rightarrow>
          (let (r, l) =
             (case pw_listener_type a of
                Some typ \<Rightarrow> (Some (Inl (''unexpected listener type '' @ typ)), [])
              | None \<Rightarrow>
                  (case pw_socket a of
                     Inl err \<Rightarrow> (Some (Inl (''socket failed: '' @ err)), [])
                   | Inr s \<Rightarrow> (let (r, l) = connect_own a s in (r, [OpenFd s, ConnectFd s] @ l))))
           in (r, [OpenFd ln, BindFd ln ''127.0.0.1'' 0, ListenFd ln] @ l @
                  (if r = None then [] else [CloseFd ln]))))"

subsection \<open>The package\<close>

text \<open>\<^verbatim>\<open>New\<close>, with the file of the platform.\<close>

definition meshpair_New ::
  "platform \<Rightarrow> unix_pair_answers \<Rightarrow> win_pair_answers \<Rightarrow> pair_result option \<times> log" where
  "meshpair_New pl ua wa =
     (if pl = Windows then newPair_windows wa
      else (let (r, l) = newPair_unix ua in (Some r, l)))"

text \<open>What the operating system promises: a descriptor it creates is not open.\<close>

fun accepted_fds :: "accept_answer list \<Rightarrow> int set" where
  "accepted_fds [] = {}"
| "accepted_fds (Accepted c ra # as) = insert c (accepted_fds as)"
| "accepted_fds (AcceptFails err # as) = accepted_fds as"

definition unix_pair_fresh :: "int set \<Rightarrow> unix_pair_answers \<Rightarrow> bool" where
  "unix_pair_fresh F a \<longleftrightarrow>
     (case pu_socketpair a of Inl _ \<Rightarrow> True | Inr (fd0, fd1) \<Rightarrow>
        fd0 \<notin> F \<and> fd1 \<notin> F \<and> fd0 \<noteq> fd1 \<and>
        (case pu_file_conn a of Inl _ \<Rightarrow> True | Inr c \<Rightarrow> c \<notin> F \<union> {fd0, fd1}))"

definition win_pair_fresh :: "int set \<Rightarrow> win_pair_answers \<Rightarrow> bool" where
  "win_pair_fresh F a \<longleftrightarrow>
     (case pw_listen a of Inl _ \<Rightarrow> True | Inr ln \<Rightarrow> ln \<notin> F \<and>
        (case pw_socket a of Inl _ \<Rightarrow> True | Inr s \<Rightarrow> s \<notin> F \<and> s \<noteq> ln \<and>
           accepted_fds (pw_accepts a) \<inter> insert s (insert ln F) = {}))"

definition pair_fresh :: "platform \<Rightarrow> int set \<Rightarrow> unix_pair_answers \<Rightarrow> win_pair_answers \<Rightarrow> bool" where
  "pair_fresh pl F ua wa \<longleftrightarrow> (if pl = Windows then win_pair_fresh F wa else unix_pair_fresh F ua)"

text \<open>What is open after \<open>New\<close>: on an error nothing more than before.\<close>

fun pair_fds :: "int set \<Rightarrow> pair_result \<Rightarrow> int set" where
  "pair_fds F (Inl err) = F"
| "pair_fds F (Inr (raw, goSide)) = insert raw (insert goSide F)"

section \<open>Lemmas\<close>

lemma only_fds_update [simp]: "(only_fds F)\<lparr>live_fds := G\<rparr> = only_fds G"
  by (simp add: only_fds_def)

lemma accept_own_run:
  "accept_own s mine as = (r, l) \<Longrightarrow> s \<in> G \<Longrightarrow> accepted_fds as \<inter> G = {} \<Longrightarrow>
   resource_run l (only_fds G) =
     Some (only_fds (case r of None \<Rightarrow> G | Some p \<Rightarrow> pair_fds (G - {s}) p))"
proof (induction s mine as arbitrary: l rule: accept_own.induct)
  case (3 s mine c ra as)
  show ?case
  proof (cases "own_connection mine ra")
    case True
    then show ?thesis using 3 by (auto simp: insert_commute insert_absorb)
  next
    case False
    with 3 obtain l' where l': "accept_own s mine as = (r, l')" "l = [OpenFd c, CloseFd c] @ l'"
      by (auto split: prod.splits)
    have "insert c G - {c} = G" using 3 by auto
    then show ?thesis using "3.IH" [OF False l'(1)] "3.prems"(2,3) l' by auto
  qed
qed auto

lemma accept_own_is_own:
  "accept_own s mine as = (Some (Inr (raw, c)), l) \<Longrightarrow>
   raw = s \<and> (\<exists>ra. Accepted c ra \<in> set as \<and> own_connection mine ra)"
proof (induction s mine as arbitrary: l rule: accept_own.induct)
  case (3 s mine c' ra as)
  then show ?case by (auto split: if_splits prod.splits)
qed simp_all

lemma accepted_fds_member: "Accepted c ra \<in> set as \<Longrightarrow> c \<in> accepted_fds as"
  by (induction as rule: accepted_fds.induct) auto

lemma connect_own_is_own:
  "connect_own a s = (Some (Inr (raw, c)), l) \<Longrightarrow> raw = s \<and>
   (\<exists>mine ra. pw_sockname a = Inr (Inr mine) \<and> Accepted c ra \<in> set (pw_accepts a) \<and> own_connection mine ra)"
  by (auto simp: connect_own_def pair_fail_def dest: accept_own_is_own split: option.splits sum.splits)

lemma connect_own_run:
  assumes "connect_own a s = (r, l)" and "s \<in> G" and "accepted_fds (pw_accepts a) \<inter> G = {}"
  shows "resource_run l (only_fds G) =
    Some (only_fds (case r of None \<Rightarrow> G | Some p \<Rightarrow> pair_fds (G - {s}) p))"
  using assms accept_own_run
  by (auto simp: connect_own_def pair_fail_def split: option.splits sum.splits)

text \<open>The whole of \<open>New\<close> on Windows: its listener is gone when it returns.\<close>

lemma newPair_windows_run:
  assumes "newPair_windows a = (Some r, l)" and "win_pair_fresh F a"
  shows "resource_run l (only_fds F) = Some (only_fds (pair_fds F r))"
proof (cases "pw_listen a")
  case (Inr ln)
  note ln = this
  show ?thesis
  proof (cases "pw_listener_type a = None \<and> (\<exists>s. pw_socket a = Inr s)")
    case True
    then obtain s where s: "pw_listener_type a = None" "pw_socket a = Inr s" by blast
    obtain r' l' where c: "connect_own a s = (r', l')" by fastforce
    have fresh: "ln \<notin> F" "s \<notin> F" "s \<noteq> ln" "accepted_fds (pw_accepts a) \<inter> insert s (insert ln F) = {}"
      using assms(2) ln s by (simp_all add: win_pair_fresh_def)
    have r: "r' = Some r" "l = [OpenFd ln, BindFd ln ''127.0.0.1'' 0, ListenFd ln, OpenFd s, ConnectFd s] @ l' @ [CloseFd ln]"
      using assms(1) ln s c by (auto simp: newPair_windows_def split: if_splits)
    have run: "resource_run l' (only_fds (insert s (insert ln F))) =
        Some (only_fds (pair_fds (insert ln F) r))"
      using connect_own_run [OF c, of "insert s (insert ln F)"] fresh r(1) by (simp add: insert_Diff_if)
    have "ln \<in> pair_fds (insert ln F) r" "pair_fds (insert ln F) r - {ln} = pair_fds F r"
      using fresh connect_own_is_own [of a s] accepted_fds_member [of _ _ "pw_accepts a"] c
      unfolding r(1) by (cases r; fastforce)+
    then show ?thesis using fresh run by (simp add: r(2) resource_run_append)
  next
    case False
    then show ?thesis using assms ln
      by (auto simp: newPair_windows_def win_pair_fresh_def split: option.splits sum.splits)
  qed
qed (use assms in \<open>auto simp: newPair_windows_def\<close>)

lemma newPair_unix_run:
  assumes "newPair_unix a = (r, l)" and "unix_pair_fresh F a"
  shows "resource_run l (only_fds F) = Some (only_fds (pair_fds F r))"
proof (cases "pu_socketpair a")
  case (Inr p)
  obtain fd0 fd1 where p: "p = (fd0, fd1)" by (cases p)
  have fresh: "fd0 \<notin> F" "fd1 \<notin> F" "fd0 \<noteq> fd1" using assms(2) Inr p by (simp_all add: unix_pair_fresh_def)
  show ?thesis
  proof (cases "pu_file_conn a")
    case (Inl err)
    then show ?thesis using assms(1) Inr p fresh by (auto simp: newPair_unix_def insert_Diff_if)
  next
    case (Inr c)
    then have c: "c \<notin> F \<union> {fd0, fd1}" using assms(2) \<open>pu_socketpair a = Inr p\<close> p by (simp add: unix_pair_fresh_def)
    then have left: "insert c (insert fd1 (insert fd0 F)) - {fd1} = insert fd0 (insert c F)" using fresh by auto
    have r: "r = Inr (fd0, c)" "l = [OpenFd fd0, OpenFd fd1, OpenFd c, CloseFd fd1]"
      using assms(1) \<open>pu_socketpair a = Inr p\<close> p Inr by (simp_all add: newPair_unix_def)
    show ?thesis unfolding r using fresh c left by simp
  qed
qed (use assms in \<open>auto simp: newPair_unix_def\<close>)

lemma newPair_windows_own:
  assumes "newPair_windows a = (Some (Inr (raw, c)), l)"
  shows "\<exists>mine ra. pw_sockname a = Inr (Inr mine) \<and> Accepted c ra \<in> set (pw_accepts a) \<and> own_connection mine ra"
proof -
  obtain ln where ln: "pw_listen a = Inr ln" using assms by (cases "pw_listen a") (simp_all add: newPair_windows_def)
  have "pw_listener_type a = None" using assms ln by (cases "pw_listener_type a") (simp_all add: newPair_windows_def)
  moreover obtain s where s: "pw_socket a = Inr s"
    using assms ln calculation by (cases "pw_socket a") (simp_all add: newPair_windows_def)
  ultimately have "fst (connect_own a s) = Some (Inr (raw, c))"
    using assms ln by (simp add: newPair_windows_def case_prod_beta)
  then show ?thesis using connect_own_is_own [of a s raw c "snd (connect_own a s)"] by (metis prod.collapse)
qed

section \<open>Properties\<close>

text \<open>C23: The stream pair keeps the ownership contract of its package on every platform. Whatever call
  fails, an error leaves no descriptor open that was not open before; a success leaves exactly two
  more, the raw handle and the connection of Go, and every other descriptor of the way (the original of
  the duplicate, the loopback listener, connections of strangers) has been closed, none of them twice.
  On Windows the connection that is kept is one that came from the port of our own socket.\<close>

theorem newPair_sound:
  assumes "meshpair_New pl ua wa = (Some r, l)" and "pair_fresh pl F ua wa"
  shows "resource_run l (only_fds F) = Some (only_fds (pair_fds F r)) \<and>
    (pl = Windows \<longrightarrow> (\<forall>raw c. r = Inr (raw, c) \<longrightarrow>
       (\<exists>mine addr. pw_sockname wa = Inr (Inr mine) \<and> Accepted c (Some addr) \<in> set (pw_accepts wa) \<and>
          ta_port addr = mine \<and> IsLoopback (ta_ip addr))))"
proof -
  have "resource_run l (only_fds F) = Some (only_fds (pair_fds F r))"
    using assms newPair_windows_run newPair_unix_run
    by (auto simp: meshpair_New_def pair_fresh_def split: if_splits prod.splits)
  moreover have "\<exists>mine addr. pw_sockname wa = Inr (Inr mine) \<and> Accepted c (Some addr) \<in> set (pw_accepts wa) \<and>
      ta_port addr = mine \<and> IsLoopback (ta_ip addr)" if "pl = Windows" "r = Inr (raw, c)" for raw c
    using assms(1) that newPair_windows_own [of wa raw c l]
    by (auto simp: meshpair_New_def own_connection_def split: option.splits)
  ultimately show ?thesis by blast
qed

text \<open>A stranger reaches the listener first and is dropped; the own connection is then taken.\<close>

definition demo_win_pair :: win_pair_answers where
  "demo_win_pair = \<lparr>pw_listen = Inr 10, pw_listener_type = None, pw_socket = Inr 11, pw_connect = None,
     pw_nodelay = None, pw_sockname = Inr (Inr 50001), pw_deadline = None,
     pw_accepts = [Accepted 12 (Some \<lparr>ta_ip = IPv4 127 0 0 1, ta_port = 50002\<rparr>),
       Accepted 13 (Some \<lparr>ta_ip = IPv4 127 0 0 1, ta_port = 50001\<rparr>)]\<rparr>"

definition demo_unix_pair :: unix_pair_answers where
  "demo_unix_pair = \<lparr>pu_socketpair = Inr (10, 11), pu_file_conn = Inr 12\<rparr>"

theorem newPair_sound_witness:
  "fst (meshpair_New Windows demo_unix_pair demo_win_pair) = Some (Inr (11, 13)) \<and>
   resource_run (snd (meshpair_New Windows demo_unix_pair demo_win_pair)) (only_fds {3}) =
     Some (only_fds {11, 13, 3})"
proof -
  have "meshpair_New Windows demo_unix_pair demo_win_pair =
      (Some (Inr (11, 13)), snd (meshpair_New Windows demo_unix_pair demo_win_pair))"
      "pair_fresh Windows {3} demo_unix_pair demo_win_pair"
    by (simp_all add: meshpair_New_def newPair_windows_def demo_win_pair_def connect_own_def
        own_connection_def pair_fresh_def win_pair_fresh_def)
  from newPair_sound [OF this] this(1) show ?thesis by (simp add: prod_eq_iff)
qed

text \<open>The gate compares the port and only asks for a loopback address, so a local process that binds
  the same port on another address of the network 127.0.0.0/8 passes it, and its connection is bridged
  instead of the own one.\<close>

theorem impostor_accepted:
  "fst (newPair_windows (demo_win_pair\<lparr>pw_accepts :=
     [Accepted 12 (Some \<lparr>ta_ip = IPv4 127 0 0 2, ta_port = 50001\<rparr>),
      Accepted 13 (Some \<lparr>ta_ip = IPv4 127 0 0 1, ta_port = 50001\<rparr>)]\<rparr>)) = Some (Inr (11, 12))"
  by (simp add: newPair_windows_def demo_win_pair_def connect_own_def own_connection_def)

end
