(* ===== verification/Shim_Tags.thy ===== *)
theory Shim_Tags
  imports Shim_Spikes "HOL-Library.Sublist"
begin

text \<open>
  The tags of a Tailscale node, \<^verbatim>\<open>parseTags\<close> and \<^verbatim>\<open>isTagRejection\<close> of \<^verbatim>\<open>src/shim/ts/main.go\<close>, over the
  functions of the Go package \<^verbatim>\<open>strings\<close> they call. A string of Go is its bytes, in UTF-8.
\<close>

section \<open>Definitions\<close>

subsection \<open>Strings of Go\<close>

text \<open>The characters \<^verbatim>\<open>unicode.IsSpace\<close> accepts, encoded.\<close>

definition go_spaces :: "string list" where
  "go_spaces =
     [[CHR 0x09], [CHR 0x0A], [CHR 0x0B], [CHR 0x0C], [CHR 0x0D], [CHR 0x20],
      [CHR 0xC2, CHR 0x85], [CHR 0xC2, CHR 0xA0], [CHR 0xE1, CHR 0x9A, CHR 0x80],
      [CHR 0xE2, CHR 0x80, CHR 0x80], [CHR 0xE2, CHR 0x80, CHR 0x81], [CHR 0xE2, CHR 0x80, CHR 0x82],
      [CHR 0xE2, CHR 0x80, CHR 0x83], [CHR 0xE2, CHR 0x80, CHR 0x84], [CHR 0xE2, CHR 0x80, CHR 0x85],
      [CHR 0xE2, CHR 0x80, CHR 0x86], [CHR 0xE2, CHR 0x80, CHR 0x87], [CHR 0xE2, CHR 0x80, CHR 0x88],
      [CHR 0xE2, CHR 0x80, CHR 0x89], [CHR 0xE2, CHR 0x80, CHR 0x8A], [CHR 0xE2, CHR 0x80, CHR 0xA8],
      [CHR 0xE2, CHR 0x80, CHR 0xA9], [CHR 0xE2, CHR 0x80, CHR 0xAF],
      [CHR 0xE2, CHR 0x81, CHR 0x9F], [CHR 0xE3, CHR 0x80, CHR 0x80]]"

text \<open>Drop one of the texts \<open>es\<close> at the front, and as many as there are.\<close>

definition strip_one :: "string list \<Rightarrow> string \<Rightarrow> string option" where
  "strip_one es s =
     (case filter (\<lambda>e. e \<noteq> [] \<and> prefix e s) es of [] \<Rightarrow> None | e # _ \<Rightarrow> Some (drop (length e) s))"

lemma strip_one_shorter: "strip_one es s = Some t \<Longrightarrow> length t < length s"
proof -
  assume "strip_one es s = Some t"
  then obtain e r where f: "filter (\<lambda>e. e \<noteq> [] \<and> prefix e s) es = e # r" and t: "t = drop (length e) s"
    by (auto simp: strip_one_def split: list.splits)
  have "e \<in> set (filter (\<lambda>e. e \<noteq> [] \<and> prefix e s) es)" unfolding f by simp
  then show "length t < length s" by (auto simp: t prefix_def)
qed

function strip_all :: "string list \<Rightarrow> string \<Rightarrow> string" where
  "strip_all es s = (case strip_one es s of None \<Rightarrow> s | Some t \<Rightarrow> strip_all es t)"
  by pat_completeness auto
termination by (relation "measure (length \<circ> snd)") (simp_all add: strip_one_shorter)

declare strip_all.simps [simp del]

text \<open>The last character of valid or invalid text is a space exactly when the bytes of one end it.\<close>

definition TrimSpace :: "string \<Rightarrow> string" where
  "TrimSpace s = rev (strip_all (map rev go_spaces) (rev (strip_all go_spaces s)))"

text \<open>\<^verbatim>\<open>strings.FieldsFunc\<close>: the longest pieces without a separator.\<close>

function FieldsFunc :: "(char \<Rightarrow> bool) \<Rightarrow> string \<Rightarrow> string list" where
  "FieldsFunc sep s =
     (let t = dropWhile sep s in
      if t = [] then [] else takeWhile (\<lambda>c. \<not> sep c) t # FieldsFunc sep (dropWhile (\<lambda>c. \<not> sep c) t))"
  by pat_completeness auto
termination
proof (relation "measure (length \<circ> snd)", simp)
  fix sep and s t :: string
  assume t: "t = dropWhile sep s" and ne: "t \<noteq> []"
  then have "\<not> sep (hd t)" using hd_dropWhile by metis
  then have "length (dropWhile (\<lambda>c. \<not> sep c) t) < length t"
    using ne by (cases t) (auto simp: length_dropWhile_le le_imp_less_Suc)
  also have "\<dots> \<le> length s" by (simp add: t length_dropWhile_le)
  finally show "((sep, dropWhile (\<lambda>c. \<not> sep c) t), sep, s) \<in> measure (length \<circ> snd)" by simp
qed

declare FieldsFunc.simps [simp del]

text \<open>
  \<^verbatim>\<open>strings.ToLower\<close>, as far as a search for ASCII text can see it: the letters of ASCII and the two
  other characters that become one, the dotted capital I and the Kelvin sign.
\<close>

definition lower_byte :: "char \<Rightarrow> char" where
  "lower_byte c = (if 65 \<le> (of_char c :: nat) \<and> (of_char c :: nat) \<le> 90 then char_of (of_char c + 32 :: nat) else c)"

fun ToLower :: "string \<Rightarrow> string" where
  "ToLower (a # b # c # s) =
     (if [a, b] = [CHR 0xC4, CHR 0xB0] then CHR ''i'' # ToLower (c # s)
      else if [a, b, c] = [CHR 0xE2, CHR 0x84, CHR 0xAA] then CHR ''k'' # ToLower s
      else lower_byte a # ToLower (b # c # s))"
| "ToLower [a, b] = (if [a, b] = [CHR 0xC4, CHR 0xB0] then ''i'' else [lower_byte a, lower_byte b])"
| "ToLower [a] = [lower_byte a]"
| "ToLower [] = []"

subsection \<open>Tags\<close>

definition erplTunnelTag :: string where "erplTunnelTag = ''tag:erpl-tunnel''"

definition tag_separator :: "char \<Rightarrow> bool" where
  "tag_separator r \<longleftrightarrow> r = CHR '','' \<or> r = CHR '' '' \<or> r = CHR 0x09 \<or> r = CHR '';''"

definition tag_prefix :: string where "tag_prefix = ''tag:''"

definition with_tag_prefix :: "string \<Rightarrow> string" where
  "with_tag_prefix t = (if prefix tag_prefix t then t else tag_prefix @ t)"

text \<open>The loop over the fields, with the set \<open>seen\<close> and the list \<open>out\<close>.\<close>

fun tags_loop :: "string list \<Rightarrow> string set \<Rightarrow> string list \<Rightarrow> string list" where
  "tags_loop [] seen out = out"
| "tags_loop (f # fs) seen out =
     (if TrimSpace f = [] then tags_loop fs seen out
      else
        (let t = with_tag_prefix (TrimSpace f) in
         if t \<notin> seen then tags_loop fs (insert t seen) (out @ [t]) else tags_loop fs seen out))"

definition parseTags :: "string \<Rightarrow> string list" where
  "parseTags raw =
     (if TrimSpace raw = [] then [erplTunnelTag]
      else tags_loop (FieldsFunc tag_separator raw) {erplTunnelTag} [erplTunnelTag])"

definition rejection_phrases :: "string list" where
  "rejection_phrases = [''not permitted'', ''invalid'', ''not allowed'', ''unauthorized'', ''requested tags'']"

text \<open>An error that is nil is \<open>None\<close>.\<close>

definition isTagRejection :: "string option \<Rightarrow> bool" where
  "isTagRejection err =
     (case err of
        None \<Rightarrow> False
      | Some e \<Rightarrow>
          (let msg = ToLower e in strstr msg ''tag'' \<and> list_ex (\<lambda>s. strstr msg s) rejection_phrases))"

text \<open>\<^verbatim>\<open>strings.Join\<close>.\<close>

fun Join :: "string list \<Rightarrow> string \<Rightarrow> string" where
  "Join [] sep = []"
| "Join [s] sep = s"
| "Join (s # t # ss) sep = s @ sep @ Join (t # ss) sep"

section \<open>The tests of the repository\<close>

lemma parseTags_tests:
  "parseTags [] = [''tag:erpl-tunnel'']"
  "parseTags ''   '' = [''tag:erpl-tunnel'']"
  "parseTags ''duckdb'' = [''tag:erpl-tunnel'', ''tag:duckdb'']"
  "parseTags ''tag:duckdb'' = [''tag:erpl-tunnel'', ''tag:duckdb'']"
  "parseTags ''erpl-tunnel'' = [''tag:erpl-tunnel'']"
  "parseTags ''tag:erpl-tunnel, prod'' = [''tag:erpl-tunnel'', ''tag:prod'']"
  "parseTags ''a, a; b'' = [''tag:erpl-tunnel'', ''tag:a'', ''tag:b'']"
  by code_simp+

lemma isTagRejection_tests:
  "isTagRejection (Some ''requested tags [tag:erpl-tunnel] are invalid or not permitted'')"
  "isTagRejection (Some ''tags are not allowed for this node'')"
  "isTagRejection (Some ''Tag is unauthorized'')"
  "\<not> isTagRejection (Some ''context deadline exceeded'')"
  "\<not> isTagRejection (Some ''dial tcp: connection refused'')"
  "\<not> isTagRejection (Some [])" "\<not> isTagRejection None"
  by code_simp+

section \<open>Trimming\<close>

lemma strip_one_cases:
  obtains "strip_one es s = None" | e t where "e \<in> set es" "e \<noteq> []" "s = e @ t" "strip_one es s = Some t"
proof (cases "filter (\<lambda>e. e \<noteq> [] \<and> prefix e s) es")
  case (Cons e r)
  then have "e \<in> set (filter (\<lambda>e. e \<noteq> [] \<and> prefix e s) es)" by simp
  then show ?thesis using that(2) Cons by (auto simp: strip_one_def prefix_def)
qed (use that in \<open>simp add: strip_one_def\<close>)

lemma strip_one_None: "strip_one es s = None \<longleftrightarrow> (\<forall>e \<in> set es. e \<noteq> [] \<longrightarrow> \<not> prefix e s)"
proof -
  have "strip_one es s = None \<longleftrightarrow> filter (\<lambda>e. e \<noteq> [] \<and> prefix e s) es = []"
    by (simp add: strip_one_def split: list.split)
  then show ?thesis by (auto simp: filter_empty_conv)
qed

lemma strip_all_splits:
  "\<exists>xs. set xs \<subseteq> set es \<and> s = concat xs @ strip_all es s \<and> strip_one es (strip_all es s) = None"
proof (induction es s rule: strip_all.induct)
  case (1 es s)
  show ?case
  proof (rule strip_one_cases [of es s])
    assume "strip_one es s = None"
    then show ?thesis by (intro exI [of _ "[]"]) (simp add: strip_all.simps [of es s])
  next
    fix e t
    assume e: "e \<in> set es" "s = e @ t" "strip_one es s = Some t"
    with 1 obtain xs where "set xs \<subseteq> set es" "t = concat xs @ strip_all es t" "strip_one es (strip_all es t) = None"
      by blast
    moreover have "strip_all es s = strip_all es t" using e(3) by (simp add: strip_all.simps [of es s])
    ultimately show ?thesis using e(1,2) by (intro exI [of _ "e # xs"]) simp
  qed
qed

lemma strip_all_fixed: "strip_one es s = None \<Longrightarrow> strip_all es s = s"
  by (simp add: strip_all.simps)

definition trimmed :: "string \<Rightarrow> bool" where
  "trimmed s \<longleftrightarrow> strip_one go_spaces s = None \<and> strip_one (map rev go_spaces) (rev s) = None"

lemma TrimSpace_fixed: "trimmed s \<Longrightarrow> TrimSpace s = s"
  by (simp add: trimmed_def TrimSpace_def strip_all_fixed)

lemma TrimSpace_splits: "\<exists>a b. s = a @ TrimSpace s @ b"
proof -
  obtain xs where "s = concat xs @ strip_all go_spaces s" using strip_all_splits by metis
  moreover obtain ys where "rev (strip_all go_spaces s) = concat ys @ rev (TrimSpace s)"
    using strip_all_splits [of "map rev go_spaces" "rev (strip_all go_spaces s)"] by (auto simp: TrimSpace_def)
  then have "strip_all go_spaces s = TrimSpace s @ rev (concat ys)"
    by (metis rev_append rev_rev_ident)
  ultimately show ?thesis by metis
qed

lemma TrimSpace_trimmed: "trimmed (TrimSpace s)"
proof -
  let ?t = "strip_all go_spaces s"
  obtain ys where ys: "rev ?t = concat ys @ rev (TrimSpace s)"
      and right: "strip_one (map rev go_spaces) (rev (TrimSpace s)) = None"
    using strip_all_splits [of "map rev go_spaces" "rev ?t"] by (auto simp: TrimSpace_def)
  from ys have "?t = TrimSpace s @ rev (concat ys)" by (metis rev_append rev_rev_ident)
  moreover have "strip_one go_spaces ?t = None" using strip_all_splits by blast
  ultimately have "strip_one go_spaces (TrimSpace s) = None"
    by (metis prefix_prefix strip_one_None)
  with right show ?thesis by (simp add: trimmed_def)
qed

text \<open>The characters of white space in a tag: none begins with the letter t or has a colon in it.\<close>

lemma go_spaces_facts:
  assumes "e \<in> set go_spaces"
  shows "e \<noteq> [] \<and> CHR '':'' \<notin> set e \<and> hd e \<noteq> CHR ''t''"
proof -
  have "list_all (\<lambda>e. e \<noteq> [] \<and> list_all (\<lambda>c. c \<noteq> CHR '':'') e \<and> hd e \<noteq> CHR ''t'') go_spaces" by code_simp
  then show ?thesis using assms by (auto simp: list_all_iff)
qed

lemma with_tag_prefix_trimmed:
  assumes "trimmed t"
  shows "trimmed (with_tag_prefix t)"
proof (cases "prefix tag_prefix t")
  case False
  have "\<not> prefix e (tag_prefix @ t)" if "e \<in> set go_spaces" for e
    using go_spaces_facts [OF that] by (cases e) (auto simp: tag_prefix_def)
  then have "strip_one go_spaces (tag_prefix @ t) = None" by (simp add: strip_one_None)
  moreover have "\<not> prefix e (rev t @ rev tag_prefix)" if "e \<in> set (map rev go_spaces)" for e
  proof
    from that obtain e' where e': "e = rev e'" "e' \<in> set go_spaces" by auto
    assume "prefix e (rev t @ rev tag_prefix)"
    then consider "prefix e (rev t)" | x where "e = rev t @ x" "prefix x (rev tag_prefix)" "x \<noteq> []"
      by (metis append_Nil2 prefix_append prefix_order.order_refl)
    then show False
    proof cases
      case 1
      then show False using assms that go_spaces_facts e' by (auto simp: trimmed_def strip_one_None)
    next
      case 2
      then have "CHR '':'' \<in> set e" by (cases x) (auto simp: tag_prefix_def)
      then show False using go_spaces_facts [OF e'(2)] e'(1) by simp
    qed
  qed
  then have "strip_one (map rev go_spaces) (rev (tag_prefix @ t)) = None" by (simp add: strip_one_None)
  ultimately show ?thesis using False by (simp add: trimmed_def with_tag_prefix_def)
qed (simp add: with_tag_prefix_def assms)

section \<open>Fields\<close>

lemma FieldsFunc_sep [simp]: "sep d \<Longrightarrow> FieldsFunc sep (d # s) = FieldsFunc sep s"
  by (simp add: FieldsFunc.simps [of sep "d # s"] FieldsFunc.simps [of sep s])

lemma FieldsFunc_Nil [simp]: "FieldsFunc sep [] = []"
  by (simp add: FieldsFunc.simps)

lemma FieldsFunc_field:
  assumes "t \<noteq> []" and "\<forall>c \<in> set t. \<not> sep c" and "s = [] \<or> sep (hd s)"
  shows "FieldsFunc sep (t @ s) = t # FieldsFunc sep s"
proof -
  have t: "dropWhile sep (t @ s) = t @ s" using assms by (cases t) simp_all
  have "takeWhile (\<lambda>c. \<not> sep c) (t @ s) = t" "dropWhile (\<lambda>c. \<not> sep c) (t @ s) = s"
    using assms by (cases s; simp add: takeWhile_append2 dropWhile_append2)+
  then show ?thesis using assms(1) t by (subst FieldsFunc.simps) simp
qed

lemma FieldsFunc_members: "f \<in> set (FieldsFunc sep s) \<Longrightarrow> f \<noteq> [] \<and> (\<forall>c \<in> set f. \<not> sep c)"
proof (induction sep s rule: FieldsFunc.induct)
  case (1 sep s)
  let ?t = "dropWhile sep s"
  show ?case
  proof (cases "?t = []")
    case False
    then have hd: "\<not> sep (hd ?t)" using hd_dropWhile by blast
    have "f = takeWhile (\<lambda>c. \<not> sep c) ?t \<or> f \<in> set (FieldsFunc sep (dropWhile (\<lambda>c. \<not> sep c) ?t))"
      using "1.prems" False by (subst (asm) FieldsFunc.simps) (auto simp: Let_def split: if_splits)
    then show ?thesis
    proof
      assume "f = takeWhile (\<lambda>c. \<not> sep c) ?t"
      then show ?thesis using False hd by (cases ?t) (auto dest: set_takeWhileD)
    qed (use "1.IH" [OF refl False] in blast)
  qed (use "1.prems" in \<open>simp add: FieldsFunc.simps [of sep s]\<close>)
qed

lemma FieldsFunc_Join:
  "\<forall>t \<in> set ts. t \<noteq> [] \<and> (\<forall>c \<in> set t. \<not> tag_separator c) \<Longrightarrow> FieldsFunc tag_separator (Join ts '','') = ts"
proof (induction ts "'',''" rule: Join.induct)
  case (2 t)
  then show ?case using FieldsFunc_field [of t tag_separator "[]"] by simp
next
  case (3 t u ts)
  have "tag_separator (CHR '','')" by (simp add: tag_separator_def)
  then have "FieldsFunc tag_separator (t @ CHR '','' # Join (u # ts) '','') = t # FieldsFunc tag_separator (Join (u # ts) '','')"
    using 3 FieldsFunc_field [of t tag_separator "CHR '','' # Join (u # ts) '',''"] by simp
  then show ?case using 3 by simp
qed simp

section \<open>The loop\<close>

fun first_occurrences :: "'a list \<Rightarrow> 'a list" where
  "first_occurrences [] = []"
| "first_occurrences (x # xs) = x # filter (\<lambda>y. y \<noteq> x) (first_occurrences xs)"

lemma first_occurrences_set [simp]: "set (first_occurrences xs) = set xs"
  by (induction xs) auto

lemma first_occurrences_distinct [simp]: "distinct (first_occurrences xs)"
  by (induction xs) simp_all

lemma first_occurrences_id: "distinct xs \<Longrightarrow> first_occurrences xs = xs"
  by (induction xs) (auto simp: filter_id_conv)

text \<open>The tags that the fields ask for.\<close>

definition wanted_tags :: "string list \<Rightarrow> string list" where
  "wanted_tags fs = map with_tag_prefix (filter (\<lambda>t. t \<noteq> []) (map TrimSpace fs))"

lemma tags_loop_spec:
  "tags_loop fs (set out) out = out @ filter (\<lambda>t. t \<notin> set out) (first_occurrences (wanted_tags fs))"
proof (induction fs arbitrary: out)
  case (Cons f fs)
  let ?t = "with_tag_prefix (TrimSpace f)"
  have seen: "insert ?t (set out) = set (out @ [?t])" by simp
  show ?case
  proof (cases "TrimSpace f = []")
    case True
    then show ?thesis using Cons [of out] by (simp add: wanted_tags_def)
  next
    case False
    then have w: "wanted_tags (f # fs) = ?t # wanted_tags fs" by (simp add: wanted_tags_def)
    show ?thesis
    proof (cases "?t \<in> set out")
      case True
      then have "filter (\<lambda>t. t \<notin> set out) (filter (\<lambda>y. y \<noteq> ?t) xs) = filter (\<lambda>t. t \<notin> set out) xs" for xs
        by (auto simp: filter_filter intro: filter_cong)
      then show ?thesis using Cons [of out] True False by (simp add: w Let_def)
    next
      case new: False
      then show ?thesis using Cons [of "out @ [?t]"] False
        by (simp add: w Let_def filter_filter conj_commute)
    qed
  qed
qed (simp add: wanted_tags_def)

section \<open>White space only\<close>

definition blank :: "string \<Rightarrow> bool" where
  "blank s \<longleftrightarrow> (\<exists>es. set es \<subseteq> set go_spaces \<and> s = concat es)"

lemma go_spaces_prefix_free:
  assumes "e \<in> set go_spaces" and "e' \<in> set go_spaces" and "prefix e e'"
  shows "e = e'"
proof -
  have "list_all (\<lambda>e. list_all (\<lambda>e'. prefix e e' \<longrightarrow> e = e') go_spaces) go_spaces" by code_simp
  then show ?thesis using assms by (auto simp: list_all_iff)
qed

lemma strip_one_space:
  assumes "e \<in> set go_spaces"
  shows "strip_one go_spaces (e @ s) = Some s"
proof (rule strip_one_cases [of go_spaces "e @ s"])
  assume "strip_one go_spaces (e @ s) = None"
  then show ?thesis using assms go_spaces_facts by (auto simp: strip_one_None)
next
  fix e' t
  assume e': "e' \<in> set go_spaces" "e @ s = e' @ t" "strip_one go_spaces (e @ s) = Some t"
  then have "prefix e e' \<or> prefix e' e" by (metis prefixI prefix_same_cases)
  then have "e' = e" using assms e'(1) go_spaces_prefix_free by blast
  then show ?thesis using e' by simp
qed

lemma strip_Nil [simp]: "strip_one es [] = None" "strip_all es [] = []"
  by (auto simp: strip_one_None intro: strip_all_fixed)

lemma strip_all_blank: "set es \<subseteq> set go_spaces \<Longrightarrow> strip_all go_spaces (concat es) = []"
proof (induction es)
  case (Cons e es)
  then show ?case by (subst strip_all.simps) (simp add: strip_one_space)
qed simp

lemma TrimSpace_blank: "blank s \<Longrightarrow> TrimSpace s = []"
  by (auto simp: blank_def TrimSpace_def strip_all_blank)

lemma blank_TrimSpace:
  assumes "TrimSpace s = []"
  shows "blank s"
proof -
  let ?t = "strip_all go_spaces s"
  obtain xs where xs: "set xs \<subseteq> set go_spaces" "s = concat xs @ ?t" and left: "strip_one go_spaces ?t = None"
    using strip_all_splits by blast
  obtain ys where ys: "set ys \<subseteq> set (map rev go_spaces)" "rev ?t = concat ys"
    using strip_all_splits [of "map rev go_spaces" "rev ?t"] assms by (auto simp: TrimSpace_def)
  have "ys = []"
  proof (rule ccontr)
    assume "ys \<noteq> []"
    then have "?t = rev (last ys) @ rev (concat (butlast ys))" "rev (last ys) \<in> set go_spaces"
      using ys by (metis append_butlast_last_id concat.simps concat_append append_Nil2 rev_append rev_rev_ident,
        use ys last_in_set [OF \<open>ys \<noteq> []\<close>] in auto)
    then show False using left go_spaces_facts by (metis prefixI strip_one_None)
  qed
  then have "?t = []" using ys by simp
  then show ?thesis using xs unfolding blank_def by (metis append_Nil2)
qed

lemma go_space_separators:
  assumes "e \<in> set go_spaces"
  shows "(\<forall>c \<in> set e. \<not> tag_separator c) \<or> (\<exists>c. e = [c] \<and> tag_separator c)"
proof -
  have "list_all (\<lambda>e. list_all (\<lambda>c. \<not> tag_separator c) e \<or> (length e = 1 \<and> tag_separator (hd e))) go_spaces"
    by code_simp
  then show ?thesis using assms by (auto simp: list_all_iff length_Suc_conv)
qed

lemma blank_fields:
  "set es \<subseteq> set go_spaces \<Longrightarrow> f \<in> set (FieldsFunc tag_separator (concat es)) \<Longrightarrow> blank f"
proof (induction es rule: length_induct)
  case (1 es)
  let ?free = "\<lambda>e. \<forall>c \<in> set e. \<not> tag_separator c"
  show ?case
  proof (cases es)
    case (Cons e es')
    show ?thesis
    proof (cases "?free e")
      case False
      then obtain c where "e = [c]" "tag_separator c" using go_space_separators 1 Cons by auto
      then show ?thesis using "1.IH" [rule_format, of es'] "1.prems" Cons by simp
    next
      case True
      let ?ns = "takeWhile ?free es" and ?rest = "dropWhile ?free es"
      have sub: "set ?ns \<subseteq> set go_spaces" "set ?rest \<subseteq> set go_spaces"
        using "1.prems"(1) by (auto dest: set_takeWhileD set_dropWhileD)
      have split: "concat es = concat ?ns @ concat ?rest" by (metis concat_append takeWhile_dropWhile_id)
      have "e \<noteq> []" using go_spaces_facts [of e] "1.prems"(1) Cons by simp
      then have ns: "concat ?ns \<noteq> []" "\<forall>c \<in> set (concat ?ns). \<not> tag_separator c"
        using True Cons by (simp, auto dest: set_takeWhileD)
      have rest: "concat ?rest = [] \<or> tag_separator (hd (concat ?rest))"
      proof (cases ?rest)
        case (Cons d ds)
        then have "\<not> ?free d" using hd_dropWhile [of ?free es] by simp
        then show ?thesis using Cons go_space_separators [of d] sub by auto
      next
        case Nil
        show ?thesis unfolding Nil by simp
      qed
      have "f = concat ?ns \<or> f \<in> set (FieldsFunc tag_separator (concat ?rest))"
        using "1.prems"(2) FieldsFunc_field [OF ns rest] split by simp
      moreover have "length ?rest < length es" using True Cons by (simp add: le_imp_less_Suc length_dropWhile_le)
      ultimately show ?thesis using 1 sub by (auto simp: blank_def)
    qed
  qed (use 1 in simp)
qed

section \<open>Properties\<close>

lemma parseTags_eq: "parseTags raw = first_occurrences (erplTunnelTag # wanted_tags (FieldsFunc tag_separator raw))"
proof (cases "TrimSpace raw = []")
  case True
  then obtain es where "set es \<subseteq> set go_spaces" "raw = concat es" using blank_TrimSpace by (auto simp: blank_def)
  then have "TrimSpace f = []" if "f \<in> set (FieldsFunc tag_separator raw)" for f
    using blank_fields that by (auto intro: TrimSpace_blank)
  then have "wanted_tags (FieldsFunc tag_separator raw) = []" by (simp add: wanted_tags_def filter_empty_conv)
  then show ?thesis using True by (simp add: parseTags_def)
next
  case False
  then show ?thesis using tags_loop_spec [of _ "[erplTunnelTag]"] by (simp add: parseTags_def)
qed

definition well_tagged :: "string \<Rightarrow> bool" where
  "well_tagged t \<longleftrightarrow> prefix tag_prefix t \<and> trimmed t \<and> (\<forall>c \<in> set t. \<not> tag_separator c)"

lemma wanted_tags_well:
  assumes "t \<in> set (wanted_tags (FieldsFunc tag_separator raw))"
  shows "well_tagged t"
proof -
  obtain f where f: "f \<in> set (FieldsFunc tag_separator raw)" "t = with_tag_prefix (TrimSpace f)"
    using assms by (auto simp: wanted_tags_def)
  obtain a b where "f = a @ TrimSpace f @ b" using TrimSpace_splits by blast
  then have "set (TrimSpace f) \<subseteq> set f" by (metis Un_upper1 Un_upper2 le_sup_iff set_append)
  then have "\<forall>c \<in> set (TrimSpace f). \<not> tag_separator c" using FieldsFunc_members [OF f(1)] by blast
  moreover have "\<forall>c \<in> set tag_prefix. \<not> tag_separator c" by (simp add: tag_prefix_def tag_separator_def)
  ultimately show ?thesis
    using f(2) with_tag_prefix_trimmed [OF TrimSpace_trimmed]
    by (auto simp: well_tagged_def with_tag_prefix_def split: if_splits)
qed

lemma erplTunnelTag_well: "well_tagged erplTunnelTag"
proof -
  have "prefix tag_prefix erplTunnelTag" "trimmed erplTunnelTag" "list_all (\<lambda>c. \<not> tag_separator c) erplTunnelTag"
    by code_simp+
  then show ?thesis by (simp add: well_tagged_def list_all_iff)
qed

lemma parseTags_well: "t \<in> set (parseTags raw) \<Longrightarrow> well_tagged t"
  using wanted_tags_well erplTunnelTag_well by (auto simp: parseTags_eq)

text \<open>C24: The tags a node advertises are exactly those of the secret, in canonical form. They are the tag
  of the extension followed by the fields of the text, each trimmed, with the prefix and once, in the
  order of their first occurrence; so the tag of the extension is always there and every tag has the
  prefix and no white space at its ends and no separator in it. Parsing the tags again, joined by commas, changes nothing.\<close>

theorem parseTags_canonical:
  "parseTags raw = first_occurrences (erplTunnelTag # wanted_tags (FieldsFunc tag_separator raw)) \<and>
   list_all well_tagged (parseTags raw) \<and>
   parseTags (Join (parseTags raw) '','') = parseTags raw"
proof -
  let ?ts = "parseTags raw"
  have well: "\<forall>t \<in> set ?ts. well_tagged t" using parseTags_well by blast
  then have ne: "\<forall>t \<in> set ?ts. t \<noteq> []" by (auto simp: well_tagged_def tag_prefix_def)
  have "FieldsFunc tag_separator (Join ?ts '','') = ?ts"
    using well ne by (intro FieldsFunc_Join) (simp add: well_tagged_def)
  moreover have "map TrimSpace ?ts = ?ts" using well by (intro map_idI) (simp add: well_tagged_def TrimSpace_fixed)
  then have "wanted_tags ?ts = ?ts"
    using well ne by (simp add: wanted_tags_def filter_id_conv map_idI well_tagged_def with_tag_prefix_def)
  moreover have "first_occurrences (erplTunnelTag # ?ts) = ?ts" (is "?l = _")
  proof -
    have "first_occurrences ?ts = ?ts" by (rule first_occurrences_id) (simp only: parseTags_eq first_occurrences_distinct)
    moreover have "\<exists>r. ?ts = erplTunnelTag # r \<and> erplTunnelTag \<notin> set r" by (simp add: parseTags_eq)
    ultimately show ?thesis by (auto simp: filter_id_conv)
  qed
  ultimately have "parseTags (Join ?ts '','') = ?ts" by (simp only: parseTags_eq [of "Join ?ts '',''"])
  then show ?thesis using parseTags_eq well by (simp only: list_all_iff)
qed

end
