(* ===== verification/Mesh_Bridge.thy ===== *)
theory Mesh_Bridge
  imports Thread_Systems "HOL-Library.Sublist"
begin

text \<open>
  How the Go shims move bytes: the copying goroutine \<^verbatim>\<open>cp\<close>, which occurs in \<^verbatim>\<open>bridge\<close> of
  \<^verbatim>\<open>src/shim/ts/main.go\<close> and \<^verbatim>\<open>src/shim/nb/main.go\<close> and in \<^verbatim>\<open>serve\<close> of
  \<^verbatim>\<open>src/shim/meshpair/export.go\<close>, and the bridge that ties a dialled mesh connection to the stream
  handed to C. A bridge is a step relation: two copying goroutines, one for each direction, and the
  goroutine that waits for both. A connection of Go is its descriptor.
\<close>

section \<open>Definitions\<close>

text \<open>What \<^verbatim>\<open>io.Copy\<close> returns: no error at the end of the source, or an error of either side.\<close>

datatype copy_end = CopyEof | CopyFailed

text \<open>One turn of \<^verbatim>\<open>io.Copy\<close>: what a read gave, whether the source came to its end with it, and what a
  write took of it.\<close>

record copy_turn =
  ct_read :: "byte list"
  ct_end :: "copy_end option"
  ct_written :: nat
  ct_write_err :: bool

text \<open>A read or write on a connection that has been closed fails.\<close>

definition copy_once :: "int set \<Rightarrow> copy_turn \<Rightarrow> int \<Rightarrow> int \<Rightarrow> copy_end option \<times> log" where
  "copy_once opened t dst src =
     (if src \<notin> opened then (Some CopyFailed, [])
      else if ct_read t = [] then (ct_end t, [])
      else if dst \<notin> opened then (Some CopyFailed, [RecvOn src (ct_read t)])
      else
        (if ct_write_err t \<or> ct_written t < length (ct_read t) then Some CopyFailed else ct_end t,
         [RecvOn src (ct_read t), SendOn dst (take (ct_written t) (ct_read t))]))"

text \<open>A copying goroutine: inside \<^verbatim>\<open>io.Copy\<close>, before the half-close of its destination, after it has
  signalled \<^verbatim>\<open>done\<close>.\<close>

datatype copy_pc = CpCopy | CpHalf copy_end | CpDone copy_end

text \<open>\<open>half\<close>: the destination has a method \<^verbatim>\<open>CloseWrite\<close>.\<close>

fun cp_move :: "int set \<Rightarrow> bool \<Rightarrow> copy_turn \<Rightarrow> int \<Rightarrow> int \<Rightarrow> copy_pc \<Rightarrow> copy_pc \<times> log" where
  "cp_move opened half t dst src CpCopy =
     (let (e, l) = copy_once opened t dst src in (case e of None \<Rightarrow> CpCopy | Some e \<Rightarrow> CpHalf e, l))"
| "cp_move opened half t dst src (CpHalf e) =
     (CpDone e, if half \<and> dst \<in> opened then [ShutdownWr dst] else [])"
| "cp_move opened half t dst src (CpDone e) = (CpDone e, [])"

fun cp_done :: "copy_pc \<Rightarrow> bool" where
  "cp_done (CpDone e) \<longleftrightarrow> True"
| "cp_done _ \<longleftrightarrow> False"

subsection \<open>The bridge\<close>

record bridge_state =
  br_local :: int
  br_mesh :: int
  br_up :: copy_pc
  br_down :: copy_pc
  br_closed :: bool
  br_log :: log

definition bridge_init :: "int \<Rightarrow> int \<Rightarrow> bridge_state" where
  "bridge_init local mesh =
     \<lparr>br_local = local, br_mesh = mesh, br_up = CpCopy, br_down = CpCopy, br_closed = False, br_log = []\<rparr>"

definition br_open :: "bridge_state \<Rightarrow> int set" where
  "br_open st = (if br_closed st then {} else {br_local st, br_mesh st})"

definition bridge_up :: "bool \<Rightarrow> copy_turn \<Rightarrow> bridge_state \<Rightarrow> bridge_state" where
  "bridge_up half t st =
     (let (pc, l) = cp_move (br_open st) half t (br_mesh st) (br_local st) (br_up st)
      in st\<lparr>br_up := pc, br_log := br_log st @ l\<rparr>)"

definition bridge_down :: "bool \<Rightarrow> copy_turn \<Rightarrow> bridge_state \<Rightarrow> bridge_state" where
  "bridge_down half t st =
     (let (pc, l) = cp_move (br_open st) half t (br_local st) (br_mesh st) (br_down st)
      in st\<lparr>br_down := pc, br_log := br_log st @ l\<rparr>)"

definition bridge_close :: "bridge_state \<Rightarrow> bridge_state" where
  "bridge_close st =
     st\<lparr>br_closed := True, br_log := br_log st @ [CloseFd (br_local st), CloseFd (br_mesh st)]\<rparr>"

text \<open>Both connections of a bridge have \<^verbatim>\<open>CloseWrite\<close> or not: \<open>hl\<close> for the local end, \<open>hm\<close> for the mesh.\<close>

inductive bridge_step :: "bool \<Rightarrow> bool \<Rightarrow> bridge_state \<Rightarrow> bridge_state \<Rightarrow> bool" for hl hm where
  BridgeUp: "\<not> cp_done (br_up st) \<Longrightarrow> bridge_step hl hm st (bridge_up hm t st)"
| BridgeDown: "\<not> cp_done (br_down st) \<Longrightarrow> bridge_step hl hm st (bridge_down hl t st)"
| BridgeClose: "cp_done (br_up st) \<Longrightarrow> cp_done (br_down st) \<Longrightarrow> \<not> br_closed st \<Longrightarrow>
    bridge_step hl hm st (bridge_close st)"

section \<open>One direction\<close>

text \<open>What the log says of one copying goroutine at \<open>pc\<close>.\<close>

definition copied :: "bool \<Rightarrow> copy_pc \<Rightarrow> int \<Rightarrow> int \<Rightarrow> log \<Rightarrow> bool" where
  "copied half pc dst src l \<longleftrightarrow>
     prefix (sent_on dst l) (received_on src l) \<and>
     (pc \<in> {CpCopy, CpHalf CopyEof, CpDone CopyEof} \<longrightarrow> sent_on dst l = received_on src l) \<and>
     (ShutdownWr dst \<in> set l \<longleftrightarrow> cp_done pc \<and> half)"

lemma cp_move_copied:
  assumes "copied half pc dst src l" and "dst \<noteq> src" and "dst \<in> opened" and "src \<in> opened"
    and "\<not> cp_done pc" and "cp_move opened half t dst src pc = (pc', l')"
  shows "copied half pc' dst src (l @ l')"
  using assms
  by (cases pc) (auto simp: copied_def copy_once_def take_is_prefix split: if_splits option.splits)

text \<open>The other direction sees none of it.\<close>

lemma cp_move_silent:
  assumes "dst \<noteq> src" and "cp_move opened half t dst src pc = (pc', l)"
  shows "sent_on src l = [] \<and> received_on dst l = [] \<and> ShutdownWr src \<notin> set l"
  using assms by (cases pc) (auto simp: copy_once_def split: if_splits)

lemma cp_move_other:
  assumes "copied half' pc' src dst l" and "dst \<noteq> src" and "cp_move opened half t dst src pc = (pc'', l')"
  shows "copied half' pc' src dst (l @ l')"
  using assms(1) cp_move_silent [OF assms(2,3)] by (simp add: copied_def)

lemma cp_move_run:
  assumes "cp_move opened half t dst src pc = (pc', l)" and "opened \<subseteq> live_fds r"
  shows "resource_run l r = Some r"
  using assms by (cases pc) (auto simp: copy_once_def require_def split: if_splits)

lemma copied_init: "copied half CpCopy dst src []"
  by (simp add: copied_def)

lemma copied_close: "copied half pc dst src l \<Longrightarrow> copied half pc dst src (l @ [CloseFd c, CloseFd d])"
  by (simp add: copied_def)

section \<open>The bridge\<close>

definition bridge_inv :: "bool \<Rightarrow> bool \<Rightarrow> int set \<Rightarrow> bridge_state \<Rightarrow> bool" where
  "bridge_inv hl hm F st \<longleftrightarrow>
     br_local st \<noteq> br_mesh st \<and> br_local st \<notin> F \<and> br_mesh st \<notin> F \<and>
     (br_closed st \<longrightarrow> cp_done (br_up st) \<and> cp_done (br_down st)) \<and>
     copied hm (br_up st) (br_mesh st) (br_local st) (br_log st) \<and>
     copied hl (br_down st) (br_local st) (br_mesh st) (br_log st)"

definition br_resources :: "int set \<Rightarrow> bridge_state \<Rightarrow> resources" where
  "br_resources F st = only_fds (F \<union> br_open st)"

lemma bridge_moves [simp]:
  "br_local (bridge_up half t st) = br_local st" "br_mesh (bridge_up half t st) = br_mesh st"
  "br_closed (bridge_up half t st) = br_closed st" "br_down (bridge_up half t st) = br_down st"
  "br_local (bridge_down half t st) = br_local st" "br_mesh (bridge_down half t st) = br_mesh st"
  "br_closed (bridge_down half t st) = br_closed st" "br_up (bridge_down half t st) = br_up st"
  by (simp_all add: bridge_up_def bridge_down_def case_prod_beta)

lemma br_open_moves [simp]:
  "br_open (bridge_up half t st) = br_open st" "br_open (bridge_down half t st) = br_open st"
  by (simp_all add: br_open_def)

lemma bridge_step_keeps:
  assumes "bridge_step hl hm st st'" and "bridge_inv hl hm F st"
  shows "bridge_inv hl hm F st' \<and> br_local st' = br_local st \<and> br_mesh st' = br_mesh st \<and>
    (\<exists>l. br_log st' = br_log st @ l \<and>
       resource_run l (br_resources F st) = Some (br_resources F st'))"
  using assms(1)
proof cases
  case (BridgeUp t)
  obtain pc l where m: "cp_move (br_open st) hm t (br_mesh st) (br_local st) (br_up st) = (pc, l)"
    by fastforce
  have opened: "br_open st = {br_local st, br_mesh st}" using BridgeUp assms(2) by (auto simp: br_open_def bridge_inv_def)
  have "resource_run l (br_resources F st) = Some (br_resources F st)"
    using m by (rule cp_move_run) (simp add: br_resources_def)
  moreover have "br_resources F (bridge_up hm t st) = br_resources F st"
    by (simp add: br_resources_def)
  moreover have "br_up (bridge_up hm t st) = pc" "br_log (bridge_up hm t st) = br_log st @ l"
    by (simp_all add: bridge_up_def m)
  ultimately show ?thesis
    using BridgeUp assms(2) opened cp_move_copied [OF _ _ _ _ _ m] cp_move_other [OF _ _ m]
    by (auto simp: bridge_inv_def)
next
  case (BridgeDown t)
  obtain pc l where m: "cp_move (br_open st) hl t (br_local st) (br_mesh st) (br_down st) = (pc, l)"
    by fastforce
  have opened: "br_open st = {br_local st, br_mesh st}" using BridgeDown assms(2) by (auto simp: br_open_def bridge_inv_def)
  have "resource_run l (br_resources F st) = Some (br_resources F st)"
    using m by (rule cp_move_run) (simp add: br_resources_def)
  moreover have "br_resources F (bridge_down hl t st) = br_resources F st"
    by (simp add: br_resources_def)
  moreover have "br_down (bridge_down hl t st) = pc" "br_log (bridge_down hl t st) = br_log st @ l"
    by (simp_all add: bridge_down_def m)
  ultimately show ?thesis
    using BridgeDown assms(2) opened cp_move_copied [OF _ _ _ _ _ m] cp_move_other [OF _ _ m]
    by (auto simp: bridge_inv_def)
next
  case BridgeClose
  then show ?thesis using assms(2)
    by (auto simp: bridge_inv_def bridge_close_def copied_close br_resources_def br_open_def
        only_fds_def insert_Diff_if)
qed

interpretation br_sys: resource_system "bridge_step hl hm" "bridge_inv hl hm F" "br_resources F" br_log
  for hl hm F
  by unfold_locales (use bridge_step_keeps in blast)

lemma bridge_ends:
  assumes "(bridge_step hl hm)\<^sup>*\<^sup>* (bridge_init local mesh) st"
  shows "br_local st = local \<and> br_mesh st = mesh"
  using assms
  by (induction rule: rtranclp_induct)
    (auto simp: bridge_init_def bridge_close_def elim!: bridge_step.cases)

section \<open>Properties\<close>

text \<open>C22: The bridge between the stream of C and a mesh connection is a faithful full-duplex pipe, in
  every interleaving of its two copying goroutines. What was written to either side is a prefix of
  what was read from the other, and all of it while that direction runs and after it ended with the end
  of its source; the write side of a connection is shut down exactly when its direction has ended, the
  other direction can still carry bytes then, and both connections are closed exactly once, when both
  have ended, and never used afterwards.\<close>

theorem bridge_streams:
  assumes "local \<noteq> mesh" and "local \<notin> F" and "mesh \<notin> F"
    and "(bridge_step hl hm)\<^sup>*\<^sup>* (bridge_init local mesh) st"
  shows "copied hm (br_up st) mesh local (br_log st) \<and> copied hl (br_down st) local mesh (br_log st) \<and>
    resource_run (br_log st) (only_fds (F \<union> {local, mesh})) = Some (only_fds (F \<union> br_open st)) \<and>
    ((\<nexists>st'. bridge_step hl hm st st') \<longleftrightarrow> br_closed st)"
proof -
  have init: "bridge_inv hl hm F (bridge_init local mesh)" "br_log (bridge_init local mesh) = []"
      "br_resources F (bridge_init local mesh) = only_fds (F \<union> {local, mesh})"
    using assms by (simp_all add: bridge_inv_def bridge_init_def copied_init br_resources_def br_open_def)
  have inv: "bridge_inv hl hm F st"
    and run: "resource_run (br_log st) (only_fds (F \<union> {local, mesh})) = Some (br_resources F st)"
    using br_sys.reachable [OF assms(4) init(1), of "only_fds (F \<union> {local, mesh})"] init by simp_all
  have "(\<nexists>st'. bridge_step hl hm st st') \<longleftrightarrow> br_closed st"
  proof
    assume "br_closed st"
    then show "\<nexists>st'. bridge_step hl hm st st'" using inv by (auto simp: bridge_inv_def elim: bridge_step.cases)
  qed (use bridge_step.intros in blast)
  then show ?thesis using inv run bridge_ends [OF assms(4)] by (simp add: bridge_inv_def br_resources_def)
qed

text \<open>A request goes up and its client half-closes; the answer still comes down.\<close>

definition demo_copy :: "byte list \<Rightarrow> copy_end option \<Rightarrow> copy_turn" where
  "demo_copy bs e = \<lparr>ct_read = bs, ct_end = e, ct_written = length bs, ct_write_err = False\<rparr>"

definition demo_bridge :: bridge_state where
  "demo_bridge =
     bridge_close (bridge_down True (demo_copy [] None) (bridge_down True (demo_copy [3, 4] (Some CopyEof))
       (bridge_up True (demo_copy [] None) (bridge_up True (demo_copy [] (Some CopyEof))
         (bridge_up True (demo_copy [1, 2] None) (bridge_init 5 6))))))"

lemmas demo_bridge_defs = demo_bridge_def bridge_close_def bridge_down_def bridge_up_def bridge_init_def
  demo_copy_def copy_once_def br_open_def

lemma demo_bridge_reached: "(bridge_step True True)\<^sup>*\<^sup>* (bridge_init 5 6) demo_bridge"
  unfolding demo_bridge_def
  by (intro bridge_step.intros
      [THEN rtranclp.rtrancl_into_rtrancl [where r = "bridge_step hl hm" for hl hm, rotated]]
      rtranclp.rtrancl_refl) (simp_all add: demo_bridge_defs)

theorem bridge_streams_witness:
  "br_log demo_bridge = [RecvOn 5 [1, 2], SendOn 6 [1, 2], ShutdownWr 6, RecvOn 6 [3, 4], SendOn 5 [3, 4],
     ShutdownWr 5, CloseFd 5, CloseFd 6] \<and>
   copied True (br_up demo_bridge) 6 5 (br_log demo_bridge) \<and>
   resource_run (br_log demo_bridge) (only_fds ({3} \<union> {5, 6})) = Some (only_fds ({3} \<union> br_open demo_bridge))"
proof -
  have "br_log demo_bridge = [RecvOn 5 [1, 2], SendOn 6 [1, 2], ShutdownWr 6, RecvOn 6 [3, 4], SendOn 5 [3, 4],
     ShutdownWr 5, CloseFd 5, CloseFd 6]"
    by (simp add: demo_bridge_defs)
  then show ?thesis using bridge_streams [OF _ _ _ demo_bridge_reached, of "{3}"] by simp
qed

end
