(* ===== verification/Shim_Exporter.thy ===== *)
theory Shim_Exporter
  imports Mesh_Bridge
begin

text \<open>
  The inbound port-forward of the shims, all of \<^verbatim>\<open>src/shim/meshpair/export.go\<close>: an exporter owns one
  mesh listener, a goroutine that accepts on it (\<^verbatim>\<open>acceptLoop\<close>), one goroutine with two copying
  goroutines for each connection (\<^verbatim>\<open>serve\<close>), and is closed from outside (\<^verbatim>\<open>Close\<close>). They share the
  fields of the exporter under its mutex and may run in any order: the exporter is a step relation, one
  step for each stretch between two locks or blocking calls. A connection is an object, so its number
  is never used again; closing one that is already closed has no effect.
\<close>

section \<open>Definitions\<close>

record Exporter =
  xp_ln :: "int option"
  xp_localAddr :: string
  xp_conns :: "int set"
  xp_closed :: bool
  xp_lastErr :: "string option"

text \<open>\<^verbatim>\<open>net.JoinHostPort\<close> puts a host with a colon into brackets.\<close>

definition JoinHostPort :: "string \<Rightarrow> string \<Rightarrow> string" where
  "JoinHostPort host port =
     (if CHR '':'' \<in> set host then ''['' @ host @ '']:'' @ port else host @ '':'' @ port)"

definition StartExport :: "int \<Rightarrow> string \<Rightarrow> int \<Rightarrow> Exporter" where
  "StartExport ln localHost localPort =
     \<lparr>xp_ln = Some ln,
      xp_localAddr = JoinHostPort (if localHost = [] then ''127.0.0.1'' else localHost) (to_string localPort),
      xp_conns = {}, xp_closed = False, xp_lastErr = None\<rparr>"

definition Exporter_LastError :: "Exporter \<Rightarrow> string" where
  "Exporter_LastError e = (case xp_lastErr e of None \<Rightarrow> [] | Some err \<Rightarrow> err)"

definition Exporter_Addr :: "(int \<Rightarrow> string) \<Rightarrow> Exporter \<Rightarrow> string" where
  "Exporter_Addr listener_addr e = (case xp_ln e of None \<Rightarrow> [] | Some ln \<Rightarrow> listener_addr ln)"

subsection \<open>The goroutines\<close>

text \<open>\<^verbatim>\<open>acceptLoop\<close>: in \<^verbatim>\<open>Accept\<close>, about to start the goroutine of a connection, returned.\<close>

datatype loop_pc = LpAccept | LpServe int | LpDone

text \<open>\<^verbatim>\<open>serve\<close>: before each of its calls; both copying goroutines; its deferred calls.\<close>

datatype serve_pc =
    SvTrack
  | SvDial
  | SvTrackLocal int
  | SvCopy int copy_pc copy_pc
  | SvUntrackLocal int
  | SvUntrack

record serve_routine =
  sv_conn :: int
  sv_pc :: serve_pc

text \<open>\<^verbatim>\<open>Close\<close>: not called, before it closes the listener, with connections left to close, returned.\<close>

datatype stop_pc = StOpen | StListener "int list" | StConns "int list" | StReturned

text \<open>\<open>xs_used\<close>: the connections that ever existed.\<close>

record exporter_state =
  xs_exporter :: Exporter
  xs_listening :: bool
  xs_open :: "int set"
  xs_used :: "int set"
  xs_loop :: loop_pc
  xs_serves :: "serve_routine list"
  xs_stop :: stop_pc
  xs_log :: log

definition exporter_init :: "Exporter \<Rightarrow> int set \<Rightarrow> exporter_state" where
  "exporter_init e F =
     \<lparr>xs_exporter = e, xs_listening = True, xs_open = {}, xs_used = insert (the (xp_ln e)) F, xs_loop = LpAccept,
      xs_serves = [], xs_stop = StOpen, xs_log = []\<rparr>"

definition conn_opens :: "int \<Rightarrow> exporter_state \<Rightarrow> exporter_state" where
  "conn_opens c st = st\<lparr>xs_open := insert c (xs_open st), xs_used := insert c (xs_used st), xs_log := xs_log st @ [OpenFd c]\<rparr>"

text \<open>\<^verbatim>\<open>Close\<close> of a connection.\<close>

definition conn_close :: "int \<Rightarrow> exporter_state \<Rightarrow> exporter_state" where
  "conn_close c st =
     (if c \<in> xs_open st then st\<lparr>xs_open := xs_open st - {c}, xs_log := xs_log st @ [CloseFd c]\<rparr> else st)"

definition with_exporter :: "(Exporter \<Rightarrow> Exporter) \<Rightarrow> exporter_state \<Rightarrow> exporter_state" where
  "with_exporter f st = st\<lparr>xs_exporter := f (xs_exporter st)\<rparr>"

definition track :: "int \<Rightarrow> exporter_state \<Rightarrow> exporter_state" where
  "track c st =
     (if xp_closed (xs_exporter st) then conn_close c st
      else with_exporter (\<lambda>e. e\<lparr>xp_conns := insert c (xp_conns e)\<rparr>) st)"

definition untrack :: "int \<Rightarrow> exporter_state \<Rightarrow> exporter_state" where
  "untrack c st = with_exporter (\<lambda>e. e\<lparr>xp_conns := xp_conns e - {c}\<rparr>) st"

text \<open>\<^verbatim>\<open>acceptLoop\<close>.\<close>

definition loop_accepts :: "int \<Rightarrow> exporter_state \<Rightarrow> exporter_state" where
  "loop_accepts c st = (conn_opens c st)\<lparr>xs_loop := LpServe c\<rparr>"

definition loop_fails :: "string \<Rightarrow> exporter_state \<Rightarrow> exporter_state" where
  "loop_fails err st =
     (with_exporter (\<lambda>e. if xp_closed e then e else e\<lparr>xp_lastErr := Some err\<rparr>) st)\<lparr>xs_loop := LpDone\<rparr>"

definition loop_serves :: "int \<Rightarrow> exporter_state \<Rightarrow> exporter_state" where
  "loop_serves c st =
     st\<lparr>xs_loop := LpAccept, xs_serves := xs_serves st @ [\<lparr>sv_conn = c, sv_pc = SvTrack\<rparr>]\<rparr>"

text \<open>\<^verbatim>\<open>serve\<close>: the routines are \<open>xs @ p # ys\<close>, and \<open>p\<close> moves or returns.\<close>

definition serve_goto ::
  "serve_pc \<Rightarrow> serve_routine list \<Rightarrow> serve_routine \<Rightarrow> serve_routine list \<Rightarrow> exporter_state \<Rightarrow> exporter_state" where
  "serve_goto pc xs p ys st = st\<lparr>xs_serves := xs @ p\<lparr>sv_pc := pc\<rparr> # ys\<rparr>"

definition serve_track ::
  "serve_routine list \<Rightarrow> serve_routine \<Rightarrow> serve_routine list \<Rightarrow> exporter_state \<Rightarrow> exporter_state" where
  "serve_track xs p ys st = serve_goto SvDial xs p ys (track (sv_conn p) st)"

definition serve_dials ::
  "int \<Rightarrow> serve_routine list \<Rightarrow> serve_routine \<Rightarrow> serve_routine list \<Rightarrow> exporter_state \<Rightarrow> exporter_state" where
  "serve_dials c xs p ys st = serve_goto (SvTrackLocal c) xs p ys (conn_opens c st)"

definition msg_refused :: "string \<Rightarrow> string \<Rightarrow> string" where
  "msg_refused addr err = ''inbound connection arrived but '' @ addr @ '' refused it: '' @ err"

definition record_refusal :: "string \<Rightarrow> exporter_state \<Rightarrow> exporter_state" where
  "record_refusal err st =
     with_exporter (\<lambda>e. e\<lparr>xp_lastErr := Some (msg_refused (xp_localAddr e) err)\<rparr>) st"

definition serve_refused ::
  "string \<Rightarrow> serve_routine list \<Rightarrow> serve_routine \<Rightarrow> serve_routine list \<Rightarrow> exporter_state \<Rightarrow> exporter_state" where
  "serve_refused err xs p ys st =
     serve_goto SvUntrack xs p ys (conn_close (sv_conn p) (record_refusal err st))"

definition serve_track_local ::
  "int \<Rightarrow> serve_routine list \<Rightarrow> serve_routine \<Rightarrow> serve_routine list \<Rightarrow> exporter_state \<Rightarrow> exporter_state" where
  "serve_track_local c xs p ys st = serve_goto (SvCopy c CpCopy CpCopy) xs p ys (track c st)"

definition serve_up ::
  "bool \<Rightarrow> copy_turn \<Rightarrow> int \<Rightarrow> copy_pc \<Rightarrow> copy_pc \<Rightarrow> serve_routine list \<Rightarrow> serve_routine \<Rightarrow>
   serve_routine list \<Rightarrow> exporter_state \<Rightarrow> exporter_state" where
  "serve_up half t c up down xs p ys st =
     (let (up', l) = cp_move (xs_open st) half t c (sv_conn p) up
      in serve_goto (SvCopy c up' down) xs p ys (st\<lparr>xs_log := xs_log st @ l\<rparr>))"

definition serve_down ::
  "bool \<Rightarrow> copy_turn \<Rightarrow> int \<Rightarrow> copy_pc \<Rightarrow> copy_pc \<Rightarrow> serve_routine list \<Rightarrow> serve_routine \<Rightarrow>
   serve_routine list \<Rightarrow> exporter_state \<Rightarrow> exporter_state" where
  "serve_down half t c up down xs p ys st =
     (let (down', l) = cp_move (xs_open st) half t (sv_conn p) c down
      in serve_goto (SvCopy c up down') xs p ys (st\<lparr>xs_log := xs_log st @ l\<rparr>))"

definition serve_close ::
  "int \<Rightarrow> serve_routine list \<Rightarrow> serve_routine \<Rightarrow> serve_routine list \<Rightarrow> exporter_state \<Rightarrow> exporter_state" where
  "serve_close c xs p ys st =
     serve_goto (SvUntrackLocal c) xs p ys (conn_close (sv_conn p) (conn_close c st))"

definition serve_untrack_local ::
  "int \<Rightarrow> serve_routine list \<Rightarrow> serve_routine \<Rightarrow> serve_routine list \<Rightarrow> exporter_state \<Rightarrow> exporter_state" where
  "serve_untrack_local c xs p ys st = serve_goto SvUntrack xs p ys (untrack c st)"

definition serve_untrack ::
  "serve_routine list \<Rightarrow> serve_routine \<Rightarrow> serve_routine list \<Rightarrow> exporter_state \<Rightarrow> exporter_state" where
  "serve_untrack xs p ys st = (untrack (sv_conn p) st)\<lparr>xs_serves := xs @ ys\<rparr>"

text \<open>\<^verbatim>\<open>Close\<close>. The connections are copied out of the map in an order \<open>cs\<close> of its own; a second call
  finds the flag set and returns.\<close>

definition stop_begin :: "int list \<Rightarrow> exporter_state \<Rightarrow> exporter_state" where
  "stop_begin cs st =
     (with_exporter (\<lambda>e. e\<lparr>xp_closed := True, xp_conns := {}\<rparr>) st)\<lparr>xs_stop := StListener cs\<rparr>"

definition stop_listener :: "int list \<Rightarrow> exporter_state \<Rightarrow> exporter_state" where
  "stop_listener cs st =
     (case xp_ln (xs_exporter st) of
        None \<Rightarrow> st\<lparr>xs_stop := StConns cs\<rparr>
      | Some ln \<Rightarrow> st\<lparr>xs_listening := False, xs_log := xs_log st @ [CloseFd ln], xs_stop := StConns cs\<rparr>)"

definition stop_conn :: "int \<Rightarrow> int list \<Rightarrow> exporter_state \<Rightarrow> exporter_state" where
  "stop_conn c cs st = (conn_close c st)\<lparr>xs_stop := StConns cs\<rparr>"

definition stop_return :: "exporter_state \<Rightarrow> exporter_state" where
  "stop_return st = st\<lparr>xs_stop := StReturned\<rparr>"

text \<open>
  The steps. An accept can give a connection only while the listener is open, and can fail at any
  time; a dial and a copy come to an end in one way or the other.
\<close>

inductive exporter_step :: "exporter_state \<Rightarrow> exporter_state \<Rightarrow> bool" where
  LoopAccepts: "xs_loop st = LpAccept \<Longrightarrow> xs_listening st \<Longrightarrow> c \<notin> xs_used st \<Longrightarrow>
    exporter_step st (loop_accepts c st)"
| LoopFails: "xs_loop st = LpAccept \<Longrightarrow> exporter_step st (loop_fails err st)"
| LoopServes: "xs_loop st = LpServe c \<Longrightarrow> exporter_step st (loop_serves c st)"
| ServeTrack: "xs_serves st = xs @ p # ys \<Longrightarrow> sv_pc p = SvTrack \<Longrightarrow> exporter_step st (serve_track xs p ys st)"
| ServeDials: "xs_serves st = xs @ p # ys \<Longrightarrow> sv_pc p = SvDial \<Longrightarrow> c \<notin> xs_used st \<Longrightarrow>
    exporter_step st (serve_dials c xs p ys st)"
| ServeRefused: "xs_serves st = xs @ p # ys \<Longrightarrow> sv_pc p = SvDial \<Longrightarrow>
    exporter_step st (serve_refused err xs p ys st)"
| ServeTrackLocal: "xs_serves st = xs @ p # ys \<Longrightarrow> sv_pc p = SvTrackLocal c \<Longrightarrow>
    exporter_step st (serve_track_local c xs p ys st)"
| ServeUp: "xs_serves st = xs @ p # ys \<Longrightarrow> sv_pc p = SvCopy c up down \<Longrightarrow> \<not> cp_done up \<Longrightarrow>
    exporter_step st (serve_up half t c up down xs p ys st)"
| ServeDown: "xs_serves st = xs @ p # ys \<Longrightarrow> sv_pc p = SvCopy c up down \<Longrightarrow> \<not> cp_done down \<Longrightarrow>
    exporter_step st (serve_down half t c up down xs p ys st)"
| ServeClose: "xs_serves st = xs @ p # ys \<Longrightarrow> sv_pc p = SvCopy c up down \<Longrightarrow> cp_done up \<Longrightarrow> cp_done down \<Longrightarrow>
    exporter_step st (serve_close c xs p ys st)"
| ServeUntrackLocal: "xs_serves st = xs @ p # ys \<Longrightarrow> sv_pc p = SvUntrackLocal c \<Longrightarrow>
    exporter_step st (serve_untrack_local c xs p ys st)"
| ServeUntrack: "xs_serves st = xs @ p # ys \<Longrightarrow> sv_pc p = SvUntrack \<Longrightarrow>
    exporter_step st (serve_untrack xs p ys st)"
| StopBegin: "xs_stop st = StOpen \<Longrightarrow> set cs = xp_conns (xs_exporter st) \<Longrightarrow> distinct cs \<Longrightarrow>
    exporter_step st (stop_begin cs st)"
| StopListener: "xs_stop st = StListener cs \<Longrightarrow> exporter_step st (stop_listener cs st)"
| StopConn: "xs_stop st = StConns (c # cs) \<Longrightarrow> exporter_step st (stop_conn c cs st)"
| StopReturn: "xs_stop st = StConns [] \<Longrightarrow> exporter_step st (stop_return st)"

section \<open>The invariant\<close>

text \<open>The connections of a routine: not yet tracked, tracked, closed and about to be untracked.\<close>

fun sv_new :: "int \<Rightarrow> serve_pc \<Rightarrow> int set" where
  "sv_new m SvTrack = {m}"
| "sv_new m (SvTrackLocal c) = {c}"
| "sv_new m _ = {}"

fun sv_tracked :: "int \<Rightarrow> serve_pc \<Rightarrow> int set" where
  "sv_tracked m SvDial = {m}"
| "sv_tracked m (SvTrackLocal c) = {m}"
| "sv_tracked m (SvCopy c up down) = {m, c}"
| "sv_tracked m _ = {}"

fun sv_gone :: "int \<Rightarrow> serve_pc \<Rightarrow> int set" where
  "sv_gone m (SvUntrackLocal c) = {m, c}"
| "sv_gone m SvUntrack = {m}"
| "sv_gone m _ = {}"

fun loop_new :: "loop_pc \<Rightarrow> int set" where
  "loop_new (LpServe c) = {c}"
| "loop_new _ = {}"

definition of_serves :: "(int \<Rightarrow> serve_pc \<Rightarrow> int set) \<Rightarrow> exporter_state \<Rightarrow> int set" where
  "of_serves f st = (\<Union>p \<in> set (xs_serves st). f (sv_conn p) (sv_pc p))"

text \<open>The connections that \<^verbatim>\<open>Close\<close> has to close: those of the map, and later those it has copied.\<close>

fun doomed :: "int set \<Rightarrow> stop_pc \<Rightarrow> int set" where
  "doomed M StOpen = M"
| "doomed M (StListener cs) = set cs"
| "doomed M (StConns cs) = set cs"
| "doomed M StReturned = {}"

definition xs_doomed :: "exporter_state \<Rightarrow> int set" where
  "xs_doomed st = doomed (xp_conns (xs_exporter st)) (xs_stop st)"

fun stop_listening :: "stop_pc \<Rightarrow> bool" where
  "stop_listening StOpen \<longleftrightarrow> True"
| "stop_listening (StListener cs) \<longleftrightarrow> True"
| "stop_listening _ \<longleftrightarrow> False"

definition xs_inv_flags :: "int \<Rightarrow> int set \<Rightarrow> exporter_state \<Rightarrow> bool" where
  "xs_inv_flags ln F st \<longleftrightarrow>
     xp_ln (xs_exporter st) = Some ln \<and> ln \<notin> F \<and> finite (xp_conns (xs_exporter st)) \<and>
     xp_closed (xs_exporter st) = (xs_stop st \<noteq> StOpen) \<and> xs_listening st = stop_listening (xs_stop st)"

definition xs_inv_used :: "int \<Rightarrow> int set \<Rightarrow> exporter_state \<Rightarrow> bool" where
  "xs_inv_used ln F st \<longleftrightarrow>
     insert ln F \<union> xs_open st \<union> loop_new (xs_loop st) \<union> of_serves sv_new st \<union> of_serves sv_tracked st \<union>
       of_serves sv_gone st \<subseteq> xs_used st \<and>
     xs_open st \<inter> insert ln F = {}"

definition xs_inv_open :: "exporter_state \<Rightarrow> bool" where
  "xs_inv_open st \<longleftrightarrow>
     xs_open st \<subseteq> loop_new (xs_loop st) \<union> of_serves sv_new st \<union> xs_doomed st \<and>
     of_serves sv_tracked st \<inter> xs_open st \<subseteq> xs_doomed st \<and> of_serves sv_gone st \<inter> xs_open st = {}"

definition xs_inv :: "int \<Rightarrow> int set \<Rightarrow> exporter_state \<Rightarrow> bool" where
  "xs_inv ln F st \<longleftrightarrow> xs_inv_flags ln F st \<and> xs_inv_used ln F st \<and> xs_inv_open st"

definition xs_resources :: "int \<Rightarrow> int set \<Rightarrow> exporter_state \<Rightarrow> resources" where
  "xs_resources ln F st = only_fds (F \<union> (if xs_listening st then {ln} else {}) \<union> xs_open st)"

lemmas xs_inv_defs = xs_inv_def xs_inv_flags_def xs_inv_used_def xs_inv_open_def xs_doomed_def

lemmas xs_op_defs = loop_accepts_def loop_fails_def loop_serves_def serve_goto_def serve_track_def
  serve_dials_def serve_refused_def serve_track_local_def serve_close_def serve_untrack_local_def
  serve_untrack_def stop_begin_def stop_listener_def stop_conn_def stop_return_def conn_opens_def
  conn_close_def with_exporter_def track_def untrack_def

definition others :: "(int \<Rightarrow> serve_pc \<Rightarrow> int set) \<Rightarrow> serve_routine list \<Rightarrow> serve_routine list \<Rightarrow> int set" where
  "others f xs ys = (\<Union>q \<in> set xs \<union> set ys. f (sv_conn q) (sv_pc q))"

lemma of_serves_at: "xs_serves st = xs @ p # ys \<Longrightarrow> of_serves f st = f (sv_conn p) (sv_pc p) \<union> others f xs ys"
  by (auto simp: of_serves_def others_def)

lemma of_serves_at_update [simp]:
  "of_serves f (st\<lparr>xs_serves := xs @ p # ys\<rparr>) = f (sv_conn p) (sv_pc p) \<union> others f xs ys"
  "of_serves f (st\<lparr>xs_serves := xs @ ys\<rparr>) = others f xs ys"
  "of_serves f (st\<lparr>xs_loop := lp\<rparr>) = of_serves f st" "of_serves f (st\<lparr>xs_stop := sp\<rparr>) = of_serves f st"
  "of_serves f (st\<lparr>xs_open := O'\<rparr>) = of_serves f st" "of_serves f (st\<lparr>xs_used := O'\<rparr>) = of_serves f st"
  "of_serves f (st\<lparr>xs_log := l\<rparr>) = of_serves f st" "of_serves f (st\<lparr>xs_exporter := e\<rparr>) = of_serves f st"
  "of_serves f (st\<lparr>xs_listening := b\<rparr>) = of_serves f st"
  by (auto simp: of_serves_def others_def)

lemma others_all [simp]: "others f (xs_serves st) [] = of_serves f st"
  by (simp add: of_serves_def others_def)

text \<open>The steps of the loop and of \<^verbatim>\<open>Close\<close>.\<close>

lemma loop_inv:
  assumes "xs_inv ln F st"
  shows "xs_loop st = LpAccept \<Longrightarrow> c \<notin> xs_used st \<Longrightarrow> xs_inv ln F (loop_accepts c st)"
    and "xs_loop st = LpAccept \<Longrightarrow> xs_inv ln F (loop_fails err st)"
    and "xs_loop st = LpServe c \<Longrightarrow> xs_inv ln F (loop_serves c st)"
proof -
  show "xs_inv ln F (loop_accepts c st)" if "xs_loop st = LpAccept" "c \<notin> xs_used st"
    using assms that unfolding xs_inv_defs xs_op_defs by (simp, blast)
  show "xs_inv ln F (loop_fails err st)" if "xs_loop st = LpAccept"
    using assms that unfolding xs_inv_defs xs_op_defs by (cases "xs_stop st") simp_all
  show "xs_inv ln F (loop_serves c st)" if "xs_loop st = LpServe c"
    using assms that unfolding xs_inv_defs xs_op_defs by simp
qed

lemma stop_inv:
  assumes "xs_inv ln F st"
  shows "xs_stop st = StOpen \<Longrightarrow> set cs = xp_conns (xs_exporter st) \<Longrightarrow> xs_inv ln F (stop_begin cs st)"
    and "xs_stop st = StListener cs \<Longrightarrow> xs_inv ln F (stop_listener cs st)"
    and "xs_stop st = StConns (c # cs) \<Longrightarrow> xs_inv ln F (stop_conn c cs st)"
    and "xs_stop st = StConns [] \<Longrightarrow> xs_inv ln F (stop_return st)"
proof -
  show "xs_inv ln F (stop_begin cs st)" if "xs_stop st = StOpen" "set cs = xp_conns (xs_exporter st)"
    using assms that unfolding xs_inv_defs xs_op_defs by simp
  show "xs_inv ln F (stop_listener cs st)" if "xs_stop st = StListener cs"
    using assms that unfolding xs_inv_defs xs_op_defs by simp
  show "xs_inv ln F (stop_conn c cs st)" if "xs_stop st = StConns (c # cs)"
    using assms that unfolding xs_inv_defs xs_op_defs by (simp, blast)
  show "xs_inv ln F (stop_return st)" if "xs_stop st = StConns []"
    using assms that unfolding xs_inv_defs xs_op_defs by simp
qed

text \<open>A routine takes a connection into the map, or closes it when the exporter is closed.\<close>

lemma track_effect:
  assumes "xs_inv_flags ln F st"
  shows "xs_open (track c st) = (if xs_stop st = StOpen then xs_open st else xs_open st - {c})"
    and "xs_doomed (track c st) = (if xs_stop st = StOpen then insert c (xs_doomed st) else xs_doomed st)"
    and "xs_inv_flags ln F (track c st)" and "xs_used (track c st) = xs_used st"
    and "xs_loop (track c st) = xs_loop st" and "xs_stop (track c st) = xs_stop st"
    and "of_serves f (track c st) = of_serves f st"
  using assms by (auto simp: xs_inv_flags_def track_def conn_close_def with_exporter_def xs_doomed_def)

lemma untrack_effect:
  assumes "xs_inv_flags ln F st"
  shows "xs_open (untrack c st) = xs_open st"
    and "xs_doomed (untrack c st) = (if xs_stop st = StOpen then xs_doomed st - {c} else xs_doomed st)"
    and "xs_inv_flags ln F (untrack c st)" and "xs_used (untrack c st) = xs_used st"
    and "xs_loop (untrack c st) = xs_loop st" and "of_serves f (untrack c st) = of_serves f st"
  using assms by (cases "xs_stop st"; auto simp: xs_inv_flags_def untrack_def with_exporter_def xs_doomed_def)+

lemma conn_close_effect [simp]:
  "xs_open (conn_close c st) = xs_open st - {c}" "xs_doomed (conn_close c st) = xs_doomed st"
  "xs_inv_flags ln F (conn_close c st) = xs_inv_flags ln F st" "xs_used (conn_close c st) = xs_used st"
  "xs_loop (conn_close c st) = xs_loop st" "of_serves f (conn_close c st) = of_serves f st"
  "xs_exporter (conn_close c st) = xs_exporter st" "xs_stop (conn_close c st) = xs_stop st"
  "xs_listening (conn_close c st) = xs_listening st" "xs_serves (conn_close c st) = xs_serves st"
  by (auto simp: conn_close_def xs_doomed_def xs_inv_flags_def)

lemma conn_opens_effect [simp]:
  "xs_open (conn_opens c st) = insert c (xs_open st)" "xs_doomed (conn_opens c st) = xs_doomed st"
  "xs_inv_flags ln F (conn_opens c st) = xs_inv_flags ln F st" "xs_used (conn_opens c st) = insert c (xs_used st)"
  "xs_loop (conn_opens c st) = xs_loop st" "of_serves f (conn_opens c st) = of_serves f st"
  by (auto simp: conn_opens_def xs_doomed_def xs_inv_flags_def)

lemma serves_update_effect [simp]:
  "xs_doomed (st\<lparr>xs_serves := ps\<rparr>) = xs_doomed st" "xs_inv_flags ln F (st\<lparr>xs_serves := ps\<rparr>) = xs_inv_flags ln F st"
  "xs_doomed (st\<lparr>xs_log := l\<rparr>) = xs_doomed st" "xs_inv_flags ln F (st\<lparr>xs_log := l\<rparr>) = xs_inv_flags ln F st"
  by (simp_all add: xs_doomed_def xs_inv_flags_def)

lemma record_refusal_effect [simp]:
  "xs_open (record_refusal err st) = xs_open st" "xs_doomed (record_refusal err st) = xs_doomed st"
  "xs_inv_flags ln F (record_refusal err st) = xs_inv_flags ln F st" "xs_used (record_refusal err st) = xs_used st"
  "xs_loop (record_refusal err st) = xs_loop st" "of_serves f (record_refusal err st) = of_serves f st"
  by (auto simp: record_refusal_def with_exporter_def xs_doomed_def xs_inv_flags_def)

lemmas serve_inv_defs = xs_inv_def xs_inv_used_def xs_inv_open_def serve_goto_def

lemma serve_inv:
  assumes inv: "xs_inv ln F st" and at: "xs_serves st = xs @ p # ys"
  shows "sv_pc p = SvTrack \<Longrightarrow> xs_inv ln F (serve_track xs p ys st)"
    and "sv_pc p = SvDial \<Longrightarrow> c \<notin> xs_used st \<Longrightarrow> xs_inv ln F (serve_dials c xs p ys st)"
    and "sv_pc p = SvDial \<Longrightarrow> xs_inv ln F (serve_refused err xs p ys st)"
    and "sv_pc p = SvTrackLocal c \<Longrightarrow> xs_inv ln F (serve_track_local c xs p ys st)"
    and "sv_pc p = SvCopy c up down \<Longrightarrow> xs_inv ln F (serve_up half t c up down xs p ys st)"
    and "sv_pc p = SvCopy c up down \<Longrightarrow> xs_inv ln F (serve_down half t c up down xs p ys st)"
    and "sv_pc p = SvCopy c up down \<Longrightarrow> xs_inv ln F (serve_close c xs p ys st)"
    and "sv_pc p = SvUntrackLocal c \<Longrightarrow> xs_inv ln F (serve_untrack_local c xs p ys st)"
    and "sv_pc p = SvUntrack \<Longrightarrow> xs_inv ln F (serve_untrack xs p ys st)"
proof -
  have flags: "xs_inv_flags ln F st" using inv by (simp add: xs_inv_def)
  note effects = track_effect [OF flags] untrack_effect [OF flags]
  note inv = inv [unfolded serve_inv_defs of_serves_at [OF at]]
  show "xs_inv ln F (serve_track xs p ys st)" if "sv_pc p = SvTrack"
    using inv that unfolding serve_inv_defs serve_track_def
    by (cases "xs_stop st = StOpen") (auto simp: effects)
  show "xs_inv ln F (serve_dials c xs p ys st)" if "sv_pc p = SvDial" "c \<notin> xs_used st"
    using inv that unfolding serve_inv_defs serve_dials_def by auto
  show "xs_inv ln F (serve_refused err xs p ys st)" if "sv_pc p = SvDial"
    using inv that unfolding serve_inv_defs serve_refused_def by auto
  show "xs_inv ln F (serve_track_local c xs p ys st)" if "sv_pc p = SvTrackLocal c"
    using inv that unfolding serve_inv_defs serve_track_local_def
    by (cases "xs_stop st = StOpen") (auto simp: effects)
  show "xs_inv ln F (serve_up half t c up down xs p ys st)" if "sv_pc p = SvCopy c up down"
    using inv that unfolding serve_inv_defs serve_up_def by (simp add: case_prod_beta)
  show "xs_inv ln F (serve_down half t c up down xs p ys st)" if "sv_pc p = SvCopy c up down"
    using inv that unfolding serve_inv_defs serve_down_def by (simp add: case_prod_beta)
  show "xs_inv ln F (serve_close c xs p ys st)" if "sv_pc p = SvCopy c up down"
    using inv that unfolding serve_inv_defs serve_close_def by auto
  show "xs_inv ln F (serve_untrack_local c xs p ys st)" if "sv_pc p = SvUntrackLocal c"
    using inv that unfolding serve_inv_defs serve_untrack_local_def
    by (cases "xs_stop st = StOpen") (auto simp: effects)
  show "xs_inv ln F (serve_untrack xs p ys st)" if "sv_pc p = SvUntrack"
    using inv that unfolding serve_inv_defs serve_untrack_def
    by (cases "xs_stop st = StOpen") (auto simp: effects)
qed

lemma exporter_step_inv: "exporter_step st st' \<Longrightarrow> xs_inv ln F st \<Longrightarrow> xs_inv ln F st'"
  by (induction rule: exporter_step.induct) (auto intro: loop_inv stop_inv serve_inv)

section \<open>The calls of a step\<close>

definition extends :: "int \<Rightarrow> int set \<Rightarrow> exporter_state \<Rightarrow> exporter_state \<Rightarrow> bool" where
  "extends ln F st st' \<longleftrightarrow> (\<exists>l. xs_log st' = xs_log st @ l \<and>
     resource_run l (xs_resources ln F st) = Some (xs_resources ln F st'))"

lemma extends_trans: "extends ln F st st1 \<Longrightarrow> extends ln F st1 st2 \<Longrightarrow> extends ln F st st2"
  by (auto simp: extends_def resource_run_append)

text \<open>A change of the other fields only.\<close>

lemma extends_quiet:
  "xs_log st' = xs_log st \<Longrightarrow> xs_open st' = xs_open st \<Longrightarrow> xs_listening st' = xs_listening st \<Longrightarrow>
   extends ln F st st'"
  by (simp add: extends_def xs_resources_def)

lemma conn_close_extends:
  assumes "xs_open st \<inter> insert ln F = {}"
  shows "extends ln F st (conn_close c st)"
proof (cases "c \<in> xs_open st")
  case True
  have "F \<union> (if xs_listening st then {ln} else {}) \<union> xs_open st - {c} =
      F \<union> (if xs_listening st then {ln} else {}) \<union> (xs_open st - {c})"
    using True assms by auto
  with True show ?thesis by (simp add: extends_def conn_close_def xs_resources_def only_fds_def)
qed (simp add: conn_close_def extends_quiet)

lemma conn_opens_extends:
  assumes "c \<notin> insert ln F \<union> xs_open st"
  shows "extends ln F st (conn_opens c st)"
  using assms by (simp add: extends_def conn_opens_def xs_resources_def only_fds_def)

lemma track_extends:
  assumes "xs_open st \<inter> insert ln F = {}"
  shows "extends ln F st (track c st)"
  using conn_close_extends [OF assms] by (simp add: track_def with_exporter_def extends_quiet)

lemma serve_goto_extends [simp]: "extends ln F st (serve_goto pc xs p ys st') = extends ln F st st'"
  by (simp add: extends_def serve_goto_def xs_resources_def)

lemma copies_extends:
  assumes "cp_move (xs_open st) half t dst src pc = (pc', l)"
  shows "extends ln F st (st\<lparr>xs_log := xs_log st @ l\<rparr>)"
  using cp_move_run [OF assms, of "xs_resources ln F st"] by (simp add: extends_def xs_resources_def)

lemma exporter_step_extends:
  assumes "exporter_step st st'" and "xs_inv ln F st"
  shows "extends ln F st st'"
proof -
  have own: "xs_open st \<inter> insert ln F = {}" and used: "insert ln F \<union> xs_open st \<subseteq> xs_used st"
    and ln: "xp_ln (xs_exporter st) = Some ln" "xs_listening st = stop_listening (xs_stop st)" "ln \<notin> F"
    using assms(2) by (simp_all add: xs_inv_defs)
  from assms(1) show ?thesis
  proof cases
    case (LoopAccepts c)
    then have "extends ln F st (conn_opens c st)" using used by (intro conn_opens_extends) auto
    then show ?thesis using LoopAccepts by (simp add: loop_accepts_def extends_def xs_resources_def)
  next
    case (ServeDials xs p ys c)
    then show ?thesis using used by (simp add: serve_dials_def) (intro conn_opens_extends, auto)
  next
    case (ServeRefused xs p ys err)
    have "extends ln F st (record_refusal err st)"
      by (rule extends_quiet) (simp_all add: record_refusal_def with_exporter_def)
    moreover have "extends ln F (record_refusal err st) (conn_close (sv_conn p) (record_refusal err st))"
      using own by (intro conn_close_extends) simp
    ultimately show ?thesis using ServeRefused extends_trans by (auto simp: serve_refused_def)
  next
    case (ServeUp xs p ys c up down half t)
    then show ?thesis by (auto simp: serve_up_def copies_extends split: prod.split)
  next
    case (ServeDown xs p ys c up down half t)
    then show ?thesis by (auto simp: serve_down_def copies_extends split: prod.split)
  next
    case (ServeClose xs p ys c up down)
    have "extends ln F (conn_close c st) (conn_close (sv_conn p) (conn_close c st))"
      using own by (intro conn_close_extends) auto
    then show ?thesis
      using ServeClose extends_trans [OF conn_close_extends [OF own, of c]] by (simp add: serve_close_def)
  next
    case (StopListener cs)
    then have "xs_listening st" using ln by simp
    moreover have "insert ln (F \<union> xs_open st) - {ln} = F \<union> xs_open st" using ln own by auto
    ultimately show ?thesis using StopListener ln
      by (simp add: stop_listener_def extends_def xs_resources_def only_fds_def)
  next
    case (StopConn c cs)
    then show ?thesis using conn_close_extends [OF own, of c]
      by (simp add: stop_conn_def extends_def xs_resources_def)
  qed (auto simp: serve_track_def serve_track_local_def track_extends [OF own] loop_fails_def loop_serves_def
      serve_untrack_local_def serve_untrack_def untrack_def with_exporter_def stop_begin_def stop_return_def
      intro!: extends_quiet)
qed

section \<open>Winding down\<close>

fun cp_cost :: "copy_pc \<Rightarrow> nat" where
  "cp_cost CpCopy = 2"
| "cp_cost (CpHalf e) = 1"
| "cp_cost (CpDone e) = 0"

fun serve_cost :: "serve_pc \<Rightarrow> nat" where
  "serve_cost SvTrack = 10"
| "serve_cost SvDial = 9"
| "serve_cost (SvTrackLocal c) = 8"
| "serve_cost (SvCopy c up down) = cp_cost up + cp_cost down + 3"
| "serve_cost (SvUntrackLocal c) = 2"
| "serve_cost SvUntrack = 1"

fun loop_cost :: "loop_pc \<Rightarrow> nat" where
  "loop_cost LpAccept = 1"
| "loop_cost (LpServe c) = 12"
| "loop_cost LpDone = 0"

definition exporter_bound :: "exporter_state \<Rightarrow> nat" where
  "exporter_bound st = loop_cost (xs_loop st) + sum_list (map (serve_cost \<circ> sv_pc) (xs_serves st))"

definition exporter_ended :: "exporter_state \<Rightarrow> bool" where
  "exporter_ended st \<longleftrightarrow> xs_stop st = StReturned \<and> xs_loop st = LpDone \<and> xs_serves st = []"

lemma cp_move_closed:
  assumes "cp_move opened half t dst src pc = (pc', l)" and "src \<notin> opened" and "\<not> cp_done pc"
  shows "cp_cost pc' < cp_cost pc"
  using assms by (cases pc) (auto simp: copy_once_def)

lemma track_quiet [simp]:
  "xs_stop (track c st) = xs_stop st" "xs_loop (track c st) = xs_loop st" "xs_serves (track c st) = xs_serves st"
  by (auto simp: track_def conn_close_def with_exporter_def)

lemma exporter_winds_down:
  assumes "exporter_step st st'" and inv: "xs_inv ln F st" and ret: "xs_stop st = StReturned"
  shows "xs_stop st' = StReturned \<and> exporter_bound st' < exporter_bound st"
proof -
  have closed: "\<not> xs_listening st" "of_serves sv_tracked st \<inter> xs_open st = {}"
    using inv ret by (simp_all add: xs_inv_defs)
  from assms(1) show ?thesis
  proof cases
    case (ServeUp xs p ys c up down half t)
    have "sv_conn p \<notin> xs_open st" using ServeUp closed(2) by (auto simp: of_serves_def)
    then show ?thesis using ServeUp ret cp_move_closed
      by (auto simp: serve_up_def serve_goto_def exporter_bound_def split: prod.split)
  next
    case (ServeDown xs p ys c up down half t)
    have "c \<notin> xs_open st" using ServeDown closed(2) by (auto simp: of_serves_def)
    then show ?thesis using ServeDown ret cp_move_closed
      by (auto simp: serve_down_def serve_goto_def exporter_bound_def split: prod.split)
  qed (use closed ret in \<open>auto simp: exporter_bound_def xs_op_defs record_refusal_def\<close>)
qed

lemma exporter_progress:
  assumes "xs_inv ln F st"
  shows "(\<nexists>st'. exporter_step st st') \<longleftrightarrow> exporter_ended st"
proof
  assume "exporter_ended st"
  then show "\<nexists>st'. exporter_step st st'" by (auto simp: exporter_ended_def elim: exporter_step.cases)
next
  assume stuck: "\<nexists>st'. exporter_step st st'"
  have "xs_loop st = LpDone"
    using stuck LoopFails LoopServes by (cases "xs_loop st") blast+
  moreover have "xs_serves st = []"
  proof (cases "xs_serves st")
    case (Cons p ps)
    then have at: "xs_serves st = [] @ p # ps" by simp
    show ?thesis
      using stuck ServeTrack [OF at] ServeRefused [OF at] ServeTrackLocal [OF at] ServeUp [OF at]
        ServeDown [OF at] ServeClose [OF at] ServeUntrackLocal [OF at] ServeUntrack [OF at]
      by (cases "sv_pc p") blast+
  qed
  moreover have "xs_stop st = StReturned"
  proof (cases "xs_stop st")
    case StOpen
    have "finite (xp_conns (xs_exporter st))" using assms by (simp add: xs_inv_defs)
    then obtain cs where "set cs = xp_conns (xs_exporter st)" "distinct cs" using finite_distinct_list by blast
    then show ?thesis using stuck StopBegin [OF StOpen] by blast
  next
    case (StConns cs)
    then show ?thesis using stuck StopConn StopReturn by (cases cs) blast+
  qed (use stuck StopListener in blast)+
  ultimately show "exporter_ended st" by (simp add: exporter_ended_def)
qed

interpretation xs_sys: closing_system exporter_step "xs_inv ln F" "xs_resources ln F" xs_log
    "\<lambda>st. xs_stop st = StReturned" exporter_ended exporter_bound for ln F
proof unfold_locales
  fix s s'
  assume step: "exporter_step s s'" and inv: "xs_inv ln F s"
  show "xs_inv ln F s' \<and> (\<exists>l. xs_log s' = xs_log s @ l \<and>
      resource_run l (xs_resources ln F s) = Some (xs_resources ln F s'))"
    using exporter_step_inv [OF step inv] exporter_step_extends [OF step inv] by (simp add: extends_def)
  show "xs_stop s' = StReturned \<and> exporter_bound s' < exporter_bound s" if "xs_stop s = StReturned"
    using exporter_winds_down [OF step inv that] .
qed (rule exporter_progress)

lemma exporter_life:
  assumes "ln \<notin> F" and "exporter_step\<^sup>*\<^sup>* (exporter_init (StartExport ln host port) F) st"
  shows "xs_inv ln F st" and "resource_run (xs_log st) (only_fds (insert ln F)) = Some (xs_resources ln F st)"
proof -
  let ?i = "exporter_init (StartExport ln host port) F"
  have "xs_inv ln F ?i" using assms(1) by (simp add: xs_inv_defs of_serves_def exporter_init_def StartExport_def)
  moreover have "xs_log ?i = []" "xs_resources ln F ?i = only_fds (insert ln F)"
    by (simp_all add: exporter_init_def xs_resources_def)
  ultimately show "xs_inv ln F st"
      "resource_run (xs_log st) (only_fds (insert ln F)) = Some (xs_resources ln F st)"
    using xs_sys.reachable [OF assms(2), of ln F "only_fds (insert ln F)"] by simp_all
qed

section \<open>Properties\<close>

text \<open>C20: An export of a shim is safe in every interleaving of its goroutines. Whatever has been
  accepted, dialled, copied and closed, in whatever order, no connection was used before it was opened
  or after it was closed and none was closed twice, the listener neither. Once \<open>Close\<close> has returned the
  listener is closed, and a connection that is still open is one that a goroutine has just got and not
  yet shown to the exporter, which will make it close it; when the goroutines have ended nothing of the
  exporter is left.\<close>

theorem exporter_close_safe:
  assumes "ln \<notin> F" and "exporter_step\<^sup>*\<^sup>* (exporter_init (StartExport ln host port) F) st"
  shows "resource_run (xs_log st) (only_fds (insert ln F)) = Some (xs_resources ln F st) \<and>
    (xs_stop st = StReturned \<longrightarrow>
       \<not> xs_listening st \<and> xs_open st \<subseteq> loop_new (xs_loop st) \<union> of_serves sv_new st) \<and>
    (exporter_ended st \<longrightarrow> xs_resources ln F st = only_fds F)"
  using exporter_life [OF assms]
  by (auto simp: xs_inv_defs exporter_ended_def of_serves_def xs_resources_def)

text \<open>C21: After \<open>Close\<close> of an export has returned its goroutines end, without any help of the peers:
  however they are scheduled, at most \<open>exporter_bound\<close> more steps are possible (a dial that is under way
  counts as one), and the only state in which none can move is the one where all have ended.\<close>

theorem exporter_close_terminates:
  assumes "ln \<notin> F" and "exporter_step\<^sup>*\<^sup>* (exporter_init (StartExport ln host port) F) st"
    and "xs_stop st = StReturned" and "(exporter_step ^^ n) st st'"
  shows "n + exporter_bound st' \<le> exporter_bound st \<and>
    ((\<nexists>st''. exporter_step st' st'') \<longleftrightarrow> exporter_ended st')"
  using xs_sys.closing_terminates [OF assms(4) exporter_life(1) [OF assms(1,2)] assms(3)] .

text \<open>A connection is accepted, and the exporter is closed before its goroutine has begun.\<close>

definition demo_export_returned :: exporter_state where
  "demo_export_returned =
     stop_return (stop_listener [] (stop_begin [] (loop_serves 8 (loop_accepts 8
       (exporter_init (StartExport 7 [] 3306) {3})))))"

definition demo_routine :: "serve_pc \<Rightarrow> serve_routine" where
  "demo_routine pc = \<lparr>sv_conn = 8, sv_pc = pc\<rparr>"

definition demo_export_ended :: exporter_state where
  "demo_export_ended =
     serve_untrack [] (demo_routine SvUntrack) [] (serve_refused ''refused'' [] (demo_routine SvDial) []
       (loop_fails ''closed'' (serve_track [] (demo_routine SvTrack) [] demo_export_returned)))"

lemmas demo_export_defs = demo_export_ended_def demo_export_returned_def demo_routine_def xs_op_defs
  record_refusal_def exporter_init_def StartExport_def

lemma demo_export_returned_reached:
  "exporter_step\<^sup>*\<^sup>* (exporter_init (StartExport 7 [] 3306) {3}) demo_export_returned"
  unfolding demo_export_returned_def
  by (intro exporter_step.intros [THEN rtranclp.rtrancl_into_rtrancl [where r = exporter_step, rotated]]
      rtranclp.rtrancl_refl) (simp_all add: demo_export_defs)

lemma demo_export_ended_steps:
  "(exporter_step ^^ Suc (Suc (Suc (Suc 0)))) demo_export_returned demo_export_ended"
  unfolding demo_export_ended_def
  by (intro exporter_step.intros [THEN relpowp_Suc_I [where P = exporter_step, rotated]] relpowp_0_I)
    (simp_all add: demo_export_defs)

theorem exporter_close_safe_witness:
  "xs_stop demo_export_returned = StReturned \<and> xs_open demo_export_returned = {8} \<and>
   xs_open demo_export_returned \<subseteq>
     loop_new (xs_loop demo_export_returned) \<union> of_serves sv_new demo_export_returned \<and>
   resource_run (xs_log demo_export_returned) (only_fds {7, 3}) = Some (xs_resources 7 {3} demo_export_returned)"
proof -
  have "xs_stop demo_export_returned = StReturned" "xs_open demo_export_returned = {8}"
    by (simp_all add: demo_export_defs)
  then show ?thesis using exporter_close_safe [OF _ demo_export_returned_reached] by simp
qed

theorem exporter_close_terminates_witness:
  "exporter_bound demo_export_returned = 11 \<and> exporter_ended demo_export_ended \<and>
   (\<nexists>st. exporter_step demo_export_ended st)"
proof -
  have "xs_stop demo_export_returned = StReturned" "exporter_bound demo_export_returned = 11"
      "exporter_ended demo_export_ended"
    by (simp_all add: demo_export_defs exporter_bound_def exporter_ended_def)
  then show ?thesis
    using exporter_close_terminates [OF _ demo_export_returned_reached _ demo_export_ended_steps] by simp
qed

end
