(* ===== verification/Shim_Node.thy ===== *)
theory Shim_Node
  imports Shim_Tags Shim_Exporter Mesh_Pair Mesh_Backend
begin

text \<open>
  The two Go programs behind the C ABI of \<^verbatim>\<open>src/shim/mesh_shim.h\<close>: \<^verbatim>\<open>src/shim/ts/main.go\<close> over
  Tailscale's tsnet and \<^verbatim>\<open>src/shim/nb/main.go\<close> over NetBird's client. Both keep a registry from handles
  to nodes and each node keeps its options, its server object and its exports; what is textually the
  same in both files is one definition here, over the part of the node they share, with the name of the
  mesh for the messages. The nodes live in a store, since a call holds a pointer to a node that another
  call may take out of the registry. The libraries tsnet and NetBird, the stream pair, the temporary
  directory and the encoder of JSON are answers; the calls into the libraries are a log of events. A call is
  modelled as a whole; the parts of \<^verbatim>\<open>mesh_export\<close> before and after it waits without its lock are
  also definitions of their own.
\<close>

section \<open>Definitions\<close>

subsection \<open>Data\<close>

text \<open>The C type long is 32 bits wide on Windows and 64 elsewhere; Go wraps it around.\<close>

definition long_bits :: "platform \<Rightarrow> nat" where
  "long_bits pl = (if pl = Windows then 32 else 64)"

definition LONG_MAX :: "platform \<Rightarrow> int" where
  "LONG_MAX pl = 2 ^ (long_bits pl - 1) - 1"

definition long_succ :: "platform \<Rightarrow> int \<Rightarrow> int" where
  "long_succ pl h = (h + 1 + 2 ^ (long_bits pl - 1)) mod 2 ^ long_bits pl - 2 ^ (long_bits pl - 1)"

text \<open>What both nodes have. A server object is a number, nil is \<open>None\<close>. The exports are in the order they
  were added; the order in which Go goes through the map is its own. A map that is nil has no entries.\<close>

record node =
  nd_srv :: "nat option"
  nd_hostname :: string
  nd_ephemeral :: bool
  nd_up :: bool
  nd_lastErr :: string
  nd_exports :: "(int \<times> Exporter) list"
  nd_nextExport :: int

record ts_node = node +
  tn_authKey :: string
  tn_tags :: string
  tn_controlURL :: string
  tn_stateDir :: string

record nb_node = node +
  nn_setupKey :: string
  nn_groups :: string
  nn_mgmtURL :: string
  nn_statePath :: string

text \<open>What a server is made with.\<close>

datatype server_config =
    TsServer (ts_Hostname: string) (ts_AuthKey: string) (ts_Dir: string) (ts_Ephemeral: bool)
      (ts_ControlURL: string) (ts_AdvertiseTags: "string list")
  | NbOptions (nb_DeviceName: string) (nb_SetupKey: string) (nb_ManagementURL: string) (nb_StatePath: string)

datatype shim_event =
    ServerStart nat server_config
  | ServerIsUp nat
  | ServerClose nat
  | MeshListen nat string
  | MeshDial nat string
  | ExportServes int
  | ExportClosed int
  | BridgeRuns int int

text \<open>The memory of a shim: the nodes ever made, the registry, the next handle, the number of server
  objects, the calls into the mesh library and those on sockets.\<close>

record 'n shim_mem =
  sm_nodes :: "'n list"
  sm_reg :: "int \<rightharpoonup> nat"
  sm_nextH :: int
  sm_servers :: nat
  sm_events :: "shim_event list"
  sm_os :: log

definition shim_init :: "'n shim_mem" where
  "shim_init = \<lparr>sm_nodes = [], sm_reg = Map.empty, sm_nextH = 1, sm_servers = 0, sm_events = [], sm_os = []\<rparr>"

definition new_node :: "'a \<Rightarrow> 'a node_scheme" where
  "new_node ext = \<lparr>nd_srv = None, nd_hostname = [], nd_ephemeral = False, nd_up = False, nd_lastErr = [],
     nd_exports = [], nd_nextExport = 0, \<dots> = ext\<rparr>"

definition new_ts_node :: ts_node where
  "new_ts_node = new_node \<lparr>tn_authKey = [], tn_tags = [], tn_controlURL = [], tn_stateDir = []\<rparr>"

definition new_nb_node :: nb_node where
  "new_nb_node = new_node \<lparr>nn_setupKey = [], nn_groups = [], nn_mgmtURL = [], nn_statePath = []\<rparr>"

subsection \<open>Nodes and registry\<close>

definition reg_get :: "int \<Rightarrow> 'n shim_mem \<Rightarrow> nat option" where
  "reg_get h m = sm_reg m h"

definition upd_node :: "nat \<Rightarrow> ('n \<Rightarrow> 'n) \<Rightarrow> 'n shim_mem \<Rightarrow> 'n shim_mem" where
  "upd_node p f m = m\<lparr>sm_nodes := (sm_nodes m)[p := f (sm_nodes m ! p)]\<rparr>"

definition emit :: "shim_event list \<Rightarrow> 'n shim_mem \<Rightarrow> 'n shim_mem" where
  "emit es m = m\<lparr>sm_events := sm_events m @ es\<rparr>"

definition setErr :: "nat \<Rightarrow> string \<Rightarrow> 'a node_scheme shim_mem \<Rightarrow> 'a node_scheme shim_mem" where
  "setErr p err m = upd_node p (\<lambda>n. n\<lparr>nd_lastErr := err\<rparr>) m"

fun put_export :: "int \<Rightarrow> Exporter \<Rightarrow> (int \<times> Exporter) list \<Rightarrow> (int \<times> Exporter) list" where
  "put_export h e [] = [(h, e)]"
| "put_export h e (x # xs) = (if fst x = h then (h, e) # xs else x # put_export h e xs)"

definition addExport ::
  "platform \<Rightarrow> nat \<Rightarrow> Exporter \<Rightarrow> 'a node_scheme shim_mem \<Rightarrow> int \<times> 'a node_scheme shim_mem" where
  "addExport pl p e m =
     (let h = long_succ pl (nd_nextExport (sm_nodes m ! p)) in
      (h, upd_node p (\<lambda>n. n\<lparr>nd_nextExport := h, nd_exports := put_export h e (nd_exports n)\<rparr>) m))"

definition takeExport ::
  "nat \<Rightarrow> int \<Rightarrow> 'a node_scheme shim_mem \<Rightarrow> Exporter option \<times> 'a node_scheme shim_mem" where
  "takeExport p h m =
     (map_of (nd_exports (sm_nodes m ! p)) h,
      upd_node p (\<lambda>n. n\<lparr>nd_exports := filter (\<lambda>x. fst x \<noteq> h) (nd_exports n)\<rparr>) m)"

text \<open>An exporter is named by its listener; a server is given the listener, so it is never nil.\<close>

definition exporter_close_events :: "Exporter \<Rightarrow> shim_event list" where
  "exporter_close_events e = (case xp_ln e of None \<Rightarrow> [] | Some ln \<Rightarrow> [ExportClosed ln])"

definition closeAllExports :: "nat \<Rightarrow> 'a node_scheme shim_mem \<Rightarrow> 'a node_scheme shim_mem" where
  "closeAllExports p m =
     emit (concat (map (exporter_close_events \<circ> snd) (nd_exports (sm_nodes m ! p))))
       (upd_node p (\<lambda>n. n\<lparr>nd_exports := []\<rparr>) m)"

subsection \<open>The calls both shims answer alike\<close>

definition mesh_new :: "platform \<Rightarrow> 'n \<Rightarrow> 'n shim_mem \<Rightarrow> int \<times> 'n shim_mem" where
  "mesh_new pl fresh m =
     (sm_nextH m,
      m\<lparr>sm_nextH := long_succ pl (sm_nextH m), sm_nodes := sm_nodes m @ [fresh],
        sm_reg := (sm_reg m)(sm_nextH m \<mapsto> length (sm_nodes m))\<rparr>)"

definition mesh_set_bool ::
  "int \<Rightarrow> string \<Rightarrow> bool \<Rightarrow> 'a node_scheme shim_mem \<Rightarrow> int \<times> 'a node_scheme shim_mem" where
  "mesh_set_bool h k v m =
     (case reg_get h m of
        None \<Rightarrow> (1, m)
      | Some p \<Rightarrow> (0, if k = ''ephemeral'' then upd_node p (\<lambda>n. n\<lparr>nd_ephemeral := v\<rparr>) m else m))"

text \<open>The server of a node that is up.\<close>

definition running_server :: "'a node_scheme \<Rightarrow> nat option" where
  "running_server n = (if nd_up n then nd_srv n else None)"

definition port_text :: "int \<Rightarrow> string" where
  "port_text port = '':'' @ to_string port"

text \<open>\<open>label\<close> is Tailscale or NetBird. The listener comes from the mesh library; the node may have been
  closed when it does.\<close>

definition export_listen ::
  "platform \<Rightarrow> string \<Rightarrow> nat \<Rightarrow> go_error + int \<Rightarrow> int \<Rightarrow> string \<Rightarrow> int \<Rightarrow> 'a node_scheme shim_mem \<Rightarrow>
   (int \<times> int option) \<times> 'a node_scheme shim_mem" where
  "export_listen pl label p answer meshPort localHost localPort m =
     (case answer of
        Inl err \<Rightarrow>
          ((1, None), setErr p (label @ '': could not listen on mesh port '' @ to_string meshPort @ '': '' @ err) m)
      | Inr ln \<Rightarrow>
          (let (eh, m1) = addExport pl p (StartExport ln localHost localPort) (emit [ExportServes ln] m)
           in ((0, Some eh), m1)))"

definition mesh_export ::
  "platform \<Rightarrow> string \<Rightarrow> go_error + int \<Rightarrow> int \<Rightarrow> int \<Rightarrow> string \<Rightarrow> int \<Rightarrow> 'a node_scheme shim_mem \<Rightarrow>
   (int \<times> int option) \<times> 'a node_scheme shim_mem" where
  "mesh_export pl label answer h meshPort localHost localPort m =
     (case reg_get h m of
        None \<Rightarrow> ((1, None), m)
      | Some p \<Rightarrow>
          (case running_server (sm_nodes m ! p) of
             None \<Rightarrow> ((1, None), m)
           | Some s \<Rightarrow>
               export_listen pl label p answer meshPort localHost localPort
                 (emit [MeshListen s (port_text meshPort)] m)))"

definition mesh_unexport ::
  "int \<Rightarrow> int \<Rightarrow> 'a node_scheme shim_mem \<Rightarrow> int \<times> 'a node_scheme shim_mem" where
  "mesh_unexport h exportHandle m =
     (case reg_get h m of
        None \<Rightarrow> (1, m)
      | Some p \<Rightarrow>
          (let (e, m1) = takeExport p exportHandle m in
           (0, case e of None \<Rightarrow> m1 | Some e \<Rightarrow> emit (exporter_close_events e) m1)))"

definition os_calls :: "log \<Rightarrow> 'n shim_mem \<Rightarrow> 'n shim_mem" where
  "os_calls l m = m\<lparr>sm_os := sm_os m @ l\<rparr>"

definition dial_addr :: "string \<Rightarrow> int \<Rightarrow> string" where
  "dial_addr host port = host @ '':'' @ to_string port"

text \<open>\<open>pair\<close> is what the stream pair answered with its calls, \<open>answer\<close> the connection of the mesh.\<close>

definition mesh_dial ::
  "string \<Rightarrow> pair_result \<times> log \<Rightarrow> go_error + int \<Rightarrow> int \<Rightarrow> string \<Rightarrow> int \<Rightarrow> 'a node_scheme shim_mem \<Rightarrow>
   (int \<times> int option) \<times> 'a node_scheme shim_mem" where
  "mesh_dial label pair answer h host port m =
     (case reg_get h m of
        None \<Rightarrow> ((1, None), m)
      | Some p \<Rightarrow>
          (case running_server (sm_nodes m ! p) of
             None \<Rightarrow> ((1, None), m)
           | Some s \<Rightarrow>
               (let m1 = os_calls (snd pair) m in
                case fst pair of
                  Inl err \<Rightarrow> ((1, None), setErr p (label @ '': stream pair failed: '' @ err) m1)
                | Inr (raw, goConn) \<Rightarrow>
                    (let m2 = emit [MeshDial s (dial_addr host port)] m1 in
                     case answer of
                       Inl err \<Rightarrow>
                         ((1, None), setErr p (label @ '': dial '' @ dial_addr host port @ '' failed: '' @ err)
                            (os_calls (closeRaw raw @ [CloseFd goConn]) m2))
                     | Inr meshConn \<Rightarrow> ((0, Some raw), emit [BridgeRuns goConn meshConn] m2)))))"

text \<open>The text that is written with its final NUL, and the value returned; without a node or without
  room nothing is written.\<close>

definition mesh_errmsg :: "int \<Rightarrow> nat \<Rightarrow> 'a node_scheme shim_mem \<Rightarrow> string option \<times> int" where
  "mesh_errmsg h len m =
     (case reg_get h m of
        None \<Rightarrow> (None, 0)
      | Some p \<Rightarrow>
          (if len = 0 then (None, 0)
           else
             (let msg = nd_lastErr (sm_nodes m ! p);
                  msg' = (if length msg \<ge> len then take (len - 1) msg else msg)
              in (Some (msg' @ [CHR 0x00]), int (length msg')))))"

definition mesh_close :: "int \<Rightarrow> 'a node_scheme shim_mem \<Rightarrow> int \<times> 'a node_scheme shim_mem" where
  "mesh_close h m =
     (case reg_get h m of
        None \<Rightarrow> (0, m)
      | Some p \<Rightarrow>
          (let srv = nd_srv (sm_nodes m ! p);
               m1 = upd_node p (\<lambda>n. n\<lparr>nd_srv := None, nd_up := False\<rparr>) m;
               m2 = (case srv of None \<Rightarrow> m1 | Some s \<Rightarrow> emit [ServerClose s] (closeAllExports p m1))
           in (0, m2\<lparr>sm_reg := (sm_reg m2)(h := None)\<rparr>)))"

subsection \<open>Tailscale\<close>

definition ts_mesh_kind :: int where "ts_mesh_kind = 1"

definition ts_set :: "string \<Rightarrow> string \<Rightarrow> ts_node \<Rightarrow> ts_node" where
  "ts_set k v n =
     (if k = ''auth_key'' then n\<lparr>tn_authKey := v\<rparr>
      else if k = ''hostname'' then n\<lparr>nd_hostname := v\<rparr>
      else if k = ''tags'' then n\<lparr>tn_tags := v\<rparr>
      else if k = ''control_url'' then n\<lparr>tn_controlURL := v\<rparr>
      else if k = ''state_dir'' then n\<lparr>tn_stateDir := v\<rparr>
      else n)"

definition ts_mesh_set_str :: "int \<Rightarrow> string \<Rightarrow> string \<Rightarrow> ts_node shim_mem \<Rightarrow> int \<times> ts_node shim_mem" where
  "ts_mesh_set_str h k v m = (case reg_get h m of None \<Rightarrow> (1, m) | Some p \<Rightarrow> (0, upd_node p (ts_set k v) m))"

definition msg_no_auth_key :: string where
  "msg_no_auth_key =
     ''Tailscale: no auth key set. Generate a reusable, tagged key at '' @
     ''https://login.tailscale.com/admin/settings/keys and set auth_key on the secret.''"

definition dq :: string where "dq = [CHR 0x22]"

definition msg_tags_refused :: "string list \<Rightarrow> string \<Rightarrow> string" where
  "msg_tags_refused tags err =
     ''Tailscale: the control server refused this node'' @ sq @ ''s tags ('' @ Join tags '', '' @ ''). '' @
     ''Every erpl_tunnel node advertises '' @ erplTunnelTag @ '', so your ACL must own it. Add:'' @ [CHR 0x0A] @
     ''  '' @ dq @ ''tagOwners'' @ dq @ '': { '' @ dq @ erplTunnelTag @ dq @ '': ['' @ dq @ ''autogroup:admin'' @
     dq @ ''] }'' @ [CHR 0x0A] @
     ''at https://login.tailscale.com/admin/acls '' @ em_dash @ '' and if your auth key is '' @
     ''tagged, its tags must be owned too. Underlying error: '' @ err"

definition msg_up_failed :: "string list \<Rightarrow> string \<Rightarrow> string" where
  "msg_up_failed tags err =
     (if isTagRejection (Some err) then msg_tags_refused tags err else ''Tailscale: node did not come up: '' @ err)"

text \<open>What the operating system and the mesh library answer during \<^verbatim>\<open>mesh_up\<close>: the temporary directory,
  NetBird's constructor, and \<^verbatim>\<open>Up\<close> or \<^verbatim>\<open>Start\<close> with its timeout of 90 seconds.\<close>

record up_env =
  ue_mkdir :: "go_error + string"
  ue_new :: "go_error option"
  ue_up :: "go_error option"

text \<open>A server object is made and put into the node before it is started.\<close>

definition ts_start_server :: "string \<Rightarrow> nat \<Rightarrow> ts_node shim_mem \<Rightarrow> nat \<times> ts_node shim_mem" where
  "ts_start_server dir p m =
     (let n = sm_nodes m ! p; s = sm_servers m in
      (s, emit [ServerStart s (TsServer (nd_hostname n) (tn_authKey n) dir (nd_ephemeral n) (tn_controlURL n)
             (parseTags (tn_tags n)))]
            (upd_node p (\<lambda>n. n\<lparr>nd_srv := Some s\<rparr>) (m\<lparr>sm_servers := s + 1\<rparr>))))"

definition ts_bring_up :: "go_error option \<Rightarrow> string \<Rightarrow> nat \<Rightarrow> ts_node shim_mem \<Rightarrow> int \<times> ts_node shim_mem" where
  "ts_bring_up up dir p m =
     (let (s, m1) = ts_start_server dir p m in
      case up of
        Some err \<Rightarrow>
          (1, setErr p (msg_up_failed (parseTags (tn_tags (sm_nodes m1 ! p))) err) m1)
      | None \<Rightarrow> (0, emit [ServerIsUp s] (upd_node p (\<lambda>n. n\<lparr>nd_up := True\<rparr>) m1)))"

definition ts_mesh_up :: "up_env \<Rightarrow> int \<Rightarrow> ts_node shim_mem \<Rightarrow> int \<times> ts_node shim_mem" where
  "ts_mesh_up e h m =
     (case reg_get h m of
        None \<Rightarrow> (1, m)
      | Some p \<Rightarrow>
          (let n = sm_nodes m ! p in
           if nd_up n then (0, m)
           else if tn_authKey n = [] then (1, setErr p msg_no_auth_key m)
           else if tn_stateDir n \<noteq> [] then ts_bring_up (ue_up e) (tn_stateDir n) p m
           else (case ue_mkdir e of
               Inl err \<Rightarrow> (1, setErr p (''Tailscale: cannot create state dir: '' @ err) m)
             | Inr d \<Rightarrow> ts_bring_up (ue_up e) d p m)))"

text \<open>The status of tsnet: a peer with its tags, or nil.\<close>

record ts_peer =
  tp_HostName :: string
  tp_DNSName :: string
  tp_Online :: bool
  tp_TailscaleIPs :: "string list"
  tp_Tags :: "string list option"

record ts_status =
  st_Peer :: "ts_peer list"
  st_Self :: "ts_peer option"

definition TrimSuffix :: "string \<Rightarrow> string \<Rightarrow> string" where
  "TrimSuffix s suf = (if suffix suf s then take (length s - length suf) s else s)"

text \<open>The structure \<^verbatim>\<open>peerJSON\<close> has the fields of \<open>MeshPeer\<close>, and \<open>json_of_peer\<close> is its encoding.\<close>

definition peer_of_ts :: "ts_peer \<Rightarrow> MeshPeer" where
  "peer_of_ts p =
     \<lparr>mp_backend = ''tailscale'', mp_host_name = tp_HostName p, mp_dns_name = TrimSuffix (tp_DNSName p) ''.'',
      mp_mesh_ip = (case tp_TailscaleIPs p of [] \<Rightarrow> [] | ip # _ \<Rightarrow> ip),
      mp_tags = (case tp_Tags p of None \<Rightarrow> [] | Some ts \<Rightarrow> ts), mp_online = tp_Online p\<rparr>"

definition peersFromStatus :: "ts_status option \<Rightarrow> MeshPeer list" where
  "peersFromStatus st = (case st of None \<Rightarrow> [] | Some st \<Rightarrow> map peer_of_ts (st_Peer st))"

definition ts_self_peer :: "ts_status \<Rightarrow> MeshPeer" where
  "ts_self_peer st =
     (case st_Self st of
        Some p \<Rightarrow> peer_of_ts p
      | None \<Rightarrow> \<lparr>mp_backend = ''tailscale'', mp_host_name = [], mp_dns_name = [], mp_mesh_ip = [], mp_tags = [],
                 mp_online = False\<rparr>)"

text \<open>An answer that writes nothing.\<close>

definition no_json :: "nat \<Rightarrow> json_reply" where
  "no_json len = \<lparr>jr_rc = 1, jr_buf = replicate len (CHR 0x00), jr_need = 0\<rparr>"

definition shim_writeJSON :: "(json \<Rightarrow> string option) \<Rightarrow> json \<Rightarrow> nat \<Rightarrow> json_reply" where
  "shim_writeJSON marshal v len = (case marshal v of None \<Rightarrow> no_json len | Some b \<Rightarrow> writeJSON b len)"

record status_env =
  sv_local_client :: "go_error option"
  sv_status :: "go_error + ts_status"

definition ts_with_status ::
  "status_env \<Rightarrow> int \<Rightarrow> nat \<Rightarrow> (ts_status \<Rightarrow> json_reply) \<Rightarrow> ts_node shim_mem \<Rightarrow> json_reply \<times> ts_node shim_mem" where
  "ts_with_status e h len k m =
     (case reg_get h m of
        None \<Rightarrow> (no_json len, m)
      | Some p \<Rightarrow>
          (case running_server (sm_nodes m ! p) of
             None \<Rightarrow> (no_json len, m)
           | Some s \<Rightarrow>
               (case sv_local_client e of
                  Some err \<Rightarrow> (no_json len, setErr p err m)
                | None \<Rightarrow>
                    (case sv_status e of
                       Inl err \<Rightarrow> (no_json len, setErr p err m)
                     | Inr st \<Rightarrow> (k st, m)))))"

definition ts_mesh_peers_json ::
  "(json \<Rightarrow> string option) \<Rightarrow> status_env \<Rightarrow> int \<Rightarrow> nat \<Rightarrow> ts_node shim_mem \<Rightarrow> json_reply \<times> ts_node shim_mem" where
  "ts_mesh_peers_json marshal e h len m =
     ts_with_status e h len
       (\<lambda>st. shim_writeJSON marshal (JArr (map json_of_peer (peersFromStatus (Some st)))) len) m"

definition ts_mesh_self_json ::
  "(json \<Rightarrow> string option) \<Rightarrow> status_env \<Rightarrow> int \<Rightarrow> nat \<Rightarrow> ts_node shim_mem \<Rightarrow> json_reply \<times> ts_node shim_mem" where
  "ts_mesh_self_json marshal e h len m =
     ts_with_status e h len (\<lambda>st. shim_writeJSON marshal (json_of_peer (ts_self_peer st)) len) m"

subsection \<open>NetBird\<close>

definition nb_mesh_kind :: int where "nb_mesh_kind = 2"

definition nb_set :: "string \<Rightarrow> string \<Rightarrow> nb_node \<Rightarrow> nb_node" where
  "nb_set k v n =
     (if k = ''setup_key'' then n\<lparr>nn_setupKey := v\<rparr>
      else if k = ''hostname'' then n\<lparr>nd_hostname := v\<rparr>
      else if k = ''groups'' then n\<lparr>nn_groups := v\<rparr>
      else if k = ''mgmt_url'' \<or> k = ''management_url'' then n\<lparr>nn_mgmtURL := v\<rparr>
      else if k = ''state_dir'' then n\<lparr>nn_statePath := v\<rparr>
      else n)"

definition nb_mesh_set_str :: "int \<Rightarrow> string \<Rightarrow> string \<Rightarrow> nb_node shim_mem \<Rightarrow> int \<times> nb_node shim_mem" where
  "nb_mesh_set_str h k v m = (case reg_get h m of None \<Rightarrow> (1, m) | Some p \<Rightarrow> (0, upd_node p (nb_set k v) m))"

definition msg_no_setup_key :: string where
  "msg_no_setup_key =
     ''NetBird: no setup key set. Create one in the NetBird dashboard '' @
     ''(Setup Keys) and set setup_key on the secret.''"

text \<open>\<^verbatim>\<open>filepath.Join\<close> of the temporary directory, which is a clean path, and a name; the separator is that
  of the platform.\<close>

definition state_file :: "platform \<Rightarrow> string \<Rightarrow> string" where
  "state_file pl d = d @ (if pl = Windows then [CHR 0x5C] else ''/'') @ ''state.json''"

text \<open>The client is put into the node only after it has started.\<close>

definition nb_bring_up :: "up_env \<Rightarrow> string \<Rightarrow> nat \<Rightarrow> nb_node shim_mem \<Rightarrow> int \<times> nb_node shim_mem" where
  "nb_bring_up e statePath p m =
     (let n = sm_nodes m ! p; s = sm_servers m;
          opts = NbOptions (nd_hostname n) (nn_setupKey n) (nn_mgmtURL n) statePath in
      case ue_new e of
        Some err \<Rightarrow> (1, setErr p (''NetBird: client init failed: '' @ err) m)
      | None \<Rightarrow>
          (let m1 = emit [ServerStart s opts] (m\<lparr>sm_servers := s + 1\<rparr>) in
           case ue_up e of
             Some err \<Rightarrow> (1, setErr p (''NetBird: node did not come up: '' @ err) m1)
           | None \<Rightarrow> (0, emit [ServerIsUp s] (upd_node p (\<lambda>n. n\<lparr>nd_srv := Some s, nd_up := True\<rparr>) m1))))"

definition nb_mesh_up :: "platform \<Rightarrow> up_env \<Rightarrow> int \<Rightarrow> nb_node shim_mem \<Rightarrow> int \<times> nb_node shim_mem" where
  "nb_mesh_up pl e h m =
     (case reg_get h m of
        None \<Rightarrow> (1, m)
      | Some p \<Rightarrow>
          (let n = sm_nodes m ! p in
           if nd_up n then (0, m)
           else if nn_setupKey n = [] then (1, setErr p msg_no_setup_key m)
           else if nn_statePath n \<noteq> [] then nb_bring_up e (nn_statePath n) p m
           else (case ue_mkdir e of
               Inl err \<Rightarrow> (1, setErr p (''NetBird: cannot create state dir: '' @ err) m)
             | Inr d \<Rightarrow> nb_bring_up e (state_file pl d) p m)))"

text \<open>The client of NetBird gives no list of peers, so the shim writes an empty one.\<close>

definition nb_mesh_peers_json ::
  "(json \<Rightarrow> string option) \<Rightarrow> int \<Rightarrow> nat \<Rightarrow> nb_node shim_mem \<Rightarrow> json_reply" where
  "nb_mesh_peers_json marshal h len m =
     (case reg_get h m of None \<Rightarrow> no_json len | Some p \<Rightarrow> shim_writeJSON marshal (JArr []) len)"

definition before_slash :: "string \<Rightarrow> string" where
  "before_slash ip = takeWhile (\<lambda>c. c \<noteq> CHR ''/'') ip"

text \<open>The encoder writes the entries of a map in the order of their keys. \<open>status\<close> is the address and the
  name of the node.\<close>

definition nb_self_object :: "go_error + string \<times> string \<Rightarrow> nb_node \<Rightarrow> json" where
  "nb_self_object status n =
     (let (ip, dns) =
        (if nd_srv n = None then ([], []) else (case status of Inl _ \<Rightarrow> ([], []) | Inr s \<Rightarrow> s)) in
      JObj [(''backend'', JStr ''netbird''), (''dns_name'', JStr dns), (''host_name'', JStr (nd_hostname n)),
        (''mesh_ip'', JStr (before_slash ip)), (''online'', JBool (nd_up n)), (''tags'', JArr [])])"

definition nb_mesh_self_json ::
  "(json \<Rightarrow> string option) \<Rightarrow> go_error + string \<times> string \<Rightarrow> int \<Rightarrow> nat \<Rightarrow> nb_node shim_mem \<Rightarrow> json_reply" where
  "nb_mesh_self_json marshal status h len m =
     (case reg_get h m of
        None \<Rightarrow> no_json len
      | Some p \<Rightarrow> shim_writeJSON marshal (nb_self_object status (sm_nodes m ! p)) len)"

end
