(* ===== verification/Shim_Interface.thy ===== *)
theory Shim_Interface
  imports Shim_Node
begin

text \<open>
  The C ABI of \<^verbatim>\<open>src/shim/mesh_shim.h\<close> as an interface: \<open>mesh_shim\<close> is what the comments of the header
  promise about the handles of nodes, whatever the mesh behind them is, as laws over one function that
  answers a call; what follows for a whole sequence of calls is proved there. Both shims of
  \<open>Shim_Node\<close> implement it. The calls are those the extension makes (\<open>mesh_call\<close>).
\<close>

section \<open>Definitions\<close>

text \<open>The answers of the world to one call.\<close>

record shim_env =
  en_up :: up_env
  en_listen :: "go_error + int"
  en_pair :: "pair_result \<times> log"
  en_dial :: "go_error + int"
  en_marshal :: "json \<Rightarrow> string option"
  en_status :: status_env
  en_len :: nat

fun ts_call :: "platform \<Rightarrow> shim_env \<Rightarrow> mesh_call \<Rightarrow> ts_node shim_mem \<Rightarrow> int \<times> ts_node shim_mem" where
  "ts_call pl e NodeNew m = mesh_new pl new_ts_node m"
| "ts_call pl e (SetStr h k v) m = ts_mesh_set_str h k v m"
| "ts_call pl e (SetBool h k v) m = mesh_set_bool h k v m"
| "ts_call pl e (NodeUp h) m = ts_mesh_up (en_up e) h m"
| "ts_call pl e (NodeDial h host port) m =
     (let ((rc, stream), m') = mesh_dial ''Tailscale'' (en_pair e) (en_dial e) h host port m in (rc, m'))"
| "ts_call pl e (NodeExport h mesh_port host port) m =
     (let ((rc, out), m') = mesh_export pl ''Tailscale'' (en_listen e) h mesh_port host port m in (rc, m'))"
| "ts_call pl e (NodeUnexport h x) m = mesh_unexport h x m"
| "ts_call pl e (NodeJson h) m =
     (let (r, m') = ts_mesh_peers_json (en_marshal e) (en_status e) h (en_len e) m in (jr_rc r, m'))"
| "ts_call pl e (NodeClose h) m = mesh_close h m"

fun nb_call :: "platform \<Rightarrow> shim_env \<Rightarrow> mesh_call \<Rightarrow> nb_node shim_mem \<Rightarrow> int \<times> nb_node shim_mem" where
  "nb_call pl e NodeNew m = mesh_new pl new_nb_node m"
| "nb_call pl e (SetStr h k v) m = nb_mesh_set_str h k v m"
| "nb_call pl e (SetBool h k v) m = mesh_set_bool h k v m"
| "nb_call pl e (NodeUp h) m = nb_mesh_up pl (en_up e) h m"
| "nb_call pl e (NodeDial h host port) m =
     (let ((rc, stream), m') = mesh_dial ''NetBird'' (en_pair e) (en_dial e) h host port m in (rc, m'))"
| "nb_call pl e (NodeExport h mesh_port host port) m =
     (let ((rc, out), m') = mesh_export pl ''NetBird'' (en_listen e) h mesh_port host port m in (rc, m'))"
| "nb_call pl e (NodeUnexport h x) m = mesh_unexport h x m"
| "nb_call pl e (NodeJson h) m = (jr_rc (nb_mesh_peers_json (en_marshal e) h (en_len e) m), m)"
| "nb_call pl e (NodeClose h) m = mesh_close h m"

text \<open>A sequence of calls and what each returned.\<close>

fun run_calls :: "('e \<Rightarrow> mesh_call \<Rightarrow> 's \<Rightarrow> int \<times> 's) \<Rightarrow> ('e \<times> mesh_call) list \<Rightarrow> 's \<Rightarrow> int list \<times> 's" where
  "run_calls call [] s = ([], s)"
| "run_calls call ((e, c) # ecs) s =
     (let (r, s') = call e c s; (rs, s'') = run_calls call ecs s' in (r # rs, s''))"

text \<open>The handle a call is about, and the handles that a sequence of calls was given.\<close>

fun call_node :: "mesh_call \<Rightarrow> int option" where
  "call_node NodeNew = None"
| "call_node (SetStr h k v) = Some h"
| "call_node (SetBool h k v) = Some h"
| "call_node (NodeUp h) = Some h"
| "call_node (NodeDial h host port) = Some h"
| "call_node (NodeExport h mesh_port host port) = Some h"
| "call_node (NodeUnexport h x) = Some h"
| "call_node (NodeJson h) = Some h"
| "call_node (NodeClose h) = Some h"

fun new_handles :: "('e \<times> mesh_call) list \<Rightarrow> int list \<Rightarrow> int list" where
  "new_handles ((e, c) # ecs) (r # rs) = (if c = NodeNew then r # new_handles ecs rs else new_handles ecs rs)"
| "new_handles _ _ = []"

definition count_new :: "('e \<times> mesh_call) list \<Rightarrow> nat" where
  "count_new ecs = length (filter (\<lambda>(e, c). c = NodeNew) ecs)"

section \<open>The interface\<close>

text \<open>\<open>live\<close>: the handles of nodes; \<open>issued\<close>: the handles ever given; \<open>budget\<close>: how many the type still
  has.\<close>

locale mesh_shim =
  fixes call :: "'e \<Rightarrow> mesh_call \<Rightarrow> 's \<Rightarrow> int \<times> 's"
    and live issued :: "'s \<Rightarrow> int set" and is_up :: "'s \<Rightarrow> int \<Rightarrow> bool" and budget :: "'s \<Rightarrow> nat"
    and invar :: "'s \<Rightarrow> bool"
  assumes live_issued: "invar s \<Longrightarrow> live s \<subseteq> issued s"
    and call_new: "invar s \<Longrightarrow> 0 < budget s \<Longrightarrow> call e NodeNew s = (h, s') \<Longrightarrow>
      invar s' \<and> 0 < h \<and> h \<notin> issued s \<and> live s' = insert h (live s) \<and> issued s' = insert h (issued s) \<and>
      \<not> is_up s' h \<and> budget s = Suc (budget s')"
    and call_other: "invar s \<Longrightarrow> call_node c = Some h \<Longrightarrow> call e c s = (r, s') \<Longrightarrow>
      invar s' \<and> issued s' = issued s \<and> budget s' = budget s \<and>
      live s' = (if c = NodeClose h then live s - {h} else live s)"
    and call_unknown: "invar s \<Longrightarrow> call_node c = Some h \<Longrightarrow> h \<notin> live s \<Longrightarrow>
      call e c s = (if c = NodeClose h then 0 else 1, s)"
    and call_up: "invar s \<Longrightarrow> is_up s h \<Longrightarrow> h \<in> live s \<Longrightarrow> call e (NodeUp h) s = (0, s)"
    and call_up_ok: "invar s \<Longrightarrow> call e (NodeUp h) s = (0, s') \<Longrightarrow> h \<in> live s \<and> is_up s' h"
    and call_down: "invar s \<Longrightarrow> \<not> is_up s h \<Longrightarrow> h \<in> live s \<Longrightarrow>
      call e (NodeDial h host port) s = (1, s) \<and> call e (NodeExport h mesh_port lhost lport) s = (1, s)"
    and call_close: "invar s \<Longrightarrow> fst (call e (NodeClose h) s) = 0"
begin

text \<open>Coming up and closing are idempotent.\<close>

lemma up_twice:
  assumes "invar s" and "call e (NodeUp h) s = (0, s1)"
  shows "call e' (NodeUp h) s1 = (0, s1)"
  using call_up_ok [OF assms] call_other [OF assms(1) _ assms(2)] call_up by auto

lemma close_twice:
  assumes "invar s" and "call e (NodeClose h) s = (r, s1)"
  shows "r = 0 \<and> h \<notin> live s1 \<and> call e' (NodeClose h) s1 = (0, s1)"
proof -
  have "invar s1 \<and> live s1 = live s - {h}" using call_other [OF assms(1) _ assms(2)] by simp
  then show ?thesis using call_close [OF assms(1), of e h] call_unknown [of s1 "NodeClose h" h e'] assms(2) by simp
qed

lemma step_cases:
  assumes "invar s" and "c = NodeNew \<Longrightarrow> 0 < budget s" and "call e c s = (r, s')"
  shows "invar s' \<and> issued s' = (if c = NodeNew then insert r (issued s) else issued s) \<and>
    budget s = (if c = NodeNew then Suc (budget s') else budget s') \<and>
    (c = NodeNew \<longrightarrow> 0 < r \<and> r \<notin> issued s) \<and> live s' \<subseteq> (if c = NodeNew then insert r (live s) else live s)"
proof (cases "call_node c")
  case None
  then have "c = NodeNew" by (cases c) simp_all
  then show ?thesis using call_new assms by simp
next
  case (Some h)
  then show ?thesis using call_other [OF assms(1) Some assms(3)] by auto
qed

text \<open>The handles of any sequence of calls.\<close>

lemma run_handles:
  assumes "invar s" and "count_new ecs \<le> budget s" and "run_calls call ecs s = (rs, s')"
  shows "invar s' \<and> issued s' = issued s \<union> set (new_handles ecs rs) \<and>
    distinct (new_handles ecs rs) \<and> set (new_handles ecs rs) \<inter> issued s = {} \<and>
    (\<forall>h \<in> set (new_handles ecs rs). 0 < h) \<and> live s' \<inter> issued s \<subseteq> live s"
  using assms
proof (induction ecs arbitrary: s rs)
  case (Cons ec ecs)
  obtain e c where ec: "ec = (e, c)" by (cases ec)
  obtain r s1 where c: "call e c s = (r, s1)" by fastforce
  obtain rs1 where ecs: "run_calls call ecs s1 = (rs1, s')" "rs = r # rs1"
    using Cons.prems(3) c ec by (auto split: prod.splits)
  have "c = NodeNew \<Longrightarrow> 0 < budget s" using Cons.prems(2) ec by (simp add: count_new_def)
  note step = step_cases [OF Cons.prems(1) this c]
  have "count_new ecs \<le> budget s1"
    using step Cons.prems(2) ec by (auto simp: count_new_def split: if_splits)
  from Cons.IH [OF _ this ecs(1)] step
  have IH: "invar s' \<and> issued s' = issued s1 \<union> set (new_handles ecs rs1) \<and>
    distinct (new_handles ecs rs1) \<and> set (new_handles ecs rs1) \<inter> issued s1 = {} \<and>
    (\<forall>h \<in> set (new_handles ecs rs1). 0 < h) \<and> live s' \<inter> issued s1 \<subseteq> live s1" by blast
  show ?case
    using IH step by (cases "c = NodeNew") (auto simp: ec ecs(2))
qed simp

lemma budget_run:
  assumes "invar s" and "count_new ecs \<le> budget s" and "run_calls call ecs s = (rs, s')"
  shows "budget s = budget s' + count_new ecs"
  using assms
proof (induction ecs arbitrary: s rs)
  case (Cons ec ecs)
  obtain e c where ec: "ec = (e, c)" by (cases ec)
  obtain r s1 where c: "call e c s = (r, s1)" by fastforce
  obtain rs1 where ecs: "run_calls call ecs s1 = (rs1, s')"
    using Cons.prems(3) c ec by (auto split: prod.splits)
  have "c = NodeNew \<Longrightarrow> 0 < budget s" using Cons.prems(2) ec by (simp add: count_new_def)
  note step = step_cases [OF Cons.prems(1) this c]
  then have "count_new ecs \<le> budget s1" using Cons.prems(2) ec by (auto simp: count_new_def split: if_splits)
  then show ?case using Cons.IH [OF _ _ ecs] step ec by (auto simp: count_new_def split: if_splits)
qed (simp add: count_new_def)

lemma stays_closed:
  assumes "invar s" and "count_new ecs \<le> budget s" and "run_calls call ecs s = (rs, s')"
    and "h \<in> issued s" and "h \<notin> live s"
  shows "h \<notin> live s'"
  using run_handles [OF assms(1-3)] assms(4,5) by blast

text \<open>A node is closed between two sequences of calls.\<close>

lemma handles_for_ever:
  assumes "invar s" and "count_new ecs + count_new ecs' \<le> budget s" and "run_calls call ecs s = (rs, s1)"
    and "call e (NodeClose h) s1 = (r, s2)" and "run_calls call ecs' s2 = (rs', s3)"
  shows "distinct (new_handles ecs rs @ new_handles ecs' rs') \<and>
    (\<forall>k \<in> set (new_handles ecs rs @ new_handles ecs' rs'). 0 < k) \<and>
    (h \<in> set (new_handles ecs rs) \<longrightarrow> h \<notin> live s3) \<and> r = 0 \<and> call e' (NodeClose h) s2 = (0, s2)"
proof -
  note first = run_handles [OF assms(1) _ assms(3)]
  have left: "budget s = budget s1 + count_new ecs" using budget_run [OF assms(1) _ assms(3)] assms(2) by simp
  have s1: "invar s1" "issued s1 = issued s \<union> set (new_handles ecs rs)" using first assms(2) by simp_all
  have s2: "invar s2 \<and> issued s2 = issued s1 \<and> budget s2 = budget s1 \<and> live s2 = live s1 - {h}"
    using call_other [OF s1(1) _ assms(4)] by simp
  then have fits: "count_new ecs' \<le> budget s2" using assms(2) left by simp
  note second = run_handles [OF _ fits assms(5)]
  have "h \<notin> live s3" if "h \<in> set (new_handles ecs rs)"
    using stays_closed [OF _ fits assms(5), of h] s1 s2 that by simp
  moreover have "r = 0 \<and> call e' (NodeClose h) s2 = (0, s2)" using close_twice [OF s1(1) assms(4)] by simp
  ultimately show ?thesis using first second s1 s2 assms(2) by auto
qed

end

section \<open>The two shims\<close>

definition shim_live :: "'n shim_mem \<Rightarrow> int set" where
  "shim_live m = dom (sm_reg m)"

definition shim_issued :: "'n shim_mem \<Rightarrow> int set" where
  "shim_issued m = {1 ..< sm_nextH m}"

definition shim_is_up :: "'a node_scheme shim_mem \<Rightarrow> int \<Rightarrow> bool" where
  "shim_is_up m h \<longleftrightarrow> (case sm_reg m h of Some p \<Rightarrow> nd_up (sm_nodes m ! p) | None \<Rightarrow> False)"

definition shim_budget :: "platform \<Rightarrow> 'n shim_mem \<Rightarrow> nat" where
  "shim_budget pl m = nat (LONG_MAX pl - sm_nextH m)"

text \<open>A registry is in order: its handles were given, its pointers are nodes of the store, no two the
  same, and a node that is up has a server.\<close>

definition shim_wf :: "platform \<Rightarrow> 'a node_scheme shim_mem \<Rightarrow> bool" where
  "shim_wf pl m \<longleftrightarrow>
     0 < sm_nextH m \<and> sm_nextH m \<le> LONG_MAX pl \<and> inj_on (sm_reg m) (dom (sm_reg m)) \<and>
     (\<forall>h p. sm_reg m h = Some p \<longrightarrow> 0 < h \<and> h < sm_nextH m \<and> p < length (sm_nodes m) \<and>
        (nd_up (sm_nodes m ! p) \<longrightarrow> nd_srv (sm_nodes m ! p) \<noteq> None))"

lemmas shim_view_defs = shim_live_def shim_issued_def shim_budget_def

lemma long_bits_cases: "long_bits pl = 32 \<or> long_bits pl = 64"
  by (simp add: long_bits_def)

lemma long_succ_eq: "0 \<le> h \<Longrightarrow> h < LONG_MAX pl \<Longrightarrow> long_succ pl h = h + 1"
  using long_bits_cases [of pl] by (auto simp: long_succ_def LONG_MAX_def mod_pos_pos_trivial)

lemma LONG_MAX_pos: "0 < LONG_MAX pl"
  using long_bits_cases [of pl] by (auto simp: LONG_MAX_def)

lemma upd_node_simps [simp]:
  "sm_reg (upd_node p f m) = sm_reg m" "sm_nextH (upd_node p f m) = sm_nextH m"
  "length (sm_nodes (upd_node p f m)) = length (sm_nodes m)" "sm_events (upd_node p f m) = sm_events m"
  "sm_servers (upd_node p f m) = sm_servers m" "sm_os (upd_node p f m) = sm_os m"
  by (simp_all add: upd_node_def)

lemma upd_node_at:
  "p < length (sm_nodes m) \<Longrightarrow> sm_nodes (upd_node p f m) ! q = (if q = p then f (sm_nodes m ! p) else sm_nodes m ! q)"
  by (simp add: upd_node_def)

lemma emit_simps [simp]:
  "sm_reg (emit es m) = sm_reg m" "sm_nextH (emit es m) = sm_nextH m" "sm_nodes (emit es m) = sm_nodes m"
  "sm_events (emit es m) = sm_events m @ es" "sm_servers (emit es m) = sm_servers m" "sm_os (emit es m) = sm_os m"
  by (simp_all add: emit_def)

lemma os_calls_simps [simp]:
  "sm_reg (os_calls l m) = sm_reg m" "sm_nextH (os_calls l m) = sm_nextH m" "sm_nodes (os_calls l m) = sm_nodes m"
  "sm_events (os_calls l m) = sm_events m" "sm_servers (os_calls l m) = sm_servers m" "sm_os (os_calls l m) = sm_os m @ l"
  by (simp_all add: os_calls_def)

text \<open>\<open>same_registry\<close>: the registry is as it was, and the nodes that are up still have a server.\<close>

definition same_registry :: "'a node_scheme shim_mem \<Rightarrow> 'a node_scheme shim_mem \<Rightarrow> bool" where
  "same_registry m m' \<longleftrightarrow>
     sm_reg m' = sm_reg m \<and> sm_nextH m' = sm_nextH m \<and> length (sm_nodes m') = length (sm_nodes m) \<and>
     (\<forall>q < length (sm_nodes m). (nd_up (sm_nodes m ! q) \<longrightarrow> nd_srv (sm_nodes m ! q) \<noteq> None) \<longrightarrow>
        nd_up (sm_nodes m' ! q) \<longrightarrow> nd_srv (sm_nodes m' ! q) \<noteq> None)"

lemma same_registry_refl [simp]: "same_registry m m"
  by (simp add: same_registry_def)

lemma same_registry_trans: "same_registry m m1 \<Longrightarrow> same_registry m1 m2 \<Longrightarrow> same_registry m m2"
  by (simp add: same_registry_def)

lemma same_registry_emit [simp]:
  "same_registry m (emit es m') = same_registry m m'" "same_registry m (os_calls l m') = same_registry m m'"
  by (simp_all add: same_registry_def)

definition keeps_server :: "('a node_scheme \<Rightarrow> 'a node_scheme) \<Rightarrow> bool" where
  "keeps_server f \<longleftrightarrow> (\<forall>n. (nd_up n \<longrightarrow> nd_srv n \<noteq> None) \<longrightarrow> nd_up (f n) \<longrightarrow> nd_srv (f n) \<noteq> None)"

lemma same_registry_upd:
  assumes "same_registry m m'" and "keeps_server f"
  shows "same_registry m (upd_node p f m')"
proof (cases "p < length (sm_nodes m')")
  case True
  then have "same_registry m' (upd_node p f m')" using assms(2)
    by (auto simp: same_registry_def upd_node_at keeps_server_def)
  then show ?thesis using assms(1) same_registry_trans by blast
qed (use assms in \<open>simp add: same_registry_def upd_node_def\<close>)

lemma same_registry_wf:
  assumes "same_registry m m'" and "shim_wf pl m"
  shows "shim_wf pl m' \<and> shim_issued m' = shim_issued m \<and> shim_budget pl m' = shim_budget pl m \<and> shim_live m' = shim_live m"
  using assms by (auto simp: same_registry_def shim_wf_def shim_view_defs)

lemma setErr_same [simp]: "same_registry m m' \<Longrightarrow> same_registry m (setErr p err m')"
  by (simp add: setErr_def same_registry_upd keeps_server_def)

lemma export_listen_same: "same_registry m m' \<Longrightarrow> same_registry m (snd (export_listen pl label p answer mp host port m'))"
  by (cases answer) (simp_all add: export_listen_def addExport_def Let_def same_registry_upd keeps_server_def)

lemma mesh_export_same: "same_registry m (snd (mesh_export pl label answer h mp host port m))"
  by (simp add: mesh_export_def export_listen_same split: option.split)

lemma mesh_dial_same: "same_registry m (snd (mesh_dial label pair answer h host port m))"
  by (cases "fst pair"; cases answer) (auto simp: mesh_dial_def Let_def split: option.split)

lemma mesh_unexport_same: "same_registry m (snd (mesh_unexport h x m))"
  by (simp add: mesh_unexport_def takeExport_def Let_def same_registry_upd keeps_server_def split: option.split)

lemma mesh_set_bool_same: "same_registry m (snd (mesh_set_bool h k v m))"
  by (simp add: mesh_set_bool_def same_registry_upd keeps_server_def split: option.split)

lemma ts_set_shared [simp]:
  "nd_up (ts_set k v n) = nd_up n" "nd_srv (ts_set k v n) = nd_srv n" "nd_exports (ts_set k v n) = nd_exports n"
  "nd_nextExport (ts_set k v n) = nd_nextExport n"
  by (simp_all add: ts_set_def)

lemma nb_set_shared [simp]:
  "nd_up (nb_set k v n) = nd_up n" "nd_srv (nb_set k v n) = nd_srv n" "nd_exports (nb_set k v n) = nd_exports n"
  "nd_nextExport (nb_set k v n) = nd_nextExport n"
  by (simp_all add: nb_set_def)

lemma set_str_same:
  "same_registry m (snd (ts_mesh_set_str h k v m))" "same_registry m' (snd (nb_mesh_set_str h k v m'))"
  by (simp_all add: ts_mesh_set_str_def nb_mesh_set_str_def same_registry_upd keeps_server_def split: option.split)

lemma ts_json_same: "same_registry m (snd (ts_mesh_peers_json marshal e h len m))"
  by (simp add: ts_mesh_peers_json_def ts_with_status_def split: option.split sum.split)

lemma servers_same [simp]: "same_registry m (m'\<lparr>sm_servers := s\<rparr>) = same_registry m m'"
  by (simp add: same_registry_def)

lemma ts_start_server_same: "same_registry m (snd (ts_start_server dir p m))"
  by (simp add: ts_start_server_def Let_def same_registry_upd keeps_server_def)

lemma ts_start_server_at:
  "p < length (sm_nodes m) \<Longrightarrow> nd_srv (sm_nodes (snd (ts_start_server dir p m)) ! p) = Some (sm_servers m)"
  by (simp add: ts_start_server_def Let_def upd_node_def)

text \<open>A node comes up only with a server.\<close>

lemma upd_up_same:
  assumes "same_registry m m'" and "p < length (sm_nodes m)" and "nd_srv (sm_nodes m' ! p) \<noteq> None"
  shows "same_registry m (upd_node p (\<lambda>n. n\<lparr>nd_up := True\<rparr>) m')"
  using assms by (simp add: same_registry_def upd_node_at)

lemma ts_bring_up_same:
  assumes "p < length (sm_nodes m)"
  shows "same_registry m (snd (ts_bring_up up dir p m))"
  using ts_start_server_same [of m dir p] ts_start_server_at [OF assms, of dir] assms
  by (cases up) (auto simp: ts_bring_up_def case_prod_beta upd_up_same)

lemma nb_bring_up_same: "same_registry m (snd (nb_bring_up e path p m))"
  by (simp add: nb_bring_up_def Let_def same_registry_upd keeps_server_def split: option.split)

lemma wf_pointer: "shim_wf pl m \<Longrightarrow> sm_reg m h = Some p \<Longrightarrow> p < length (sm_nodes m)"
  by (simp add: shim_wf_def)

lemma ts_mesh_up_same: "shim_wf pl m \<Longrightarrow> same_registry m (snd (ts_mesh_up e h m))"
  using ts_bring_up_same [of _ m]
  by (auto simp: ts_mesh_up_def Let_def reg_get_def wf_pointer split: option.split sum.split)

lemma nb_mesh_up_same: "same_registry m (snd (nb_mesh_up pl e h m))"
  by (simp add: nb_mesh_up_def Let_def nb_bring_up_same split: option.split sum.split)

text \<open>Closing: the handle leaves the registry.\<close>

lemma mesh_close_view:
  assumes "shim_wf pl m"
  shows "shim_wf pl (snd (mesh_close h m)) \<and> shim_live (snd (mesh_close h m)) = shim_live m - {h} \<and>
    shim_issued (snd (mesh_close h m)) = shim_issued m \<and> shim_budget pl (snd (mesh_close h m)) = shim_budget pl m"
proof (cases "sm_reg m h")
  case None
  then show ?thesis using assms by (auto simp: mesh_close_def reg_get_def shim_view_defs)
next
  case (Some p)
  define m2 where "m2 = (case nd_srv (sm_nodes m ! p) of
      None \<Rightarrow> upd_node p (\<lambda>n. n\<lparr>nd_srv := None, nd_up := False\<rparr>) m
    | Some s \<Rightarrow> emit [ServerClose s] (closeAllExports p (upd_node p (\<lambda>n. n\<lparr>nd_srv := None, nd_up := False\<rparr>) m)))"
  have "same_registry m m2"
    by (auto simp: m2_def closeAllExports_def same_registry_upd keeps_server_def split: option.split)
  note same = same_registry_wf [OF this assms] and this
  then have "shim_wf pl m2" "shim_issued m2 = shim_issued m" "shim_budget pl m2 = shim_budget pl m" "sm_reg m2 = sm_reg m"
    by (simp_all add: same_registry_def)
  moreover have "snd (mesh_close h m) = m2\<lparr>sm_reg := (sm_reg m2)(h := None)\<rparr>"
    using Some by (simp add: mesh_close_def reg_get_def m2_def Let_def)
  ultimately show ?thesis by (auto simp: shim_wf_def shim_view_defs inj_on_def)
qed

lemma mesh_new_view:
  assumes "shim_wf pl m" and "0 < shim_budget pl m" and "\<not> nd_up fresh" and "mesh_new pl fresh m = (h, m')"
  shows "shim_wf pl m' \<and> 0 < h \<and> h \<notin> shim_issued m \<and> shim_live m' = insert h (shim_live m) \<and>
    shim_issued m' = insert h (shim_issued m) \<and> \<not> shim_is_up m' h \<and> shim_budget pl m = Suc (shim_budget pl m')"
proof -
  have next_h: "0 < sm_nextH m" "sm_nextH m < LONG_MAX pl" using assms(1,2) by (simp_all add: shim_wf_def shim_budget_def)
  have m': "h = sm_nextH m" "m' = m\<lparr>sm_nextH := sm_nextH m + 1, sm_nodes := sm_nodes m @ [fresh],
      sm_reg := (sm_reg m)(sm_nextH m \<mapsto> length (sm_nodes m))\<rparr>"
    using assms(4) next_h by (auto simp: mesh_new_def long_succ_eq)
  have reg: "\<And>h p. sm_reg m h = Some p \<Longrightarrow> 0 < h \<and> h < sm_nextH m \<and> p < length (sm_nodes m) \<and>
        (nd_up (sm_nodes m ! p) \<longrightarrow> nd_srv (sm_nodes m ! p) \<noteq> None)"
    and inj: "inj_on (sm_reg m) (dom (sm_reg m))" using assms(1) by (auto simp: shim_wf_def)
  have "inj_on (sm_reg m') (dom (sm_reg m'))"
    using inj reg [of _ "length (sm_nodes m)"] by (fastforce simp: inj_on_def m' dom_def)
  moreover have "0 < k \<and> k < sm_nextH m' \<and> p < length (sm_nodes m') \<and>
      (nd_up (sm_nodes m' ! p) \<longrightarrow> nd_srv (sm_nodes m' ! p) \<noteq> None)" if "sm_reg m' k = Some p" for k p
    using that reg [of k p] next_h assms(3) by (cases "k = sm_nextH m") (auto simp: m' nth_append)
  moreover have "0 < sm_nextH m'" "sm_nextH m' \<le> LONG_MAX pl" using next_h by (simp_all add: m')
  ultimately have "shim_wf pl m'" unfolding shim_wf_def by blast
  then show ?thesis using next_h assms(3) by (auto simp: m' shim_view_defs shim_is_up_def)
qed

text \<open>What a call on a handle does to the registry.\<close>

lemma ts_call_view:
  assumes "shim_wf pl m" and "call_node c = Some h" and "ts_call pl e c m = (r, m')"
  shows "shim_wf pl m' \<and> shim_issued m' = shim_issued m \<and> shim_budget pl m' = shim_budget pl m \<and>
    shim_live m' = (if c = NodeClose h then shim_live m - {h} else shim_live m)"
proof (cases "c = NodeClose h")
  case True
  then show ?thesis using mesh_close_view [OF assms(1), of h] assms(3) by simp
next
  case False
  have "m' = snd (ts_call pl e c m)" using assms(3) by simp
  then have "same_registry m m'"
    using assms(1,2) False
    by (cases c) (simp_all add: case_prod_beta set_str_same mesh_set_bool_same ts_mesh_up_same mesh_dial_same
        mesh_export_same mesh_unexport_same ts_json_same)
  then show ?thesis using same_registry_wf assms(1) False by simp
qed

lemma nb_call_view:
  assumes "shim_wf pl m" and "call_node c = Some h" and "nb_call pl e c m = (r, m')"
  shows "shim_wf pl m' \<and> shim_issued m' = shim_issued m \<and> shim_budget pl m' = shim_budget pl m \<and>
    shim_live m' = (if c = NodeClose h then shim_live m - {h} else shim_live m)"
proof (cases "c = NodeClose h")
  case True
  then show ?thesis using mesh_close_view [OF assms(1), of h] assms(3) by simp
next
  case False
  have "m' = snd (nb_call pl e c m)" using assms(3) by simp
  then have "same_registry m m'"
    using assms(2) False
    by (cases c) (simp_all add: case_prod_beta set_str_same mesh_set_bool_same nb_mesh_up_same mesh_dial_same
        mesh_export_same mesh_unexport_same)
  then show ?thesis using same_registry_wf assms(1) False by simp
qed

lemmas shim_op_defs = mesh_set_bool_def mesh_export_def mesh_dial_def mesh_unexport_def mesh_close_def reg_get_def
  ts_mesh_set_str_def ts_mesh_up_def ts_mesh_peers_json_def ts_with_status_def
  nb_mesh_set_str_def nb_mesh_up_def nb_mesh_peers_json_def no_json_def

lemma ts_call_unknown:
  assumes "call_node c = Some h" and "h \<notin> shim_live m"
  shows "ts_call pl e c m = (if c = NodeClose h then 0 else 1, m)"
proof -
  have "sm_reg m h = None" using assms(2) by (auto simp: shim_live_def)
  then show ?thesis using assms(1) by (cases c) (simp_all add: shim_op_defs)
qed

lemma nb_call_unknown:
  assumes "call_node c = Some h" and "h \<notin> shim_live m"
  shows "nb_call pl e c m = (if c = NodeClose h then 0 else 1, m)"
proof -
  have "sm_reg m h = None" using assms(2) by (auto simp: shim_live_def)
  then show ?thesis using assms(1) by (cases c) (simp_all add: shim_op_defs)
qed

lemma shim_is_upE:
  assumes "shim_is_up m h"
  obtains p where "sm_reg m h = Some p" "nd_up (sm_nodes m ! p)"
  using assms by (auto simp: shim_is_up_def split: option.splits)

lemma down_calls:
  assumes "\<not> shim_is_up m h" and "h \<in> shim_live m"
  shows "mesh_dial label pair answer h host port m = ((1, None), m)"
    and "mesh_export pl label answer' h mp lhost lport m = ((1, None), m)"
  using assms by (auto simp: shim_op_defs shim_is_up_def shim_live_def running_server_def)

lemma ts_bring_up_ok:
  assumes "p < length (sm_nodes m)" and "ts_bring_up up dir p m = (0, m')"
  shows "nd_up (sm_nodes m' ! p) \<and> sm_reg m' = sm_reg m"
  using assms ts_start_server_same [of m dir p]
  by (auto simp: ts_bring_up_def same_registry_def upd_node_at split: prod.splits option.splits)

lemma nb_bring_up_ok:
  assumes "p < length (sm_nodes m)" and "nb_bring_up e path p m = (0, m')"
  shows "nd_up (sm_nodes m' ! p) \<and> sm_reg m' = sm_reg m"
  using assms by (auto simp: nb_bring_up_def Let_def upd_node_at split: option.splits)

lemma ts_up_ok:
  assumes "shim_wf pl m" and "ts_mesh_up e h m = (0, m')"
  shows "h \<in> shim_live m \<and> shim_is_up m' h"
proof -
  obtain p where p: "sm_reg m h = Some p" using assms(2) by (cases "sm_reg m h") (simp_all add: ts_mesh_up_def reg_get_def)
  then have "nd_up (sm_nodes m' ! p) \<and> sm_reg m' = sm_reg m"
    using assms(2) ts_bring_up_ok wf_pointer [OF assms(1) p]
    by (auto simp: ts_mesh_up_def reg_get_def Let_def split: if_splits sum.splits)
  then show ?thesis using p by (auto simp: shim_live_def shim_is_up_def)
qed

lemma nb_up_ok:
  assumes "shim_wf pl m" and "nb_mesh_up pl e h m = (0, m')"
  shows "h \<in> shim_live m \<and> shim_is_up m' h"
proof -
  obtain p where p: "sm_reg m h = Some p" using assms(2) by (cases "sm_reg m h") (simp_all add: nb_mesh_up_def reg_get_def)
  then have "nd_up (sm_nodes m' ! p) \<and> sm_reg m' = sm_reg m"
    using assms(2) nb_bring_up_ok wf_pointer [OF assms(1) p]
    by (auto simp: nb_mesh_up_def reg_get_def Let_def split: if_splits sum.splits)
  then show ?thesis using p by (auto simp: shim_live_def shim_is_up_def)
qed

lemma wf_live_issued: "shim_wf pl m \<Longrightarrow> shim_live m \<subseteq> shim_issued m"
  by (force simp: shim_wf_def shim_view_defs)

lemma mesh_close_returns: "fst (mesh_close h m) = 0"
  by (simp add: mesh_close_def Let_def split: option.split)

interpretation ts: mesh_shim "ts_call pl" shim_live shim_issued shim_is_up "shim_budget pl" "shim_wf pl" for pl
proof unfold_locales
  fix s :: "ts_node shim_mem" and e h s'
  show "shim_wf pl s' \<and> 0 < h \<and> h \<notin> shim_issued s \<and> shim_live s' = insert h (shim_live s) \<and>
      shim_issued s' = insert h (shim_issued s) \<and> \<not> shim_is_up s' h \<and> shim_budget pl s = Suc (shim_budget pl s')"
    if "shim_wf pl s" "0 < shim_budget pl s" "ts_call pl e NodeNew s = (h, s')"
    using mesh_new_view [OF that(1,2), of new_ts_node] that(3) by (simp add: new_ts_node_def new_node_def)
  show "ts_call pl e (NodeUp h) s = (0, s)" if "shim_is_up s h"
    using that by (auto elim!: shim_is_upE simp: ts_mesh_up_def reg_get_def)
  show "h \<in> shim_live s \<and> shim_is_up s' h" if "shim_wf pl s" "ts_call pl e (NodeUp h) s = (0, s')"
    using ts_up_ok that by simp
  show "shim_live s \<subseteq> shim_issued s" if "shim_wf pl s" using that by (rule wf_live_issued)
  show "fst (ts_call pl e (NodeClose h) s) = 0" by (simp add: mesh_close_returns)
  fix c r
  show "shim_wf pl s' \<and> shim_issued s' = shim_issued s \<and> shim_budget pl s' = shim_budget pl s \<and>
      shim_live s' = (if c = NodeClose h then shim_live s - {h} else shim_live s)"
    if "shim_wf pl s" "call_node c = Some h" "ts_call pl e c s = (r, s')"
    using that by (rule ts_call_view)
  show "ts_call pl e c s = (if c = NodeClose h then 0 else 1, s)" if "call_node c = Some h" "h \<notin> shim_live s"
    using that by (rule ts_call_unknown)
  fix host lhost and port mesh_port lport :: int
  show "ts_call pl e (NodeDial h host port) s = (1, s) \<and> ts_call pl e (NodeExport h mesh_port lhost lport) s = (1, s)"
    if "\<not> shim_is_up s h" "h \<in> shim_live s"
    by (simp add: down_calls [OF that])
qed

interpretation nb: mesh_shim "nb_call pl" shim_live shim_issued shim_is_up "shim_budget pl" "shim_wf pl" for pl
proof unfold_locales
  fix s :: "nb_node shim_mem" and e h s'
  show "shim_wf pl s' \<and> 0 < h \<and> h \<notin> shim_issued s \<and> shim_live s' = insert h (shim_live s) \<and>
      shim_issued s' = insert h (shim_issued s) \<and> \<not> shim_is_up s' h \<and> shim_budget pl s = Suc (shim_budget pl s')"
    if "shim_wf pl s" "0 < shim_budget pl s" "nb_call pl e NodeNew s = (h, s')"
    using mesh_new_view [OF that(1,2), of new_nb_node] that(3) by (simp add: new_nb_node_def new_node_def)
  show "nb_call pl e (NodeUp h) s = (0, s)" if "shim_is_up s h"
    using that by (auto elim!: shim_is_upE simp: nb_mesh_up_def reg_get_def)
  show "h \<in> shim_live s \<and> shim_is_up s' h" if "shim_wf pl s" "nb_call pl e (NodeUp h) s = (0, s')"
    using nb_up_ok that by simp
  show "shim_live s \<subseteq> shim_issued s" if "shim_wf pl s" using that by (rule wf_live_issued)
  show "fst (nb_call pl e (NodeClose h) s) = 0" by (simp add: mesh_close_returns)
  fix c r
  show "shim_wf pl s' \<and> shim_issued s' = shim_issued s \<and> shim_budget pl s' = shim_budget pl s \<and>
      shim_live s' = (if c = NodeClose h then shim_live s - {h} else shim_live s)"
    if "shim_wf pl s" "call_node c = Some h" "nb_call pl e c s = (r, s')"
    using that by (rule nb_call_view)
  show "nb_call pl e c s = (if c = NodeClose h then 0 else 1, s)" if "call_node c = Some h" "h \<notin> shim_live s"
    using that by (rule nb_call_unknown)
  fix host lhost and port mesh_port lport :: int
  show "nb_call pl e (NodeDial h host port) s = (1, s) \<and> nb_call pl e (NodeExport h mesh_port lhost lport) s = (1, s)"
    if "\<not> shim_is_up s h" "h \<in> shim_live s"
    by (simp add: down_calls [OF that])
qed

section \<open>Properties\<close>

lemma shim_init_wf: "shim_wf pl shim_init" "shim_budget pl shim_init = nat (LONG_MAX pl - 1)"
  using LONG_MAX_pos [of pl] by (simp_all add: shim_wf_def shim_init_def shim_budget_def)

text \<open>What must hold of the handles when the calls \<open>ecs\<close> are made, then \<open>h\<close> is closed, then the calls
  \<open>ecs'\<close> are made.\<close>

definition handles_kept ::
  "(shim_env \<Rightarrow> mesh_call \<Rightarrow> 'n shim_mem \<Rightarrow> int \<times> 'n shim_mem) \<Rightarrow> (shim_env \<times> mesh_call) list \<Rightarrow> shim_env \<Rightarrow> int \<Rightarrow>
   (shim_env \<times> mesh_call) list \<Rightarrow> bool" where
  "handles_kept call ecs e h ecs' \<longleftrightarrow>
     (let (rs, m1) = run_calls call ecs shim_init; (r, m2) = call e (NodeClose h) m1;
          (rs', m3) = run_calls call ecs' m2; hs = new_handles ecs rs @ new_handles ecs' rs' in
      distinct hs \<and> (\<forall>k \<in> set hs. 0 < k) \<and> (h \<in> set (new_handles ecs rs) \<longrightarrow> h \<notin> shim_live m3) \<and>
      r = 0 \<and> call e (NodeClose h) m2 = (0, m2))"

text \<open>C19: A handle of a mesh node names one node for ever, in both shims. In any sequence of calls, with
  whatever answers of the mesh, as long as fewer nodes are made than the C type long has positive
  values, every handle that \<open>mesh_new\<close> returns is positive and different from all others, before and after;
  once closed it stays unknown whatever is called later, and closing it succeeds and succeeds again
  without effect.\<close>

theorem shim_handles:
  assumes "int (count_new ecs + count_new ecs') < LONG_MAX pl"
  shows "handles_kept (ts_call pl) ecs e h ecs' \<and> handles_kept (nb_call pl) ecs e h ecs'"
proof -
  have "count_new ecs + count_new ecs' \<le> nat (LONG_MAX pl - 1)" using assms by linarith
  then have fits: "count_new ecs + count_new ecs' \<le> shim_budget pl (shim_init :: ts_node shim_mem)"
      "count_new ecs + count_new ecs' \<le> shim_budget pl (shim_init :: nb_node shim_mem)"
    by (simp_all add: shim_init_wf(2))
  have "handles_kept (ts_call pl) ecs e h ecs'"
    unfolding handles_kept_def Let_def case_prod_beta
    by (rule ts.handles_for_ever [OF shim_init_wf(1) fits(1)]) simp_all
  moreover have "handles_kept (nb_call pl) ecs e h ecs'"
    unfolding handles_kept_def Let_def case_prod_beta
    by (rule nb.handles_for_ever [OF shim_init_wf(1) fits(2)]) simp_all
  ultimately show ?thesis by blast
qed

definition shim_demo_env :: shim_env where
  "shim_demo_env = \<lparr>en_up = \<lparr>ue_mkdir = Inr ''/tmp/t'', ue_new = None, ue_up = None\<rparr>, en_listen = Inr 20,
     en_pair = (Inr (10, 11), [OpenFd 10, OpenFd 11]), en_dial = Inr 12, en_marshal = (\<lambda>_. Some ''[]''),
     en_status = \<lparr>sv_local_client = None, sv_status = Inr \<lparr>st_Peer = [], st_Self = None\<rparr>\<rparr>, en_len = 8192\<rparr>"

definition shim_demo_calls :: "mesh_call list \<Rightarrow> (shim_env \<times> mesh_call) list" where
  "shim_demo_calls cs = map (\<lambda>c. (shim_demo_env, c)) cs"

theorem shim_handles_witness:
  "handles_kept (ts_call Windows) (shim_demo_calls [NodeNew, SetStr 1 ''auth_key'' ''k'', NodeUp 1]) shim_demo_env 1
     (shim_demo_calls [NodeNew, NodeUp 1, NodeClose 7]) \<and>
   fst (run_calls (ts_call Windows) (shim_demo_calls [NodeNew, SetStr 1 ''auth_key'' ''k'', NodeUp 1]) shim_init) = [1, 0, 0]"
proof -
  have "int (count_new (shim_demo_calls [NodeNew, SetStr 1 ''auth_key'' ''k'', NodeUp 1]) +
      count_new (shim_demo_calls [NodeNew, NodeUp 1, NodeClose 7])) < LONG_MAX Windows"
    by (simp add: count_new_def shim_demo_calls_def LONG_MAX_def long_bits_def)
  from shim_handles [OF this] show ?thesis
    by (simp add: shim_demo_calls_def shim_demo_env_def shim_init_def mesh_new_def ts_mesh_set_str_def reg_get_def upd_node_def
        ts_set_def ts_mesh_up_def Let_def ts_bring_up_def ts_start_server_def emit_def new_ts_node_def new_node_def)
qed

end
