(* ===== verification/Shim_Lifecycle.thy ===== *)
theory Shim_Lifecycle
  imports Shim_Interface
begin

text \<open>
  What the shims hold of the mesh: the listeners of their exports and the servers that came up. The
  properties compare what the log of calls into the mesh library leaves open with what the registry can
  still reach, for whole sequences of calls one after the other, and show the two ways in which a server
  or a listener is lost: a second attempt to come up, and a node that is closed while an export of it
  is waiting for its listener.
\<close>

section \<open>Definitions\<close>

fun listener_event :: "shim_event \<Rightarrow> int set \<Rightarrow> int set" where
  "listener_event (ExportServes ln) S = insert ln S"
| "listener_event (ExportClosed ln) S = S - {ln}"
| "listener_event _ S = S"

fun server_event :: "shim_event \<Rightarrow> nat set \<Rightarrow> nat set" where
  "server_event (ServerIsUp s) S = insert s S"
| "server_event (ServerClose s) S = S - {s}"
| "server_event _ S = S"

text \<open>The listeners that are served and the servers that are up, by the log.\<close>

definition open_listeners :: "shim_event list \<Rightarrow> int set" where
  "open_listeners es = fold listener_event es {}"

definition servers_up :: "shim_event list \<Rightarrow> nat set" where
  "servers_up es = fold server_event es {}"

text \<open>The same, by the nodes of the registry.\<close>

definition node_listeners :: "'a node_scheme \<Rightarrow> int list" where
  "node_listeners n = map (\<lambda>x. the (xp_ln (snd x))) (nd_exports n)"

definition reachable_listeners :: "'a node_scheme shim_mem \<Rightarrow> int set" where
  "reachable_listeners m = (\<Union>p \<in> ran (sm_reg m). set (node_listeners (sm_nodes m ! p)))"

definition reachable_servers :: "'a node_scheme shim_mem \<Rightarrow> nat set" where
  "reachable_servers m = (\<Union>p \<in> ran (sm_reg m). option.set_option (running_server (sm_nodes m ! p)))"

text \<open>What the mesh library promises: a listener it hands out to an export is not one that is open.\<close>

definition listen_fresh :: "shim_env \<Rightarrow> 'n shim_mem \<Rightarrow> bool" where
  "listen_fresh e m \<longleftrightarrow> (case en_listen e of Inr ln \<Rightarrow> ln \<notin> open_listeners (sm_events m) | Inl _ \<Rightarrow> True)"

fun is_NodeExport :: "mesh_call \<Rightarrow> bool" where
  "is_NodeExport (NodeExport h mesh_port host port) \<longleftrightarrow> True"
| "is_NodeExport _ \<longleftrightarrow> False"

fun listens_fresh ::
  "(shim_env \<Rightarrow> mesh_call \<Rightarrow> 'n shim_mem \<Rightarrow> int \<times> 'n shim_mem) \<Rightarrow> (shim_env \<times> mesh_call) list \<Rightarrow> 'n shim_mem \<Rightarrow> bool" where
  "listens_fresh call [] m \<longleftrightarrow> True"
| "listens_fresh call ((e, c) # ecs) m \<longleftrightarrow> (is_NodeExport c \<longrightarrow> listen_fresh e m) \<and> listens_fresh call ecs (snd (call e c m))"

section \<open>The invariant\<close>

text \<open>\<open>k\<close> calls have been made, and \<open>S\<close> server objects.\<close>

definition node_ok :: "nat \<Rightarrow> nat \<Rightarrow> 'a node_scheme \<Rightarrow> bool" where
  "node_ok k S n \<longleftrightarrow>
     (nd_exports n \<noteq> [] \<longrightarrow> nd_srv n \<noteq> None) \<and> 0 \<le> nd_nextExport n \<and> nd_nextExport n \<le> int k \<and>
     (\<forall>x \<in> set (nd_exports n). fst x \<le> nd_nextExport n \<and> xp_ln (snd x) \<noteq> None) \<and>
     distinct (map fst (nd_exports n)) \<and> distinct (node_listeners n) \<and> (\<forall>s. nd_srv n = Some s \<longrightarrow> s < S)"

definition apart :: "'a node_scheme \<Rightarrow> 'b node_scheme \<Rightarrow> bool" where
  "apart n n' \<longleftrightarrow> set (node_listeners n) \<inter> set (node_listeners n') = {} \<and> option.set_option (nd_srv n) \<inter> option.set_option (nd_srv n') = {}"

definition shim_inv :: "platform \<Rightarrow> nat \<Rightarrow> 'a node_scheme shim_mem \<Rightarrow> bool" where
  "shim_inv pl k m \<longleftrightarrow>
     shim_wf pl m \<and> sm_nextH m \<le> int k + 1 \<and> (\<forall>p \<in> ran (sm_reg m). node_ok k (sm_servers m) (sm_nodes m ! p)) \<and>
     (\<forall>p \<in> ran (sm_reg m). \<forall>q \<in> ran (sm_reg m). p \<noteq> q \<longrightarrow> apart (sm_nodes m ! p) (sm_nodes m ! q)) \<and>
     open_listeners (sm_events m) = reachable_listeners m \<and> servers_up (sm_events m) = reachable_servers m"

lemma events_append [simp]:
  "open_listeners (es @ es') = fold listener_event es' (open_listeners es)"
  "servers_up (es @ es') = fold server_event es' (servers_up es)"
  by (simp_all add: open_listeners_def servers_up_def)

lemma node_ok_mono: "node_ok k S n \<Longrightarrow> k \<le> k' \<Longrightarrow> S \<le> S' \<Longrightarrow> node_ok k' S' n"
  by (auto simp: node_ok_def)

lemma apart_sym: "apart n n' \<Longrightarrow> apart n' n"
  by (auto simp: apart_def)

lemma running_server_srv: "option.set_option (running_server n) \<subseteq> option.set_option (nd_srv n)"
  by (simp add: running_server_def)

lemma UN_update:
  assumes "p \<in> R" and "\<And>q. q \<in> R \<Longrightarrow> q \<noteq> p \<Longrightarrow> A p \<inter> A q = {}"
  shows "(\<Union>q \<in> R. if q = p then B else A q) = (\<Union>q \<in> R. A q) - A p \<union> B"
proof -
  have "(\<Union>q \<in> R. A q) - A p = (\<Union>q \<in> R - {p}. A q)" using assms by blast
  then show ?thesis using assms(1) by auto
qed

text \<open>One node of the registry changes.\<close>

lemma inv_update:
  assumes inv: "shim_inv pl k m" and p: "p \<in> ran (sm_reg m)"
    and m': "sm_reg m' = sm_reg m" "sm_nextH m' = sm_nextH m" "sm_nodes m' = (sm_nodes m)[p := n']"
      "sm_servers m \<le> sm_servers m'"
    and n': "node_ok (Suc k) (sm_servers m') n'" "nd_up n' \<longrightarrow> nd_srv n' \<noteq> None"
    and others: "\<And>q. q \<in> ran (sm_reg m) \<Longrightarrow> q \<noteq> p \<Longrightarrow> apart n' (sm_nodes m ! q)"
    and evs: "open_listeners (sm_events m') =
        open_listeners (sm_events m) - set (node_listeners (sm_nodes m ! p)) \<union> set (node_listeners n')"
      "servers_up (sm_events m') =
        servers_up (sm_events m) - option.set_option (running_server (sm_nodes m ! p)) \<union> option.set_option (running_server n')"
  shows "shim_inv pl (Suc k) m'"
proof -
  let ?R = "ran (sm_reg m)" and ?N = "sm_nodes m"
  have wf: "shim_wf pl m" and ap: "\<And>q. q \<in> ?R \<Longrightarrow> q \<noteq> p \<Longrightarrow> apart (?N ! p) (?N ! q)"
    and ok: "\<And>q. q \<in> ?R \<Longrightarrow> node_ok k (sm_servers m) (?N ! q)" and nh: "sm_nextH m \<le> int k + 1"
    and ol: "open_listeners (sm_events m) = reachable_listeners m"
    and su: "servers_up (sm_events m) = reachable_servers m"
    using inv p by (auto simp: shim_inv_def)
  have lt: "p < length ?N" using wf p by (auto simp: shim_wf_def ran_def)
  have at: "sm_nodes m' ! q = (if q = p then n' else ?N ! q)" for q using lt m'(3) by simp
  have "length (sm_nodes m') = length ?N" using m'(3) by simp
  then have "shim_wf pl m'" using wf n'(2) m'(1,2) unfolding shim_wf_def by (simp add: at)
  moreover have "node_ok (Suc k) (sm_servers m') (sm_nodes m' ! q)" if "q \<in> ?R" for q
    using node_ok_mono [OF ok [OF that] _ m'(4)] n'(1) by (simp add: at)
  moreover have "apart (sm_nodes m' ! q) (sm_nodes m' ! r)" if "q \<in> ?R" "r \<in> ?R" "q \<noteq> r" for q r
    using inv that others by (auto simp: at shim_inv_def intro: apart_sym)
  moreover
  have "set (node_listeners (sm_nodes m' ! q)) =
      (if q = p then set (node_listeners n') else set (node_listeners (?N ! q)))"
      "option.set_option (running_server (sm_nodes m' ! q)) =
      (if q = p then option.set_option (running_server n') else option.set_option (running_server (?N ! q)))" for q
    by (simp_all add: at)
  then have ls: "reachable_listeners m' = (\<Union>q \<in> ?R. if q = p then set (node_listeners n') else set (node_listeners (?N ! q)))"
    and ss: "reachable_servers m' = (\<Union>q \<in> ?R. if q = p then option.set_option (running_server n')
        else option.set_option (running_server (?N ! q)))"
    by (simp_all only: reachable_listeners_def reachable_servers_def m'(1))
  have apart_s: "option.set_option (running_server (?N ! p)) \<inter> option.set_option (running_server (?N ! q)) = {}"
    if "q \<in> ?R" "q \<noteq> p" for q
    using ap [OF that] running_server_srv [of "?N ! p"] running_server_srv [of "?N ! q"]
    unfolding apart_def by blast
  have "reachable_listeners m' = reachable_listeners m - set (node_listeners (?N ! p)) \<union> set (node_listeners n')"
    using ls UN_update [of p ?R "\<lambda>q. set (node_listeners (?N ! q))"] p ap
    by (simp add: reachable_listeners_def apart_def)
  moreover have "reachable_servers m' =
      reachable_servers m - option.set_option (running_server (?N ! p)) \<union> option.set_option (running_server n')"
    using ss UN_update [of p ?R "\<lambda>q. option.set_option (running_server (?N ! q))"] p apart_s
    by (simp add: reachable_servers_def)
  ultimately show ?thesis using evs ol su nh m'(1,2) unfolding shim_inv_def by simp
qed

text \<open>Nothing changes that matters here.\<close>

definition same_resources :: "'a node_scheme shim_mem \<Rightarrow> 'a node_scheme shim_mem \<Rightarrow> bool" where
  "same_resources m m' \<longleftrightarrow>
     sm_reg m' = sm_reg m \<and> sm_nextH m' = sm_nextH m \<and> length (sm_nodes m') = length (sm_nodes m) \<and>
     sm_servers m \<le> sm_servers m' \<and>
     (\<forall>q < length (sm_nodes m). nd_srv (sm_nodes m' ! q) = nd_srv (sm_nodes m ! q) \<and>
        nd_up (sm_nodes m' ! q) = nd_up (sm_nodes m ! q) \<and> nd_exports (sm_nodes m' ! q) = nd_exports (sm_nodes m ! q) \<and>
        nd_nextExport (sm_nodes m' ! q) = nd_nextExport (sm_nodes m ! q)) \<and>
     open_listeners (sm_events m') = open_listeners (sm_events m) \<and> servers_up (sm_events m') = servers_up (sm_events m)"

definition keeps_resources :: "('a node_scheme \<Rightarrow> 'a node_scheme) \<Rightarrow> bool" where
  "keeps_resources f \<longleftrightarrow> (\<forall>n. nd_srv (f n) = nd_srv n \<and> nd_up (f n) = nd_up n \<and> nd_exports (f n) = nd_exports n \<and>
     nd_nextExport (f n) = nd_nextExport n)"

lemma same_resources_refl [simp]: "same_resources m m"
  by (simp add: same_resources_def)

lemma same_resources_os [simp]: "same_resources m (os_calls l m') = same_resources m m'"
  by (simp add: same_resources_def)

lemma same_resources_emit:
  "same_resources m m' \<Longrightarrow> \<forall>S. fold listener_event es S = S \<Longrightarrow> \<forall>S. fold server_event es S = S \<Longrightarrow>
   same_resources m (emit es m')"
  by (simp add: same_resources_def)

lemma same_resources_upd:
  assumes "same_resources m m'" and "keeps_resources f"
  shows "same_resources m (upd_node p f m')"
proof (cases "p < length (sm_nodes m')")
  case True
  then show ?thesis using assms by (auto simp: same_resources_def upd_node_at keeps_resources_def)
qed (use assms in \<open>simp add: same_resources_def upd_node_def\<close>)

lemma same_resources_servers: "same_resources m m' \<Longrightarrow> sm_servers m' \<le> s \<Longrightarrow> same_resources m (m'\<lparr>sm_servers := s\<rparr>)"
  by (simp add: same_resources_def)

lemma ran_reg_length: "shim_wf pl m \<Longrightarrow> p \<in> ran (sm_reg m) \<Longrightarrow> p < length (sm_nodes m)"
  by (auto simp: shim_wf_def ran_def)

lemma inv_same:
  assumes inv: "shim_inv pl k m" and same: "same_resources m m'"
  shows "shim_inv pl (Suc k) m'"
proof -
  have wf: "shim_wf pl m" using inv by (simp add: shim_inv_def)
  have at: "node_listeners (sm_nodes m' ! q) = node_listeners (sm_nodes m ! q)"
      "nd_srv (sm_nodes m' ! q) = nd_srv (sm_nodes m ! q)" "nd_exports (sm_nodes m' ! q) = nd_exports (sm_nodes m ! q)"
      "nd_nextExport (sm_nodes m' ! q) = nd_nextExport (sm_nodes m ! q)" "nd_up (sm_nodes m' ! q) = nd_up (sm_nodes m ! q)"
      "running_server (sm_nodes m' ! q) = running_server (sm_nodes m ! q)"
    if "q \<in> ran (sm_reg m)" for q
    using same ran_reg_length [OF wf that] by (simp_all add: same_resources_def node_listeners_def running_server_def)
  have eq: "sm_reg m' = sm_reg m" "sm_nextH m' = sm_nextH m" "length (sm_nodes m') = length (sm_nodes m)"
      "sm_servers m \<le> sm_servers m'" "open_listeners (sm_events m') = open_listeners (sm_events m)"
      "servers_up (sm_events m') = servers_up (sm_events m)"
    using same by (simp_all add: same_resources_def)
  have "shim_wf pl m'" using wf at eq(1-3) by (auto simp: shim_wf_def ranI)
  moreover have "node_ok (Suc k) (sm_servers m') (sm_nodes m' ! q)" if "q \<in> ran (sm_reg m)" for q
    using inv that at [OF that] eq(4) by (auto simp: shim_inv_def node_ok_def)
  moreover have "apart (sm_nodes m' ! q) (sm_nodes m' ! r)" if "q \<in> ran (sm_reg m)" "r \<in> ran (sm_reg m)" "q \<noteq> r" for q r
    using inv that at by (simp add: shim_inv_def apart_def)
  moreover have "reachable_listeners m' = reachable_listeners m" "reachable_servers m' = reachable_servers m"
    using at by (simp_all add: reachable_listeners_def reachable_servers_def eq(1))
  ultimately show ?thesis using inv eq unfolding shim_inv_def by simp
qed

section \<open>The calls\<close>

lemma setErr_resources: "same_resources m m' \<Longrightarrow> same_resources m (setErr p err m')"
  by (simp add: setErr_def same_resources_upd keeps_resources_def)

lemma quiet_shim_calls:
  "same_resources m (snd (mesh_set_bool h b v m))" "same_resources m (snd (mesh_dial label pair answer h host port m))"
  "same_resources mt (snd (ts_mesh_set_str h k x mt))" "same_resources mn (snd (nb_mesh_set_str h k x mn))"
  "same_resources mt (snd (ts_mesh_peers_json marshal e h len mt))"
  by (auto simp: mesh_set_bool_def mesh_dial_def ts_mesh_set_str_def nb_mesh_set_str_def ts_mesh_peers_json_def
      ts_with_status_def same_resources_upd keeps_resources_def same_resources_emit setErr_resources Let_def
      split: option.split sum.split)

lemma inv_node:
  assumes "shim_inv pl k m" and "sm_reg m h = Some p"
  shows "p \<in> ran (sm_reg m)" "p < length (sm_nodes m)" "node_ok k (sm_servers m) (sm_nodes m ! p)"
    "set (node_listeners (sm_nodes m ! p)) \<subseteq> open_listeners (sm_events m)"
    "option.set_option (running_server (sm_nodes m ! p)) \<subseteq> servers_up (sm_events m)"
    "\<And>q. q \<in> ran (sm_reg m) \<Longrightarrow> q \<noteq> p \<Longrightarrow> apart (sm_nodes m ! p) (sm_nodes m ! q)"
  using assms by (auto simp: shim_inv_def shim_wf_def reachable_listeners_def reachable_servers_def ranI)

lemma put_export_new: "h \<notin> fst ` set xs \<Longrightarrow> put_export h e xs = xs @ [(h, e)]"
  by (induction xs) auto

lemma StartExport_ln [simp]: "xp_ln (StartExport ln host port) = Some ln"
  by (simp add: StartExport_def)

lemma export_listen_inv:
  assumes inv: "shim_inv pl k m" and reg: "sm_reg m h = Some p" and "nd_srv (sm_nodes m ! p) \<noteq> None"
    and "int (Suc k) < LONG_MAX pl" and fresh: "\<And>ln. answer = Inr ln \<Longrightarrow> ln \<notin> open_listeners (sm_events m)"
    and es: "\<forall>S. fold listener_event es S = S" "\<forall>S. fold server_event es S = S"
  shows "shim_inv pl (Suc k) (snd (export_listen pl label p answer mp host port (emit es m)))"
proof (cases answer)
  case (Inl err)
  then show ?thesis using inv_same [OF inv] es by (simp add: export_listen_def setErr_resources same_resources_emit)
next
  case (Inr ln)
  let ?n = "sm_nodes m ! p" and ?e = "StartExport ln host port"
  let ?h = "nd_nextExport ?n + 1"
  let ?n' = "?n\<lparr>nd_nextExport := ?h, nd_exports := nd_exports ?n @ [(?h, ?e)]\<rparr>"
  note node = inv_node [OF inv reg]
  have h: "long_succ pl (nd_nextExport ?n) = ?h"
    using node(3) assms(4) by (intro long_succ_eq) (auto simp: node_ok_def)
  have new: "?h \<notin> fst ` set (nd_exports ?n)" using node(3) by (auto simp: node_ok_def)
  have ln: "ln \<notin> set (node_listeners ?n)" using node(4) fresh [OF Inr] by blast
  define m' where "m' = snd (export_listen pl label p answer mp host port (emit es m))"
  have m': "sm_nodes m' = (sm_nodes m)[p := ?n']" "sm_reg m' = sm_reg m" "sm_nextH m' = sm_nextH m"
      "sm_servers m' = sm_servers m" "sm_events m' = sm_events m @ es @ [ExportServes ln]"
    using node(2) by (simp_all add: m'_def Inr export_listen_def addExport_def Let_def h upd_node_def put_export_new [OF new])
  have ls: "node_listeners ?n' = node_listeners ?n @ [ln]" by (simp add: node_listeners_def)
  show ?thesis unfolding m'_def [symmetric]
  proof (rule inv_update [OF inv node(1) m'(2,3,1)])
    show "node_ok (Suc k) (sm_servers m') ?n'"
      using node(3) assms(3) new ln unfolding node_ok_def ls by (auto simp: m'(4))
    show "nd_up ?n' \<longrightarrow> nd_srv ?n' \<noteq> None" using assms(3) by simp
    show "apart ?n' (sm_nodes m ! q)" if "q \<in> ran (sm_reg m)" "q \<noteq> p" for q
    proof -
      have "set (node_listeners (sm_nodes m ! q)) \<subseteq> open_listeners (sm_events m)"
        using inv that(1) by (auto simp: shim_inv_def reachable_listeners_def)
      then show ?thesis using node(6) [OF that] fresh [OF Inr] unfolding apart_def ls by auto
    qed
    show "open_listeners (sm_events m') =
        open_listeners (sm_events m) - set (node_listeners ?n) \<union> set (node_listeners ?n')"
      unfolding ls m'(5) using node(4) es(1) by auto
    show "servers_up (sm_events m') =
        servers_up (sm_events m) - option.set_option (running_server ?n) \<union> option.set_option (running_server ?n')"
      unfolding m'(5) using node(5) es(2) by (auto simp: running_server_def)
  qed (simp add: m'(4))
qed

text \<open>A server \<open>S\<close> that is new is put into the node, and came up or not.\<close>

lemma new_server_inv:
  assumes inv: "shim_inv pl k m" and reg: "sm_reg m h = Some p" and down: "\<not> nd_up (sm_nodes m ! p)"
    and m': "sm_reg m' = sm_reg m" "sm_nextH m' = sm_nextH m" "sm_nodes m' = (sm_nodes m)[p := n']"
      "sm_servers m' = Suc (sm_servers m)" "sm_events m' = sm_events m @ ServerStart (sm_servers m) cfg # es"
    and n': "nd_srv n' = Some (sm_servers m)" "nd_exports n' = nd_exports (sm_nodes m ! p)"
      "nd_nextExport n' = nd_nextExport (sm_nodes m ! p)"
    and es: "es = (if nd_up n' then [ServerIsUp (sm_servers m)] else [])"
  shows "shim_inv pl (Suc k) m'"
proof (rule inv_update [OF inv inv_node(1) [OF inv reg] m'(1-3)])
  note node = inv_node [OF inv reg]
  have ls: "node_listeners n' = node_listeners (sm_nodes m ! p)" using n' by (simp add: node_listeners_def)
  show "node_ok (Suc k) (sm_servers m') n'" using node(3) n' m'(4) unfolding node_ok_def ls by auto
  show "apart n' (sm_nodes m ! q)" if "q \<in> ran (sm_reg m)" "q \<noteq> p" for q
  proof -
    have "node_ok k (sm_servers m) (sm_nodes m ! q)" using inv that by (simp add: shim_inv_def)
    then have "nd_srv (sm_nodes m ! q) \<noteq> Some (sm_servers m)" by (auto simp: node_ok_def)
    then show ?thesis using node(6) [OF that] n'(1) unfolding apart_def ls by (cases "nd_srv (sm_nodes m ! q)") auto
  qed
  show "open_listeners (sm_events m') = open_listeners (sm_events m) - set (node_listeners (sm_nodes m ! p)) \<union>
      set (node_listeners n')"
    using node(4) by (auto simp: m'(5) es ls)
  show "servers_up (sm_events m') = servers_up (sm_events m) - option.set_option (running_server (sm_nodes m ! p)) \<union>
      option.set_option (running_server n')"
    using down by (simp add: m'(5) es running_server_def n'(1))
qed (use n'(1) m'(4) in simp_all)

lemma ts_bring_up_inv:
  assumes "shim_inv pl k m" and "sm_reg m h = Some p" and "\<not> nd_up (sm_nodes m ! p)"
  shows "shim_inv pl (Suc k) (snd (ts_bring_up up dir p m))"
proof -
  note node = inv_node [OF assms(1,2)]
  show ?thesis
  proof (cases up)
    case None
    show ?thesis
      by (rule new_server_inv [OF assms, where es = "[ServerIsUp (sm_servers m)]"
          and n' = "(sm_nodes m ! p)\<lparr>nd_srv := Some (sm_servers m), nd_up := True\<rparr>"])
        (use None node(2) in \<open>auto simp: ts_bring_up_def ts_start_server_def Let_def upd_node_def\<close>)
  next
    case (Some err)
    show ?thesis
      by (rule new_server_inv [OF assms, where es = "[]" and n' = "(sm_nodes m ! p)\<lparr>nd_srv := Some (sm_servers m),
            nd_lastErr := msg_up_failed (parseTags (tn_tags (sm_nodes m ! p))) err\<rparr>"])
        (use Some node(2) assms(3) in \<open>auto simp: ts_bring_up_def ts_start_server_def Let_def upd_node_def setErr_def\<close>)
  qed
qed

lemma nb_bring_up_inv:
  assumes "shim_inv pl k m" and "sm_reg m h = Some p" and "\<not> nd_up (sm_nodes m ! p)"
  shows "shim_inv pl (Suc k) (snd (nb_bring_up e path p m))"
proof (cases "ue_new e = None \<and> ue_up e = None")
  case True
  show ?thesis
    by (rule new_server_inv [OF assms, where es = "[ServerIsUp (sm_servers m)]"
          and n' = "(sm_nodes m ! p)\<lparr>nd_srv := Some (sm_servers m), nd_up := True\<rparr>"])
      (use True inv_node(2) [OF assms(1,2)] in \<open>auto simp: nb_bring_up_def Let_def upd_node_def\<close>)
next
  case False
  then have "same_resources m (snd (nb_bring_up e path p m))"
    by (auto simp: nb_bring_up_def Let_def setErr_resources same_resources_emit same_resources_servers split: option.split)
  then show ?thesis using inv_same assms(1) by blast
qed

lemma ts_mesh_up_inv: "shim_inv pl k m \<Longrightarrow> shim_inv pl (Suc k) (snd (ts_mesh_up e h m))"
  using inv_same [of pl k m]
  by (auto simp: ts_mesh_up_def reg_get_def Let_def ts_bring_up_inv setErr_resources split: option.split sum.split)

lemma nb_mesh_up_inv: "shim_inv pl k m \<Longrightarrow> shim_inv pl (Suc k) (snd (nb_mesh_up pl e h m))"
  using inv_same [of pl k m]
  by (auto simp: nb_mesh_up_def reg_get_def Let_def nb_bring_up_inv setErr_resources split: option.split sum.split)

text \<open>An export is taken out of its node and closed.\<close>

lemma filter_listeners:
  assumes "distinct (map fst xs)" and "distinct (map g xs)" and "map_of xs h = Some e"
  shows "set (map g (filter (\<lambda>x. fst x \<noteq> h) xs)) = set (map g xs) - {g (h, e)}"
proof -
  have "(h, e) \<in> set xs" using assms(3) by (rule map_of_SomeD)
  moreover have "x = (h, e)" if "x \<in> set xs" "g x = g (h, e) \<or> fst x = h" for x
    using that assms(1,2) calculation by (auto simp: distinct_map inj_on_def)
  ultimately show ?thesis by auto
qed

lemma mesh_unexport_inv:
  assumes inv: "shim_inv pl k m"
  shows "shim_inv pl (Suc k) (snd (mesh_unexport h x m))"
proof (cases "sm_reg m h")
  case None
  then show ?thesis using inv_same [OF inv] by (simp add: mesh_unexport_def reg_get_def)
next
  case (Some p)
  let ?n = "sm_nodes m ! p"
  let ?n' = "?n\<lparr>nd_exports := filter (\<lambda>y. fst y \<noteq> x) (nd_exports ?n)\<rparr>"
  define m' where "m' = snd (mesh_unexport h x m)"
  define es where "es = (case map_of (nd_exports ?n) x of None \<Rightarrow> [] | Some e \<Rightarrow> exporter_close_events e)"
  note node = inv_node [OF inv Some]
  have m': "sm_reg m' = sm_reg m" "sm_nextH m' = sm_nextH m" "sm_nodes m' = (sm_nodes m)[p := ?n']"
      "sm_servers m' = sm_servers m" "sm_events m' = sm_events m @ es"
    using Some by (auto simp: m'_def mesh_unexport_def reg_get_def takeExport_def Let_def upd_node_def es_def split: option.split)
  have lns: "distinct (map fst (nd_exports ?n))" "distinct (map (\<lambda>y. the (xp_ln (snd y))) (nd_exports ?n))"
    using node(3) by (simp_all add: node_ok_def node_listeners_def)
  have sub: "set (node_listeners ?n') \<subseteq> set (node_listeners ?n)" by (auto simp: node_listeners_def)
  have ol: "fold listener_event es S = S - (set (node_listeners ?n) - set (node_listeners ?n'))" for S
  proof (cases "map_of (nd_exports ?n) x")
    case None
    then have "filter (\<lambda>y. fst y \<noteq> x) (nd_exports ?n) = nd_exports ?n" by (auto simp: filter_id_conv map_of_eq_None_iff)
    then show ?thesis using None by (simp add: es_def node_listeners_def)
  next
    case (Some e)
    then obtain ln where ln: "xp_ln e = Some ln" using node(3) map_of_SomeD [OF Some] by (force simp: node_ok_def)
    have "set (node_listeners ?n') = set (node_listeners ?n) - {ln}" "ln \<in> set (node_listeners ?n)"
      using filter_listeners [OF lns Some] ln map_of_SomeD [OF Some] by (force simp: node_listeners_def)+
    then show ?thesis using Some ln by (auto simp: es_def exporter_close_events_def)
  qed
  have su: "fold server_event es S = S" for S by (simp add: es_def exporter_close_events_def split: option.split)
  show ?thesis unfolding m'_def [symmetric]
  proof (rule inv_update [OF inv node(1) m'(1-3)])
    show "node_ok (Suc k) (sm_servers m') ?n'"
      using node(3) lns by (auto simp: node_ok_def m'(4) node_listeners_def distinct_map_filter)
    show "nd_up ?n' \<longrightarrow> nd_srv ?n' \<noteq> None" using inv Some by (simp add: shim_inv_def shim_wf_def)
    show "apart ?n' (sm_nodes m ! q)" if "q \<in> ran (sm_reg m)" "q \<noteq> p" for q
      using node(6) [OF that] sub by (auto simp: apart_def)
    show "open_listeners (sm_events m') = open_listeners (sm_events m) - set (node_listeners ?n) \<union> set (node_listeners ?n')"
      using node(4) sub by (auto simp: m'(5) ol)
    show "servers_up (sm_events m') = servers_up (sm_events m) - option.set_option (running_server ?n) \<union>
        option.set_option (running_server ?n')"
      using node(5) by (auto simp: m'(5) su running_server_def)
  qed (simp add: m'(4))
qed

text \<open>A node is made, and a node is closed.\<close>

lemma mesh_new_inv:
  assumes inv: "shim_inv pl k m" and "int (Suc k) < LONG_MAX pl"
    and fresh: "nd_srv fresh = None" "\<not> nd_up fresh" "nd_exports fresh = []" "nd_nextExport fresh = 0"
  shows "shim_inv pl (Suc k) (snd (mesh_new pl fresh m))"
proof -
  have wf: "shim_wf pl m" and nh: "sm_nextH m \<le> int k + 1" using inv by (simp_all add: shim_inv_def)
  have "0 < shim_budget pl m" using wf nh assms(2) by (simp add: shim_budget_def)
  then have wf': "shim_wf pl (snd (mesh_new pl fresh m))"
    using mesh_new_view [OF wf _ fresh(2)] by (metis prod.collapse)
  have succ: "long_succ pl (sm_nextH m) = sm_nextH m + 1"
    using wf nh assms(2) by (intro long_succ_eq) (auto simp: shim_wf_def)
  have "sm_reg m (sm_nextH m) = None" using wf unfolding shim_wf_def by (metis less_irrefl not_None_eq)
  then have ran: "ran ((sm_reg m)(sm_nextH m \<mapsto> length (sm_nodes m))) = insert (length (sm_nodes m)) (ran (sm_reg m))"
    by simp
  have at: "(sm_nodes m @ [fresh]) ! q = (if q = length (sm_nodes m) then fresh else sm_nodes m ! q)"
    if "q \<in> insert (length (sm_nodes m)) (ran (sm_reg m))" for q
    using that ran_reg_length [OF wf] by (auto simp: nth_append)
  have none: "node_listeners fresh = []" "running_server fresh = None"
    using fresh by (simp_all add: node_listeners_def running_server_def)
  have len: "length (sm_nodes m) \<notin> ran (sm_reg m)" using ran_reg_length [OF wf] by blast
  have ok: "node_ok (Suc k) (sm_servers m) fresh" "\<And>n. apart fresh n" "\<And>n. apart n fresh"
    using fresh none by (simp_all add: node_ok_def apart_def)
  define m' where "m' = snd (mesh_new pl fresh m)"
  have m': "sm_reg m' = (sm_reg m)(sm_nextH m \<mapsto> length (sm_nodes m))" "sm_nodes m' = sm_nodes m @ [fresh]"
      "sm_nextH m' = sm_nextH m + 1" "sm_servers m' = sm_servers m" "sm_events m' = sm_events m"
    by (simp_all add: m'_def mesh_new_def succ)
  have old: "sm_nodes m' ! q = sm_nodes m ! q" if "q \<in> ran (sm_reg m)" for q
    using that len by (auto simp: m'(2) at)
  have new: "sm_nodes m' ! length (sm_nodes m) = fresh" by (simp add: m'(2))
  have R: "ran (sm_reg m') = insert (length (sm_nodes m)) (ran (sm_reg m))" by (simp add: m'(1) ran)
  have "reachable_listeners m' = reachable_listeners m" "reachable_servers m' = reachable_servers m"
    using old new none by (simp_all add: reachable_listeners_def reachable_servers_def R)
  moreover have "node_ok (Suc k) (sm_servers m') (sm_nodes m' ! q)" if "q \<in> ran (sm_reg m')" for q
  proof (cases "q = length (sm_nodes m)")
    case False
    then have q: "q \<in> ran (sm_reg m)" using that by (simp add: R)
    then have "node_ok k (sm_servers m) (sm_nodes m ! q)" using inv by (simp add: shim_inv_def)
    then have "node_ok (Suc k) (sm_servers m) (sm_nodes m ! q)" by (rule node_ok_mono) simp_all
    then show ?thesis using old [OF q] by (simp add: m'(4))
  qed (use ok(1) new m'(4) in simp)
  moreover have "apart (sm_nodes m' ! q) (sm_nodes m' ! r)" if "q \<in> ran (sm_reg m')" "r \<in> ran (sm_reg m')" "q \<noteq> r" for q r
    using that inv ok(2,3) old new by (auto simp: R shim_inv_def)
  ultimately show ?thesis using inv wf' unfolding m'_def [symmetric] shim_inv_def by (simp add: m'(3,5))
qed

lemma fold_close_events:
  "(\<forall>x \<in> set xs. xp_ln (snd x) \<noteq> None) \<Longrightarrow>
   fold listener_event (concat (map (exporter_close_events \<circ> snd) xs)) S = S - set (map (\<lambda>x. the (xp_ln (snd x))) xs)"
  "fold server_event (concat (map (exporter_close_events \<circ> snd) xs)) S' = S'"
  by (induction xs arbitrary: S S') (auto simp: exporter_close_events_def split: option.split)

lemma mesh_close_inv:
  assumes inv: "shim_inv pl k m"
  shows "shim_inv pl (Suc k) (snd (mesh_close h m))"
proof (cases "sm_reg m h")
  case None
  then show ?thesis using inv_same [OF inv] by (simp add: mesh_close_def reg_get_def)
next
  case (Some p)
  define m' where "m' = snd (mesh_close h m)"
  let ?n = "sm_nodes m ! p" and ?R = "ran (sm_reg m)"
  note node = inv_node [OF inv Some]
  have wf: "shim_wf pl m" using inv by (simp add: shim_inv_def)
  have reg: "sm_reg m' = (sm_reg m)(h := None)" "sm_nextH m' = sm_nextH m" "sm_servers m' = sm_servers m"
    using Some by (auto simp: m'_def mesh_close_def reg_get_def Let_def closeAllExports_def split: option.split)
  have nodes: "sm_nodes m' ! q = sm_nodes m ! q" if "q \<noteq> p" for q
    using that Some by (auto simp: m'_def mesh_close_def reg_get_def Let_def closeAllExports_def upd_node_def split: option.split)
  have ran: "ran (sm_reg m') = ?R - {p}"
  proof -
    have "\<And>k. sm_reg m k = Some p \<Longrightarrow> k = h" using wf Some unfolding shim_wf_def by (metis domI inj_onD)
    then have only: "sm_reg m k = Some p \<longleftrightarrow> k = h" for k using Some by blast
    show ?thesis
    proof (intro set_eqI iffI)
      fix q
      assume "q \<in> ran (sm_reg m')"
      then obtain k where "k \<noteq> h" "sm_reg m k = Some q" unfolding reg(1) ran_def by (auto split: if_splits)
      then show "q \<in> ?R - {p}" using only [of k] by (auto intro: ranI)
    next
      fix q
      assume "q \<in> ?R - {p}"
      then obtain k where "q \<noteq> p" "sm_reg m k = Some q" by (auto simp: ran_def)
      moreover then have "k \<noteq> h" using only [of h] by auto
      ultimately show "q \<in> ran (sm_reg m')" unfolding reg(1) by (intro ranI [of _ k]) simp
    qed
  qed
  have ev: "open_listeners (sm_events m') = open_listeners (sm_events m) - set (node_listeners ?n)"
      "servers_up (sm_events m') = servers_up (sm_events m) - option.set_option (nd_srv ?n)"
  proof -
    have "sm_events m' = sm_events m @ (case nd_srv ?n of None \<Rightarrow> [] | Some s \<Rightarrow>
        concat (map (exporter_close_events \<circ> snd) (nd_exports ?n)) @ [ServerClose s])"
      using Some by (cases "nd_srv ?n") (simp_all add: m'_def mesh_close_def reg_get_def Let_def closeAllExports_def
          upd_node_at [OF node(2)])
    moreover have "nd_srv ?n = None \<Longrightarrow> nd_exports ?n = []" "\<forall>x \<in> set (nd_exports ?n). xp_ln (snd x) \<noteq> None"
      using node(3) by (auto simp: node_ok_def)
    ultimately show "open_listeners (sm_events m') = open_listeners (sm_events m) - set (node_listeners ?n)"
        "servers_up (sm_events m') = servers_up (sm_events m) - option.set_option (nd_srv ?n)"
      using fold_close_events [of "nd_exports ?n"] by (cases "nd_srv ?n"; simp add: node_listeners_def)+
  qed
  have sep: "set (node_listeners ?n) \<inter> set (node_listeners (sm_nodes m ! q)) = {}"
      "option.set_option (nd_srv ?n) \<inter> option.set_option (running_server (sm_nodes m ! q)) = {}"
    if "q \<in> ?R" "q \<noteq> p" for q
    using node(6) [OF that] running_server_srv [of "sm_nodes m ! q"] unfolding apart_def by blast+
  have split: "reachable_listeners m = set (node_listeners ?n) \<union> reachable_listeners m'"
      "reachable_servers m = option.set_option (running_server ?n) \<union> reachable_servers m'"
    using node(1) nodes by (auto simp: reachable_listeners_def reachable_servers_def ran)
  have disj: "set (node_listeners ?n) \<inter> reachable_listeners m' = {}"
      "option.set_option (nd_srv ?n) \<inter> reachable_servers m' = {}"
    using sep nodes by (auto simp: reachable_listeners_def reachable_servers_def ran)
  have "open_listeners (sm_events m') = reachable_listeners m'" "servers_up (sm_events m') = reachable_servers m'"
    using inv ev split disj running_server_srv [of ?n] unfolding shim_inv_def by blast+
  moreover have "shim_wf pl m'" using mesh_close_view [OF wf, of h] by (simp add: m'_def)
  moreover have "node_ok (Suc k) (sm_servers m') (sm_nodes m' ! q)" if "q \<in> ?R - {p}" for q
    using inv that node_ok_mono [of k "sm_servers m" "sm_nodes m ! q" "Suc k"] by (simp add: shim_inv_def reg nodes)
  moreover have "\<forall>q \<in> ?R - {p}. \<forall>r \<in> ?R - {p}. q \<noteq> r \<longrightarrow> apart (sm_nodes m' ! q) (sm_nodes m' ! r)"
    using inv nodes by (simp add: shim_inv_def)
  ultimately show ?thesis using inv unfolding m'_def [symmetric] shim_inv_def ran by (simp add: reg(2))
qed

section \<open>Properties\<close>

lemma mesh_export_inv:
  assumes "shim_inv pl k m" and "int (Suc k) < LONG_MAX pl" and "listen_fresh e m"
  shows "shim_inv pl (Suc k) (snd (mesh_export pl label (en_listen e) h mp host port m))"
proof (cases "\<exists>p s. sm_reg m h = Some p \<and> running_server (sm_nodes m ! p) = Some s")
  case True
  then obtain p s where p: "sm_reg m h = Some p" "running_server (sm_nodes m ! p) = Some s" by blast
  then have "nd_srv (sm_nodes m ! p) \<noteq> None" by (auto simp: running_server_def split: if_splits)
  moreover have "ln \<notin> open_listeners (sm_events m)" if "en_listen e = Inr ln" for ln
    using assms(3) that by (simp add: listen_fresh_def)
  ultimately show ?thesis using export_listen_inv [OF assms(1) p(1) _ assms(2)] p by (simp add: mesh_export_def reg_get_def)
next
  case False
  then have "snd (mesh_export pl label (en_listen e) h mp host port m) = m"
    by (auto simp: mesh_export_def reg_get_def split: option.split)
  then show ?thesis using inv_same [OF assms(1), of m] by simp
qed

lemma new_nodes [simp]:
  "nd_srv new_ts_node = None" "\<not> nd_up new_ts_node" "nd_exports new_ts_node = []" "nd_nextExport new_ts_node = 0"
  "nd_srv new_nb_node = None" "\<not> nd_up new_nb_node" "nd_exports new_nb_node = []" "nd_nextExport new_nb_node = 0"
  by (simp_all add: new_ts_node_def new_nb_node_def new_node_def)

lemma ts_call_inv:
  assumes "shim_inv pl k m" and "int (Suc k) < LONG_MAX pl" and "is_NodeExport c \<Longrightarrow> listen_fresh e m"
  shows "shim_inv pl (Suc k) (snd (ts_call pl e c m))"
  using mesh_export_inv [OF assms(1,2), of e] assms(3) ts_mesh_up_inv [OF assms(1)] mesh_new_inv [OF assms(1,2)] mesh_unexport_inv [OF assms(1)]
    mesh_close_inv [OF assms(1)] inv_same [OF assms(1) quiet_shim_calls(1)] inv_same [OF assms(1) quiet_shim_calls(2)]
    inv_same [OF assms(1) quiet_shim_calls(3)] inv_same [OF assms(1) quiet_shim_calls(5)] assms(1)
  by (cases c) (simp_all add: case_prod_beta)

lemma nb_call_inv:
  assumes "shim_inv pl k m" and "int (Suc k) < LONG_MAX pl" and "is_NodeExport c \<Longrightarrow> listen_fresh e m"
  shows "shim_inv pl (Suc k) (snd (nb_call pl e c m))"
  using mesh_export_inv [OF assms(1,2), of e] assms(3) nb_mesh_up_inv [OF assms(1)] mesh_new_inv [OF assms(1,2)] mesh_unexport_inv [OF assms(1)]
    mesh_close_inv [OF assms(1)] inv_same [OF assms(1) quiet_shim_calls(1)] inv_same [OF assms(1) quiet_shim_calls(2)]
    inv_same [OF assms(1) quiet_shim_calls(4)] inv_same [OF assms(1) same_resources_refl] assms(1)
  by (cases c) (simp_all add: case_prod_beta)

lemma shim_init_inv: "shim_inv pl 0 shim_init"
  using shim_init_wf(1) [of pl]
  by (simp add: shim_inv_def shim_init_def reachable_listeners_def reachable_servers_def open_listeners_def servers_up_def)

text \<open>A sequence of calls, of any shim whose single calls keep the invariant.\<close>

lemma run_inv:
  assumes "\<And>k m e c. shim_inv pl k m \<Longrightarrow> int (Suc k) < LONG_MAX pl \<Longrightarrow> (is_NodeExport c \<Longrightarrow> listen_fresh e m) \<Longrightarrow>
      shim_inv pl (Suc k) (snd (call e c m))"
    and "shim_inv pl k m" and "int (k + length ecs) < LONG_MAX pl" and "listens_fresh call ecs m"
  shows "shim_inv pl (k + length ecs) (snd (run_calls call ecs m))"
  using assms(2-4)
proof (induction ecs arbitrary: k m)
  case (Cons ec ecs)
  obtain e c where ec: "ec = (e, c)" by (cases ec)
  have "shim_inv pl (Suc k) (snd (call e c m))" using Cons.prems by (intro assms(1)) (simp_all add: ec)
  from Cons.IH [OF this] show ?case using Cons.prems by (simp add: ec case_prod_beta)
qed simp

definition shim_owns ::
  "(shim_env \<Rightarrow> mesh_call \<Rightarrow> 'a node_scheme shim_mem \<Rightarrow> int \<times> 'a node_scheme shim_mem) \<Rightarrow> (shim_env \<times> mesh_call) list \<Rightarrow> bool" where
  "shim_owns call ecs \<longleftrightarrow>
     (let m = snd (run_calls call ecs shim_init) in
      open_listeners (sm_events m) = reachable_listeners m \<and> servers_up (sm_events m) = reachable_servers m \<and>
      (shim_live m = {} \<longrightarrow> open_listeners (sm_events m) = {} \<and> servers_up (sm_events m) = {}))"

lemma shim_ownsI: "shim_inv pl k (snd (run_calls call ecs shim_init)) \<Longrightarrow> shim_owns call ecs"
  by (auto simp: shim_owns_def Let_def shim_inv_def shim_live_def reachable_listeners_def reachable_servers_def ran_def)

lemma run_owns:
  assumes "\<And>k m e c. shim_inv pl k m \<Longrightarrow> int (Suc k) < LONG_MAX pl \<Longrightarrow> (is_NodeExport c \<Longrightarrow> listen_fresh e m) \<Longrightarrow>
      shim_inv pl (Suc k) (snd (call e c m))"
    and "int (length ecs) < LONG_MAX pl" and "listens_fresh call ecs shim_init"
  shows "shim_owns call ecs"
  by (rule shim_ownsI [OF run_inv [OF assms(1) shim_init_inv]]) (use assms(2,3) in simp_all)

text \<open>C18: The shims hold of the mesh exactly what their registry can reach. After any sequence of calls,
  with whatever the mesh library answers, the listeners that are served are those of the exports of the
  registered nodes and the servers that came up and were not closed are those of the registered nodes
  that are up; when every node has been closed none is left. This holds for as many calls as the C type long has positive values,
  provided that the library hands out no listener that is still open.\<close>

theorem shim_resources:
  assumes "int (length ecs) < LONG_MAX pl"
    and "listens_fresh (ts_call pl) ecs shim_init" and "listens_fresh (nb_call pl) ecs shim_init"
  shows "shim_owns (ts_call pl) ecs \<and> shim_owns (nb_call pl) ecs"
  using run_owns [where call = "ts_call pl", OF ts_call_inv assms(1,2)] run_owns [where call = "nb_call pl", OF nb_call_inv assms(1,3)]
  by blast

text \<open>A node with a key comes up, exports a service and is closed.\<close>

definition demo_export_calls :: "(shim_env \<times> mesh_call) list" where
  "demo_export_calls = shim_demo_calls [NodeNew, SetStr 1 ''setup_key'' ''k'', NodeUp 1, NodeExport 1 80 [] 8080, NodeClose 1]"

lemmas demo_shim_defs = shim_demo_calls_def shim_demo_env_def shim_init_def mesh_new_def ts_mesh_set_str_def nb_mesh_set_str_def
  reg_get_def upd_node_def ts_set_def nb_set_def ts_mesh_up_def nb_mesh_up_def Let_def ts_bring_up_def nb_bring_up_def
  ts_start_server_def emit_def new_ts_node_def new_nb_node_def new_node_def mesh_export_def running_server_def
  export_listen_def addExport_def mesh_close_def closeAllExports_def exporter_close_events_def setErr_def
  long_succ_def long_bits_def

theorem shim_resources_witness:
  "shim_owns (nb_call Linux) demo_export_calls \<and>
   ExportServes 20 \<in> set (sm_events (snd (run_calls (nb_call Linux) demo_export_calls shim_init)))"
proof -
  have "int (length demo_export_calls) < LONG_MAX Linux"
    by (simp add: demo_export_calls_def shim_demo_calls_def LONG_MAX_def long_bits_def)
  moreover have "listens_fresh (ts_call Linux) demo_export_calls shim_init"
    by (simp add: demo_export_calls_def demo_shim_defs listen_fresh_def open_listeners_def)
  moreover have "listens_fresh (nb_call Linux) demo_export_calls shim_init"
    by (simp add: demo_export_calls_def demo_shim_defs listen_fresh_def open_listeners_def)
  moreover have "ExportServes 20 \<in> set (sm_events (snd (run_calls (nb_call Linux) demo_export_calls shim_init)))"
    by (simp add: demo_export_calls_def demo_shim_defs)
  ultimately show ?thesis using shim_resources by blast
qed

subsection \<open>What is lost\<close>

text \<open>A Tailscale node that did not come up keeps its server object, and a second attempt puts another in
  its place: the first was started, and neither the shim nor the extension can close it any more.\<close>

definition demo_retry :: "ts_node shim_mem" where
  "demo_retry = snd (run_calls (ts_call Linux)
     [(shim_demo_env, NodeNew), (shim_demo_env, SetStr 1 ''auth_key'' ''k''),
      (shim_demo_env\<lparr>en_up := \<lparr>ue_mkdir = Inr ''/tmp/t'', ue_new = None, ue_up = Some ''timeout''\<rparr>\<rparr>, NodeUp 1),
      (shim_demo_env, NodeUp 1), (shim_demo_env, NodeClose 1)] shim_init)"

theorem ts_retry_leaks:
  "(\<exists>cfg. ServerStart 0 cfg \<in> set (sm_events demo_retry)) \<and> ServerClose 0 \<notin> set (sm_events demo_retry) \<and>
   ServerClose 1 \<in> set (sm_events demo_retry) \<and> shim_live demo_retry = {}"
  by (auto simp: demo_retry_def demo_shim_defs shim_live_def)

text \<open>A node is closed while \<^verbatim>\<open>mesh_export\<close> waits for its listener: the export is then added to a node
  that no handle names, and its listener stays open.\<close>

definition demo_close_race :: "ts_node shim_mem" where
  "demo_close_race = snd (export_listen Linux ''Tailscale'' 0 (Inr 20) 80 [] 8080
     (snd (run_calls (ts_call Linux)
       (shim_demo_calls [NodeNew, SetStr 1 ''auth_key'' ''k'', NodeUp 1, NodeClose 1]) shim_init)))"

theorem export_close_race: "open_listeners (sm_events demo_close_race) = {20} \<and> shim_live demo_close_race = {}"
  by (auto simp: demo_close_race_def demo_shim_defs shim_live_def open_listeners_def)

end
