(* ===== verification/Shim_Composition.thy ===== *)
theory Shim_Composition
  imports Shim_Lifecycle Mesh_Discovery
begin

text \<open>
  The extension and a shim together. The other theories let each side answer the other with anything;
  here the calls that \<^verbatim>\<open>MeshBackend::EnsureUp\<close> writes (\<open>Mesh_Backend\<close>) are made on the modelled shims
  (\<open>Shim_Node\<close>), whose answers it is given, and the status that a shim writes is what
  \<^verbatim>\<open>tunnel_peers\<close> reads (\<open>Mesh_Discovery\<close>). Every text crosses the border as a C string: the shim
  reads an option with \<^verbatim>\<open>C.GoString\<close>, the extension a message from a buffer of 1024 bytes.

  What the two layers promise together is \<open>ts_promise\<close> and \<open>nb_promise\<close>: the server that is started,
  with the options of the secret, or the message that is thrown.
\<close>

section \<open>The border\<close>

definition goString :: "string \<Rightarrow> string" where
  "goString s = takeWhile (\<lambda>c. c \<noteq> CHR 0x00) s"

fun abi_call :: "mesh_call \<Rightarrow> mesh_call" where
  "abi_call (SetStr h k v) = SetStr h (goString k) (goString v)"
| "abi_call c = c"

text \<open>The calls of one activation, all under the same answers of the mesh library.\<close>

definition on_shim :: "shim_env \<Rightarrow> mesh_log \<Rightarrow> (shim_env \<times> mesh_call) list" where
  "on_shim e l = map (\<lambda>c. (e, abi_call c)) l"

text \<open>What \<^verbatim>\<open>LastError\<close> reads from its zeroed buffer.\<close>

definition errmsg_text :: "string option \<times> int \<Rightarrow> string" where
  "errmsg_text r = (case fst r of None \<Rightarrow> [] | Some t \<Rightarrow> goString t)"

definition up_log :: "MeshOptions \<Rightarrow> int \<Rightarrow> mesh_log" where
  "up_log opts h = [NodeNew] @ configure_node opts h @ [NodeUp h]"

text \<open>The answers of a shim in the state \<open>m\<close> to the calls of a first activation.\<close>

definition shim_answers ::
  "(shim_env \<Rightarrow> mesh_call \<Rightarrow> 'a node_scheme shim_mem \<Rightarrow> int \<times> 'a node_scheme shim_mem) \<Rightarrow> shim_env \<Rightarrow>
   activate_answers \<Rightarrow> MeshOptions \<Rightarrow> 'a node_scheme shim_mem \<Rightarrow> up_answers" where
  "shim_answers call e act opts m =
     (let h = fst (call e NodeNew m); (rs, m') = run_calls call (on_shim e (up_log opts h)) m in
      \<lparr>ua_activate = act, ua_node = h, ua_up = List.last rs, ua_errmsg = errmsg_text (mesh_errmsg h 1024 m')\<rparr>)"

definition shim_node :: "'n shim_mem \<Rightarrow> int \<Rightarrow> 'n option" where
  "shim_node m h = map_option (\<lambda>p. sm_nodes m ! p) (sm_reg m h)"

section \<open>The promise\<close>

text \<open>What a shim is to start for a secret, or why not; and how that turns out.\<close>

definition ts_plan :: "up_env \<Rightarrow> MeshOptions \<Rightarrow> string + server_config" where
  "ts_plan u opts =
     (let server = (\<lambda>dir. TsServer (goString (mo_hostname opts)) (goString (mo_auth_key opts)) dir (mo_ephemeral opts)
            (goString (mo_control_url opts)) (parseTags (goString (mo_tags opts)))) in
      if goString (mo_auth_key opts) = [] then Inl msg_no_auth_key
      else if goString (mo_state_dir opts) \<noteq> [] then Inr (server (goString (mo_state_dir opts)))
      else (case ue_mkdir u of
          Inl err \<Rightarrow> Inl (''Tailscale: cannot create state dir: '' @ err)
        | Inr d \<Rightarrow> Inr (server d)))"

definition nb_plan :: "platform \<Rightarrow> up_env \<Rightarrow> MeshOptions \<Rightarrow> string + server_config" where
  "nb_plan pl u opts =
     (let client = (\<lambda>path. case ue_new u of
            Some err \<Rightarrow> Inl (''NetBird: client init failed: '' @ err)
          | None \<Rightarrow> Inr (NbOptions (goString (mo_hostname opts)) (goString (mo_setup_key opts)) (goString (mo_mgmt_url opts)) path)) in
      if goString (mo_setup_key opts) = [] then Inl msg_no_setup_key
      else if goString (mo_state_dir opts) \<noteq> [] then client (goString (mo_state_dir opts))
      else (case ue_mkdir u of
          Inl err \<Rightarrow> Inl (''NetBird: cannot create state dir: '' @ err)
        | Inr d \<Rightarrow> client (state_file pl d)))"

text \<open>The events of the shim and the message, if any, when \<open>why\<close> is said of a server that did not start.\<close>

definition promise ::
  "(go_error \<Rightarrow> string) \<Rightarrow> nat \<Rightarrow> string + server_config \<Rightarrow> go_error option \<Rightarrow> shim_event list \<times> string option" where
  "promise why s plan up =
     (case plan of
        Inl msg \<Rightarrow> ([], Some msg)
      | Inr cfg \<Rightarrow>
          (case up of
             Some err \<Rightarrow> ([ServerStart s cfg], Some (why err))
           | None \<Rightarrow> ([ServerStart s cfg, ServerIsUp s], None)))"

definition ts_promise :: "nat \<Rightarrow> up_env \<Rightarrow> MeshOptions \<Rightarrow> shim_event list \<times> string option" where
  "ts_promise s u opts = promise (msg_up_failed (parseTags (goString (mo_tags opts)))) s (ts_plan u opts) (ue_up u)"

definition nb_promise :: "platform \<Rightarrow> nat \<Rightarrow> up_env \<Rightarrow> MeshOptions \<Rightarrow> shim_event list \<times> string option" where
  "nb_promise pl s u opts = promise (\<lambda>err. ''NetBird: node did not come up: '' @ err) s (nb_plan pl u opts) (ue_up u)"

section \<open>Lemmas\<close>

lemma goString_no_NUL: "CHR 0x00 \<notin> set s \<Longrightarrow> goString s = s"
  unfolding goString_def by (induction s) auto

lemma goString_key [simp]:
  "goString ''auth_key'' = ''auth_key''" "goString ''setup_key'' = ''setup_key''" "goString ''hostname'' = ''hostname''"
  "goString ''tags'' = ''tags''" "goString ''groups'' = ''groups''" "goString ''control_url'' = ''control_url''"
  "goString ''mgmt_url'' = ''mgmt_url''" "goString ''state_dir'' = ''state_dir''"
  by (simp_all add: goString_no_NUL)

lemma goString_Nil [simp]: "goString [] = []"
  by (simp add: goString_def)

lemma run_calls_append:
  "run_calls call (xs @ ys) m =
     (fst (run_calls call xs m) @ fst (run_calls call ys (snd (run_calls call xs m))),
      snd (run_calls call ys (snd (run_calls call xs m))))"
  by (induction xs arbitrary: m) (auto simp: case_prod_beta)

lemma on_shim_append [simp]: "on_shim e (xs @ ys) = on_shim e xs @ on_shim e ys"
  by (simp add: on_shim_def)

lemma upd_node_upd_node:
  assumes "p < length (sm_nodes m)"
  shows "upd_node p f (upd_node p g m) = upd_node p (f \<circ> g) m"
  using assms by (simp add: upd_node_def)

text \<open>An option that is empty is not passed on, and a node is made with empty ones.\<close>

definition put_opt :: "(string \<Rightarrow> 'n \<Rightarrow> 'n) \<Rightarrow> string \<Rightarrow> 'n \<Rightarrow> 'n" where
  "put_opt put v n = (if v = [] then n else put (goString v) n)"

lemma reg_upd_node [simp]: "reg_get h (upd_node p f m) = reg_get h m"
  by (simp add: reg_get_def upd_node_def)

lemma length_upd_node [simp]: "length (sm_nodes (upd_node p f m)) = length (sm_nodes m)"
  by (simp add: upd_node_def)

lemma upd_node_same: "f (sm_nodes m ! p) = sm_nodes m ! p \<Longrightarrow> upd_node p f m = m"
  by (simp add: upd_node_def)

lemma ts_set_option:
  assumes "reg_get h m = Some p"
  shows "snd (run_calls (ts_call pl) (on_shim e (set_option h k v)) m) = upd_node p (put_opt (ts_set (goString k)) v) m"
  using assms by (auto simp: on_shim_def set_option_def put_opt_def ts_mesh_set_str_def upd_node_same upd_node_def)

lemma nb_set_option:
  assumes "reg_get h m = Some p"
  shows "snd (run_calls (nb_call pl) (on_shim e (set_option h k v)) m) = upd_node p (put_opt (nb_set (goString k)) v) m"
  using assms by (auto simp: on_shim_def set_option_def put_opt_def nb_mesh_set_str_def upd_node_same upd_node_def)

text \<open>The node that a secret configures.\<close>

definition ts_configured :: "MeshOptions \<Rightarrow> ts_node" where
  "ts_configured opts = new_ts_node\<lparr>nd_hostname := goString (mo_hostname opts), nd_ephemeral := mo_ephemeral opts,
     tn_authKey := goString (mo_auth_key opts), tn_tags := goString (mo_tags opts),
     tn_controlURL := goString (mo_control_url opts), tn_stateDir := goString (mo_state_dir opts)\<rparr>"

definition nb_configured :: "MeshOptions \<Rightarrow> nb_node" where
  "nb_configured opts = new_nb_node\<lparr>nd_hostname := goString (mo_hostname opts), nd_ephemeral := mo_ephemeral opts,
     nn_setupKey := goString (mo_setup_key opts), nn_groups := goString (mo_groups opts),
     nn_mgmtURL := goString (mo_mgmt_url opts), nn_statePath := goString (mo_state_dir opts)\<rparr>"

lemma ts_put_opt:
  "put_opt (ts_set ''setup_key'') v n = n" "put_opt (ts_set ''groups'') v n = n" "put_opt (ts_set ''mgmt_url'') v n = n"
  "tn_authKey n = [] \<Longrightarrow> put_opt (ts_set ''auth_key'') v n = n\<lparr>tn_authKey := goString v\<rparr>"
  "nd_hostname n = [] \<Longrightarrow> put_opt (ts_set ''hostname'') v n = n\<lparr>nd_hostname := goString v\<rparr>"
  "tn_tags n = [] \<Longrightarrow> put_opt (ts_set ''tags'') v n = n\<lparr>tn_tags := goString v\<rparr>"
  "tn_controlURL n = [] \<Longrightarrow> put_opt (ts_set ''control_url'') v n = n\<lparr>tn_controlURL := goString v\<rparr>"
  "tn_stateDir n = [] \<Longrightarrow> put_opt (ts_set ''state_dir'') v n = n\<lparr>tn_stateDir := goString v\<rparr>"
  by (cases n; auto simp: put_opt_def ts_set_def)+

lemma nb_put_opt:
  "put_opt (nb_set ''auth_key'') v n = n" "put_opt (nb_set ''tags'') v n = n" "put_opt (nb_set ''control_url'') v n = n"
  "nn_setupKey n = [] \<Longrightarrow> put_opt (nb_set ''setup_key'') v n = n\<lparr>nn_setupKey := goString v\<rparr>"
  "nd_hostname n = [] \<Longrightarrow> put_opt (nb_set ''hostname'') v n = n\<lparr>nd_hostname := goString v\<rparr>"
  "nn_groups n = [] \<Longrightarrow> put_opt (nb_set ''groups'') v n = n\<lparr>nn_groups := goString v\<rparr>"
  "nn_mgmtURL n = [] \<Longrightarrow> put_opt (nb_set ''mgmt_url'') v n = n\<lparr>nn_mgmtURL := goString v\<rparr>"
  "nn_statePath n = [] \<Longrightarrow> put_opt (nb_set ''state_dir'') v n = n\<lparr>nn_statePath := goString v\<rparr>"
  by (cases n; auto simp: put_opt_def nb_set_def)+

lemma set_ephemeral:
  assumes "reg_get h m = Some p"
  shows "snd (run_calls (ts_call pl) (on_shim e [SetBool h ''ephemeral'' b]) (m :: ts_node shim_mem)) =
      upd_node p (\<lambda>n. n\<lparr>nd_ephemeral := b\<rparr>) m"
  using assms by (simp add: on_shim_def mesh_set_bool_def)

lemma nb_set_ephemeral:
  assumes "reg_get h m = Some p"
  shows "snd (run_calls (nb_call pl) (on_shim e [SetBool h ''ephemeral'' b]) (m :: nb_node shim_mem)) =
      upd_node p (\<lambda>n. n\<lparr>nd_ephemeral := b\<rparr>) m"
  using assms by (simp add: on_shim_def mesh_set_bool_def)

lemma upd_node_const: "f (sm_nodes m ! p) = n \<Longrightarrow> upd_node p f m = upd_node p (\<lambda>_. n) m"
  by (simp add: upd_node_def)

lemma ts_configure:
  assumes "reg_get h m = Some p" and "p < length (sm_nodes m)" and "sm_nodes m ! p = new_ts_node"
  shows "snd (run_calls (ts_call pl) (on_shim e (configure_node opts h)) m) = upd_node p (\<lambda>_. ts_configured opts) m"
proof -
  have "snd (run_calls (ts_call pl) (on_shim e (configure_node opts h)) m) =
      upd_node p ((\<lambda>n. n\<lparr>nd_ephemeral := mo_ephemeral opts\<rparr>) \<circ> put_opt (ts_set ''state_dir'') (mo_state_dir opts) \<circ>
        put_opt (ts_set ''mgmt_url'') (mo_mgmt_url opts) \<circ> put_opt (ts_set ''control_url'') (mo_control_url opts) \<circ>
        put_opt (ts_set ''groups'') (mo_groups opts) \<circ> put_opt (ts_set ''tags'') (mo_tags opts) \<circ>
        put_opt (ts_set ''hostname'') (mo_hostname opts) \<circ> put_opt (ts_set ''setup_key'') (mo_setup_key opts) \<circ>
        put_opt (ts_set ''auth_key'') (mo_auth_key opts)) m"
    using assms(1,2)
    by (simp add: configure_node_def run_calls_append ts_set_option set_ephemeral upd_node_upd_node comp_assoc)
  also have "\<dots> = upd_node p (\<lambda>_. ts_configured opts) m"
    by (rule upd_node_const) (simp add: assms(3) ts_put_opt new_ts_node_def new_node_def ts_configured_def)
  finally show ?thesis .
qed

lemma nb_configure:
  assumes "reg_get h m = Some p" and "p < length (sm_nodes m)" and "sm_nodes m ! p = new_nb_node"
  shows "snd (run_calls (nb_call pl) (on_shim e (configure_node opts h)) m) = upd_node p (\<lambda>_. nb_configured opts) m"
proof -
  have "snd (run_calls (nb_call pl) (on_shim e (configure_node opts h)) m) =
      upd_node p ((\<lambda>n. n\<lparr>nd_ephemeral := mo_ephemeral opts\<rparr>) \<circ> put_opt (nb_set ''state_dir'') (mo_state_dir opts) \<circ>
        put_opt (nb_set ''mgmt_url'') (mo_mgmt_url opts) \<circ> put_opt (nb_set ''control_url'') (mo_control_url opts) \<circ>
        put_opt (nb_set ''groups'') (mo_groups opts) \<circ> put_opt (nb_set ''tags'') (mo_tags opts) \<circ>
        put_opt (nb_set ''hostname'') (mo_hostname opts) \<circ> put_opt (nb_set ''setup_key'') (mo_setup_key opts) \<circ>
        put_opt (nb_set ''auth_key'') (mo_auth_key opts)) m"
    using assms(1,2)
    by (simp add: configure_node_def run_calls_append nb_set_option nb_set_ephemeral upd_node_upd_node comp_assoc)
  also have "\<dots> = upd_node p (\<lambda>_. nb_configured opts) m"
    by (rule upd_node_const) (simp add: assms(3) nb_put_opt new_nb_node_def new_node_def nb_configured_def)
  finally show ?thesis .
qed

text \<open>Bringing the configured node up.\<close>

definition up_done :: "int \<Rightarrow> 'a node_scheme shim_mem \<Rightarrow> shim_event list \<times> string option \<Rightarrow> int \<times> 'a node_scheme shim_mem \<Rightarrow> bool" where
  "up_done h m pr res \<longleftrightarrow>
     sm_events (snd res) = sm_events m @ fst pr \<and> fst res = (if snd pr = None then 0 else 1) \<and>
     (\<exists>n. shim_node (snd res) h = Some n \<and>
        (case snd pr of None \<Rightarrow> nd_up n | Some msg \<Rightarrow> \<not> nd_up n \<and> nd_lastErr n = msg))"

lemmas up_done_defs = up_done_def shim_node_def reg_get_def upd_node_def emit_def setErr_def Let_def promise_def

lemma ts_up_done:
  assumes "reg_get h m = Some p" and "p < length (sm_nodes m)" and "sm_nodes m ! p = ts_configured opts"
  shows "up_done h m (ts_promise (sm_servers m) u opts) (ts_mesh_up u h m)"
  using assms
  by (simp add: up_done_defs ts_promise_def ts_plan_def ts_mesh_up_def ts_configured_def ts_bring_up_def
      ts_start_server_def split: sum.split option.split)

lemma nb_up_done:
  assumes "reg_get h m = Some p" and "p < length (sm_nodes m)" and "sm_nodes m ! p = nb_configured opts"
  shows "up_done h m (nb_promise pl (sm_servers m) u opts) (nb_mesh_up pl u h m)"
  using assms
  by (simp add: up_done_defs nb_promise_def nb_plan_def nb_mesh_up_def nb_configured_def nb_bring_up_def
      split: sum.split option.split)

text \<open>The calls of a first activation.\<close>

lemma up_log_run:
  assumes "call e NodeNew m = (h, m0)" and "snd (run_calls call (on_shim e (configure_node opts h)) m0) = m1"
  shows "List.last (fst (run_calls call (on_shim e (up_log opts h)) m)) = fst (call e (NodeUp h) m1)"
    and "snd (run_calls call (on_shim e (up_log opts h)) m) = snd (call e (NodeUp h) m1)"
proof -
  have "on_shim e (up_log opts h) = (e, NodeNew) # on_shim e (configure_node opts h) @ [(e, NodeUp h)]"
    by (simp add: up_log_def on_shim_def)
  then show "List.last (fst (run_calls call (on_shim e (up_log opts h)) m)) = fst (call e (NodeUp h) m1)"
    "snd (run_calls call (on_shim e (up_log opts h)) m) = snd (call e (NodeUp h) m1)"
    using assms by (simp_all add: run_calls_append case_prod_beta)
qed

lemma goString_snoc: "goString (s @ [CHR 0x00]) = goString s"
  unfolding goString_def by (induction s) auto

lemma errmsg_text_take:
  "shim_node m h = Some n \<Longrightarrow> errmsg_text (mesh_errmsg h 1024 m) = goString (take 1023 (nd_lastErr n))"
  by (auto simp: shim_node_def mesh_errmsg_def reg_get_def errmsg_text_def Let_def goString_snoc)

text \<open>A backend whose node is not yet allocated comes up on a shim as promised: the shim is told to start what
  is planned, and the caller is told what went wrong, in as many bytes as its buffer has.\<close>

definition fulfils ::
  "platform \<Rightarrow> mesh_build \<Rightarrow>
   (shim_env \<Rightarrow> mesh_call \<Rightarrow> 'a node_scheme shim_mem \<Rightarrow> int \<times> 'a node_scheme shim_mem) \<Rightarrow> shim_env \<Rightarrow> activate_answers \<Rightarrow>
   MeshLoader \<Rightarrow> MeshBackend \<Rightarrow> 'a node_scheme shim_mem \<Rightarrow> shim_event list \<times> string option \<Rightarrow> bool" where
  "fulfils pl mb call e act ml be m pr \<longleftrightarrow>
     (let (r, ml', be', l) = EnsureUp pl mb (shim_answers call e act (mk_opts be) m) ml be;
          m' = snd (run_calls call (on_shim e l) m) in
      sm_events m' = sm_events m @ fst pr \<and>
      (case snd pr of
         None \<Rightarrow> r = Returns () \<and> mk_up be' \<and> shim_is_up m' (mk_node be')
       | Some msg \<Rightarrow>
           r = Throws (IOException (''Tunnel: '' @ goString (take 1023 msg))) \<and> \<not> mk_up be' \<and> \<not> shim_is_up m' (mk_node be')))"

lemma EnsureUp_first:
  assumes "\<not> mk_up be" and "mk_node be \<le> 0" and "0 < ua_node a"
    and "Activate pl mb (ua_activate a) (mo_kind (mk_opts be)) ml = (Returns api, ml1)"
  shows "EnsureUp pl mb a ml be =
      (if ua_up a = 0 then Returns () else Throws (IOException (''Tunnel: '' @ ua_errmsg a)), ml1,
       be\<lparr>mk_api := Some api, mk_node := ua_node a, mk_up := (ua_up a = 0)\<rparr>, up_log (mk_opts be) (ua_node a))"
  using assms by (cases be) (simp add: EnsureUp_def bring_up_def LastError_def up_log_def Let_def)

lemma fulfilsI:
  assumes "\<not> mk_up be" and "mk_node be \<le> 0" and "0 < h"
    and "Activate pl mb act (mo_kind (mk_opts be)) ml = (Returns api, ml1)"
    and "call e NodeNew m = (h, m0)" and "snd (run_calls call (on_shim e (configure_node (mk_opts be) h)) m0) = m1"
    and "sm_events m1 = sm_events m" and "up_done h m1 pr (call e (NodeUp h) m1)"
  shows "fulfils pl mb call e act ml be m pr"
proof -
  let ?a = "shim_answers call e act (mk_opts be) m" and ?m' = "snd (call e (NodeUp h) m1)"
  note run = up_log_run [OF assms(5,6)]
  have a: "ua_node ?a = h" "ua_up ?a = fst (call e (NodeUp h) m1)" "ua_activate ?a = act"
    "ua_errmsg ?a = errmsg_text (mesh_errmsg h 1024 ?m')"
    using assms(5) run by (simp_all add: shim_answers_def Let_def case_prod_beta)
  obtain n where n: "shim_node ?m' h = Some n"
    and up: "case snd pr of None \<Rightarrow> nd_up n | Some msg \<Rightarrow> \<not> nd_up n \<and> nd_lastErr n = msg"
    using assms(8) by (auto simp: up_done_def)
  have is_up: "shim_is_up ?m' h = nd_up n" using n by (auto simp: shim_node_def shim_is_up_def)
  have E: "EnsureUp pl mb ?a ml be =
      (if ua_up ?a = 0 then Returns () else Throws (IOException (''Tunnel: '' @ ua_errmsg ?a)), ml1,
       be\<lparr>mk_api := Some api, mk_node := h, mk_up := (ua_up ?a = 0)\<rparr>, up_log (mk_opts be) h)"
    using EnsureUp_first [OF assms(1,2), of ?a] assms(3,4) a by simp
  show ?thesis
    using assms(7,8) up is_up errmsg_text_take [OF n]
    by (auto simp: fulfils_def E a run up_done_def split: option.splits)
qed

lemma mesh_new_node:
  assumes "mesh_new pl fresh m = (h, m0)"
  shows "h = sm_nextH m" and "reg_get h m0 = Some (length (sm_nodes m))" and "length (sm_nodes m) < length (sm_nodes m0)"
    and "sm_nodes m0 ! length (sm_nodes m) = fresh" and "sm_events m0 = sm_events m" and "sm_servers m0 = sm_servers m"
  using assms by (auto simp: mesh_new_def reg_get_def)

lemma upd_node_frame [simp]:
  "sm_events (upd_node p f m) = sm_events m" "sm_servers (upd_node p f m) = sm_servers m"
  "p < length (sm_nodes m) \<Longrightarrow> sm_nodes (upd_node p f m) ! p = f (sm_nodes m ! p)"
  by (simp_all add: upd_node_def)

section \<open>Properties\<close>


text \<open>A NetBird secret with a key and a host name.\<close>

lemma demo_activates:
  "\<exists>ml1. Activate Linux demo_build (demo_activate 9 [] 2) (mo_kind demo_options) demo_loader = (Returns 9, ml1)"
  by (simp add: demo_loader_eval demo_symbols demo_options_def)


text \<open>The status of a mesh, from the library of the mesh to the rows. A shim writes it for a node that is up
  and whose local client answers.\<close>

definition ts_reports :: "status_env \<Rightarrow> int \<Rightarrow> ts_node shim_mem \<Rightarrow> ts_status \<Rightarrow> bool" where
  "ts_reports sv h m st \<longleftrightarrow>
     (\<exists>n. shim_node m h = Some n \<and> running_server n \<noteq> None) \<and> sv_local_client sv = None \<and> sv_status sv = Inr st"

lemma ts_reports_status:
  "ts_reports sv h m st \<Longrightarrow> ts_with_status sv h len k m = (k st, m)"
  by (auto simp: ts_reports_def ts_with_status_def shim_node_def reg_get_def)

text \<open>Whose peers a shim writes, and the value it encodes.\<close>

definition writes_peers :: "(json \<Rightarrow> string option) \<Rightarrow> (nat \<Rightarrow> json_reply) \<Rightarrow> MeshPeer list \<Rightarrow> bool" where
  "writes_peers marshal reply peers \<longleftrightarrow>
     (\<exists>sv h m st. ts_reports sv h m st \<and> reply = (\<lambda>len. fst (ts_mesh_peers_json marshal sv h len m)) \<and>
        peers = peersFromStatus (Some st)) \<or>
     (\<exists>h m. shim_node m h \<noteq> None \<and> reply = (\<lambda>len. nb_mesh_peers_json marshal h len m) \<and> peers = [])"

definition nb_self_peer :: "go_error + string \<times> string \<Rightarrow> nb_node \<Rightarrow> MeshPeer" where
  "nb_self_peer status n =
     (let (ip, dns) = (case status of Inr s \<Rightarrow> if nd_srv n \<noteq> None then s else ([], []) | Inl _ \<Rightarrow> ([], [])) in
      \<lparr>mp_backend = ''netbird'', mp_host_name = nd_hostname n, mp_dns_name = dns, mp_mesh_ip = before_slash ip,
       mp_tags = [], mp_online = nd_up n\<rparr>)"

definition writes_self :: "(json \<Rightarrow> string option) \<Rightarrow> (nat \<Rightarrow> json_reply) \<Rightarrow> json \<Rightarrow> MeshPeer \<Rightarrow> bool" where
  "writes_self marshal reply v peer \<longleftrightarrow>
     (\<exists>sv h m st. ts_reports sv h m st \<and> reply = (\<lambda>len. fst (ts_mesh_self_json marshal sv h len m)) \<and>
        v = json_of_peer (ts_self_peer st) \<and> peer = ts_self_peer st) \<or>
     (\<exists>status h m n. shim_node m h = Some n \<and> reply = (\<lambda>len. nb_mesh_self_json marshal status h len m) \<and>
        v = nb_self_object status n \<and> peer = nb_self_peer status n)"

lemma writes_peers_reply:
  assumes "writes_peers marshal reply peers" and "marshal (JArr (map json_of_peer peers)) = Some text"
  shows "reply = writeJSON text"
  using assms by (auto simp: writes_peers_def ts_mesh_peers_json_def ts_reports_status nb_mesh_peers_json_def
      shim_node_def reg_get_def shim_writeJSON_def)

lemma nb_self_peer_rows:
  "peer_rows [nb_self_object status n] = [nb_self_peer status n]"
  by (simp add: nb_self_peer_def nb_self_object_def peer_of_json_def JsonStr_def case_prod_beta Let_def split: sum.split)

lemma writes_self_reply:
  assumes "writes_self marshal reply v peer" and "marshal v = Some text"
  shows "reply = writeJSON text" and "peer_rows [v] = [peer]"
  using assms nb_self_peer_rows
  by (auto simp: writes_self_def ts_mesh_self_json_def ts_reports_status nb_mesh_self_json_def
      shim_node_def reg_get_def shim_writeJSON_def simp del: peer_rows.simps(2)) (simp add: peer_rows.simps)


text \<open>A Tailscale node with one peer.\<close>

definition demo_ts_status :: ts_status where
  "demo_ts_status = \<lparr>st_Peer = [\<lparr>tp_HostName = ''db'', tp_DNSName = ''db.ts.net.'', tp_Online = True,
     tp_TailscaleIPs = [''100.64.0.7'', ''fd7a::7''], tp_Tags = None\<rparr>], st_Self = None\<rparr>"

definition demo_shown :: MeshPeer where
  "demo_shown = \<lparr>mp_backend = ''tailscale'', mp_host_name = ''db'', mp_dns_name = ''db.ts.net'',
     mp_mesh_ip = ''100.64.0.7'', mp_tags = [], mp_online = True\<rparr>"

definition demo_ts_up :: "ts_node shim_mem" where
  "demo_ts_up = shim_init\<lparr>sm_nodes := [new_ts_node\<lparr>nd_srv := Some 0, nd_up := True\<rparr>], sm_reg := [1 \<mapsto> 0]\<rparr>"

lemma demo_writes_peers: "writes_peers (\<lambda>_. Some ''status'') (sa_reply demo_status) [demo_shown]"
proof -
  have r: "ts_reports \<lparr>sv_local_client = None, sv_status = Inr demo_ts_status\<rparr> 1 demo_ts_up demo_ts_status"
    by (simp add: ts_reports_def demo_ts_up_def shim_node_def running_server_def)
  moreover have "sa_reply demo_status = (\<lambda>len. fst (ts_mesh_peers_json (\<lambda>_. Some ''status'')
      \<lparr>sv_local_client = None, sv_status = Inr demo_ts_status\<rparr> 1 len demo_ts_up))"
    by (simp add: demo_status_def ts_mesh_peers_json_def ts_reports_status [OF r] shim_writeJSON_def)
  moreover have "[demo_shown] = peersFromStatus (Some demo_ts_status)"
    by (simp add: demo_shown_def peersFromStatus_def demo_ts_status_def peer_of_ts_def TrimSuffix_def suffix_def)
  ultimately show ?thesis unfolding writes_peers_def by blast
qed


end
