(* ===== verification/Spec2Isabelle.thy ===== *)
theory Spec2Isabelle
  imports Socket_Compat Tunnel_Secret Ssh_Pump Tunnel_Handle Manager_Concurrency Tunnel_Session
    Ssh_Tunnel_Client Connection_Lifetime Import_Lifecycle Export_Lifecycle Mesh_Lifecycle
    Tunnel_Locks Shim_Spikes Mesh_Pair Shim_Composition
begin

text \<open>
  A verification development for \<^verbatim>\<open>erpl_tunnel\<close>, the DuckDB extension under \<^verbatim>\<open>src/\<close> that
  opens TCP tunnels through an SSH server or through a Tailscale or NetBird mesh, and for the
  stand-alone client beside it.

  \<^bold>\<open>The program.\<close> A user creates a secret, then runs pragmas. \<^verbatim>\<open>tunnel_import\<close> (alias
  \<^verbatim>\<open>tunnel_create\<close>) brings a remote service to a local port, \<^verbatim>\<open>tunnel_export\<close> publishes a
  local service, \<^verbatim>\<open>tunnel_close\<close> and \<^verbatim>\<open>tunnel_close_all\<close> end tunnels, and the table functions
  \<^verbatim>\<open>tunnels()\<close>, \<^verbatim>\<open>tunnel_peers\<close> and \<^verbatim>\<open>tunnel_self\<close> show them and the mesh. The pragma handlers
  call one global \<^verbatim>\<open>TunnelManager\<close>, which keeps a map from identifiers to handles. A handle is one
  of four objects: an SSH import (\<^verbatim>\<open>TunnelConnection\<close> in a handle), an SSH export
  (\<^verbatim>\<open>SshExporter\<close>), a mesh import (\<^verbatim>\<open>MeshForwarder\<close>) or a mesh export (\<^verbatim>\<open>MeshExporter\<close>). The mesh
  objects share the nodes of \<^verbatim>\<open>MeshBackend\<close>, one per secret in a process-wide cache, and these the
  one mesh library that \<^verbatim>\<open>MeshLoader\<close> extracts and loads. That library is one of two shims written
  in Go (\<^verbatim>\<open>shim/ts\<close>, \<^verbatim>\<open>shim/nb\<close>), with a registry of nodes behind a C interface; a dialled stream is
  one end of a pair of sockets whose other end two goroutines bridge to the mesh, and an export is a
  mesh listener whose connections are bridged to a local service.

  \<^bold>\<open>The theories\<close>, in the order of their imports, with the sources they translate.

  \<^item> \<^verbatim>\<open>Tunnel_Prelude\<close>: exceptions and outcomes of calls, 32-bit products, decimal text
    (\<^verbatim>\<open>to_string\<close>, \<^verbatim>\<open>stoi\<close>), lemmas on lists and strings.
  \<^item> \<^verbatim>\<open>Resource_Protocol\<close>: the calls on the operating system and on libssh2 as a log, the
    protocol a log must follow (\<open>resource_run\<close>), and the bytes and bound addresses in it.
  \<^item> \<^verbatim>\<open>Socket_Compat\<close>: \<^verbatim>\<open>socket_compat.hpp\<close>, with \<open>SendAll\<close>.
  \<^item> \<^verbatim>\<open>Tunnel_Types\<close>, \<^verbatim>\<open>Tunnel_Secret\<close>: \<^verbatim>\<open>tunnel_connection.hpp\<close> (attributes, parameters and
    their checks) and \<^verbatim>\<open>tunnel_secret.cpp\<close>.
  \<^item> \<^verbatim>\<open>Ssh_Connection\<close>, \<^verbatim>\<open>Connection_Lifetime\<close>: \<^verbatim>\<open>tunnel_connection.cpp\<close>, first connecting,
    authenticating, the worker, forwarding, the self-test and \<open>Close\<close>, then the process-wide start,
    moving, the destructor and the blocking mode of sockets.
  \<^item> \<^verbatim>\<open>Thread_Systems\<close>: what the interleaved models share, a step relation with a log that follows
    the protocol and a close that ends, as two locales.
  \<^item> \<^verbatim>\<open>Import_Lifecycle\<close>, \<^verbatim>\<open>Export_Lifecycle\<close>, \<^verbatim>\<open>Mesh_Lifecycle\<close>: the threads of an SSH import, an SSH
    export and a mesh import interleaved, the accepting thread, the threads of the connections and
    \<open>Close\<close> one turn or one join at a time; each interprets the locales of \<^verbatim>\<open>Thread_Systems\<close>.
  \<^item> \<^verbatim>\<open>Ssh_Exporter\<close>, \<^verbatim>\<open>Ssh_Pump\<close>: \<^verbatim>\<open>ssh_exporter.cpp\<close>, the object with its dialler, start,
    accept loop and \<open>Close\<close>, then the pump of one connection.
  \<^item> \<^verbatim>\<open>Mesh_Loader\<close>, \<^verbatim>\<open>Mesh_Peers_Json\<close>, \<^verbatim>\<open>Mesh_Backend\<close>, \<^verbatim>\<open>Mesh_Discovery\<close>,
    \<^verbatim>\<open>Mesh_Forwarder\<close>, \<^verbatim>\<open>Mesh_Exporter\<close>: the files of the same names under \<^verbatim>\<open>src/src/\<close>;
    \<^verbatim>\<open>Mesh_Discovery\<close> is the table functions at the end of \<^verbatim>\<open>mesh_backend.cpp\<close>.
  \<^item> \<^verbatim>\<open>Scan_Interface\<close>: how DuckDB drains a table function, as a locale that the binds of
    \<^verbatim>\<open>Tunnel_Scanner\<close> and \<^verbatim>\<open>Mesh_Discovery\<close> interpret.
  \<^item> \<^verbatim>\<open>Tunnel_Handle\<close>: \<^verbatim>\<open>tunnel_handle.hpp\<close>, the interface as a locale with an interpretation for
    each of the four implementations, and the dispatch.
  \<^item> \<^verbatim>\<open>Lock_Order\<close>, \<^verbatim>\<open>Tunnel_Locks\<close>: threads, mutexes and joins in general, with the locale of a lock
    order; then the synchronisation of every operation of the extension as a script (which mutex is
    taken around which access, what is started and joined), and the interpretation.
  \<^item> \<^verbatim>\<open>Tunnel_Manager\<close>, \<^verbatim>\<open>Manager_Concurrency\<close>: \<^verbatim>\<open>tunnel_manager.cpp\<close>, its map as a locale of
    lookup, store and erase, every operation, and all interleavings of the operations' atomic parts.
  \<^item> \<^verbatim>\<open>Tunnel_Pragmas\<close>, \<^verbatim>\<open>Tunnel_Scanner\<close>: the four \<^verbatim>\<open>pragma_tunnel_*.cpp\<close> and
    \<^verbatim>\<open>scanner_tunnels.cpp\<close>.
  \<^item> \<^verbatim>\<open>Tunnel_Extension\<close>: \<^verbatim>\<open>tunnel_extension.cpp\<close>, with what it registers and the global manager.
  \<^item> \<^verbatim>\<open>Tunnel_Session\<close>: the components composed into a session of statements.
  \<^item> \<^verbatim>\<open>Ssh_Tunnel_Client\<close>: \<^verbatim>\<open>ssh_tunnel_client.cpp\<close>.
  \<^item> \<^verbatim>\<open>Shim_Spikes\<close>: \<^verbatim>\<open>shim/spike_dlopen.c\<close> and \<^verbatim>\<open>shim/spike_loadlibrary.c\<close>, the programs that check
    a mesh shim before it is built in.
  \<^item> \<^verbatim>\<open>Mesh_Pair\<close>, \<^verbatim>\<open>Mesh_Bridge\<close>, \<^verbatim>\<open>Shim_Exporter\<close>: the package \<^verbatim>\<open>shim/meshpair\<close> and the function
    \<^verbatim>\<open>bridge\<close>; the last two are step relations that interpret the locales of \<^verbatim>\<open>Thread_Systems\<close>.
  \<^item> \<^verbatim>\<open>Shim_Tags\<close>, \<^verbatim>\<open>Shim_Node\<close>: \<^verbatim>\<open>shim/ts/main.go\<close> and \<^verbatim>\<open>shim/nb/main.go\<close>, every exported function
    over the registry of nodes; the two programs share the definitions of the functions they share.
  \<^item> \<^verbatim>\<open>Shim_Interface\<close>, \<^verbatim>\<open>Shim_Lifecycle\<close>: the C interface as a locale that both shims interpret, and the
    servers and listeners that a shim holds after any sequence of calls.
  \<^item> \<^verbatim>\<open>Shim_Composition\<close>: the calls of \<^verbatim>\<open>MeshBackend\<close> made on the modelled shims, and their status read by
    the table functions.

  \<^bold>\<open>How code becomes definitions.\<close> A class is a record with its data members, a method a function
  from the object to the object, its result and the log of its calls; a throw is \<open>Throws\<close> with the
  exception and its message, an overflow or a read past the end is \<open>Undefined\<close>. What the outside
  answers (sockets, libssh2, the mesh shims, DuckDB, the file system, the flags other threads set) is
  an argument: a record per straight-line piece, and for a loop a list with one record per turn. A
  loop runs as long as its list; one that is still running at the end of the list gives \<open>None\<close> or
  the value named \<open>Pending\<close>, so no bound on the number of turns is chosen and every finite run of a
  loop is a run of the model. The theorems hold for all lists. A thread is its own log; the protocol
  demands that a session is freed only when every thread that uses it has been joined. Strings are
  byte strings, ports and counts are integers checked or wrapped where the code does it, identifiers
  are 64-bit words, hashes and flags are words.

  \<^bold>\<open>What is shown.\<close> Composition: a session of pragmas refines a set of identifiers (this theory); a
  load is all or nothing. Registry: the manager refines a finite map, under any interleaving no
  identifier is used twice, and the operations are runs of the step relation. Pragmas: an answer says
  what was done, a throw leaves no tunnel. Resources: every start, error path, accept loop and close
  of the four tunnel objects follows the protocol and releases what it took; closing twice is closing
  once; for the SSH import, the SSH export and the mesh import this holds in every interleaving of their
  threads, and a close that has begun returns. Threads: the whole extension, with any number of calling
  threads, has no deadlock, and the state its mutexes guard is accessed by one thread at a time.
  Streams: what the pumps write is what they read, in order, with nothing lost unless a write
  failed or the tunnel was stopped; for the two pumps that can lose bytes the theorems say exactly
  when. Authentication: no import exists that the server did not accept, and it is bound where it was
  asked to be. Mesh: one library and one kind per process, one node per secret, a library file that
  appears whole or not at all, a status text that arrives whole. Discovery and \<^verbatim>\<open>tunnels()\<close>: every
  row once, each cell of its declared type. Shims: a handle names one node for ever, what a shim holds of
  the mesh is what its registry reaches, an exporter that is closed ends all its connections in every
  interleaving and its goroutines return, a bridge carries both streams whole; with the extension
  together, the server that is started has the options of the secret, and the rows that are shown are
  the status of the mesh library.

  \<^bold>\<open>What is not modelled.\<close> libssh2, DuckDB, tsnet, the client of NetBird, the JSON reader and encoder,
  OpenSSL, telemetry and the banner library are code outside the sources; they are arguments or recorded calls, and where a
  theorem relies on documented behaviour of one of them it is a named hypothesis with a witness (the
  replacing catalog of DuckDB, the agreement of the two JSON libraries on the text exchanged). The calls of
  a shim are taken one at a time, and the one race between them that loses a listener is shown
  (\<open>export_close_race\<close>). Windows
  paths are the UTF-8 texts they are converted to. Threads are interleaved at the granularity of a turn
  of a loop in the lifecycle theories, in \<^verbatim>\<open>Manager_Concurrency\<close> and in the client, and of a single
  mutex operation, join or access in \<^verbatim>\<open>Tunnel_Locks\<close>; the two views are linked by lemmas on the threads
  they start and join. Atomic flags are read and written in one order. The state that no mutex guards is
  not part of the theorem on accesses: the attributes of the two imports, and the session of an SSH
  import, on which its threads call libssh2 without a lock (\<open>import_session_shared\<close>). Wall-clock time
  appears only as the answers of the clock.
\<close>

section \<open>Properties that span the components\<close>

text \<open>C1: A whole session. After the extension was loaded into any catalog, for any list of pragma
  statements and whatever the network, the SSH servers and the mesh answer, each answer shows its
  effect on the set of open tunnels (it opens the identifier it names, closes the one that was given,
  closes all, or has none because it failed), no identifier is opened twice, and \<^verbatim>\<open>tunnels()\<close>
  lists exactly the identifiers that were opened and not closed since, each once. The bound on the
  number of statements is the range of the 64-bit counter.\<close>

theorem session_refines:
  assumes "replacing_catalog look ld" and "LoadInternal le ld db p = (Returns (), db', p', l)"
    and "pr_manager p' = Some (wo_tm w)"
    and "int (length sts) < 2 ^ 63 - 1" and "run_session (look db') pe sts w = (rs, w')"
    and "ListTunnelsBind True (Some (wo_tm w')) = (types, names, b)"
    and "length (tm_tunnels (wo_tm w')) \<le> n"
  shows "\<exists>effs. follows (look db') pe sts rs effs \<and> distinct (opened_ids effs) \<and>
    set (map hd (drain ListTunnelsFunction n b)) = BigIntCell ` fold apply_effect effs {} \<and>
    distinct (map hd (drain ListTunnelsFunction n b)) \<and>
    handler_of (look db') ''tunnel_import'' = handler_of (look db') ''tunnel_create''"
proof -
  have load: "load_post look (le_has_mesh le) (le_close le) db p (Returns (), db', p', butlast l)"
    using LoadInternal_post [OF assms(1,2)] by simp
  then have new: "wo_tm w = new_TunnelManager" and cat: "look db' = look db ++ surface (le_has_mesh le)"
    using assms(3) by (simp_all add: load_post_def)
  have "tm_wf (wo_tm w)" "sint (tm_next_tunnel_id (wo_tm w)) + int (length sts) < 2 ^ 63"
    using new_manager_wf assms(4) by (simp_all add: new)
  then obtain effs where effs: "follows (look db') pe sts rs effs" "session_post (wo_tm w) effs (wo_tm w')"
    using session_refines_from assms(5) by blast
  then have wf: "tm_wf (wo_tm w')" and ids: "open_ids (wo_tm w') = fold apply_effect effs {}"
    by (simp_all add: session_post_def new new_manager_wf)
  have "distinct (map (BigIntCell \<circ> fst) (tm_tunnels (wo_tm w')))"
    using wf by (simp add: tm_wf_def tm_invariant_def distinct_map inj_on_def)
  with tunnels_ids [OF wf assms(7,6)] effs ids show ?thesis
    using handlers_of_surface [of "le_has_mesh le" "''tunnel_import''" CallsTunnelCreate "look db"]
      handlers_of_surface [of "le_has_mesh le" "''tunnel_create''" CallsTunnelCreate "look db"]
    by (intro exI [of _ effs]) (auto simp: session_post_def cat)
qed


definition demo_answers :: pragma_answers where
  "demo_answers = \<lparr>pa_import = demo_import_answers,
     pa_export = \<lparr>xa_ssh = demo_start, xa_mesh = demo_export 0\<rparr>, pa_close = demo_env,
     pa_activate = demo_activate 9 [] 2\<rparr>"

definition demo_session :: "(string \<times> int \<times> bool) statement list" where
  "demo_session =
     [\<lparr>ss_name = ''tunnel_import'', ss_values = [], ss_named = demo_named_import, ss_answers = demo_answers\<rparr>,
      \<lparr>ss_name = ''tunnel_export'', ss_values = [], ss_named = demo_named_export, ss_answers = demo_answers\<rparr>,
      \<lparr>ss_name = ''tunnel_close'', ss_values = [demo_int 7], ss_named = [], ss_answers = demo_answers\<rparr>]"

definition demo_fresh_world :: world where
  "demo_fresh_world = \<lparr>wo_tm = new_TunnelManager, wo_ml = demo_loader, wo_mc = demo_cache\<rparr>"

theorem session_refines_witness:
  "\<exists>db' p' l rs w' effs.
     LoadInternal demo_load_env demo_loader_calls Map.empty demo_process = (Returns (), db', p', l) \<and>
     run_session db' demo_pe demo_session demo_fresh_world = (rs, w') \<and>
     follows db' demo_pe demo_session rs effs \<and>
     set (map hd (drain ListTunnelsFunction (length (tm_tunnels (wo_tm w')))
       (snd (snd (ListTunnelsBind True (Some (wo_tm w'))))))) = BigIntCell ` fold apply_effect effs {}"
proof -
  obtain r db' p' l where load: "LoadInternal demo_load_env demo_loader_calls Map.empty demo_process = (r, db', p', l)"
    by (metis prod_cases4)
  moreover from this have "r = Returns ()"
    using demo_load_returns [of Map.empty demo_process] by (auto simp: returned_iff)
  ultimately have load: "LoadInternal demo_load_env demo_loader_calls Map.empty demo_process = (Returns (), db', p', l)"
    by simp
  have manager: "pr_manager p' = Some (wo_tm demo_fresh_world)"
    using LoadInternal_post [OF demo_catalog load] by (simp add: load_post_def demo_fresh_world_def)
  have short: "int (length demo_session) < 2 ^ 63 - 1" by (simp add: demo_session_def)
  obtain rs w' where run: "run_session (id db') demo_pe demo_session demo_fresh_world = (rs, w')" by fastforce
  have list: "ListTunnelsBind True (Some (wo_tm w')) =
      (tunnels_return_types, tunnels_names, snd (snd (ListTunnelsBind True (Some (wo_tm w')))))"
    by (simp add: ListTunnelsBind_def)
  from session_refines [OF demo_catalog load, OF manager short run list order_refl] obtain effs where
    "follows db' demo_pe demo_session rs effs"
    "set (map hd (drain ListTunnelsFunction (length (tm_tunnels (wo_tm w')))
       (snd (snd (ListTunnelsBind True (Some (wo_tm w'))))))) = BigIntCell ` fold apply_effect effs {}"
    by auto
  with load run show ?thesis
    by (intro exI [of _ db'] exI [of _ p'] exI [of _ l] exI [of _ rs] exI [of _ w'] exI [of _ effs]) simp
qed

end
